(* ===== verification/Prelude.thy ===== *)
theory Prelude
  imports Main
begin

text \<open>
  Shared vocabulary of the development: the fact collections the component proofs
  draw on, and the small list and option facts that more than one component needs.

  A Go call that may panic is a value of type \<open>call\<close>: the deferred
  \<^verbatim>\<open>recover()\<close> of the source is a case distinction on it.
\<close>

named_theorems classify_simps \<open>evaluation of terminal error classification\<close>
named_theorems run_simps \<open>state updates of the executor\<close>

datatype 'a call = Returned 'a | Panicked

text \<open>The value a deferred recover leaves behind: the result, or a fixed fallback.\<close>

fun recovered :: "'b \<Rightarrow> ('a \<Rightarrow> 'b) \<Rightarrow> 'a call \<Rightarrow> 'b" where
  "recovered fallback ok (Returned x) = ok x"
| "recovered fallback ok Panicked = fallback"

lemma recovered_split:
  "P (recovered fallback ok c) \<longleftrightarrow> (c = Panicked \<longrightarrow> P fallback) \<and> (\<forall>x. c = Returned x \<longrightarrow> P (ok x))"
  by (cases c) simp_all

lemma map_filter_eq:
  "(\<And>x. x \<in> set xs \<Longrightarrow> f x = g x \<and> (P x \<longleftrightarrow> Q (g x))) \<Longrightarrow> map f (filter P xs) = filter Q (map g xs)"
  by (induction xs) simp_all

section \<open>Go strings\<close>

text \<open>
  A Go string is its sequence of bytes. \<^verbatim>\<open>strings.TrimSpace\<close> drops the leading and trailing
  white space runes, here by their UTF-8 encodings.
\<close>

definition space_runes :: "string list" where
  "space_runes = map (map char_of)
     ([[9], [10], [11], [12], [13], [32], [194, 133], [194, 160], [225, 154, 128],
       [226, 128, 168], [226, 128, 169], [226, 128, 175], [226, 129, 159], [227, 128, 128]]
      @ map (\<lambda>i. [226, 128, 128 + i]) [0..<11 :: nat])"

definition starts_with :: "string \<Rightarrow> string \<Rightarrow> bool" where
  "starts_with p s \<longleftrightarrow> take (length p) s = p"

fun trim_left_fuel :: "string list \<Rightarrow> nat \<Rightarrow> string \<Rightarrow> string" where
  "trim_left_fuel runes 0 s = s"
| "trim_left_fuel runes (Suc n) s =
     (case find (\<lambda>r. starts_with r s) runes of
        None \<Rightarrow> s | Some r \<Rightarrow> trim_left_fuel runes n (drop (length r) s))"

definition TrimSpace :: "string \<Rightarrow> string" where
  "TrimSpace s =
     (let l = trim_left_fuel space_runes (length s) s
      in rev (trim_left_fuel (map rev space_runes) (length l) (rev l)))"

text \<open>A text whose ends are plain printable characters is trimmed to itself.\<close>

definition printable :: "char \<Rightarrow> bool" where
  "printable c \<longleftrightarrow> \<not> digit7 c \<and> (digit6 c \<or> digit5 c \<and> (digit4 c \<or> digit3 c))"

lemma space_runes_unprintable: "\<forall>r \<in> set space_runes. r \<noteq> [] \<and> \<not> printable (hd r) \<and> \<not> printable (last r)"
  by (simp add: space_runes_def printable_def upt_rec char_of_def bit_0)

lemma trim_left_stays:
  "\<forall>r \<in> set runes. r \<noteq> [] \<and> \<not> printable (hd r) \<Longrightarrow> printable c \<Longrightarrow> trim_left_fuel runes n (c # s) = c # s"
proof (cases n)
  case (Suc m)
  assume runes: "\<forall>r \<in> set runes. r \<noteq> [] \<and> \<not> printable (hd r)" and c: "printable c"
  have "\<not> starts_with r (c # s)" if "r \<in> set runes" for r
    using runes c that by (cases r) (auto simp: starts_with_def)
  then have "find (\<lambda>r. starts_with r (c # s)) runes = None" by (simp add: find_None_iff)
  then show ?thesis by (simp add: Suc)
qed simp

lemma TrimSpace_code [code]:
  "TrimSpace s = (if s = [] \<or> printable (hd s) \<and> printable (last s) then s
     else let l = trim_left_fuel space_runes (length s) s
          in rev (trim_left_fuel (map rev space_runes) (length l) (rev l)))"
proof (cases s)
  case (Cons c t)
  show ?thesis
  proof (cases "printable (hd s) \<and> printable (last s)")
    case True
    then have left: "trim_left_fuel space_runes (length s) s = s"
      using trim_left_stays [of space_runes c "length s" t] space_runes_unprintable Cons by auto
    obtain d u where r: "rev s = d # u" using Cons by (cases "rev s") auto
    then have "d = last s" by (metis hd_rev list.sel(1))
    moreover have "\<forall>r \<in> set (map rev space_runes). r \<noteq> [] \<and> \<not> printable (hd r)"
      using space_runes_unprintable by (auto simp: hd_rev)
    ultimately have "trim_left_fuel (map rev space_runes) (length s) (rev s) = rev s"
      unfolding r using trim_left_stays [of "map rev space_runes" d] True by blast
    then show ?thesis using left True by (simp add: TrimSpace_def)
  next
    case False
    then show ?thesis unfolding TrimSpace_def using Cons by (simp only: if_False list.distinct simp_thms)
  qed
qed (simp add: TrimSpace_def)

definition contains :: "string \<Rightarrow> string \<Rightarrow> bool" where
  "contains s sub \<longleftrightarrow> list_ex (\<lambda>i. starts_with sub (drop i s)) [0..<Suc (length s)]"

fun trim_right_char :: "char \<Rightarrow> string \<Rightarrow> string" where
  "trim_right_char c s = rev (dropWhile (\<lambda>d. d = c) (rev s))"

text \<open>\<^verbatim>\<open>filepath.Base\<close> and \<^verbatim>\<open>path.Ext\<close> with \<^verbatim>\<open>/\<close> as separator.\<close>

definition path_Base :: "string \<Rightarrow> string" where
  "path_Base s =
     (if s = '''' then ''.''
      else let t = trim_right_char (CHR ''/'') s; b = rev (takeWhile (\<lambda>c. c \<noteq> CHR ''/'') (rev t))
           in if b = '''' then ''/'' else b)"

definition path_Ext :: "string \<Rightarrow> string" where
  "path_Ext s =
     (let r = rev s; e = takeWhile (\<lambda>c. c \<noteq> CHR ''.'' \<and> c \<noteq> CHR ''/'') r
      in if length e < length r \<and> r ! length e = CHR ''.'' then CHR ''.'' # rev e else '''')"

definition lower_ascii :: "char \<Rightarrow> char" where
  "lower_ascii c = (let n = of_char c :: nat in if 65 \<le> n \<and> n \<le> 90 then char_of (n + 32) else c)"

fun dec_fuel :: "nat \<Rightarrow> nat \<Rightarrow> string" where
  "dec_fuel 0 n = ''''"
| "dec_fuel (Suc k) n = (if n < 10 then '''' else dec_fuel k (n div 10)) @ [char_of (48 + n mod 10)]"

definition dec :: "nat \<Rightarrow> string" where
  "dec n = dec_fuel (Suc n) n"

definition dec_int :: "int \<Rightarrow> string" where
  "dec_int i = (if i < 0 then CHR ''-'' # dec (nat (- i)) else dec (nat i))"

text \<open>\<^verbatim>\<open>%06d\<close>\<close>

definition dec_padded :: "nat \<Rightarrow> nat \<Rightarrow> string" where
  "dec_padded width n = replicate (width - length (dec n)) (CHR ''0'') @ dec n"

text \<open>Byte order of strings, and assignment to a key of a map kept in key order.\<close>

fun byte_less :: "string \<Rightarrow> string \<Rightarrow> bool" where
  "byte_less s [] = False"
| "byte_less [] (d # ds) = True"
| "byte_less (c # cs) (d # ds) =
     ((of_char c :: nat) < of_char d \<or> c = d \<and> byte_less cs ds)"

fun map_put :: "string \<Rightarrow> 'v \<Rightarrow> (string \<times> 'v) list \<Rightarrow> (string \<times> 'v) list" where
  "map_put k v [] = [(k, v)]"
| "map_put k v ((k', v') # kvs) =
     (if k = k' then (k, v) # kvs
      else if byte_less k k' then (k, v) # (k', v') # kvs
      else (k', v') # map_put k v kvs)"

section \<open>Write-once stores\<close>

text \<open>Writing a sequence of values, stopping at the first refusal.\<close>

fun put_all :: "('s \<Rightarrow> 'v \<Rightarrow> 'x \<Rightarrow> 'e + 's \<times> 'x) \<Rightarrow> 's \<Rightarrow> 'v list \<Rightarrow> 'x \<Rightarrow> 'e + 's \<times> 'x" where
  "put_all put s [] x = Inr (s, x)"
| "put_all put s (v # vs) x =
     (case put s v x of Inl e \<Rightarrow> Inl e | Inr (s', x') \<Rightarrow> put_all put s' vs x')"

text \<open>
  The contract of a table whose keys are written at most once: \<open>own\<close> is the copy the table
  keeps, \<open>valid\<close> the values it is used with, \<open>x\<close> a resource threaded through the writes.
\<close>

locale write_once_store =
  fixes put :: "'s \<Rightarrow> 'v \<Rightarrow> 'x \<Rightarrow> 'e + 's \<times> 'x"
    and get :: "'s \<Rightarrow> 'k \<Rightarrow> 'v option"
    and key :: "'v \<Rightarrow> 'k"
    and own :: "'v \<Rightarrow> 'v"
    and valid :: "'v \<Rightarrow> bool"
    and inv :: "'s \<Rightarrow> bool"
  assumes put_inv: "inv s \<Longrightarrow> put s v x = Inr (s', x') \<Longrightarrow> inv s'"
    and get_put_same: "inv s \<Longrightarrow> valid v \<Longrightarrow> put s v x = Inr (s', x') \<Longrightarrow> get s' (key v) = Some (own v)"
    and get_put_other: "inv s \<Longrightarrow> put s v x = Inr (s', x') \<Longrightarrow> k \<noteq> key v \<Longrightarrow> get s' k = get s k"
    and put_taken: "inv s \<Longrightarrow> get s (key v) = Some u \<Longrightarrow> put s v x \<noteq> Inr (s', x')"
begin

lemma put_all_inv: "inv s \<Longrightarrow> put_all put s vs x = Inr (s', x') \<Longrightarrow> inv s'"
  by (induction vs arbitrary: s x) (auto split: sum.splits prod.splits dest: put_inv)

lemma put_all_keeps:
  "inv s \<Longrightarrow> put_all put s vs x = Inr (s', x') \<Longrightarrow> get s k = Some v \<Longrightarrow> get s' k = Some v"
proof (induction vs arbitrary: s x)
  case (Cons u vs)
  then obtain s1 x1 where 1: "put s u x = Inr (s1, x1)" and 2: "put_all put s1 vs x1 = Inr (s', x')"
    by (auto split: sum.splits prod.splits)
  have "k \<noteq> key u" using put_taken Cons.prems(1,3) 1 by blast
  then have "get s1 k = Some v" using get_put_other Cons.prems(1,3) 1 by metis
  then show ?case using Cons.IH 2 put_inv Cons.prems(1) 1 by blast
qed simp

lemma put_all_get:
  "inv s \<Longrightarrow> put_all put s vs x = Inr (s', x') \<Longrightarrow> v \<in> set vs \<Longrightarrow> valid v \<Longrightarrow> get s' (key v) = Some (own v)"
proof (induction vs arbitrary: s x)
  case (Cons u vs)
  then obtain s1 x1 where 1: "put s u x = Inr (s1, x1)" and 2: "put_all put s1 vs x1 = Inr (s', x')"
    by (auto split: sum.splits prod.splits)
  have i: "inv s1" using put_inv Cons.prems(1) 1 by blast
  show ?case
  proof (cases "v = u")
    case True
    then have "get s1 (key v) = Some (own v)" using get_put_same Cons.prems(1,4) 1 by blast
    then show ?thesis using put_all_keeps i 2 by blast
  next
    case False
    then show ?thesis using Cons.IH i 2 Cons.prems(3,4) by auto
  qed
qed simp

lemma put_all_distinct:
  "inv s \<Longrightarrow> put_all put s vs x = Inr (s', x') \<Longrightarrow> \<forall>v \<in> set vs. valid v \<Longrightarrow> distinct (map key vs)"
proof (induction vs arbitrary: s x)
  case (Cons u vs)
  then obtain s1 x1 where 1: "put s u x = Inr (s1, x1)" and 2: "put_all put s1 vs x1 = Inr (s', x')"
    by (auto split: sum.splits prod.splits)
  have i: "inv s1" using put_inv Cons.prems(1) 1 by blast
  have g: "get s1 (key u) = Some (own u)" using get_put_same Cons.prems(1,3) 1 by simp
  have "put_all put s1 vs x1 = Inr (s', x') \<Longrightarrow> inv s1 \<Longrightarrow> get s1 (key u) = Some w \<Longrightarrow> key u \<notin> key ` set vs" for s1 x1 w
  proof (induction vs arbitrary: s1 x1)
    case (Cons t ts)
    then obtain s2 x2 where 3: "put s1 t x1 = Inr (s2, x2)" and 4: "put_all put s2 ts x2 = Inr (s', x')"
      by (auto split: sum.splits prod.splits)
    have ne: "key u \<noteq> key t" using put_taken Cons.prems(2,3) 3 by metis
    then have "get s2 (key u) = Some w" using get_put_other Cons.prems(2,3) 3 by metis
    then show ?case using Cons.IH 4 put_inv Cons.prems(2) 3 ne by auto
  qed simp
  then show ?case using Cons.IH i 2 g Cons.prems(3) by auto
qed simp

end

end
