(* ===== verification/Errors.thy ===== *)
theory Errors
  imports Prelude "HOL-Library.Multiset"
begin

text \<open>
  \<^verbatim>\<open>internal/engine/errors.go\<close>: the engine's error kinds, the bounded, cycle-safe
  inspection of an error graph, and the terminal class it assigns.

  A Go \<^verbatim>\<open>error\<close> is a value of type \<open>go_error\<close>; a nil interface is \<open>None\<close>. Errors
  made by the engine carry their message and cause. An error made outside the engine
  (a driver, a listener, a JavaScript runtime) is a \<open>Foreign_Error\<close>, a reference into
  the environment, which says how that value answers reflection and its methods; its
  methods may panic and its links may lead back to itself.
\<close>

section \<open>Error values\<close>

datatype engine_kind =
    Configuration_Kind | Operation_Kind | Assertion_Kind | DeviceConnection_Kind | CommandSkipped_Kind

datatype go_error =
    Context_Canceled
  | Context_DeadlineExceeded
  | Plain_Error string
  | Engine_Error engine_kind string "go_error option"
  | SessionIntegrityError
  | ResultErrorCarrier nat go_error
  | UntrustedErrorCarrier nat go_error
  | Foreign_Error nat

text \<open>
  The part of \<^verbatim>\<open>reflect.Value\<close> the code inspects: the basic kinds it lists as safe,
  composite kinds, and everything else (\<^verbatim>\<open>Func\<close>, \<^verbatim>\<open>Map\<close>, \<^verbatim>\<open>Slice\<close>).
\<close>

datatype reflect_value =
    Reflect_Invalid
  | Reflect_Array "reflect_value list"
  | Reflect_Struct "reflect_value list"
  | Reflect_Interface "reflect_value option"
  | Reflect_Basic
  | Reflect_Other

datatype unwrapper =
    No_Unwrap
  | Unwrap_Causal "go_error option call"
  | Unwrap_Aggregate "go_error option list call"

text \<open>
  What a foreign error does when it is asked: \<open>node_is\<close> answers \<^verbatim>\<open>Is(target)\<close> and
  \<open>node_as\<close> answers \<^verbatim>\<open>As(target)\<close> for a target of one of the five engine types;
  \<open>None\<close> means the method does not exist.
\<close>

record foreign_node =
  node_pointer :: bool
  node_nil :: bool
  node_shape :: reflect_value
  node_is :: "(go_error \<Rightarrow> bool call) option"
  node_as :: "(engine_kind \<Rightarrow> bool call) option"
  node_unwrap :: unwrapper

type_synonym foreign = "nat \<Rightarrow> foreign_node"

definition NewConfigurationError :: "string \<Rightarrow> go_error option \<Rightarrow> go_error" where
  "NewConfigurationError message cause = Engine_Error Configuration_Kind message cause"

definition NewOperationError :: "string \<Rightarrow> go_error option \<Rightarrow> go_error" where
  "NewOperationError message cause = Engine_Error Operation_Kind message cause"

definition NewAssertionError :: "string \<Rightarrow> go_error option \<Rightarrow> go_error" where
  "NewAssertionError message cause = Engine_Error Assertion_Kind message cause"

definition NewDeviceConnectionError :: "string \<Rightarrow> go_error option \<Rightarrow> go_error" where
  "NewDeviceConnectionError message cause = Engine_Error DeviceConnection_Kind message cause"

definition NewCommandSkippedError :: "string \<Rightarrow> go_error option \<Rightarrow> go_error" where
  "NewCommandSkippedError message cause = Engine_Error CommandSkipped_Kind message cause"

lemmas new_error_defs =
  NewConfigurationError_def NewOperationError_def NewAssertionError_def
  NewDeviceConnectionError_def NewCommandSkippedError_def

definition isSessionIntegrityError :: "go_error option \<Rightarrow> bool" where
  "isSessionIntegrityError e = (e = Some SessionIntegrityError)"

section \<open>Reflection\<close>

fun isEqualitySafe :: "reflect_value \<Rightarrow> bool" where
  "isEqualitySafe Reflect_Invalid = True"
| "isEqualitySafe (Reflect_Array vs) = list_all isEqualitySafe vs"
| "isEqualitySafe (Reflect_Struct vs) = list_all isEqualitySafe vs"
| "isEqualitySafe (Reflect_Interface None) = True"
| "isEqualitySafe (Reflect_Interface (Some v)) = isEqualitySafe v"
| "isEqualitySafe Reflect_Basic = True"
| "isEqualitySafe Reflect_Other = False"

text \<open>
  \<^verbatim>\<open>reflect.ValueOf(err)\<close> of every error: all engine errors and \<^verbatim>\<open>context.Canceled\<close> are
  pointers, \<^verbatim>\<open>context.DeadlineExceeded\<close> is an empty struct.
\<close>

fun reflect_of :: "foreign \<Rightarrow> go_error \<Rightarrow> reflect_value" where
  "reflect_of F (Foreign_Error n) = node_shape (F n)"
| "reflect_of F Context_DeadlineExceeded = Reflect_Struct []"
| "reflect_of F e = Reflect_Basic"

fun isNilError :: "foreign \<Rightarrow> go_error \<Rightarrow> bool" where
  "isNilError F (Foreign_Error n) = node_nil (F n)"
| "isNilError F e = False"

text \<open>The identity of a pointer error is the reference itself.\<close>

fun pointerErrorIdentity :: "foreign \<Rightarrow> go_error \<Rightarrow> go_error option" where
  "pointerErrorIdentity F (Foreign_Error n) =
     (if node_pointer (F n) then Some (Foreign_Error n) else None)"
| "pointerErrorIdentity F Context_DeadlineExceeded = None"
| "pointerErrorIdentity F e = Some e"

fun unwrap_of :: "foreign \<Rightarrow> go_error \<Rightarrow> unwrapper" where
  "unwrap_of F (Engine_Error k m cause) = Unwrap_Causal (Returned cause)"
| "unwrap_of F (Foreign_Error n) = node_unwrap (F n)"
| "unwrap_of F e = No_Unwrap"

section \<open>Classes\<close>

datatype terminalErrorClass =
    terminalErrorNone | terminalErrorSkipped | terminalErrorCancelled
  | terminalErrorDeviceConnection | terminalErrorConfiguration | terminalErrorRetryable
  | terminalErrorFailure

record terminalErrorClassification =
  class_of :: terminalErrorClass
  containsAggregate :: bool
  invalid :: bool

definition classified :: "terminalErrorClass \<Rightarrow> bool \<Rightarrow> terminalErrorClassification" where
  "classified c agg = \<lparr>class_of = c, containsAggregate = agg, invalid = False\<rparr>"

definition invalidTerminalErrorClassification :: "bool \<Rightarrow> terminalErrorClassification" where
  "invalidTerminalErrorClassification agg =
     \<lparr>class_of = terminalErrorFailure, containsAggregate = agg, invalid = True\<rparr>"

fun terminalClassPrecedence :: "terminalErrorClass \<Rightarrow> nat" where
  "terminalClassPrecedence terminalErrorCancelled = 6"
| "terminalClassPrecedence terminalErrorDeviceConnection = 5"
| "terminalClassPrecedence terminalErrorConfiguration = 4"
| "terminalClassPrecedence terminalErrorFailure = 3"
| "terminalClassPrecedence terminalErrorRetryable = 2"
| "terminalClassPrecedence terminalErrorSkipped = 1"
| "terminalClassPrecedence terminalErrorNone = 0"

definition mergeAggregateTerminalClasses ::
  "terminalErrorClass \<Rightarrow> terminalErrorClass \<Rightarrow> terminalErrorClass" where
  "mergeAggregateTerminalClasses left right =
     (if terminalClassPrecedence right > terminalClassPrecedence left then right else left)"

definition mergeCausalTerminalClass ::
  "terminalErrorClass \<Rightarrow> terminalErrorClassification \<Rightarrow> terminalErrorClassification" where
  "mergeCausalTerminalClass direct cause =
     (if invalid cause then invalidTerminalErrorClassification (containsAggregate cause)
      else classified
        (case direct of
           terminalErrorNone \<Rightarrow> class_of cause
         | terminalErrorRetryable \<Rightarrow>
             (case class_of cause of
                terminalErrorCancelled \<Rightarrow> class_of cause
              | terminalErrorDeviceConnection \<Rightarrow> class_of cause
              | terminalErrorConfiguration \<Rightarrow> class_of cause
              | terminalErrorFailure \<Rightarrow> (if containsAggregate cause then terminalErrorFailure else direct)
              | terminalErrorSkipped \<Rightarrow> terminalErrorSkipped
              | _ \<Rightarrow> direct)
         | terminalErrorSkipped \<Rightarrow>
             (case class_of cause of
                terminalErrorCancelled \<Rightarrow> class_of cause
              | terminalErrorDeviceConnection \<Rightarrow> class_of cause
              | terminalErrorConfiguration \<Rightarrow> class_of cause
              | terminalErrorFailure \<Rightarrow> (if containsAggregate cause then terminalErrorFailure else direct)
              | _ \<Rightarrow> direct)
         | _ \<Rightarrow> mergeAggregateTerminalClasses direct (class_of cause))
        (containsAggregate cause))"

section \<open>Direct classification\<close>

text \<open>
  The pair is (matched, invalid). Identity with the target is tried first, then the
  error's own \<^verbatim>\<open>Is\<close> method under a recover.
\<close>

definition directlyMatches :: "foreign \<Rightarrow> go_error \<Rightarrow> go_error \<Rightarrow> bool \<times> bool" where
  "directlyMatches F e target =
     (if isEqualitySafe (reflect_of F e) \<and> e = target then (True, False)
      else (case e of
              Foreign_Error n \<Rightarrow>
                (case node_is (F n) of
                   None \<Rightarrow> (False, False)
                 | Some is \<Rightarrow> recovered (False, True) (\<lambda>b. (b, False)) (is target))
            | _ \<Rightarrow> (False, False)))"

definition safelyMatchesAs :: "(engine_kind \<Rightarrow> bool call) \<Rightarrow> engine_kind \<Rightarrow> bool \<times> bool" where
  "safelyMatchesAs as k = recovered (False, True) (\<lambda>b. (b, False)) (as k)"

fun class_of_kind :: "engine_kind \<Rightarrow> terminalErrorClass" where
  "class_of_kind DeviceConnection_Kind = terminalErrorDeviceConnection"
| "class_of_kind Configuration_Kind = terminalErrorConfiguration"
| "class_of_kind CommandSkipped_Kind = terminalErrorSkipped"
| "class_of_kind Operation_Kind = terminalErrorRetryable"
| "class_of_kind Assertion_Kind = terminalErrorRetryable"

text \<open>The order in which a caster is asked for the five engine types.\<close>

definition cast_order :: "engine_kind list" where
  "cast_order = [DeviceConnection_Kind, Configuration_Kind, CommandSkipped_Kind,
                 Operation_Kind, Assertion_Kind]"

fun try_casts :: "(engine_kind \<Rightarrow> bool call) \<Rightarrow> engine_kind list \<Rightarrow> terminalErrorClass \<times> bool" where
  "try_casts as [] = (terminalErrorNone, False)"
| "try_casts as (k # ks) =
     (let (matched, bad) = safelyMatchesAs as k
      in if matched \<or> bad then (class_of_kind k, bad) else try_casts as ks)"

text \<open>
  The cancellation targets are compared one after the other, then the concrete type,
  then the \<^verbatim>\<open>As\<close> method. \<open>session_as\<close> is \<^verbatim>\<open>sessionIntegrityError.As\<close>
  (\<^verbatim>\<open>internal/engine/session.go\<close>), which matches a configuration target only.
\<close>

definition session_as :: "engine_kind \<Rightarrow> bool call" where
  "session_as k = Returned (k = Configuration_Kind)"

definition caster_of :: "foreign \<Rightarrow> go_error \<Rightarrow> (engine_kind \<Rightarrow> bool call) option" where
  "caster_of F e = (case e of Foreign_Error n \<Rightarrow> node_as (F n)
                     | SessionIntegrityError \<Rightarrow> Some session_as | _ \<Rightarrow> None)"

definition classifyDirectTerminalError :: "foreign \<Rightarrow> go_error \<Rightarrow> terminalErrorClass \<times> bool" where
  "classifyDirectTerminalError F e =
     (let (matched1, bad1) = directlyMatches F e Context_Canceled;
          (matched2, bad2) = (if matched1 then (True, False)
                              else directlyMatches F e Context_DeadlineExceeded)
      in if bad1 then (terminalErrorFailure, True)
         else if bad2 then (terminalErrorFailure, True)
         else if matched2 then (terminalErrorCancelled, False)
         else (case e of
                 Engine_Error k m c \<Rightarrow> (class_of_kind k, False)
               | _ \<Rightarrow> (case caster_of F e of
                         None \<Rightarrow> (terminalErrorNone, False)
                       | Some as \<Rightarrow> try_casts as cast_order)))"

section \<open>Graph inspection\<close>

definition maxTerminalErrorTraversalDepth :: nat where
  "maxTerminalErrorTraversalDepth = 128"

text \<open>
  The loop over the branches of an aggregate: it stops at the first invalid branch and
  otherwise merges the class and the aggregate flag of each.
\<close>

fun inspect_branches ::
  "(go_error option \<Rightarrow> terminalErrorClassification) \<Rightarrow> terminalErrorClassification
    \<Rightarrow> go_error option list \<Rightarrow> terminalErrorClassification" where
  "inspect_branches look acc [] =
     (if class_of acc = terminalErrorNone then acc\<lparr>class_of := terminalErrorFailure\<rparr> else acc)"
| "inspect_branches look acc (b # bs) =
     (let branch = look b
      in if invalid branch then invalidTerminalErrorClassification True
         else inspect_branches look
           (classified (mergeAggregateTerminalClasses (class_of acc) (class_of branch))
             (containsAggregate acc \<or> containsAggregate branch)) bs)"

text \<open>
  One node, given how its successors are looked at: the direct class first, then the
  branches of an aggregate, then the cause of a wrapper.
\<close>

definition inspect_links ::
  "foreign \<Rightarrow> (go_error option \<Rightarrow> terminalErrorClassification) \<Rightarrow> terminalErrorClass \<Rightarrow> go_error
    \<Rightarrow> terminalErrorClassification" where
  "inspect_links F look direct e =
     (case unwrap_of F e of
        Unwrap_Aggregate c \<Rightarrow>
          recovered (invalidTerminalErrorClassification True)
            (inspect_branches look (classified direct True)) c
      | Unwrap_Causal c \<Rightarrow>
          recovered (invalidTerminalErrorClassification False)
            (\<lambda>cause. if cause \<noteq> None then mergeCausalTerminalClass direct (look cause)
                     else if direct = terminalErrorNone then classified terminalErrorFailure False
                     else classified direct False) c
      | No_Unwrap \<Rightarrow>
          if direct = terminalErrorNone then classified terminalErrorFailure False
          else classified direct False)"

definition inspect_node ::
  "foreign \<Rightarrow> (go_error option \<Rightarrow> terminalErrorClassification) \<Rightarrow> go_error \<Rightarrow> terminalErrorClassification" where
  "inspect_node F look e =
     (let (direct, bad) = classifyDirectTerminalError F e
      in if bad then invalidTerminalErrorClassification False else inspect_links F look direct e)"

text \<open>
  \<open>inspect F n active e\<close> is the source's \<^verbatim>\<open>traversal.inspect(err, depth)\<close> with
  \<open>n = 128 - depth\<close> levels left and \<open>active\<close> the pointer identities on the path from the
  root (the map the source adds to on entry and deletes from on return).
\<close>

fun inspect :: "foreign \<Rightarrow> nat \<Rightarrow> go_error set \<Rightarrow> go_error option \<Rightarrow> terminalErrorClassification" where
  "inspect F n active None = classified terminalErrorNone False"
| "inspect F 0 active (Some e) = invalidTerminalErrorClassification False"
| "inspect F (Suc n) active (Some e) =
     (if isNilError F e then invalidTerminalErrorClassification False
      else case pointerErrorIdentity F e of
             None \<Rightarrow> inspect_node F (\<lambda>b. inspect F n active b) e
           | Some i \<Rightarrow> if i \<in> active then invalidTerminalErrorClassification False
                       else inspect_node F (\<lambda>b. inspect F n (insert i active) b) e)"

definition inspectTerminalError :: "foreign \<Rightarrow> go_error option \<Rightarrow> terminalErrorClassification" where
  "inspectTerminalError F e = inspect F maxTerminalErrorTraversalDepth {} e"

definition classifyTerminalError :: "foreign \<Rightarrow> go_error option \<Rightarrow> terminalErrorClass" where
  "classifyTerminalError F e = class_of (inspectTerminalError F e)"

section \<open>Normalisation and sanitising\<close>

definition malformedTerminalError :: "string \<Rightarrow> go_error" where
  "malformedTerminalError operation =
     NewConfigurationError (operation @ '': malformed error graph'') None"

definition normalizeTerminalError :: "foreign \<Rightarrow> string \<Rightarrow> go_error option \<Rightarrow> go_error option" where
  "normalizeTerminalError F operation e =
     (let classification = inspectTerminalError F e
      in if invalid classification then Some (malformedTerminalError operation)
         else (case class_of classification of
             terminalErrorNone \<Rightarrow> None
           | terminalErrorFailure \<Rightarrow>
               if containsAggregate classification then e
               else Some (NewOperationError operation e)
           | _ \<Rightarrow> e))"

definition sanitizeMalformedErrorWithStatus ::
  "foreign \<Rightarrow> string \<Rightarrow> go_error option \<Rightarrow> go_error option \<times> bool" where
  "sanitizeMalformedErrorWithStatus F operation e =
     (if e = None \<or> \<not> invalid (inspectTerminalError F e) then (e, False)
      else (Some (malformedTerminalError operation), True))"

definition sanitizeMalformedError :: "foreign \<Rightarrow> string \<Rightarrow> go_error option \<Rightarrow> go_error option" where
  "sanitizeMalformedError F operation e = fst (sanitizeMalformedErrorWithStatus F operation e)"

definition IsRetryable :: "foreign \<Rightarrow> go_error option \<Rightarrow> bool" where
  "IsRetryable F e = (classifyTerminalError F e = terminalErrorRetryable)"

definition CanWarnWhenOptional :: "foreign \<Rightarrow> go_error option \<Rightarrow> bool" where
  "CanWarnWhenOptional F e = (classifyTerminalError F e = terminalErrorRetryable)"

definition IsCommandSkipped :: "foreign \<Rightarrow> go_error option \<Rightarrow> bool" where
  "IsCommandSkipped F e = (classifyTerminalError F e = terminalErrorSkipped)"

section \<open>Laws of the classification\<close>

lemma classified_simps [simp]:
  "class_of (classified c a) = c" "containsAggregate (classified c a) = a"
  "invalid (classified c a) = False"
  "class_of (invalidTerminalErrorClassification a) = terminalErrorFailure"
  "containsAggregate (invalidTerminalErrorClassification a) = a"
  "invalid (invalidTerminalErrorClassification a) = True"
  by (simp_all add: classified_def invalidTerminalErrorClassification_def)

lemma terminalClassPrecedence_inject [simp]:
  "terminalClassPrecedence c = terminalClassPrecedence d \<longleftrightarrow> c = d"
  by (cases c; cases d; simp)

lemma precedence_mergeAggregate [simp]:
  "terminalClassPrecedence (mergeAggregateTerminalClasses c d) =
     max (terminalClassPrecedence c) (terminalClassPrecedence d)"
  by (simp add: mergeAggregateTerminalClasses_def)

lemma mergeAggregate_left_commute:
  "mergeAggregateTerminalClasses (mergeAggregateTerminalClasses c d) e =
   mergeAggregateTerminalClasses (mergeAggregateTerminalClasses c e) d"
  by (simp add: max.assoc max.commute max.left_commute flip: terminalClassPrecedence_inject)

lemma invalid_mergeCausal [simp]:
  "invalid (mergeCausalTerminalClass d c) = invalid c"
  by (simp add: mergeCausalTerminalClass_def)

text \<open>A fatal class (precedence at least that of a configuration error) is never lowered.\<close>

lemma precedence_mergeCausal_cause:
  assumes "\<not> invalid c" and "4 \<le> terminalClassPrecedence (class_of c)"
  shows "terminalClassPrecedence (class_of c) \<le> terminalClassPrecedence (class_of (mergeCausalTerminalClass d c))"
  using assms by (cases d; cases "class_of c") (simp_all add: mergeCausalTerminalClass_def)

lemma precedence_mergeCausal_direct:
  assumes "\<not> invalid c" and "4 \<le> terminalClassPrecedence d"
  shows "terminalClassPrecedence d \<le> terminalClassPrecedence (class_of (mergeCausalTerminalClass d c))"
  using assms by (cases d; cases "class_of c") (simp_all add: mergeCausalTerminalClass_def)

subsection \<open>Branch loops\<close>

lemma inspect_branches_invalid:
  "invalid (inspect_branches look acc bs) \<longleftrightarrow> invalid acc \<and> bs = [] \<or> (\<exists>b \<in> set bs. invalid (look b))"
  by (induction bs arbitrary: acc) (auto simp: Let_def)

lemma inspect_branches_precedence_acc:
  assumes "\<forall>b \<in> set bs. \<not> invalid (look b)"
  shows "terminalClassPrecedence (class_of acc) \<le> terminalClassPrecedence (class_of (inspect_branches look acc bs))"
  using assms
proof (induction bs arbitrary: acc)
  case Nil
  then show ?case by simp
next
  case (Cons x xs)
  from Cons.prems Cons.IH [of "classified (mergeAggregateTerminalClasses (class_of acc) (class_of (look x)))
           (containsAggregate acc \<or> containsAggregate (look x))"]
  show ?case by (simp add: Let_def)
qed

lemma inspect_branches_precedence:
  assumes "\<forall>b \<in> set bs. \<not> invalid (look b)" and "b \<in> set bs"
  shows "terminalClassPrecedence (class_of (look b))
           \<le> terminalClassPrecedence (class_of (inspect_branches look acc bs))"
  using assms
proof (induction bs arbitrary: acc)
  case Nil
  then show ?case by simp
next
  case (Cons x xs)
  from Cons.prems inspect_branches_precedence_acc
      [of xs look "classified (mergeAggregateTerminalClasses (class_of acc) (class_of (look x)))
           (containsAggregate acc \<or> containsAggregate (look x))"]
  show ?case by (auto simp: Let_def intro: Cons.IH)
qed

lemma inspect_branches_swap:
  assumes "\<not> invalid acc"
  shows "inspect_branches look acc (x # y # zs) = inspect_branches look acc (y # x # zs)"
  by (simp add: Let_def mergeAggregate_left_commute disj_ac)


lemma inspect_branches_move:
  "\<not> invalid acc \<Longrightarrow> inspect_branches look acc (xs @ y # zs) = inspect_branches look acc (y # xs @ zs)"
proof (induction xs arbitrary: acc)
  case Nil
  then show ?case by simp
next
  case (Cons x xs)
  have "inspect_branches look acc (x # xs @ y # zs) = inspect_branches look acc (x # y # xs @ zs)"
    using Cons.IH by (simp add: Let_def)
  also have "\<dots> = inspect_branches look acc (y # x # xs @ zs)"
    using Cons.prems by (rule inspect_branches_swap)
  finally show ?case by simp
qed

lemma inspect_branches_perm:
  "mset bs = mset cs \<Longrightarrow> \<not> invalid acc \<Longrightarrow>
     inspect_branches look acc bs = inspect_branches look acc cs"
proof (induction bs arbitrary: cs acc)
  case Nil
  then show ?case by simp
next
  case (Cons b bs)
  from Cons.prems(1) have "b \<in> set cs" by (metis list.set_intros(1) mset_eq_setD)
  then obtain xs ys where cs: "cs = xs @ b # ys" by (meson split_list)
  with Cons.prems(1) have "mset bs = mset (xs @ ys)" by simp
  then have "inspect_branches look acc (b # bs) = inspect_branches look acc (b # xs @ ys)"
    using Cons.prems(2) by (auto simp: Let_def intro: Cons.IH)
  also have "\<dots> = inspect_branches look acc cs"
    unfolding cs using Cons.prems(2) by (rule inspect_branches_move [symmetric])
  finally show ?case .
qed


subsection \<open>The graph an inspection walks\<close>

text \<open>\<open>unwraps F e d\<close>: \<open>d\<close> is the cause or a branch that \<open>e\<close> hands out.\<close>

inductive unwraps :: "foreign \<Rightarrow> go_error \<Rightarrow> go_error \<Rightarrow> bool" for F where
  causal: "unwrap_of F e = Unwrap_Causal (Returned (Some d)) \<Longrightarrow> unwraps F e d"
| aggregate: "unwrap_of F e = Unwrap_Aggregate (Returned bs) \<Longrightarrow> Some d \<in> set bs \<Longrightarrow> unwraps F e d"

inductive_simps unwraps_iff: "unwraps F e d"

inductive unwrap_path :: "foreign \<Rightarrow> nat \<Rightarrow> go_error \<Rightarrow> go_error \<Rightarrow> bool" for F where
  path_here: "unwrap_path F 0 e e"
| path_step: "unwraps F e d \<Longrightarrow> unwrap_path F k d c \<Longrightarrow> unwrap_path F (Suc k) e c"

inductive_cases unwrap_path_SucE: "unwrap_path F (Suc k) e c"
inductive_cases unwrap_path_0E: "unwrap_path F 0 e c"

lemma unwrap_path_append:
  "unwrap_path F j a b \<Longrightarrow> unwrap_path F k b c \<Longrightarrow> unwrap_path F (j + k) a c"
  by (induction rule: unwrap_path.induct) (auto intro: path_step)

lemma unwrap_path_power:
  assumes "unwrap_path F (Suc k) e e"
  shows "unwrap_path F (m * Suc k) e e"
proof (induction m)
  case 0
  then show ?case by (simp add: path_here)
next
  case (Suc m)
  from unwrap_path_append [OF assms Suc] show ?case by (simp add: ac_simps)
qed

lemma inspect_node_valid_successor:
  assumes "\<not> invalid (inspect_node F look e)" and "unwraps F e d"
  shows "\<not> invalid (look (Some d))"
  using assms
  by (auto simp: inspect_node_def inspect_links_def Let_def unwraps_iff inspect_branches_invalid
      split: prod.splits if_splits)

lemma inspect_valid_unfold:
  assumes "\<not> invalid (inspect F n active (Some e))"
  obtains m active' where "n = Suc m"
    and "inspect F n active (Some e) = inspect_node F (\<lambda>b. inspect F m active' b) e"
  using assms by (cases n) (auto split: if_splits option.splits)

lemma inspect_valid_path:
  assumes "unwrap_path F k e d" and "\<not> invalid (inspect F n active (Some e))"
  shows "k < n"
  using assms
proof (induction arbitrary: n active rule: unwrap_path.induct)
  case (path_here e)
  then show ?case by (cases n) auto
next
  case (path_step e d k c)
  obtain m active' where n: "n = Suc m"
    and eq: "inspect F n active (Some e) = inspect_node F (\<lambda>b. inspect F m active' b) e"
    by (rule inspect_valid_unfold [OF path_step.prems])
  from path_step.prems have "\<not> invalid (inspect_node F (\<lambda>b. inspect F m active' b) e)"
    unfolding eq .
  from inspect_node_valid_successor [OF this path_step.hyps(1)] path_step.IH n
  show ?case by simp
qed

text \<open>An invalid classification is always the one the source builds for malformed graphs.\<close>

definition failure_if_invalid :: "terminalErrorClassification \<Rightarrow> bool" where
  "failure_if_invalid r \<longleftrightarrow> (invalid r \<longrightarrow> class_of r = terminalErrorFailure)"

lemma failure_if_invalid_intros [simp, intro]:
  "failure_if_invalid (classified c a)"
  "failure_if_invalid (invalidTerminalErrorClassification a)"
  "failure_if_invalid (mergeCausalTerminalClass d r)"
  by (simp_all add: failure_if_invalid_def mergeCausalTerminalClass_def)

lemma failure_if_invalid_branches:
  "failure_if_invalid acc \<Longrightarrow> failure_if_invalid (inspect_branches look acc bs)"
  by (induction bs arbitrary: acc) (auto simp: Let_def failure_if_invalid_def)

lemma failure_if_invalid_inspect: "failure_if_invalid (inspect F n active e)"
  by (cases "(F, n, active, e)" rule: inspect.cases)
    (auto simp: inspect_node_def inspect_links_def Let_def failure_if_invalid_branches recovered_split
      split: prod.splits option.splits unwrapper.splits)

lemma inspectTerminalError_invalid_class:
  "invalid (inspectTerminalError F e) \<Longrightarrow> classifyTerminalError F e = terminalErrorFailure"
  using failure_if_invalid_inspect [of F maxTerminalErrorTraversalDepth "{}" e]
  by (simp add: failure_if_invalid_def inspectTerminalError_def classifyTerminalError_def)

lemma cycle_invalid:
  assumes "unwrap_path F (Suc k) e e"
  shows "invalid (inspectTerminalError F (Some e))"
proof -
  have "unwrap_path F (maxTerminalErrorTraversalDepth * Suc k) e e"
    using assms by (rule unwrap_path_power)
  then show ?thesis
    using inspect_valid_path by (fastforce simp: inspectTerminalError_def maxTerminalErrorTraversalDepth_def)
qed


subsection \<open>Fatal classes\<close>

lemma inspect_node_direct:
  assumes "\<not> invalid (inspect_node F look e)"
    and "4 \<le> terminalClassPrecedence (fst (classifyDirectTerminalError F e))"
  shows "terminalClassPrecedence (fst (classifyDirectTerminalError F e))
           \<le> terminalClassPrecedence (class_of (inspect_node F look e))"
  using assms inspect_branches_precedence_acc [of _ look "classified (fst (classifyDirectTerminalError F e)) True"]
  by (auto simp: inspect_node_def inspect_links_def Let_def inspect_branches_invalid recovered_split precedence_mergeCausal_direct
      split: prod.splits if_splits unwrapper.splits)

lemma inspect_node_successor:
  assumes "\<not> invalid (inspect_node F look e)" and "unwraps F e d"
    and "4 \<le> terminalClassPrecedence (class_of (look (Some d)))"
  shows "terminalClassPrecedence (class_of (look (Some d)))
           \<le> terminalClassPrecedence (class_of (inspect_node F look e))"
  using assms inspect_branches_precedence [of _ look "Some d"]
  by (auto simp: inspect_node_def inspect_links_def Let_def unwraps_iff inspect_branches_invalid precedence_mergeCausal_cause
      split: prod.splits if_splits)

lemma inspect_fatal_path:
  assumes "unwrap_path F k e d" and "\<not> invalid (inspect F n active (Some e))"
    and "4 \<le> terminalClassPrecedence (fst (classifyDirectTerminalError F d))"
  shows "terminalClassPrecedence (fst (classifyDirectTerminalError F d))
           \<le> terminalClassPrecedence (class_of (inspect F n active (Some e)))"
  using assms
proof (induction arbitrary: n active rule: unwrap_path.induct)
  case (path_here e)
  obtain m active' where "inspect F n active (Some e) = inspect_node F (\<lambda>b. inspect F m active' b) e"
    by (rule inspect_valid_unfold [OF path_here.prems(1)])
  with path_here.prems show ?case by (simp add: inspect_node_direct)
next
  case (path_step e d k c)
  obtain m active' where
    eq: "inspect F n active (Some e) = inspect_node F (\<lambda>b. inspect F m active' b) e"
    by (rule inspect_valid_unfold [OF path_step.prems(1)])
  from path_step.prems have valid: "\<not> invalid (inspect_node F (\<lambda>b. inspect F m active' b) e)"
    unfolding eq by simp
  from path_step.IH inspect_node_valid_successor [OF valid path_step.hyps(1)] path_step.prems(2)
  have "terminalClassPrecedence (fst (classifyDirectTerminalError F c))
     \<le> terminalClassPrecedence (class_of (inspect F m active' (Some d)))"
    by simp
  with inspect_node_successor [OF valid path_step.hyps(1)] path_step.prems(2)
  show ?case unfolding eq by simp
qed

text \<open>C17: A cancellation, a lost device connection or a configuration error anywhere among the
  causes and branches of a well-formed error decides its class: the whole error is classified
  at least as severely, so it is neither retried nor turned into a warning nor into a skip.\<close>

theorem fatal_cause_decides:
  assumes "unwrap_path F k e d" and "\<not> invalid (inspectTerminalError F (Some e))"
    and "fst (classifyDirectTerminalError F d)
           \<in> {terminalErrorCancelled, terminalErrorDeviceConnection, terminalErrorConfiguration}"
  shows "terminalClassPrecedence (fst (classifyDirectTerminalError F d))
           \<le> terminalClassPrecedence (classifyTerminalError F (Some e))
         \<and> \<not> IsRetryable F (Some e) \<and> \<not> CanWarnWhenOptional F (Some e) \<and> \<not> IsCommandSkipped F (Some e)"
proof -
  from assms(3) have ge: "4 \<le> terminalClassPrecedence (fst (classifyDirectTerminalError F d))" by auto
  from inspect_fatal_path [OF assms(1) _ ge] assms(2)
  have "terminalClassPrecedence (fst (classifyDirectTerminalError F d))
           \<le> terminalClassPrecedence (classifyTerminalError F (Some e))"
    by (simp add: inspectTerminalError_def classifyTerminalError_def)
  with ge show ?thesis
    by (auto simp: IsRetryable_def CanWarnWhenOptional_def IsCommandSkipped_def)
qed

subsection \<open>Branch order\<close>

lemma inspect_reordered_branches:
  assumes "node_unwrap (F n) = Unwrap_Aggregate (Returned bs)" and "mset bs = mset cs"
    and "F' = F(n := (F n)\<lparr>node_unwrap := Unwrap_Aggregate (Returned cs)\<rparr>)"
  shows "inspect F' m active e = inspect F m active e"
proof -
  have matches: "directlyMatches F' e t = directlyMatches F e t" for e t
    unfolding assms(3) directlyMatches_def by (cases e) simp_all
  have caster: "caster_of F' e = caster_of F e" for e
    unfolding assms(3) caster_of_def by (cases e) simp_all
  have direct: "classifyDirectTerminalError F' e = classifyDirectTerminalError F e" for e
    unfolding classifyDirectTerminalError_def matches caster ..
  have links: "inspect_links F' look d e = inspect_links F look d e" for look d e
    using assms inspect_branches_perm [of bs cs]
    by (cases e) (simp_all add: inspect_links_def)
  have node: "inspect_node F' look e = inspect_node F look e" for look e
    unfolding inspect_node_def direct links ..
  have "isNilError F' e = isNilError F e" "pointerErrorIdentity F' e = pointerErrorIdentity F e" for e
    unfolding assms(3) by (cases e; simp)+
  note frame = this node
  show ?thesis
  proof (induction m arbitrary: active e)
    case 0
    show ?case by (cases e) simp_all
  next
    case (Suc m)
    have "inspect F' m act = inspect F m act" for act
      using Suc.IH by (intro ext)
    then show ?case by (cases e) (simp_all add: frame split: option.split)
  qed
qed

text \<open>The branches of an aggregate error merge independently of their order: handing them out
  in any other order changes the classification of no error of the program.\<close>

theorem aggregate_branch_order_irrelevant:
  assumes "node_unwrap (F n) = Unwrap_Aggregate (Returned bs)" and "mset bs = mset cs"
  shows "inspectTerminalError (F(n := (F n)\<lparr>node_unwrap := Unwrap_Aggregate (Returned cs)\<rparr>)) e
           = inspectTerminalError F e"
  unfolding inspectTerminalError_def
  by (rule inspect_reordered_branches [of F n bs cs, OF assms refl])

subsection \<open>Normalisation\<close>

lemma inspect_branches_cong:
  "(\<And>b. b \<in> set bs \<Longrightarrow> look b = look' b) \<Longrightarrow> inspect_branches look acc bs = inspect_branches look' acc bs"
  by (induction bs arbitrary: acc) (simp_all add: Let_def)

lemma inspect_node_cong:
  assumes "look None = look' None" and "\<And>d. unwraps F e d \<Longrightarrow> look (Some d) = look' (Some d)"
  shows "inspect_node F look e = inspect_node F look' e"
proof -
  have "inspect_links F look direct e = inspect_links F look' direct e" for direct
  proof (cases "unwrap_of F e")
    case No_Unwrap
    then show ?thesis by (simp add: inspect_links_def)
  next
    case (Unwrap_Causal c)
    with assms show ?thesis by (cases c) (auto simp: inspect_links_def unwraps_iff)
  next
    case (Unwrap_Aggregate c)
    show ?thesis
    proof (cases c)
      case (Returned bs)
      have "look b = look' b" if "b \<in> set bs" for b
        proof (cases b)
          case None
          with assms(1) show ?thesis by simp
        next
          case (Some d)
          with that Unwrap_Aggregate Returned have "unwraps F e d" by (simp add: unwraps_iff)
          with Some assms(2) show ?thesis by simp
        qed
      then have "inspect_branches look acc bs = inspect_branches look' acc bs" for acc
        by (rule inspect_branches_cong)
      with Unwrap_Aggregate Returned show ?thesis by (simp add: inspect_links_def)
    qed (simp add: inspect_links_def Unwrap_Aggregate)
  qed
  then show ?thesis by (simp add: inspect_node_def split: prod.split)
qed

lemma inspect_more_levels:
  "\<not> invalid (inspect F n active e) \<Longrightarrow> inspect F (Suc n) active e = inspect F n active e"
proof (induction F n active e rule: inspect.induct)
  case (3 F n active e)
  let ?act = "case pointerErrorIdentity F e of None \<Rightarrow> active | Some i \<Rightarrow> insert i active"
  from "3.prems" have valid: "\<not> invalid (inspect_node F (\<lambda>b. inspect F n ?act b) e)"
    by (auto split: if_splits option.splits)
  from "3.prems" have live: "\<not> isNilError F e" "\<And>i. pointerErrorIdentity F e = Some i \<Longrightarrow> i \<notin> active"
    by (auto split: if_splits)
  have "inspect F (Suc n) ?act (Some d) = inspect F n ?act (Some d)" if "unwraps F e d" for d
    using "3.IH" live inspect_node_valid_successor [OF valid that]
    by (cases "pointerErrorIdentity F e") (simp_all del: inspect.simps(3))
  then have "inspect_node F (\<lambda>b. inspect F (Suc n) ?act b) e = inspect_node F (\<lambda>b. inspect F n ?act b) e"
    by (intro inspect_node_cong) auto
  with "3.prems"(1) show ?case
    by (simp only: inspect.simps(3)) (simp split: if_splits option.splits del: inspect.simps(3))
qed simp_all

lemma inspect_fresh_active:
  assumes "\<not> invalid (inspect F n active e)" and "\<And>k d. e = Some d \<Longrightarrow> \<not> unwrap_path F k d w"
  shows "inspect F n (insert w active) e = inspect F n active e"
  using assms
proof (induction F n active e rule: inspect.induct)
  case (3 F n active e)
  let ?act = "case pointerErrorIdentity F e of None \<Rightarrow> active | Some i \<Rightarrow> insert i active"
  from "3.prems"(1) have valid: "\<not> invalid (inspect_node F (\<lambda>b. inspect F n ?act b) e)"
    by (auto split: if_splits option.splits)
  have fresh: "\<not> unwrap_path F k d w" if "unwraps F e d" for k d
    using "3.prems"(2) that by (blast intro: path_step)
  have "e \<noteq> w" using "3.prems"(2) by (blast intro: path_here)
  then have other: "pointerErrorIdentity F e \<noteq> Some w"
    by (cases e) auto
  have "inspect F n (insert w ?act) (Some d) = inspect F n ?act (Some d)" if "unwraps F e d" for d
  proof (cases "pointerErrorIdentity F e")
    case None
    with "3.IH"(1) [of "Some d"] "3.prems"(1) inspect_node_valid_successor [OF valid that] fresh [OF that]
    show ?thesis by (auto split: if_splits)
  next
    case (Some i)
    with "3.IH"(2) [of i "Some d"] "3.prems"(1) inspect_node_valid_successor [OF valid that] fresh [OF that]
    show ?thesis by (auto split: if_splits)
  qed
  then have "inspect_node F (\<lambda>b. inspect F n (insert w ?act) b) e = inspect_node F (\<lambda>b. inspect F n ?act b) e"
    by (intro inspect_node_cong) auto
  with "3.prems"(1) other show ?case
    by (auto simp: insert_commute split: if_splits option.splits)
qed simp_all

text \<open>Normalising a well-formed product error (at most 127 links deep) yields a well-formed
  error again, and every class but a plain failure is kept; a plain failure becomes a
  retryable operation error unless an aggregate is involved.\<close>

theorem normalize_keeps_class:
  assumes "\<not> invalid (inspect F 127 {} (Some e))"
    and "normalizeTerminalError F operation (Some e) = Some e'"
  shows "\<not> invalid (inspectTerminalError F (Some e'))
         \<and> classifyTerminalError F (Some e') =
             (if classifyTerminalError F (Some e) = terminalErrorFailure
                 \<and> \<not> containsAggregate (inspectTerminalError F (Some e))
              then terminalErrorRetryable else classifyTerminalError F (Some e))"
proof -
  let ?r = "inspectTerminalError F (Some e)"
  let ?w = "NewOperationError operation (Some e)"
  have r: "?r = inspect F 127 {} (Some e)"
    using inspect_more_levels [OF assms(1)]
    by (simp add: inspectTerminalError_def maxTerminalErrorTraversalDepth_def eval_nat_numeral)
  with assms(1) have valid: "\<not> invalid ?r" by simp
  show ?thesis
  proof (cases "class_of ?r = terminalErrorFailure \<and> \<not> containsAggregate ?r")
    case True
    have "unwraps F ?w e"
      by (simp add: unwraps_iff new_error_defs)
    then have "\<not> unwrap_path F k e ?w" for k
      using cycle_invalid [of F k e] unwrap_path_append [of F k e ?w 1 e] valid
      by (auto intro: unwrap_path.intros)
    then have "inspect F 127 {?w} (Some e) = ?r"
      using inspect_fresh_active [OF assms(1), of ?w] r by simp
    then have "inspectTerminalError F (Some ?w) = mergeCausalTerminalClass terminalErrorRetryable ?r"
      by (simp add: inspectTerminalError_def maxTerminalErrorTraversalDepth_def eval_nat_numeral
          inspect_node_def inspect_links_def new_error_defs classifyDirectTerminalError_def directlyMatches_def)
    moreover have "e' = ?w"
      using assms(2) True valid by (simp add: normalizeTerminalError_def Let_def)
    ultimately show ?thesis
      using True valid by (simp add: classifyTerminalError_def mergeCausalTerminalClass_def)
  next
    case False
    with assms(2) valid have "e' = e"
      by (auto simp: normalizeTerminalError_def Let_def split: if_splits terminalErrorClass.splits)
    with False valid show ?thesis by (auto simp: classifyTerminalError_def)
  qed
qed

subsection \<open>Witnesses\<close>

definition opaque_node :: foreign_node where
  "opaque_node = \<lparr>node_pointer = True, node_nil = False, node_shape = Reflect_Basic,
     node_is = None, node_as = None, node_unwrap = No_Unwrap\<rparr>"

definition wrapping_node :: "go_error \<Rightarrow> foreign_node" where
  "wrapping_node e = opaque_node\<lparr>node_unwrap := Unwrap_Causal (Returned (Some e))\<rparr>"

definition joining_node :: "go_error option list \<Rightarrow> foreign_node" where
  "joining_node bs = opaque_node\<lparr>node_unwrap := Unwrap_Aggregate (Returned bs)\<rparr>"

lemmas example_nodes = opaque_node_def wrapping_node_def joining_node_def


theorem fatal_cause_decides_witness:
  "let F = (\<lambda>_. joining_node [Some (NewOperationError ''tap'' None), Some Context_Canceled]) in
     \<not> IsRetryable F (Some (Foreign_Error 0))"
proof -
  let ?F = "\<lambda>_. joining_node [Some (NewOperationError ''tap'' None), Some Context_Canceled]"
  have "unwraps ?F (Foreign_Error 0) Context_Canceled"
    by (simp add: unwraps_iff example_nodes)
  then have path: "unwrap_path ?F (Suc 0) (Foreign_Error 0) Context_Canceled"
    by (blast intro: unwrap_path.intros)
  have "\<not> invalid (inspectTerminalError ?F (Some (Foreign_Error 0)))"
    by (simp add: inspectTerminalError_def maxTerminalErrorTraversalDepth_def eval_nat_numeral
        inspect_node_def inspect_links_def classifyDirectTerminalError_def directlyMatches_def
        caster_of_def example_nodes new_error_defs Let_def)
  from fatal_cause_decides [OF path this] show ?thesis
    by (simp add: Let_def classifyDirectTerminalError_def directlyMatches_def)
qed

theorem aggregate_branch_order_irrelevant_witness:
  "let F = (\<lambda>_. joining_node [Some (NewOperationError ''tap'' None), Some Context_Canceled]) in
     inspectTerminalError (F(3 := (F 3)\<lparr>node_unwrap :=
         Unwrap_Aggregate (Returned [Some Context_Canceled, Some (NewOperationError ''tap'' None)])\<rparr>))
       (Some (Foreign_Error 3)) = inspectTerminalError F (Some (Foreign_Error 3))"
  unfolding Let_def
  by (rule aggregate_branch_order_irrelevant [where bs = "[Some (NewOperationError ''tap'' None), Some Context_Canceled]"])
    (simp_all add: example_nodes add_mset_commute)

theorem normalize_keeps_class_witness:
  "let F = (\<lambda>_. opaque_node) in
     normalizeTerminalError F ''tapOn failed'' (Some (Foreign_Error 0))
       = Some (NewOperationError ''tapOn failed'' (Some (Foreign_Error 0)))
     \<and> classifyTerminalError F (Some (NewOperationError ''tapOn failed'' (Some (Foreign_Error 0))))
       = terminalErrorRetryable"
proof -
  let ?F = "\<lambda>_. opaque_node"
  have levels: "inspect ?F (Suc n) {} (Some (Foreign_Error 0)) = classified terminalErrorFailure False" for n
    by (simp add: inspect_node_def inspect_links_def classifyDirectTerminalError_def directlyMatches_def
        caster_of_def example_nodes)
  have "inspect ?F 127 {} (Some (Foreign_Error 0)) = classified terminalErrorFailure False"
    and top: "inspectTerminalError ?F (Some (Foreign_Error 0)) = classified terminalErrorFailure False"
    using levels [of 126] levels [of 127]
    by (simp_all add: inspectTerminalError_def maxTerminalErrorTraversalDepth_def)
  then have valid: "\<not> invalid (inspect ?F 127 {} (Some (Foreign_Error 0)))" by simp
  have norm: "normalizeTerminalError ?F ''tapOn failed'' (Some (Foreign_Error 0))
       = Some (NewOperationError ''tapOn failed'' (Some (Foreign_Error 0)))"
    by (simp add: normalizeTerminalError_def top)
  from normalize_keeps_class [OF valid norm] norm show ?thesis
    by (simp add: Let_def classifyTerminalError_def top)
qed

text \<open>
  The depth bound is part of the statement above: a well-formed failure whose chain of
  causes has the full 128 nodes is one node too long once it is wrapped.
\<close>

definition deep_chain :: foreign where
  "deep_chain n = (if n < 127 then wrapping_node (Foreign_Error (Suc n)) else opaque_node)"

lemma deep_chain_suffix:
  assumes "n \<le> 127" and "\<forall>m. n \<le> m \<longrightarrow> Foreign_Error m \<notin> active"
  shows "inspect deep_chain (Suc (127 - n)) active (Some (Foreign_Error n)) = classified terminalErrorFailure False"
  using assms
proof (induction "127 - n" arbitrary: n active)
  case 0
  then have "n = 127" by simp
  with 0 show ?case
    by (simp add: inspect_node_def inspect_links_def classifyDirectTerminalError_def directlyMatches_def
        caster_of_def example_nodes deep_chain_def)
next
  case (Suc k)
  then have n: "n < 127" and k: "k = 127 - Suc n" "127 - n = Suc (127 - Suc n)" by auto
  have "inspect deep_chain (Suc (127 - Suc n)) (insert (Foreign_Error n) active) (Some (Foreign_Error (Suc n)))
      = classified terminalErrorFailure False"
    using Suc.prems n k(1) by (intro Suc.hyps(1)) auto
  with Suc.prems n show ?case
    unfolding k(2)
    by (simp add: inspect_node_def inspect_links_def classifyDirectTerminalError_def directlyMatches_def
        caster_of_def example_nodes deep_chain_def mergeCausalTerminalClass_def
        del: inspect.simps(3) add: inspect.simps(3) [of _ _ "active"])
qed

lemma deep_chain_path: "n \<le> 127 \<Longrightarrow> unwrap_path deep_chain (127 - n) (Foreign_Error n) (Foreign_Error 127)"
proof (induction "127 - n" arbitrary: n)
  case 0
  then show ?case by (simp add: path_here)
next
  case (Suc k)
  then have "unwraps deep_chain (Foreign_Error n) (Foreign_Error (Suc n))"
    by (simp add: unwraps_iff deep_chain_def example_nodes)
  moreover have "unwrap_path deep_chain (127 - Suc n) (Foreign_Error (Suc n)) (Foreign_Error 127)"
    using Suc by (intro Suc.hyps(1)) simp_all
  ultimately show ?case
    using path_step [of deep_chain "Foreign_Error n" "Foreign_Error (Suc n)" "127 - Suc n"] Suc.hyps(2)
      Suc_diff_Suc [of n 127]
    by simp
qed

text \<open>The engine's own normalisation can turn a well-formed product failure into a malformed
  one: an error whose cause chain uses all 128 inspection levels is classified as a plain
  failure, and the operation error wrapped around it is rejected as a malformed graph.\<close>

theorem normalize_overflows_depth_bound:
  "\<not> invalid (inspectTerminalError deep_chain (Some (Foreign_Error 0)))
   \<and> (\<exists>e'. normalizeTerminalError deep_chain operation (Some (Foreign_Error 0)) = Some e'
        \<and> invalid (inspectTerminalError deep_chain (Some e')))"
proof -
  let ?w = "NewOperationError operation (Some (Foreign_Error 0))"
  have top: "inspectTerminalError deep_chain (Some (Foreign_Error 0)) = classified terminalErrorFailure False"
    using deep_chain_suffix [of 0 "{}"]
    by (simp add: inspectTerminalError_def maxTerminalErrorTraversalDepth_def)
  have "unwraps deep_chain ?w (Foreign_Error 0)" by (simp add: unwraps_iff new_error_defs)
  then have "unwrap_path deep_chain 128 ?w (Foreign_Error 127)"
    using path_step [of deep_chain ?w "Foreign_Error 0" 127] deep_chain_path [of 0] by simp
  then have "invalid (inspectTerminalError deep_chain (Some ?w))"
    using inspect_valid_path by (fastforce simp: inspectTerminalError_def maxTerminalErrorTraversalDepth_def)
  then show ?thesis using top by (simp add: normalizeTerminalError_def)
qed

end
