(* ===== verification/Command_Model.thy ===== *)
theory Command_Model
  imports Prelude Complex_Main
begin

text \<open>
  The flow contract of \<^verbatim>\<open>internal/model/model.go\<close> (commands, selectors, conditions and
  configurations), its source-insensitive comparison \<open>Equivalent\<close>, the owned snapshots of
  \<^verbatim>\<open>internal/engine/clone.go\<close>, and the source-sensitive comparison of
  \<^verbatim>\<open>internal/engine/result_ledger.go\<close>.

  Representation: a Go slice is a \<open>slice\<close>, \<open>None\<close> for the nil slice, because
  \<^verbatim>\<open>reflect.DeepEqual\<close> tells it from an empty one; a Go map is the slice of its entries in
  key order; a pointer to a value that is never aliased for writing is an option. The dynamic
  YAML value (\<^verbatim>\<open>any\<close>) is \<open>dyn\<close>; its floats are the finite ones, as rationals.
  \<^verbatim>\<open>reflect.DeepEqual\<close> is then equality.
\<close>

section \<open>Data\<close>

type_synonym 'a slice = "'a list option"

definition elems :: "'a slice \<Rightarrow> 'a list" where
  "elems s = (case s of None \<Rightarrow> [] | Some xs \<Rightarrow> xs)"

record position =
  pos_line :: int
  pos_column :: int
  pos_offset :: int

record source_info =
  src_path :: string
  src_start :: position
  src_end :: position

definition no_source :: source_info where
  "no_source = \<lparr>src_path = '''',
     src_start = \<lparr>pos_line = 0, pos_column = 0, pos_offset = 0\<rparr>,
     src_end = \<lparr>pos_line = 0, pos_column = 0, pos_offset = 0\<rparr>\<rparr>"

type_synonym source_map = "(string \<times> source_info) slice"
type_synonym string_map = "(string \<times> string) slice"

datatype command_form = CommandFormScalar | CommandFormObject

datatype file_link_kind = FileLinkFlow | FileLinkScript | FileLinkMedia | FileLinkOther string

record file_link =
  link_kind :: file_link_kind
  link_path :: string
  link_resolved :: string
  link_source :: source_info

datatype element_trait = TraitText | TraitSquare | TraitLongText | TraitOther string

record size_selector =
  size_width :: "int option"
  size_height :: "int option"
  size_tolerance :: "int option"

text \<open>The fields of \<^verbatim>\<open>ElementSelector\<close> that hold no further selector and no source.\<close>

record selector_fields =
  sel_textRegex :: "string option"
  sel_idRegex :: "string option"
  sel_size :: "size_selector option"
  sel_optional :: "bool option"
  sel_retryTapIfNoChange :: "bool option"
  sel_waitUntilVisible :: "bool option"
  sel_point :: "string option"
  sel_start :: "string option"
  sel_end :: "string option"
  sel_traits :: "element_trait slice"
  sel_index :: "string option"
  sel_enabled :: "bool option"
  sel_selected :: "bool option"
  sel_checked :: "bool option"
  sel_focused :: "bool option"
  sel_repeat :: "int option"
  sel_delay :: "int option"
  sel_waitToSettleTimeoutMS :: "int option"
  sel_label :: "string option"
  sel_css :: "string option"

datatype element_selector = ElementSelector
  (sel_fields: selector_fields)
  (sel_below: "element_selector option")
  (sel_above: "element_selector option")
  (sel_leftOf: "element_selector option")
  (sel_rightOf: "element_selector option")
  (sel_containsChild: "element_selector option")
  (sel_containsDescendants: "element_selector slice")
  (sel_childOf: "element_selector option")
  (sel_source: source_info)
  (sel_fieldSources: source_map)

record condition =
  cond_platform :: "string option"
  cond_visible :: "element_selector option"
  cond_notVisible :: "element_selector option"
  cond_script :: "string option"
  cond_label :: "string option"
  cond_optional :: "bool option"
  cond_source :: source_info
  cond_fieldSources :: source_map

datatype dyn =
    DynNil
  | DynString string
  | DynBool bool
  | DynInt int
  | DynFloat rat
  | DynList "dyn slice"
  | DynMap "(string \<times> dyn) slice"
  | DynStrings "string slice"
  | DynStringMap string_map
  | DynConfig config
  | DynConfigPtr "config option"
and command = Command
  (cmd_kind: string)
  (cmd_form: command_form)
  (cmd_arguments: dyn)
  (cmd_selector: "element_selector option")
  (cmd_condition: "condition option")
  (cmd_children: "command slice")
  (cmd_links: "file_link slice")
  (cmd_label: "string option")
  (cmd_optional: "bool option")
  (cmd_source: source_info)
and config = Config
  (cfg_name: string)
  (cfg_appId: string)
  (cfg_url: string)
  (cfg_tags: "string slice")
  (cfg_env: string_map)
  (cfg_onFlowStart: "command slice")
  (cfg_onFlowComplete: "command slice")
  (cfg_properties: string_map)
  (cfg_ext: "(string \<times> dyn) slice")
  (cfg_source: source_info)
  (cfg_fieldSources: source_map)

definition EffectiveAppID :: "config \<Rightarrow> string" where
  "EffectiveAppID c = (if cfg_url c \<noteq> '''' then cfg_url c else cfg_appId c)"

section \<open>Comparison without sources\<close>

primrec withoutSelectorSources :: "element_selector \<Rightarrow> element_selector" where
  "withoutSelectorSources (ElementSelector attrs lower upper leftOf rightOf child descs childOf src fsrc) =
     ElementSelector attrs
       (map_option withoutSelectorSources lower) (map_option withoutSelectorSources upper)
       (map_option withoutSelectorSources leftOf) (map_option withoutSelectorSources rightOf)
       (map_option withoutSelectorSources child)
       (map_option (map withoutSelectorSources) descs)
       (map_option withoutSelectorSources childOf) no_source None"

definition withoutConditionSources :: "condition \<Rightarrow> condition" where
  "withoutConditionSources c = c\<lparr>cond_source := no_source, cond_fieldSources := None,
     cond_visible := map_option withoutSelectorSources (cond_visible c),
     cond_notVisible := map_option withoutSelectorSources (cond_notVisible c)\<rparr>"

definition withoutLinkSources :: "file_link \<Rightarrow> file_link" where
  "withoutLinkSources l = l\<lparr>link_resolved := '''', link_source := no_source\<rparr>"

fun withoutArgumentSources :: "dyn \<Rightarrow> dyn"
  and withoutCommandSources :: "command \<Rightarrow> command"
  and withoutConfigSources :: "config \<Rightarrow> config" where
  "withoutArgumentSources DynNil = DynNil"
| "withoutArgumentSources (DynString s) = DynString s"
| "withoutArgumentSources (DynBool b) = DynBool b"
| "withoutArgumentSources (DynInt i) = DynInt i"
| "withoutArgumentSources (DynFloat f) = DynFloat f"
| "withoutArgumentSources (DynList xs) = DynList xs"
| "withoutArgumentSources (DynMap m) = DynMap m"
| "withoutArgumentSources (DynStrings xs) = DynStrings xs"
| "withoutArgumentSources (DynStringMap m) = DynStringMap m"
| "withoutArgumentSources (DynConfig c) = DynConfig (withoutConfigSources c)"
| "withoutArgumentSources (DynConfigPtr c) = DynConfigPtr (map_option withoutConfigSources c)"
| "withoutCommandSources (Command kind form arguments sel cond kids links label optional src) =
     Command kind form (withoutArgumentSources arguments)
       (map_option withoutSelectorSources sel) (map_option withoutConditionSources cond)
       (map_option (map withoutCommandSources) kids)
       (map_option (map withoutLinkSources) links) label optional no_source"
| "withoutConfigSources (Config name appId url tags env start finish props ext src fsrc) =
     Config name appId url tags env
       (map_option (map withoutCommandSources) start) (map_option (map withoutCommandSources) finish)
       props ext no_source None"

definition Equivalent :: "command \<Rightarrow> command \<Rightarrow> bool" where
  "Equivalent c other \<longleftrightarrow> withoutCommandSources c = withoutCommandSources other"

section \<open>Comparison of sources\<close>

text \<open>
  A two-sided walk is a recursion on the recorded value that leaves a predicate for the
  candidate; \<open>all_match\<close> is the index loop over two sequences of equal length.
\<close>

definition all_match :: "('a \<Rightarrow> bool) list \<Rightarrow> 'a list \<Rightarrow> bool" where
  "all_match ps xs \<longleftrightarrow> list_all2 (\<lambda>p x. p x) ps xs"

definition both_or_neither :: "('a \<Rightarrow> bool) option \<Rightarrow> 'a option \<Rightarrow> bool" where
  "both_or_neither p x \<longleftrightarrow> (case (p, x) of (None, None) \<Rightarrow> True | (Some q, Some y) \<Rightarrow> q y | _ \<Rightarrow> False)"

definition sameSourceMap :: "source_map \<Rightarrow> source_map \<Rightarrow> bool" where
  "sameSourceMap recorded candidate \<longleftrightarrow> recorded = candidate"

primrec sameSelectorOrigin :: "element_selector \<Rightarrow> element_selector \<Rightarrow> bool" where
  "sameSelectorOrigin (ElementSelector attrs lower upper leftOf rightOf child descs childOf src fsrc) =
     (\<lambda>candidate. src = sel_source candidate
        \<and> sameSourceMap fsrc (sel_fieldSources candidate)
        \<and> both_or_neither (map_option sameSelectorOrigin lower) (sel_below candidate)
        \<and> both_or_neither (map_option sameSelectorOrigin upper) (sel_above candidate)
        \<and> both_or_neither (map_option sameSelectorOrigin leftOf) (sel_leftOf candidate)
        \<and> both_or_neither (map_option sameSelectorOrigin rightOf) (sel_rightOf candidate)
        \<and> both_or_neither (map_option sameSelectorOrigin child) (sel_containsChild candidate)
        \<and> both_or_neither (map_option sameSelectorOrigin childOf) (sel_childOf candidate)
        \<and> all_match (elems (map_option (map sameSelectorOrigin) descs))
             (elems (sel_containsDescendants candidate)))"

definition sameConditionOrigin :: "condition option \<Rightarrow> condition option \<Rightarrow> bool" where
  "sameConditionOrigin recorded candidate =
     both_or_neither (map_option (\<lambda>r c. cond_source r = cond_source c
        \<and> sameSourceMap (cond_fieldSources r) (cond_fieldSources c)
        \<and> both_or_neither (map_option sameSelectorOrigin (cond_visible r)) (cond_visible c)
        \<and> both_or_neither (map_option sameSelectorOrigin (cond_notVisible r)) (cond_notVisible c)) recorded)
       candidate"

fun sameArgumentOrigin :: "dyn \<Rightarrow> dyn \<Rightarrow> bool"
  and sameCommandOrigin :: "command \<Rightarrow> command \<Rightarrow> bool"
  and sameConfigOrigin :: "config \<Rightarrow> config \<Rightarrow> bool" where
  "sameArgumentOrigin DynNil = (\<lambda>_. True)"
| "sameArgumentOrigin (DynString s) = (\<lambda>_. True)"
| "sameArgumentOrigin (DynBool b) = (\<lambda>_. True)"
| "sameArgumentOrigin (DynInt i) = (\<lambda>_. True)"
| "sameArgumentOrigin (DynFloat f) = (\<lambda>_. True)"
| "sameArgumentOrigin (DynList xs) = (\<lambda>_. True)"
| "sameArgumentOrigin (DynMap m) = (\<lambda>_. True)"
| "sameArgumentOrigin (DynStrings xs) = (\<lambda>_. True)"
| "sameArgumentOrigin (DynStringMap m) = (\<lambda>_. True)"
| "sameArgumentOrigin (DynConfig c) =
     (\<lambda>candidate. case candidate of DynConfig c' \<Rightarrow> sameConfigOrigin c c' | _ \<Rightarrow> False)"
| "sameArgumentOrigin (DynConfigPtr c) =
     (\<lambda>candidate. case candidate of
        DynConfigPtr c' \<Rightarrow> both_or_neither (map_option sameConfigOrigin c) c' | _ \<Rightarrow> False)"
| "sameCommandOrigin (Command kind form arguments sel cond kids links label optional src) =
     (\<lambda>candidate. src = cmd_source candidate
        \<and> both_or_neither (map_option sameSelectorOrigin sel) (cmd_selector candidate)
        \<and> sameConditionOrigin cond (cmd_condition candidate)
        \<and> sameArgumentOrigin arguments (cmd_arguments candidate)
        \<and> all_match (elems (map_option (map sameCommandOrigin) kids)) (elems (cmd_children candidate))
        \<and> all_match (map (\<lambda>l l'. link_source l = link_source l' \<and> link_resolved l = link_resolved l') (elems links))
             (elems (cmd_links candidate)))"
| "sameConfigOrigin (Config name appId url tags env start finish props ext src fsrc) =
     (\<lambda>candidate. src = cfg_source candidate
        \<and> sameSourceMap fsrc (cfg_fieldSources candidate)
        \<and> all_match (elems (map_option (map sameCommandOrigin) start)) (elems (cfg_onFlowStart candidate))
        \<and> all_match (elems (map_option (map sameCommandOrigin) finish)) (elems (cfg_onFlowComplete candidate)))"

definition sameCommandSnapshot :: "command \<Rightarrow> command \<Rightarrow> bool" where
  "sameCommandSnapshot recorded candidate \<longleftrightarrow>
     Equivalent recorded candidate \<and> sameCommandOrigin recorded candidate"

section \<open>Owned snapshots\<close>

text \<open>
  \<^verbatim>\<open>append([]T(nil), xs...)\<close> copies a slice and turns an empty one into nil; \<^verbatim>\<open>make\<close>
  followed by a loop turns nil into an empty value.
\<close>

definition append_nil :: "'a slice \<Rightarrow> 'a slice" where
  "append_nil s = (if elems s = [] then None else s)"

primrec cloneSelector :: "element_selector \<Rightarrow> element_selector" where
  "cloneSelector (ElementSelector attrs lower upper leftOf rightOf child descs childOf src fsrc) =
     ElementSelector (attrs\<lparr>sel_traits := append_nil (sel_traits attrs)\<rparr>)
       (map_option cloneSelector lower) (map_option cloneSelector upper)
       (map_option cloneSelector leftOf) (map_option cloneSelector rightOf)
       (map_option cloneSelector child)
       (map_option (map cloneSelector) descs)
       (map_option cloneSelector childOf) src fsrc"

definition cloneCondition :: "condition option \<Rightarrow> condition option" where
  "cloneCondition = map_option (\<lambda>c. c\<lparr>
     cond_visible := map_option cloneSelector (cond_visible c),
     cond_notVisible := map_option cloneSelector (cond_notVisible c)\<rparr>)"

fun cloneDynamic :: "dyn \<Rightarrow> dyn"
  and cloneCommand :: "command \<Rightarrow> command"
  and cloneConfig :: "config \<Rightarrow> config" where
  "cloneDynamic DynNil = DynNil"
| "cloneDynamic (DynString s) = DynString s"
| "cloneDynamic (DynBool b) = DynBool b"
| "cloneDynamic (DynInt i) = DynInt i"
| "cloneDynamic (DynFloat f) = DynFloat f"
| "cloneDynamic (DynList xs) = DynList (Some (elems (map_option (map cloneDynamic) xs)))"
| "cloneDynamic (DynMap m) = DynMap (Some (elems (map_option (map (map_prod id cloneDynamic)) m)))"
| "cloneDynamic (DynStrings xs) = DynStrings (append_nil xs)"
| "cloneDynamic (DynStringMap m) = DynStringMap m"
| "cloneDynamic (DynConfig c) = DynConfig (cloneConfig c)"
| "cloneDynamic (DynConfigPtr c) = DynConfigPtr (map_option cloneConfig c)"
| "cloneCommand (Command kind form arguments sel cond kids links label optional src) =
     Command kind form (cloneDynamic arguments) (map_option cloneSelector sel) (cloneCondition cond)
       (map_option (map cloneCommand) kids) (append_nil links) label optional src"
| "cloneConfig (Config name appId url tags env start finish props ext src fsrc) =
     Config name appId url (append_nil tags) env
       (map_option (map cloneCommand) start) (map_option (map cloneCommand) finish)
       props (map_option (map (map_prod id cloneDynamic)) ext) src fsrc"

section \<open>Snapshot comparison is exact\<close>

text \<open>\<open>splits_eq f g x\<close>: erasing with \<open>f\<close> and comparing what was erased with \<open>g\<close> together
  decide equality with \<open>x\<close>.\<close>

definition splits_eq :: "('a \<Rightarrow> 'b) \<Rightarrow> ('a \<Rightarrow> 'a \<Rightarrow> bool) \<Rightarrow> 'a \<Rightarrow> bool" where
  "splits_eq f g x \<longleftrightarrow> (\<forall>y. f x = f y \<and> g x y \<longleftrightarrow> x = y)"

lemma all_match_Nil [simp]: "all_match [] xs \<longleftrightarrow> xs = []"
  and all_match_Cons [simp]: "all_match (p # ps) (x # xs) \<longleftrightarrow> p x \<and> all_match ps xs"
  and all_match_Cons_Nil [simp]: "\<not> all_match (p # ps) []"
  by (simp_all add: all_match_def)

lemma elems_simps [simp]: "elems None = []" "elems (Some xs) = xs"
  by (simp_all add: elems_def)

lemma both_or_neither_simps [simp]:
  "both_or_neither None x \<longleftrightarrow> x = None"
  "both_or_neither (Some p) (Some y) \<longleftrightarrow> p y"
  "\<not> both_or_neither (Some p) None"
  by (simp_all add: both_or_neither_def split: option.split)

lemma splits_eq_list:
  "\<forall>x \<in> set xs. splits_eq f g x \<Longrightarrow> map f xs = map f ys \<and> all_match (map g xs) ys \<longleftrightarrow> xs = ys"
proof (induction xs arbitrary: ys)
  case Nil
  then show ?case by auto
next
  case (Cons x xs)
  then show ?case by (cases ys) (auto simp: splits_eq_def)
qed

lemma splits_eq_slice:
  "\<forall>x \<in> set (elems s). splits_eq f g x \<Longrightarrow>
     map_option (map f) s = map_option (map f) t \<and> all_match (elems (map_option (map g) s)) (elems t) \<longleftrightarrow> s = t"
  using splits_eq_list [of "elems s" f g "elems t"]
  by (cases s; cases t) auto

lemma splits_eq_option:
  "(\<And>y. x = Some y \<Longrightarrow> splits_eq f g y) \<Longrightarrow>
     map_option f x = map_option f z \<and> both_or_neither (map_option g x) z \<longleftrightarrow> x = z"
  by (cases x; cases z) (auto simp: splits_eq_def)

lemma splits_eq_selector: "splits_eq withoutSelectorSources sameSelectorOrigin s"
proof (induction s)
  case (ElementSelector attrs lower upper leftOf rightOf child descs childOf src fsrc)
  note ih = ElementSelector.IH
  have opt: "map_option withoutSelectorSources x = map_option withoutSelectorSources z
      \<and> both_or_neither (map_option sameSelectorOrigin x) z \<longleftrightarrow> x = z"
    if "x \<in> {lower, upper, leftOf, rightOf, child, childOf}" for x z
    using that ih by (intro splits_eq_option) auto
  have descs: "map_option (map withoutSelectorSources) descs = map_option (map withoutSelectorSources) z
      \<and> all_match (elems (map_option (map sameSelectorOrigin) descs)) (elems z) \<longleftrightarrow> descs = z" for z
    using ih(6) by (intro splits_eq_slice) (auto simp: elems_def split: option.splits)
  show ?case
    unfolding splits_eq_def
  proof
    fix y
    show "withoutSelectorSources (ElementSelector attrs lower upper leftOf rightOf child descs childOf src fsrc)
            = withoutSelectorSources y
          \<and> sameSelectorOrigin (ElementSelector attrs lower upper leftOf rightOf child descs childOf src fsrc) y
          \<longleftrightarrow> ElementSelector attrs lower upper leftOf rightOf child descs childOf src fsrc = y"
      using opt [of lower] opt [of upper] opt [of leftOf] opt [of rightOf] opt [of child] opt [of childOf] descs
      by (cases y) (simp add: sameSourceMap_def, blast)
  qed
qed

lemma splits_eq_condition:
  "map_option withoutConditionSources r = map_option withoutConditionSources c \<and> sameConditionOrigin r c \<longleftrightarrow> r = c"
proof -
  have "splits_eq withoutConditionSources (\<lambda>r c. cond_source r = cond_source c
        \<and> sameSourceMap (cond_fieldSources r) (cond_fieldSources c)
        \<and> both_or_neither (map_option sameSelectorOrigin (cond_visible r)) (cond_visible c)
        \<and> both_or_neither (map_option sameSelectorOrigin (cond_notVisible r)) (cond_notVisible c)) d" for d
    unfolding splits_eq_def
  proof
    fix y :: condition
    show "withoutConditionSources d = withoutConditionSources y \<and> cond_source d = cond_source y
        \<and> sameSourceMap (cond_fieldSources d) (cond_fieldSources y)
        \<and> both_or_neither (map_option sameSelectorOrigin (cond_visible d)) (cond_visible y)
        \<and> both_or_neither (map_option sameSelectorOrigin (cond_notVisible d)) (cond_notVisible y) \<longleftrightarrow> d = y"
      using splits_eq_option [OF splits_eq_selector, of "cond_visible d" "cond_visible y"]
        splits_eq_option [OF splits_eq_selector, of "cond_notVisible d" "cond_notVisible y"]
      by (cases d; cases y) (simp add: withoutConditionSources_def sameSourceMap_def, blast)
  qed
  then show ?thesis unfolding sameConditionOrigin_def by (rule splits_eq_option)
qed

lemma splits_eq_link: "splits_eq withoutLinkSources
    (\<lambda>l l'. link_source l = link_source l' \<and> link_resolved l = link_resolved l') l"
  unfolding splits_eq_def
proof
  fix y :: file_link
  show "withoutLinkSources l = withoutLinkSources y
      \<and> link_source l = link_source y \<and> link_resolved l = link_resolved y \<longleftrightarrow> l = y"
    by (cases l; cases y) (auto simp: withoutLinkSources_def)
qed

lemma withoutArgumentSources_atom [simp]:
  "DynNil = withoutArgumentSources y \<longleftrightarrow> y = DynNil"
  "DynString t = withoutArgumentSources y \<longleftrightarrow> y = DynString t"
  "DynBool b = withoutArgumentSources y \<longleftrightarrow> y = DynBool b"
  "DynInt i = withoutArgumentSources y \<longleftrightarrow> y = DynInt i"
  "DynFloat f = withoutArgumentSources y \<longleftrightarrow> y = DynFloat f"
  "DynList xs = withoutArgumentSources y \<longleftrightarrow> y = DynList xs"
  "DynMap m = withoutArgumentSources y \<longleftrightarrow> y = DynMap m"
  "DynStrings ss = withoutArgumentSources y \<longleftrightarrow> y = DynStrings ss"
  "DynStringMap sm = withoutArgumentSources y \<longleftrightarrow> y = DynStringMap sm"
  by (cases y; auto)+

lemma splits_eq_command:
  shows "splits_eq withoutArgumentSources sameArgumentOrigin d"
    and "splits_eq withoutCommandSources sameCommandOrigin c"
    and "splits_eq withoutConfigSources sameConfigOrigin g"
proof (induction d and c and g rule: dyn.induct command.induct config.induct)
  case (DynConfig c)
  then show ?case
    unfolding splits_eq_def by (auto split: dyn.splits)
next
  case (DynConfigPtr c)
  show ?case
    unfolding splits_eq_def
  proof
    fix y
    show "withoutArgumentSources (DynConfigPtr c) = withoutArgumentSources y
        \<and> sameArgumentOrigin (DynConfigPtr c) y \<longleftrightarrow> DynConfigPtr c = y"
      using splits_eq_option [of c withoutConfigSources sameConfigOrigin] DynConfigPtr
      by (cases y) auto
  qed
next
  case (Command kind form arguments sel cond kids links label optional src)
  have kids: "map_option (map withoutCommandSources) kids = map_option (map withoutCommandSources) z
      \<and> all_match (elems (map_option (map sameCommandOrigin) kids)) (elems z) \<longleftrightarrow> kids = z" for z
    using Command by (intro splits_eq_slice) (auto simp: elems_def split: option.splits)
  have links: "map_option (map withoutLinkSources) links = map_option (map withoutLinkSources) z
      \<and> all_match (map (\<lambda>l l'. link_source l = link_source l' \<and> link_resolved l = link_resolved l') (elems links)) (elems z)
      \<longleftrightarrow> links = z" for z
    using splits_eq_slice [of links, OF ballI, OF splits_eq_link, of z]
    by (cases links) simp_all
  show ?case
    unfolding splits_eq_def
  proof
    fix y
    show "withoutCommandSources (Command kind form arguments sel cond kids links label optional src)
            = withoutCommandSources y
        \<and> sameCommandOrigin (Command kind form arguments sel cond kids links label optional src) y
        \<longleftrightarrow> Command kind form arguments sel cond kids links label optional src = y"
      using kids links splits_eq_option [OF splits_eq_selector, of sel] splits_eq_condition [of cond]
        Command(1)
      by (cases y) (simp add: splits_eq_def, blast)
  qed
next
  case (Config name appId url tags env start finish props ext src fsrc)
  have cmds: "map_option (map withoutCommandSources) x = map_option (map withoutCommandSources) z
      \<and> all_match (elems (map_option (map sameCommandOrigin) x)) (elems z) \<longleftrightarrow> x = z"
    if "x \<in> {start, finish}" for x z
    using that Config by (intro splits_eq_slice) (auto simp: elems_def split: option.splits)
  show ?case
    unfolding splits_eq_def
  proof
    fix y
    show "withoutConfigSources (Config name appId url tags env start finish props ext src fsrc) = withoutConfigSources y
        \<and> sameConfigOrigin (Config name appId url tags env start finish props ext src fsrc) y
        \<longleftrightarrow> Config name appId url tags env start finish props ext src fsrc = y"
      using cmds [of start] cmds [of finish]
      by (cases y) (simp add: sameSourceMap_def, blast)
  qed
qed (auto simp: splits_eq_def)

text \<open>The two-part snapshot comparison of the result ledger is exact: a recorded and a candidate
  command pass \<open>Equivalent\<close> and the source comparison only if they are the same in every
  field, at every depth of children, selectors, conditions and configurations.\<close>

theorem sameCommandSnapshot_exact: "sameCommandSnapshot recorded candidate \<longleftrightarrow> recorded = candidate"
  using splits_eq_command(2) [of recorded]
  by (simp add: sameCommandSnapshot_def Equivalent_def splits_eq_def)


subsection \<open>Clones\<close>

lemma append_nil_idem [simp]: "append_nil (append_nil s) = append_nil s"
  by (cases s) (simp_all add: append_nil_def)

lemma cloneSelector_idem [simp]: "cloneSelector (cloneSelector s) = cloneSelector s"
  by (induction s) (auto simp: option.map_comp comp_def intro!: option.map_cong)

lemma cloneCondition_idem [simp]: "cloneCondition (cloneCondition c) = cloneCondition c"
  by (cases c) (simp_all add: cloneCondition_def option.map_comp comp_def)

lemma clone_idem:
  shows "cloneDynamic (cloneDynamic d) = cloneDynamic d"
    and "cloneCommand (cloneCommand c) = cloneCommand c"
    and "cloneConfig (cloneConfig g) = cloneConfig g"
proof (induction d and c and g rule: dyn.induct command.induct config.induct)
  case (Config name appId url tags env start finish props ext src fsrc)
  have "map_option (map (map_prod id cloneDynamic)) (map_option (map (map_prod id cloneDynamic)) ext)
      = map_option (map (map_prod id cloneDynamic)) ext"
    using Config by (cases ext) auto
  moreover have "map_option (map cloneCommand) (map_option (map cloneCommand) x) = map_option (map cloneCommand) x"
    if "x \<in> {start, finish}" for x
    using that Config by (cases x) auto
  ultimately show ?case by simp
next
  case (Command kind form arguments sel cond kids links label optional src)
  then show ?case by (cases kids; cases sel) auto
next
  case (DynList xs)
  then show ?case by (cases xs) auto
next
  case (DynMap m)
  then show ?case by (cases m) auto
next
  case (DynConfigPtr c)
  then show ?case by (cases c) auto
qed simp_all

declare clone_idem [simp]

lemma cmd_kind_cloneCommand [simp]: "cmd_kind (cloneCommand c) = cmd_kind c"
  and cmd_optional_cloneCommand [simp]: "cmd_optional (cloneCommand c) = cmd_optional c"
  and cmd_source_cloneCommand [simp]: "cmd_source (cloneCommand c) = cmd_source c"
  by (cases c; simp)+

lemma Equivalent_refl [simp]: "Equivalent c c"
  by (simp add: Equivalent_def)

end
