(* ===== verification/Results.thy ===== *)
theory Results
  imports Errors Command_Model
begin

text \<open>
  \<^verbatim>\<open>internal/engine/results.go\<close>: outcomes, immutable command and flow results, listener
  events, and the timeline with its single-use command and flow spans.

  Times are nanoseconds as integers. Command sequence numbers are natural numbers (the
  source's \<^verbatim>\<open>uint64\<close> counter does not wrap in fewer than \<open>2 ^ 64\<close> commands). A pointer
  whose address is compared (a result's identity, an error carrier) is a number handed out
  by an allocation counter. A value-typed clone is the value itself except where copying a
  slice changes nil to empty or back (theory \<open>Command_Model\<close>).
\<close>

section \<open>Outcomes and records\<close>

datatype outcome = Completed | Skipped | Warned | Failed | Cancelled | Other_Outcome string

datatype event_kind =
    EventFlowStarted | EventFlowFinished | EventCommandStarted | EventCommandFinished
  | EventCommandReset | EventCommandMetadataUpdated

record artifact =
  art_kind :: string
  art_path :: string
  art_metadata :: string_map

record command_metadata =
  numberOfRuns :: int
  numberOfRunsSet :: bool
  evaluatedCommand :: "command option"
  logMessages :: "string slice"
  insight :: string
  aiReasoning :: string

record exact_error_disposition =
  published :: "go_error option"
  disp_classification :: "go_error option"

record retry_error_classification =
  rec_classification :: "go_error option"
  publication :: "exact_error_disposition option"

record command_result =
  res_identity :: "nat option"
  res_rootRunID :: string
  res_sequence :: nat
  res_depth :: int
  res_command :: command
  res_outcome :: outcome
  res_productError :: "go_error option"
  res_retry :: "retry_error_classification option"
  res_startedAt :: int
  res_finishedAt :: int
  res_duration :: int
  res_metadata :: command_metadata
  res_artifacts :: "artifact slice"

record flow_result =
  fr_rootRunID :: string
  fr_path :: string
  fr_name :: string
  fr_depth :: int
  fr_outcome :: outcome
  fr_productError :: "go_error option"
  fr_retry :: "retry_error_classification option"
  fr_exactErrorSource :: "command_result option"
  fr_startedAt :: int
  fr_finishedAt :: int
  fr_duration :: int
  fr_commands :: "command_result slice"

record event =
  ev_rootRunID :: string
  ev_kind :: event_kind
  ev_at :: int
  ev_sequence :: nat
  ev_depth :: int
  ev_flowPath :: string
  ev_command :: "command option"
  ev_outcome :: "outcome option"
  ev_productError :: "go_error option"
  ev_metadata :: "command_metadata option"
  ev_artifacts :: "artifact slice"

section \<open>Clones and sealing\<close>

definition cloneResultStrings :: "string slice \<Rightarrow> string slice" where
  "cloneResultStrings values = values"

definition cloneMetadata :: "command_metadata \<Rightarrow> command_metadata" where
  "cloneMetadata m = m\<lparr>logMessages := cloneResultStrings (logMessages m),
     evaluatedCommand := map_option cloneCommand (evaluatedCommand m)\<rparr>"

definition NewCommandMetadata ::
  "int \<Rightarrow> command option \<Rightarrow> string slice \<Rightarrow> string \<Rightarrow> string \<Rightarrow> command_metadata" where
  "NewCommandMetadata runs evaluated logs ins ai =
     \<lparr>numberOfRuns = runs, numberOfRunsSet = True,
      evaluatedCommand = map_option cloneCommand evaluated,
      logMessages = cloneResultStrings logs, insight = ins, aiReasoning = ai\<rparr>"

definition no_metadata :: command_metadata where
  "no_metadata = \<lparr>numberOfRuns = 0, numberOfRunsSet = False, evaluatedCommand = None,
     logMessages = None, insight = '''', aiReasoning = ''''\<rparr>"

definition cloneResultArtifacts :: "artifact slice \<Rightarrow> artifact slice" where
  "cloneResultArtifacts artifacts = map_option (map (\<lambda>a. a\<lparr>art_metadata := art_metadata a\<rparr>)) artifacts"

definition cloneCommandResult :: "command_result \<Rightarrow> command_result" where
  "cloneCommandResult r = r\<lparr>res_command := cloneCommand (res_command r),
     res_metadata := cloneMetadata (res_metadata r),
     res_artifacts := cloneResultArtifacts (res_artifacts r)\<rparr>"

definition cloneCommandResults :: "command_result slice \<Rightarrow> command_result slice" where
  "cloneCommandResults = map_option (map cloneCommandResult)"

text \<open>Sealing allocates one carrier per error; the counter is threaded through.\<close>

definition sealResultError :: "go_error option \<Rightarrow> nat \<Rightarrow> go_error option \<times> nat" where
  "sealResultError raw h =
     (case raw of None \<Rightarrow> (None, h) | Some e \<Rightarrow> (Some (ResultErrorCarrier h e), Suc h))"

definition unsealResultError :: "go_error option \<Rightarrow> go_error option" where
  "unsealResultError stored =
     (case stored of Some (ResultErrorCarrier i raw) \<Rightarrow> Some raw | _ \<Rightarrow> stored)"

definition sealCommandResultErrors :: "command_result \<Rightarrow> nat \<Rightarrow> command_result \<times> nat" where
  "sealCommandResultErrors r h0 =
     (let (e, h1) = sealResultError (res_productError r) h0; r1 = r\<lparr>res_productError := e\<rparr>
      in case res_retry r of
           None \<Rightarrow> (r1, h1)
         | Some c \<Rightarrow>
             (let (ce, h2) = sealResultError (rec_classification c) h1
              in case publication c of
                   None \<Rightarrow> (r1\<lparr>res_retry := Some (c\<lparr>rec_classification := ce\<rparr>)\<rparr>, h2)
                 | Some p \<Rightarrow>
                     (let (pe, h3) = sealResultError (published p) h2;
                          (pc, h4) = sealResultError (disp_classification p) h3
                      in (r1\<lparr>res_retry := Some (c\<lparr>rec_classification := ce,
                            publication := Some (p\<lparr>published := pe, disp_classification := pc\<rparr>)\<rparr>)\<rparr>, h4))))"

definition ProductError :: "command_result \<Rightarrow> go_error option" where
  "ProductError r = unsealResultError (res_productError r)"

section \<open>Outcome taxonomy\<close>

definition ClassifyOutcome :: "foreign \<Rightarrow> go_error option \<Rightarrow> bool \<Rightarrow> outcome" where
  "ClassifyOutcome F e optional =
     (case classifyTerminalError F e of
        terminalErrorNone \<Rightarrow> Completed
      | terminalErrorSkipped \<Rightarrow> Skipped
      | terminalErrorCancelled \<Rightarrow> Cancelled
      | terminalErrorRetryable \<Rightarrow> (if optional then Warned else Failed)
      | _ \<Rightarrow> Failed)"

fun validOutcome :: "outcome \<Rightarrow> bool" where
  "validOutcome (Other_Outcome s) = False"
| "validOutcome _ = True"

definition validateCommandMetadata :: "command_metadata \<Rightarrow> go_error option" where
  "validateCommandMetadata m =
     (if numberOfRunsSet m \<and> numberOfRuns m < 0
      then Some (NewConfigurationError ''command metadata numberOfRuns must not be negative'' None)
      else None)"

fun validateCommandOrder_from :: "nat option \<Rightarrow> command_result list \<Rightarrow> go_error option" where
  "validateCommandOrder_from previous [] = None"
| "validateCommandOrder_from previous (c # cs) =
     (if res_sequence c = 0 \<or> (case previous of None \<Rightarrow> False | Some p \<Rightarrow> res_sequence c \<le> p)
      then Some (NewConfigurationError ''flow command sequences must be strictly increasing'' None)
      else if res_depth c < 0
      then Some (NewConfigurationError ''flow command depth must not be negative'' None)
      else validateCommandOrder_from (Some (res_sequence c)) cs)"

definition validateCommandOrder :: "command_result list \<Rightarrow> go_error option" where
  "validateCommandOrder cs = validateCommandOrder_from None cs"

text \<open>The first failed command of the flow's own depth decides what the flow re-publishes.\<close>

fun flowRetryClassification ::
  "int \<Rightarrow> go_error option \<Rightarrow> command_result list \<Rightarrow> retry_error_classification option" where
  "flowRetryClassification depth None cs = None"
| "flowRetryClassification depth (Some e) [] = None"
| "flowRetryClassification depth (Some e) (c # cs) =
     (if res_depth c \<noteq> depth \<or> ProductError c = None then flowRetryClassification depth (Some e) cs
      else res_retry c)"

fun flowExactErrorSource ::
  "int \<Rightarrow> go_error option \<Rightarrow> command_result list \<Rightarrow> command_result option" where
  "flowExactErrorSource depth None cs = None"
| "flowExactErrorSource depth (Some e) [] = None"
| "flowExactErrorSource depth (Some e) (c # cs) =
     (if res_depth c \<noteq> depth \<or> ProductError c = None then flowExactErrorSource depth (Some e) cs
      else case res_retry c of
             None \<Rightarrow> None
           | Some rc \<Rightarrow> if publication rc = None then None else Some (cloneCommandResult c))"

section \<open>Timeline and spans\<close>

type_synonym 'w clock = "'w \<Rightarrow> int \<times> 'w"

text \<open>\<^verbatim>\<open>time.Time.Sub\<close> saturates at the range of a 64-bit duration.\<close>

definition time_sub :: "int \<Rightarrow> int \<Rightarrow> int" where
  "time_sub a b = max (- (2 ^ 63)) (min (2 ^ 63 - 1) (a - b))"

record timeline =
  tl_rootRunID :: string
  tl_next :: nat

definition newTimeline :: "string \<Rightarrow> timeline" where
  "newTimeline rootRunID = \<lparr>tl_rootRunID = rootRunID, tl_next = 0\<rparr>"

definition Checkpoint :: "timeline \<Rightarrow> nat" where
  "Checkpoint t = tl_next t"

record command_span =
  cs_rootRunID :: string
  cs_sequence :: nat
  cs_depth :: int
  cs_command :: command
  cs_startedAt :: int
  cs_finished :: bool

record flow_span =
  fs_rootRunID :: string
  fs_path :: string
  fs_name :: string
  fs_depth :: int
  fs_startedAt :: int
  fs_finished :: bool

definition BeginCommand ::
  "'w clock \<Rightarrow> timeline \<Rightarrow> command \<Rightarrow> int \<Rightarrow> 'w
    \<Rightarrow> (go_error + command_span \<times> event \<times> timeline) \<times> 'w" where
  "BeginCommand clock t command depth w =
     (if depth < 0 then (Inl (NewConfigurationError ''command depth must not be negative'' None), w)
      else
        (let t' = t\<lparr>tl_next := Suc (tl_next t)\<rparr>; sequence = tl_next t';
             (startedAt, w') = clock w; cloned = cloneCommand command
         in (Inr (\<lparr>cs_rootRunID = tl_rootRunID t, cs_sequence = sequence, cs_depth = depth,
                   cs_command = cloned, cs_startedAt = startedAt, cs_finished = False\<rparr>,
                 \<lparr>ev_rootRunID = tl_rootRunID t, ev_kind = EventCommandStarted, ev_at = startedAt,
                  ev_sequence = sequence, ev_depth = depth, ev_flowPath = '''',
                  ev_command = Some (cloneCommand cloned), ev_outcome = None, ev_productError = None,
                  ev_metadata = None, ev_artifacts = None\<rparr>, t'), w')))"

definition BeginFlow ::
  "'w clock \<Rightarrow> timeline \<Rightarrow> string \<Rightarrow> string \<Rightarrow> int \<Rightarrow> 'w
    \<Rightarrow> (go_error + flow_span \<times> event) \<times> 'w" where
  "BeginFlow clock t path name depth w =
     (if depth < 0 then (Inl (NewConfigurationError ''flow depth must not be negative'' None), w)
      else
        (let (startedAt, w') = clock w
         in (Inr (\<lparr>fs_rootRunID = tl_rootRunID t, fs_path = path, fs_name = name, fs_depth = depth,
                   fs_startedAt = startedAt, fs_finished = False\<rparr>,
                 \<lparr>ev_rootRunID = tl_rootRunID t, ev_kind = EventFlowStarted, ev_at = startedAt,
                  ev_sequence = 0, ev_depth = depth, ev_flowPath = path, ev_command = None,
                  ev_outcome = None, ev_productError = None, ev_metadata = None, ev_artifacts = None\<rparr>), w')))"

definition MetadataUpdated ::
  "'w clock \<Rightarrow> command_span \<Rightarrow> command_metadata \<Rightarrow> 'w \<Rightarrow> (go_error + event) \<times> 'w" where
  "MetadataUpdated clock s metadata w =
     (case validateCommandMetadata metadata of
        Some e \<Rightarrow> (Inl e, w)
      | None \<Rightarrow>
          if cs_finished s then (Inl (NewConfigurationError ''command span already finished'' None), w)
          else (let (now, w') = clock w
                in (Inr \<lparr>ev_rootRunID = cs_rootRunID s, ev_kind = EventCommandMetadataUpdated, ev_at = now,
                     ev_sequence = cs_sequence s, ev_depth = cs_depth s, ev_flowPath = '''',
                     ev_command = Some (cloneCommand (cs_command s)), ev_outcome = None,
                     ev_productError = None, ev_metadata = Some (cloneMetadata metadata),
                     ev_artifacts = None\<rparr>, w')))"

definition CommandReset ::
  "'w clock \<Rightarrow> command_span \<Rightarrow> command_result \<Rightarrow> 'w \<Rightarrow> (go_error + event) \<times> 'w" where
  "CommandReset clock s previous w =
     (if res_identity previous = None \<or> res_sequence previous = 0
      then (Inl (NewConfigurationError ''command reset requires an executed child result'' None), w)
      else if res_rootRunID previous \<noteq> cs_rootRunID s
      then (Inl (NewConfigurationError ''command reset child must share the parent root run'' None), w)
      else if res_depth previous \<noteq> cs_depth s + 1
      then (Inl (NewConfigurationError ''command reset requires an immediate child result'' None), w)
      else if res_sequence previous \<le> cs_sequence s
      then (Inl (NewConfigurationError ''command reset child must follow its active parent'' None), w)
      else if cs_finished s
      then (Inl (NewConfigurationError ''command span already finished'' None), w)
      else (let (now, w') = clock w
            in (Inr \<lparr>ev_rootRunID = res_rootRunID previous, ev_kind = EventCommandReset, ev_at = now,
                 ev_sequence = res_sequence previous, ev_depth = res_depth previous, ev_flowPath = '''',
                 ev_command = Some (cloneCommand (res_command previous)), ev_outcome = None,
                 ev_productError = None, ev_metadata = None, ev_artifacts = None\<rparr>, w')))"

definition FinishWithArtifacts ::
  "foreign \<Rightarrow> 'w clock \<Rightarrow> command_span \<Rightarrow> outcome \<Rightarrow> go_error option \<Rightarrow> command_metadata \<Rightarrow> artifact slice
    \<Rightarrow> nat \<Rightarrow> 'w \<Rightarrow> (go_error + command_result \<times> event \<times> command_span \<times> nat) \<times> 'w" where
  "FinishWithArtifacts F clock s out err metadata artifacts h w =
     (if \<not> validOutcome out then (Inl (NewConfigurationError ''invalid command outcome'' None), w)
      else
        (let productError = sanitizeMalformedError F ''command result finalization failed'' err
         in case validateCommandMetadata metadata of
              Some e \<Rightarrow> (Inl (case productError of Some p \<Rightarrow> p | None \<Rightarrow> e), w)
            | None \<Rightarrow>
                if cs_finished s
                then (Inl (NewConfigurationError ''command span already finished'' None), w)
                else
                  (let (finishedAt, w') = clock w
                   in (Inr (\<lparr>res_identity = Some h, res_rootRunID = cs_rootRunID s,
                             res_sequence = cs_sequence s, res_depth = cs_depth s,
                             res_command = cloneCommand (cs_command s), res_outcome = out,
                             res_productError = productError, res_retry = None,
                             res_startedAt = cs_startedAt s, res_finishedAt = finishedAt,
                             res_duration = time_sub finishedAt (cs_startedAt s),
                             res_metadata = cloneMetadata metadata,
                             res_artifacts = cloneResultArtifacts artifacts\<rparr>,
                           \<lparr>ev_rootRunID = cs_rootRunID s, ev_kind = EventCommandFinished,
                            ev_at = finishedAt, ev_sequence = cs_sequence s, ev_depth = cs_depth s,
                            ev_flowPath = '''', ev_command = Some (cloneCommand (cs_command s)),
                            ev_outcome = Some out, ev_productError = productError,
                            ev_metadata = Some (cloneMetadata metadata),
                            ev_artifacts = cloneResultArtifacts artifacts\<rparr>,
                           s\<lparr>cs_finished := True\<rparr>, Suc h), w'))))"

definition FlowSpan_Finish ::
  "foreign \<Rightarrow> 'w clock \<Rightarrow> flow_span \<Rightarrow> outcome \<Rightarrow> go_error option \<Rightarrow> command_result slice
    \<Rightarrow> 'w \<Rightarrow> (go_error + flow_result \<times> event \<times> flow_span) \<times> 'w" where
  "FlowSpan_Finish F clock s out err commands w =
     (if \<not> validOutcome out then (Inl (NewConfigurationError ''invalid flow outcome'' None), w)
      else case validateCommandOrder (elems commands) of
             Some e \<Rightarrow> (Inl e, w)
           | None \<Rightarrow>
               (let productError = sanitizeMalformedError F ''flow result finalization failed'' err
                in if fs_finished s
                   then (Inl (NewConfigurationError ''flow span already finished'' None), w)
                   else
                     (let (finishedAt, w') = clock w
                      in (Inr (\<lparr>fr_rootRunID = fs_rootRunID s, fr_path = fs_path s, fr_name = fs_name s,
                                fr_depth = fs_depth s, fr_outcome = out, fr_productError = productError,
                                fr_retry = flowRetryClassification (fs_depth s) productError (elems commands),
                                fr_exactErrorSource = flowExactErrorSource (fs_depth s) productError (elems commands),
                                fr_startedAt = fs_startedAt s, fr_finishedAt = finishedAt,
                                fr_duration = time_sub finishedAt (fs_startedAt s),
                                fr_commands = cloneCommandResults commands\<rparr>,
                              \<lparr>ev_rootRunID = fs_rootRunID s, ev_kind = EventFlowFinished,
                               ev_at = finishedAt, ev_sequence = 0, ev_depth = fs_depth s,
                               ev_flowPath = fs_path s, ev_command = None, ev_outcome = Some out,
                               ev_productError = productError, ev_metadata = None, ev_artifacts = None\<rparr>,
                              s\<lparr>fs_finished := True\<rparr>), w'))))"

end
