(* ===== verification/Ledger.thy ===== *)
theory Ledger
  imports Results
begin

text \<open>
  \<^verbatim>\<open>internal/engine/result_ledger.go\<close>: the table of terminal command results of one
  root. Both Go maps are association lists from sequence to row; the mutex makes every
  operation one atomic step. Carriers are compared by address, which is the number the
  allocation counter gave them.

  The locale \<open>write_once_store\<close> is the contract the executor relies on: a key is written
  at most once and stays readable; the ledger is its instance at the end of the theory.
\<close>

section \<open>Comparison of rows\<close>

definition sameStrings :: "string slice \<Rightarrow> string slice \<Rightarrow> bool" where
  "sameStrings recorded candidate \<longleftrightarrow>
     (recorded = None) = (candidate = None)
     \<and> length (elems recorded) = length (elems candidate)
     \<and> all_match (map (=) (elems recorded)) (elems candidate)"

definition sameStringMap :: "string_map \<Rightarrow> string_map \<Rightarrow> bool" where
  "sameStringMap recorded candidate \<longleftrightarrow> recorded = candidate"

definition sameResultArtifacts :: "artifact slice \<Rightarrow> artifact slice \<Rightarrow> bool" where
  "sameResultArtifacts recorded candidate \<longleftrightarrow>
     (recorded = None) = (candidate = None)
     \<and> length (elems recorded) = length (elems candidate)
     \<and> all_match (map (\<lambda>r c. art_kind r = art_kind c \<and> art_path r = art_path c
                          \<and> sameStringMap (art_metadata r) (art_metadata c)) (elems recorded))
         (elems candidate)"

definition sameCommandMetadata :: "command_metadata \<Rightarrow> command_metadata \<Rightarrow> bool" where
  "sameCommandMetadata recorded candidate \<longleftrightarrow>
     numberOfRuns recorded = numberOfRuns candidate
     \<and> numberOfRunsSet recorded = numberOfRunsSet candidate
     \<and> insight recorded = insight candidate \<and> aiReasoning recorded = aiReasoning candidate
     \<and> sameStrings (logMessages recorded) (logMessages candidate)
     \<and> both_or_neither (map_option sameCommandSnapshot (evaluatedCommand recorded)) (evaluatedCommand candidate)"

type_synonym resultErrorMatcher = "go_error option \<Rightarrow> go_error option \<Rightarrow> bool"

fun sameSealedResultError :: resultErrorMatcher where
  "sameSealedResultError None candidate = (candidate = None)"
| "sameSealedResultError (Some (ResultErrorCarrier i raw)) (Some (ResultErrorCarrier j raw')) = (i = j)"
| "sameSealedResultError _ _ = False"

fun sameStoredResultError :: resultErrorMatcher where
  "sameStoredResultError None candidate = (candidate = None)"
| "sameStoredResultError (Some (ResultErrorCarrier i raw)) (Some (ResultErrorCarrier j raw')) = (i = j)"
| "sameStoredResultError (Some (UntrustedErrorCarrier i raw)) (Some (UntrustedErrorCarrier j raw')) = (i = j)"
| "sameStoredResultError _ _ = False"

definition sameDisposition ::
  "resultErrorMatcher \<Rightarrow> exact_error_disposition \<Rightarrow> exact_error_disposition \<Rightarrow> bool" where
  "sameDisposition sameError recorded candidate \<longleftrightarrow>
     sameError (published recorded) (published candidate)
     \<and> sameError (disp_classification recorded) (disp_classification candidate)"

definition sameRetryClassification ::
  "resultErrorMatcher \<Rightarrow> retry_error_classification option \<Rightarrow> retry_error_classification option \<Rightarrow> bool" where
  "sameRetryClassification sameError recorded candidate \<longleftrightarrow>
     both_or_neither
       (map_option (\<lambda>r c. sameError (rec_classification r) (rec_classification c)
          \<and> both_or_neither (map_option (sameDisposition sameError) (publication r)) (publication c)) recorded)
       candidate"

definition sameCommandResult :: "resultErrorMatcher \<Rightarrow> command_result \<Rightarrow> command_result \<Rightarrow> bool" where
  "sameCommandResult sameError recorded candidate \<longleftrightarrow>
     res_identity recorded = res_identity candidate
     \<and> res_rootRunID recorded = res_rootRunID candidate \<and> res_sequence recorded = res_sequence candidate
     \<and> res_depth recorded = res_depth candidate \<and> res_outcome recorded = res_outcome candidate
     \<and> res_startedAt recorded = res_startedAt candidate
     \<and> res_finishedAt recorded = res_finishedAt candidate \<and> res_duration recorded = res_duration candidate
     \<and> sameCommandSnapshot (res_command recorded) (res_command candidate)
     \<and> sameError (res_productError recorded) (res_productError candidate)
     \<and> sameRetryClassification sameError (res_retry recorded) (res_retry candidate)
     \<and> sameCommandMetadata (res_metadata recorded) (res_metadata candidate)
     \<and> sameResultArtifacts (res_artifacts recorded) (res_artifacts candidate)"

definition sameAuthenticatedCommandResult :: "command_result \<Rightarrow> command_result \<Rightarrow> bool" where
  "sameAuthenticatedCommandResult = sameCommandResult sameSealedResultError"

definition sameStoredCommandResult :: "command_result \<Rightarrow> command_result \<Rightarrow> bool" where
  "sameStoredCommandResult = sameCommandResult sameStoredResultError"

section \<open>The ledger\<close>

record ledger =
  bySequence :: "(nat \<times> command_result) list"
  canonicalBySequence :: "(nat \<times> command_result) list"

definition newCommandResultLedger :: ledger where
  "newCommandResultLedger = \<lparr>bySequence = [], canonicalBySequence = []\<rparr>"

fun retainLedgerResultError :: "go_error option \<Rightarrow> nat \<Rightarrow> go_error option \<times> nat" where
  "retainLedgerResultError None h = (None, h)"
| "retainLedgerResultError (Some (ResultErrorCarrier i raw)) h = (Some (ResultErrorCarrier i raw), h)"
| "retainLedgerResultError (Some (UntrustedErrorCarrier i raw)) h = (Some (UntrustedErrorCarrier i raw), h)"
| "retainLedgerResultError (Some e) h = (Some (UntrustedErrorCarrier h e), Suc h)"

fun releaseLedgerResultError :: "go_error option \<Rightarrow> go_error option" where
  "releaseLedgerResultError (Some (UntrustedErrorCarrier i raw)) = Some raw"
| "releaseLedgerResultError stored = stored"

definition retainDisposition :: "exact_error_disposition \<Rightarrow> nat \<Rightarrow> exact_error_disposition \<times> nat" where
  "retainDisposition p h0 =
     (let (pe, h1) = retainLedgerResultError (published p) h0;
          (pc, h2) = retainLedgerResultError (disp_classification p) h1
      in (p\<lparr>published := pe, disp_classification := pc\<rparr>, h2))"

definition retainClassification :: "retry_error_classification \<Rightarrow> nat \<Rightarrow> retry_error_classification \<times> nat" where
  "retainClassification c h0 =
     (let (ce, h1) = retainLedgerResultError (rec_classification c) h0
      in case publication c of
           None \<Rightarrow> (c\<lparr>rec_classification := ce\<rparr>, h1)
         | Some p \<Rightarrow> (let (p', h2) = retainDisposition p h1
                     in (c\<lparr>rec_classification := ce, publication := Some p'\<rparr>, h2)))"

definition retainLedgerResultErrors :: "command_result \<Rightarrow> nat \<Rightarrow> command_result \<times> nat" where
  "retainLedgerResultErrors r h0 =
     (let (e, h1) = retainLedgerResultError (res_productError r) h0
      in case res_retry r of
           None \<Rightarrow> (r\<lparr>res_productError := e\<rparr>, h1)
         | Some c \<Rightarrow> (let (c', h2) = retainClassification c h1
                     in (r\<lparr>res_productError := e, res_retry := Some c'\<rparr>, h2)))"

definition releaseClassification :: "retry_error_classification \<Rightarrow> retry_error_classification" where
  "releaseClassification c =
     c\<lparr>rec_classification := releaseLedgerResultError (rec_classification c),
       publication := map_option (\<lambda>p. p\<lparr>published := releaseLedgerResultError (published p),
          disp_classification := releaseLedgerResultError (disp_classification p)\<rparr>) (publication c)\<rparr>"

definition releaseLedgerResultErrors :: "command_result \<Rightarrow> command_result" where
  "releaseLedgerResultErrors r =
     r\<lparr>res_productError := releaseLedgerResultError (res_productError r),
       res_retry := map_option releaseClassification (res_retry r)\<rparr>"

definition record_result :: "ledger \<Rightarrow> command_result \<Rightarrow> nat \<Rightarrow> go_error + ledger \<times> nat" where
  "record_result L r h =
     (if res_sequence r = 0
      then Inl (NewConfigurationError ''command result sequence must not be zero'' None)
      else if res_depth r < 0
      then Inl (NewConfigurationError ''command result depth must not be negative'' None)
      else if map_of (bySequence L) (res_sequence r) \<noteq> None
      then Inl (NewConfigurationError ''command result sequence is already recorded'' None)
      else if map_of (canonicalBySequence L) (res_sequence r) \<noteq> None
      then Inl (NewConfigurationError ''command result sequence is already recorded'' None)
      else (let (stored, h') = retainLedgerResultErrors (cloneCommandResult r) h
            in Inr (\<lparr>bySequence = (res_sequence r, cloneCommandResult stored) # bySequence L,
                     canonicalBySequence =
                       (res_sequence r, cloneCommandResult stored) # canonicalBySequence L\<rparr>, h')))"

definition authenticate :: "ledger \<Rightarrow> command_result \<Rightarrow> command_result option" where
  "authenticate L candidate =
     (if res_sequence candidate = 0 \<or> res_identity candidate = None then None
      else case (map_of (bySequence L) (res_sequence candidate),
                 map_of (canonicalBySequence L) (res_sequence candidate)) of
        (Some recorded, Some canonical) \<Rightarrow>
          if sameStoredCommandResult canonical recorded \<and> sameAuthenticatedCommandResult canonical candidate
          then Some (cloneCommandResult canonical) else None
      | _ \<Rightarrow> None)"

definition redeemExactError :: "ledger \<Rightarrow> command_result option \<Rightarrow> exact_error_disposition option" where
  "redeemExactError L candidate =
     (case candidate of
        None \<Rightarrow> None
      | Some c \<Rightarrow>
          (case authenticate L c of
             None \<Rightarrow> None
           | Some a \<Rightarrow>
               (case res_retry a of
                  None \<Rightarrow> None
                | Some rc \<Rightarrow> map_option (\<lambda>p. p\<lparr>published := unsealResultError (published p),
                     disp_classification := unsealResultError (disp_classification p)\<rparr>) (publication rc))))"

definition result_at :: "ledger \<Rightarrow> nat \<Rightarrow> command_result option" where
  "result_at L s =
     (if s = 0 then None
      else case (map_of (bySequence L) s, map_of (canonicalBySequence L) s) of
        (Some recorded, Some canonical) \<Rightarrow>
          if sameStoredCommandResult canonical recorded
          then Some (releaseLedgerResultErrors (cloneCommandResult canonical)) else None
      | _ \<Rightarrow> None)"

definition snapshotAfter :: "ledger \<Rightarrow> nat \<Rightarrow> command_result list" where
  "snapshotAfter L checkpoint =
     sort_key res_sequence
       (map (\<lambda>(s, canonical). releaseLedgerResultErrors (cloneCommandResult canonical))
         (filter (\<lambda>(s, canonical). \<not> s \<le> checkpoint
            \<and> (case map_of (bySequence L) s of
                 None \<Rightarrow> False | Some recorded \<Rightarrow> sameStoredCommandResult canonical recorded))
          (canonicalBySequence L)))"

definition snapshot :: "ledger \<Rightarrow> command_result list" where
  "snapshot L = snapshotAfter L 0"

section \<open>What the comparisons decide\<close>

lemma all_match_eq: "all_match (map (=) xs) ys \<longleftrightarrow> xs = ys"
proof (induction xs arbitrary: ys)
  case (Cons x xs)
  then show ?case by (cases ys) auto
qed auto

lemma all_match_eqI:
  "(\<And>x y. p x y \<longleftrightarrow> x = y) \<Longrightarrow> all_match (map p xs) ys \<longleftrightarrow> xs = ys"
proof (induction xs arbitrary: ys)
  case (Cons x xs)
  then show ?case by (cases ys) auto
qed auto

lemma sameStrings_eq [simp]: "sameStrings a b \<longleftrightarrow> a = b"
  by (cases a; cases b) (auto simp: sameStrings_def all_match_eq)

lemma sameResultArtifacts_eq [simp]: "sameResultArtifacts a b \<longleftrightarrow> a = b"
proof -
  have "all_match (map (\<lambda>r c. art_kind r = art_kind c \<and> art_path r = art_path c
      \<and> sameStringMap (art_metadata r) (art_metadata c)) xs) ys \<longleftrightarrow> xs = ys" for xs ys :: "artifact list"
    by (rule all_match_eqI) (auto simp: sameStringMap_def)
  then show ?thesis by (cases a; cases b) (auto simp: sameResultArtifacts_def)
qed

lemma sameCommandSnapshot_eq: "sameCommandSnapshot a b \<longleftrightarrow> a = b"
  using splits_eq_command(2) [of a] by (simp add: sameCommandSnapshot_def Equivalent_def splits_eq_def)

lemma sameCommandMetadata_eq [simp]: "sameCommandMetadata a b \<longleftrightarrow> a = b"
proof -
  have "both_or_neither (map_option sameCommandSnapshot x) y \<longleftrightarrow> x = y" for x y
    by (cases x; cases y) (auto simp: sameCommandSnapshot_eq)
  then show ?thesis by (cases a; cases b) (auto simp: sameCommandMetadata_def)
qed

section \<open>Error carriers\<close>

text \<open>
  The errors a row holds; \<open>genuine H\<close> says that a carrier with address \<open>i\<close> holds \<open>H i\<close>, that
  is, one address has one content; \<open>is_sealed\<close> rows crossed the core's sealing boundary.
\<close>

fun disposition_errors :: "exact_error_disposition option \<Rightarrow> go_error option list" where
  "disposition_errors None = []"
| "disposition_errors (Some p) = [published p, disp_classification p]"

fun classification_errors :: "retry_error_classification option \<Rightarrow> go_error option list" where
  "classification_errors None = []"
| "classification_errors (Some c) = rec_classification c # disposition_errors (publication c)"

definition errors_of :: "command_result \<Rightarrow> go_error option list" where
  "errors_of r = res_productError r # classification_errors (res_retry r)"

fun genuine_error :: "(nat \<Rightarrow> go_error) \<Rightarrow> go_error option \<Rightarrow> bool" where
  "genuine_error H (Some (ResultErrorCarrier i raw)) = (raw = H i)"
| "genuine_error H _ = True"

definition genuine :: "(nat \<Rightarrow> go_error) \<Rightarrow> command_result \<Rightarrow> bool" where
  "genuine H r \<longleftrightarrow> list_all (genuine_error H) (errors_of r)"

fun sealed_error :: "go_error option \<Rightarrow> bool" where
  "sealed_error None = True"
| "sealed_error (Some (ResultErrorCarrier i raw)) = True"
| "sealed_error _ = False"

definition is_sealed :: "command_result \<Rightarrow> bool" where
  "is_sealed r \<longleftrightarrow> list_all sealed_error (errors_of r)"

fun stored_error :: "go_error option \<Rightarrow> bool" where
  "stored_error None = True"
| "stored_error (Some (ResultErrorCarrier i raw)) = True"
| "stored_error (Some (UntrustedErrorCarrier i raw)) = True"
| "stored_error _ = False"

definition is_stored :: "command_result \<Rightarrow> bool" where
  "is_stored r \<longleftrightarrow> list_all stored_error (errors_of r)"

fun trusted_error :: "go_error option \<Rightarrow> bool" where
  "trusted_error (Some (UntrustedErrorCarrier i raw)) = False"
| "trusted_error _ = True"

definition outside_ledger :: "command_result \<Rightarrow> bool" where
  "outside_ledger r \<longleftrightarrow> list_all trusted_error (errors_of r)"

lemmas error_predicates = errors_of_def genuine_def is_sealed_def is_stored_def outside_ledger_def

lemma sealed_match:
  "genuine_error H a \<Longrightarrow> genuine_error H b \<Longrightarrow> sameSealedResultError a b \<longleftrightarrow> a = b \<and> sealed_error a"
  by (induction a b rule: sameSealedResultError.induct) auto

lemma sealed_match_sealed: "sameSealedResultError a b \<Longrightarrow> sealed_error a \<and> sealed_error b"
  by (induction a b rule: sameSealedResultError.induct) auto

lemma stored_match_refl: "stored_error a \<Longrightarrow> sameStoredResultError a a"
  by (induction a rule: stored_error.induct) auto

lemma sameRetry_sealed:
  assumes "list_all (genuine_error H) (classification_errors a)" "list_all (genuine_error H) (classification_errors b)"
  shows "sameRetryClassification sameSealedResultError a b
           \<longleftrightarrow> a = b \<and> list_all sealed_error (classification_errors a)"
proof (cases "a = None \<or> b = None")
  case True
  then show ?thesis by (cases a; cases b) (auto simp: sameRetryClassification_def)
next
  case False
  then obtain c d where [simp]: "a = Some c" "b = Some d" by auto
  show ?thesis
    using assms
    by (cases "publication c"; cases "publication d"; cases c; cases d)
      (auto simp: sameRetryClassification_def sameDisposition_def sealed_match intro: exact_error_disposition.equality)
qed

lemma sameRetry_stored:
  "list_all stored_error (classification_errors a) \<Longrightarrow> sameRetryClassification sameStoredResultError a a"
  by (cases a; cases "publication (the a)")
    (auto simp: sameRetryClassification_def sameDisposition_def stored_match_refl)

lemma sameStored_refl: "is_stored r \<Longrightarrow> sameStoredCommandResult r r"
  by (auto simp: sameStoredCommandResult_def sameCommandResult_def is_stored_def errors_of_def
      sameCommandSnapshot_eq stored_match_refl sameRetry_stored)

text \<open>Two rows whose carriers are genuine authenticate each other exactly when they are the
  same sealed row.\<close>

lemma sameAuthenticated_eq:
  assumes "genuine H a" "genuine H b"
  shows "sameAuthenticatedCommandResult a b \<longleftrightarrow> a = b \<and> is_sealed a"
  using assms
  by (cases a; cases b)
    (auto simp: sameAuthenticatedCommandResult_def sameCommandResult_def genuine_def is_sealed_def errors_of_def
      sameCommandSnapshot_eq sealed_match sameRetry_sealed)

lemma sameRetry_sealed_left:
  "sameRetryClassification sameSealedResultError a b \<Longrightarrow> list_all sealed_error (classification_errors a)"
  by (cases a; cases b; cases "publication (the a)"; cases "publication (the b)")
    (auto simp: sameRetryClassification_def sameDisposition_def dest: sealed_match_sealed)

lemma sameAuthenticated_sealed: "sameAuthenticatedCommandResult a b \<Longrightarrow> is_sealed a"
  by (auto simp: sameAuthenticatedCommandResult_def sameCommandResult_def is_sealed_def errors_of_def
      dest: sealed_match_sealed sameRetry_sealed_left)

lemma sealed_match_refl: "sealed_error a \<Longrightarrow> sameSealedResultError a a"
  by (induction a rule: sealed_error.induct) auto

lemma sameAuthenticated_refl: "is_sealed r \<Longrightarrow> sameAuthenticatedCommandResult r r"
  by (cases "res_retry r"; cases "publication (the (res_retry r))")
    (auto simp: sameAuthenticatedCommandResult_def sameCommandResult_def is_sealed_def errors_of_def
      sameRetryClassification_def sameDisposition_def sameCommandSnapshot_eq sealed_match_refl)

section \<open>Recording\<close>

lemma retain_error_stored: "retainLedgerResultError e h = (e', h') \<Longrightarrow> stored_error e'"
  by (induction e h rule: retainLedgerResultError.induct) auto

lemma retain_release_error:
  "trusted_error e \<Longrightarrow> releaseLedgerResultError (fst (retainLedgerResultError e h)) = e"
  by (induction e h rule: retainLedgerResultError.induct) auto

lemma retain_error_sealed:
  "sealed_error (fst (retainLedgerResultError e h)) \<longleftrightarrow> sealed_error e"
  by (induction e h rule: retainLedgerResultError.induct) auto

lemma retain_sealed_error: "sealed_error e \<Longrightarrow> retainLedgerResultError e h = (e, h)"
  by (induction e rule: sealed_error.induct) auto

lemmas retain_defs = retainLedgerResultErrors_def retainClassification_def retainDisposition_def

lemma retain_stored: "retainLedgerResultErrors r h = (s, h') \<Longrightarrow> is_stored s"
  by (cases "res_retry r"; cases "publication (the (res_retry r))")
    (auto simp: retain_defs error_predicates split: prod.splits dest: retain_error_stored)

lemma retain_sealed: "retainLedgerResultErrors r h = (s, h') \<Longrightarrow> is_sealed s \<Longrightarrow> s = r"
  by (cases "res_retry r"; cases "publication (the (res_retry r))")
    (auto simp: retain_defs error_predicates case_prod_beta Let_def retain_error_sealed retain_sealed_error
      intro!: command_result.equality retry_error_classification.equality exact_error_disposition.equality)

lemma retain_is_sealed: "is_sealed r \<Longrightarrow> retainLedgerResultErrors r h = (r, h)"
  by (cases "res_retry r"; cases "publication (the (res_retry r))")
    (auto simp: retain_defs error_predicates retain_sealed_error
      intro!: command_result.equality retry_error_classification.equality exact_error_disposition.equality)

lemma release_retain:
  "retainLedgerResultErrors r h = (s, h') \<Longrightarrow> outside_ledger r \<Longrightarrow> releaseLedgerResultErrors s = r"
  by (cases "res_retry r"; cases "publication (the (res_retry r))")
    (auto simp: retain_defs releaseLedgerResultErrors_def releaseClassification_def error_predicates
      case_prod_beta Let_def retain_release_error
      intro!: command_result.equality retry_error_classification.equality exact_error_disposition.equality)

lemma retain_fields [simp]:
  assumes "retainLedgerResultErrors r h = (s, h')"
  shows "res_sequence s = res_sequence r" "res_depth s = res_depth r" "res_command s = res_command r"
    "res_metadata s = res_metadata r" "res_artifacts s = res_artifacts r" "res_identity s = res_identity r"
  using assms by (auto simp: retainLedgerResultErrors_def split: prod.splits option.splits)

lemma clone_metadata_idem [simp]: "cloneMetadata (cloneMetadata m) = cloneMetadata m"
  by (simp add: cloneMetadata_def cloneResultStrings_def option.map_comp comp_def)

lemma cloneResultArtifacts_id [simp]: "cloneResultArtifacts a = a"
  by (simp add: cloneResultArtifacts_def option.map_ident)

lemma cloneCommandResult_idem [simp]: "cloneCommandResult (cloneCommandResult r) = cloneCommandResult r"
  by (simp add: cloneCommandResult_def)

lemma clone_fields [simp]:
  "res_sequence (cloneCommandResult r) = res_sequence r" "res_depth (cloneCommandResult r) = res_depth r"
  "res_identity (cloneCommandResult r) = res_identity r" "res_outcome (cloneCommandResult r) = res_outcome r"
  "res_productError (cloneCommandResult r) = res_productError r"
  "res_retry (cloneCommandResult r) = res_retry r"
  "res_rootRunID (cloneCommandResult r) = res_rootRunID r"
  by (simp_all add: cloneCommandResult_def)

lemma clone_errors [simp]:
  "is_sealed (cloneCommandResult r) = is_sealed r" "is_stored (cloneCommandResult r) = is_stored r"
  "genuine H (cloneCommandResult r) = genuine H r" "outside_ledger (cloneCommandResult r) = outside_ledger r"
  by (simp_all add: error_predicates)

lemma clone_retained:
  "retainLedgerResultErrors (cloneCommandResult r) h = (s, h') \<Longrightarrow> cloneCommandResult s = s"
  by (auto simp: cloneCommandResult_def intro!: command_result.equality)

text \<open>The invariant: the two tables agree, a row stands under its own sequence, and every row is
  an owned copy whose errors are carriers.\<close>

definition row_ok :: "nat \<times> command_result \<Rightarrow> bool" where
  "row_ok row \<longleftrightarrow> (case row of (s, r) \<Rightarrow>
     res_sequence r = s \<and> s \<noteq> 0 \<and> 0 \<le> res_depth r \<and> cloneCommandResult r = r \<and> is_stored r)"

definition ledger_ok :: "ledger \<Rightarrow> bool" where
  "ledger_ok L \<longleftrightarrow> bySequence L = canonicalBySequence L
     \<and> distinct (map fst (canonicalBySequence L)) \<and> list_all row_ok (canonicalBySequence L)"

lemma new_ledger_ok [simp]: "ledger_ok newCommandResultLedger"
  by (simp add: ledger_ok_def newCommandResultLedger_def)

lemma record_Inr:
  assumes "record_result L r h = Inr (L', h')"
  obtains s where "retainLedgerResultErrors (cloneCommandResult r) h = (s, h')"
    and "cloneCommandResult s = s" and "res_sequence r \<noteq> 0" and "0 \<le> res_depth r"
    and "map_of (bySequence L) (res_sequence r) = None"
    and "map_of (canonicalBySequence L) (res_sequence r) = None"
    and "L' = \<lparr>bySequence = (res_sequence r, s) # bySequence L,
               canonicalBySequence = (res_sequence r, s) # canonicalBySequence L\<rparr>"
proof -
  obtain s h1 where s: "retainLedgerResultErrors (cloneCommandResult r) h = (s, h1)" by fastforce
  then have c: "cloneCommandResult s = s" by (rule clone_retained)
  show ?thesis
    using assms s c by (intro that [of s]) (auto simp: record_result_def split: if_split_asm)
qed

lemma record_ledger_ok:
  assumes "ledger_ok L" "record_result L r h = Inr (L', h')"
  shows "ledger_ok L'"
  using assms(2)
proof (rule record_Inr)
  fix s
  assume *: "retainLedgerResultErrors (cloneCommandResult r) h = (s, h')" "cloneCommandResult s = s"
    "res_sequence r \<noteq> 0" "0 \<le> res_depth r" "map_of (canonicalBySequence L) (res_sequence r) = None"
    "L' = \<lparr>bySequence = (res_sequence r, s) # bySequence L,
           canonicalBySequence = (res_sequence r, s) # canonicalBySequence L\<rparr>"
  then show ?thesis
    using assms(1) retain_stored [OF *(1)]
    by (auto simp: ledger_ok_def row_ok_def map_of_eq_None_iff)
qed

lemma ledger_row: "ledger_ok L \<Longrightarrow> map_of (canonicalBySequence L) s = Some r \<Longrightarrow> row_ok (s, r)"
  by (auto simp: ledger_ok_def list_all_iff dest: map_of_SomeD)

lemma result_at_ok:
  "ledger_ok L \<Longrightarrow> result_at L s = map_option releaseLedgerResultErrors (map_of (canonicalBySequence L) s)"
  by (cases "map_of (canonicalBySequence L) s")
    (auto simp: result_at_def row_ok_def ledger_ok_def sameStored_refl list_all_iff dest: map_of_SomeD)

interpretation rows: write_once_store record_result result_at res_sequence cloneCommandResult
  outside_ledger ledger_ok
proof unfold_locales
  fix L L' r h h'
  assume ok: "ledger_ok L" and rec: "record_result L r h = Inr (L', h')"
  show "ledger_ok L'" using record_ledger_ok ok rec .
  obtain s where s: "retainLedgerResultErrors (cloneCommandResult r) h = (s, h')"
    "L' = \<lparr>bySequence = (res_sequence r, s) # bySequence L,
           canonicalBySequence = (res_sequence r, s) # canonicalBySequence L\<rparr>"
    using rec by (rule record_Inr)
  have ok': "ledger_ok L'" using record_ledger_ok ok rec .
  show "result_at L' (res_sequence r) = Some (cloneCommandResult r)" if "outside_ledger r"
    using that release_retain [OF s(1)] result_at_ok [OF ok'] by (simp add: s(2))
  show "result_at L' k = result_at L k" if "k \<noteq> res_sequence r" for k
    using that result_at_ok [OF ok'] result_at_ok [OF ok] by (simp add: s(2))
next
  fix L L' and r u :: command_result and h h'
  assume "ledger_ok L" "result_at L (res_sequence r) = Some u"
  then show "record_result L r h \<noteq> Inr (L', h')"
    by (auto simp: result_at_ok elim: record_Inr)
qed

section \<open>Properties\<close>

lemma released_rows:
  "put_all record_result L rs h = Inr (L', h') \<Longrightarrow> list_all outside_ledger rs \<Longrightarrow>
     map (releaseLedgerResultErrors \<circ> snd) (canonicalBySequence L')
       = rev (map cloneCommandResult rs) @ map (releaseLedgerResultErrors \<circ> snd) (canonicalBySequence L)"
proof (induction rs arbitrary: L h)
  case (Cons r rs)
  then obtain L1 h1 where 1: "record_result L r h = Inr (L1, h1)" and 2: "put_all record_result L1 rs h1 = Inr (L', h')"
    by (auto split: sum.splits)
  obtain s where s: "retainLedgerResultErrors (cloneCommandResult r) h = (s, h1)"
    "canonicalBySequence L1 = (res_sequence r, s) # canonicalBySequence L"
    using 1 by (rule record_Inr) simp
  show ?case using Cons.IH [OF 2] Cons.prems(2) release_retain [OF s(1)] s(2) by simp
qed simp

lemma retain_sealed_iff:
  "retainLedgerResultErrors r h = (s, h') \<Longrightarrow> is_sealed s \<longleftrightarrow> is_sealed r"
  using retain_sealed retain_is_sealed by (metis fst_conv)

lemma sealed_rows:
  "put_all record_result L rs h = Inr (L', h') \<Longrightarrow>
     filter is_sealed (map snd (canonicalBySequence L'))
       = rev (filter is_sealed (map cloneCommandResult rs)) @ filter is_sealed (map snd (canonicalBySequence L))"
proof (induction rs arbitrary: L h)
  case (Cons r rs)
  then obtain L1 h1 where 1: "record_result L r h = Inr (L1, h1)" and 2: "put_all record_result L1 rs h1 = Inr (L', h')"
    by (auto split: sum.splits)
  obtain s where s: "retainLedgerResultErrors (cloneCommandResult r) h = (s, h1)"
    "canonicalBySequence L1 = (res_sequence r, s) # canonicalBySequence L"
    using 1 by (rule record_Inr) simp
  show ?case
    using Cons.IH [OF 2] s(2) retain_sealed_iff [OF s(1)] retain_sealed [OF s(1)] by auto
qed simp

lemma map_of_row: "ledger_ok L \<Longrightarrow> (res_sequence c, c) \<in> set (canonicalBySequence L)
    \<longleftrightarrow> map_of (canonicalBySequence L) (res_sequence c) = Some c"
  by (simp add: ledger_ok_def map_of_eq_Some_iff)

lemma row_member: "ledger_ok L \<Longrightarrow> (res_sequence c, c) \<in> set (canonicalBySequence L) \<longleftrightarrow> c \<in> snd ` set (canonicalBySequence L)"
  by (force simp: ledger_ok_def list_all_iff row_ok_def)

lemma sealed_row_member:
  assumes "put_all record_result newCommandResultLedger rs h = Inr (L, h')"
  shows "is_sealed c \<and> c \<in> snd ` set (canonicalBySequence L) \<longleftrightarrow> is_sealed c \<and> c \<in> cloneCommandResult ` set rs"
proof -
  have "set (filter is_sealed (map snd (canonicalBySequence L))) = set (filter is_sealed (map cloneCommandResult rs))"
    using sealed_rows [OF assms] by (simp add: newCommandResultLedger_def)
  then show ?thesis by (auto simp: set_eq_iff)
qed


lemma strictly_increasing_order:
  "sorted_wrt (<) (map res_sequence cs) \<Longrightarrow>
   \<forall>c \<in> set cs. res_sequence c \<noteq> 0 \<and> 0 \<le> res_depth c \<and> (case p of None \<Rightarrow> True | Some q \<Rightarrow> q < res_sequence c) \<Longrightarrow>
   validateCommandOrder_from p cs = None"
proof (induction cs arbitrary: p)
  case (Cons c cs)
  have "validateCommandOrder_from (Some (res_sequence c)) cs = None"
    using Cons.prems by (intro Cons.IH) simp_all
  then show ?case using Cons.prems by (cases p) simp_all
qed simp

lemma snapshot_rows:
  assumes "ledger_ok L"
  shows "snapshotAfter L k = sort_key res_sequence
           (filter (\<lambda>r. k < res_sequence r) (map (releaseLedgerResultErrors \<circ> snd) (canonicalBySequence L)))"
proof -
  have row: "(case row of (s, canonical) \<Rightarrow> releaseLedgerResultErrors (cloneCommandResult canonical))
        = (releaseLedgerResultErrors \<circ> snd) row
      \<and> ((case row of (s, canonical) \<Rightarrow> \<not> s \<le> k \<and> (case map_of (bySequence L) s of
             None \<Rightarrow> False | Some recorded \<Rightarrow> sameStoredCommandResult canonical recorded))
        \<longleftrightarrow> k < res_sequence ((releaseLedgerResultErrors \<circ> snd) row))"
    if "row \<in> set (canonicalBySequence L)" for row
  proof -
    obtain s r where [simp]: "row = (s, r)" by fastforce
    have "map_of (bySequence L) s = Some r" "row_ok (s, r)"
      using that assms by (auto simp: ledger_ok_def list_all_iff map_of_eq_Some_iff)
    moreover have "res_sequence (releaseLedgerResultErrors r) = res_sequence r"
      by (simp add: releaseLedgerResultErrors_def)
    ultimately show ?thesis by (simp add: row_ok_def sameStored_refl not_le)
  qed
  show ?thesis
    unfolding snapshotAfter_def by (rule arg_cong [of _ _ "sort_key res_sequence"], rule map_filter_eq, rule row)
qed

text \<open>A snapshot after a checkpoint holds exactly the owned copies of the recorded results
  with a later sequence, whatever order they were recorded in, and it is a list every flow span
  accepts: strictly increasing, with no zero sequence and no negative depth.\<close>

theorem snapshotAfter_exact:
  assumes "put_all record_result newCommandResultLedger rs h = Inr (L, h')"
    and "list_all outside_ledger rs"
  shows "set (snapshotAfter L k) = {r. \<exists>r0 \<in> set rs. r = cloneCommandResult r0 \<and> k < res_sequence r0}
    \<and> sorted_wrt (<) (map res_sequence (snapshotAfter L k))
    \<and> validateCommandOrder (snapshotAfter L k) = None"
proof -
  have ok: "ledger_ok L" using rows.put_all_inv assms(1) new_ledger_ok by blast
  have rel: "map (releaseLedgerResultErrors \<circ> snd) (canonicalBySequence L) = rev (map cloneCommandResult rs)"
    using released_rows [OF assms] by (simp add: newCommandResultLedger_def)
  have snap: "snapshotAfter L k = sort_key res_sequence (filter (\<lambda>r. k < res_sequence r) (rev (map cloneCommandResult rs)))"
    using snapshot_rows [OF ok] rel by simp
  have dist: "distinct (map res_sequence rs)"
    using rows.put_all_distinct [OF new_ledger_ok assms(1)] assms(2) by (simp add: list_all_iff)
  then have "distinct (map res_sequence (filter (\<lambda>r. k < res_sequence r) (rev (map cloneCommandResult rs))))"
    by (intro distinct_map_filter) (simp add: rev_map [symmetric] comp_def)
  then have "distinct (map res_sequence (snapshotAfter L k))"
    by (simp add: snap distinct_map)
  then have inc: "sorted_wrt (<) (map res_sequence (snapshotAfter L k))"
    by (simp add: snap strict_sorted_iff)
  have mem: "set (snapshotAfter L k) = {r. \<exists>r0 \<in> set rs. r = cloneCommandResult r0 \<and> k < res_sequence r0}"
    by (auto simp: snap)
  have "0 \<le> res_depth r0" if "r0 \<in> set rs" for r0
  proof -
    have "list_all row_ok (canonicalBySequence L)" using ok by (simp add: ledger_ok_def)
    moreover have "cloneCommandResult r0 \<in> set (map (releaseLedgerResultErrors \<circ> snd) (canonicalBySequence L))"
      using that by (simp add: rel)
    ultimately show ?thesis
      by (auto simp: list_all_iff row_ok_def releaseLedgerResultErrors_def dest!: arg_cong [of _ _ res_depth])
  qed
  then have "validateCommandOrder (snapshotAfter L k) = None"
    unfolding validateCommandOrder_def by (intro strictly_increasing_order inc) (auto simp: mem)
  then show ?thesis using inc mem by simp
qed

section \<open>Witnesses\<close>

definition plain_command :: "string \<Rightarrow> command" where
  "plain_command kind = Command kind CommandFormScalar DynNil None None None None None None no_source"

definition sample_row :: "nat \<Rightarrow> go_error option \<Rightarrow> command_result" where
  "sample_row s e = \<lparr>res_identity = Some (100 + s), res_rootRunID = ''run'', res_sequence = s, res_depth = 0,
     res_command = plain_command ''back'', res_outcome = Failed, res_productError = e, res_retry = None,
     res_startedAt = 10, res_finishedAt = 12, res_duration = 2, res_metadata = no_metadata,
     res_artifacts = None\<rparr>"

lemmas sample_simps = sample_row_def plain_command_def no_metadata_def cloneCommandResult_def cloneMetadata_def
  append_nil_def cloneCondition_def error_predicates retain_defs

lemma sample_row_clone [simp]: "cloneCommandResult (sample_row s e) = sample_row s e"
  by (simp add: sample_simps cloneResultStrings_def)

lemma sample_row_proj [simp]:
  "res_sequence (sample_row s e) = s" "res_depth (sample_row s e) = 0" "res_identity (sample_row s e) = Some (100 + s)"
  "is_sealed (sample_row s e) = sealed_error e" "outside_ledger (sample_row s e) = trusted_error e"
  "genuine H (sample_row s e) = genuine_error H e"
  by (simp_all add: sample_row_def error_predicates)

lemma sample_row_retain [simp]:
  "retainLedgerResultErrors (sample_row s e) h = (sample_row s (fst (retainLedgerResultError e h)), snd (retainLedgerResultError e h))"
  by (simp add: sample_row_def retain_defs case_prod_beta Let_def)

abbreviation sealed_row :: "nat \<Rightarrow> command_result" where
  "sealed_row s \<equiv> sample_row s (Some (ResultErrorCarrier s (Plain_Error ''tap failed'')))"

lemma two_rows: "\<exists>L. put_all record_result newCommandResultLedger
    [sealed_row 2, sample_row 1 (Some (Plain_Error ''late''))] 7 = Inr (L, 8)"
  by (simp add: record_result_def newCommandResultLedger_def)


lemma snapshotAfter_exact_witness:
  "\<exists>L. put_all record_result newCommandResultLedger
      [sealed_row 2, sample_row 1 (Some (Plain_Error ''late''))] 7 = Inr (L, 8)
    \<and> set (snapshotAfter L 1) = {sealed_row 2}"
proof -
  obtain L where L: "put_all record_result newCommandResultLedger
      [sealed_row 2, sample_row 1 (Some (Plain_Error ''late''))] 7 = Inr (L, 8)"
    using two_rows by blast
  show ?thesis using L snapshotAfter_exact [OF L, of 1] by auto
qed

end
