(* ===== verification/Dispatch.thy ===== *)
theory Dispatch
  imports Ledger
begin

text \<open>
  \<^verbatim>\<open>internal/engine/registry.go\<close> and \<^verbatim>\<open>internal/engine/dispatcher.go\<close>: handler specifications,
  the validated registry, command compilation, and the exact-error protocol that decides which
  handler may publish an unwrapped error.

  Handler code is a program tree (\<open>prog\<close>): it reads and changes the outside world \<open>'w\<close>, asks
  its host (the executor) for one of the services of \<^verbatim>\<open>internal/engine/services.go\<close>, panics,
  or returns. Whatever a handler does, it reaches executor state only through \<open>Host\<close>.
\<close>

section \<open>Effects\<close>

datatype effect_class =
    EffectNone | EffectObserved | EffectDeviceMutation | EffectHostMutation | EffectComposite
  | EffectArtifact | Other_Effect nat

datatype post_action_policy = postActionUnspecified | postActionSettle | postActionNoSettle | Other_Post_Action nat

datatype exact_error_policy =
    exactErrorPublicationUnspecified | exactErrorPublicationPressKey | exactErrorPublicationRetryPropagation
  | Other_Exact_Error_Policy nat

datatype required_service = requiredServiceNone | requiredServiceInputGenerator | Other_Service nat

record artifact_write_request =
  aw_owner :: string
  aw_kind :: string
  aw_suggestedName :: string
  aw_data :: string
  aw_metadata :: string_map

text \<open>
  \<open>exactErrorRequest\<close> is a pointer to a struct whose \<open>underlying\<close> error may itself be nil, and
  \<open>exactErrorPropagation\<close> a pointer to a struct whose \<open>source\<close> pointer may be nil.
\<close>

record command_effect =
  effectClass :: effect_class
  exactErrorRequest :: "go_error option option"
  exactErrorPropagation :: "command_result option option"
  exactErrorDisposition :: "exact_error_disposition option"
  eff_numberOfRuns :: int
  eff_numberOfRunsSet :: bool
  eff_evaluatedCommand :: "command option"
  eff_logMessages :: "string slice"
  eff_insight :: string
  eff_aiReasoning :: string
  finalizedArtifacts :: "artifact slice"
  artifactWrites :: "artifact_write_request slice"

definition no_effect :: command_effect where
  "no_effect = \<lparr>effectClass = EffectNone, exactErrorRequest = None, exactErrorPropagation = None,
     exactErrorDisposition = None, eff_numberOfRuns = 0, eff_numberOfRunsSet = False,
     eff_evaluatedCommand = None, eff_logMessages = None, eff_insight = '''', eff_aiReasoning = '''',
     finalizedArtifacts = None, artifactWrites = None\<rparr>"

section \<open>Handler programs\<close>

datatype 'a go_return = Return 'a | Panic string

datatype host_request =
    RuntimeRequest
  | LookupRequest
  | ConfigRequest
  | CopiedTextRequest
  | SetCopiedTextRequest string
  | PutEnvRequest string string
  | CompiledChildrenRequest
  | ExecuteChildrenRequest "command list"
  | ExecuteLinkedFlowRequest string_map
  | ExecuteInlineFlowRequest string config string_map
  | UpdateMetadataRequest command_metadata
  | ResetCommandRequest command_result
  | DepthRequest

datatype host_reply =
    Granted
  | Refused go_error
  | ConfigReply config
  | TextReply string
  | CommandsReply "command list"
  | ChildrenReply "command_result list" "go_error option"
  | FlowReply flow_result "go_error option"
  | DepthReply int

text \<open>\<open>World step k\<close> emits the log lines of \<open>step w\<close>, moves to its new world and goes on with
  \<open>k w\<close>, so that \<open>k\<close> sees whatever \<open>step\<close> read.\<close>

datatype ('w, 'a) prog =
    Done 'a
  | Panicking string
  | World "'w \<Rightarrow> string list \<times> 'w" "'w \<Rightarrow> ('w, 'a) prog"
  | Host host_request "host_reply \<Rightarrow> ('w, 'a) prog"

definition world_call :: "('w \<Rightarrow> 'r \<times> 'w) \<Rightarrow> ('r \<Rightarrow> ('w, 'a) prog) \<Rightarrow> ('w, 'a) prog" where
  "world_call f k = World (\<lambda>w. ([], snd (f w))) (\<lambda>w. k (fst (f w)))"

primrec run_prog ::
  "(host_request \<Rightarrow> 's \<Rightarrow> host_reply \<times> 's) \<Rightarrow> ('s \<Rightarrow> 'w) \<Rightarrow> ('w \<Rightarrow> 's \<Rightarrow> 's) \<Rightarrow> ('w, 'a) prog \<Rightarrow> 's
    \<Rightarrow> 'a go_return \<times> string list \<times> 's" where
  "run_prog host get put (Done a) = (\<lambda>s. (Return a, [], s))"
| "run_prog host get put (Panicking m) = (\<lambda>s. (Panic m, [], s))"
| "run_prog host get put (World step k) = (\<lambda>s.
     (case step (get s) of (logs, w) \<Rightarrow>
        (case run_prog host get put (k (get s)) (put w s) of (r, logs', s') \<Rightarrow> (r, logs @ logs', s'))))"
| "run_prog host get put (Host q k) = (\<lambda>s.
     (case host q s of (reply, s') \<Rightarrow> run_prog host get put (k reply) s'))"

section \<open>Handler specifications\<close>

record settle_request =
  settle_appID :: string
  settle_timeoutMillis :: "int option"

record 'v evaluated_dispatch =
  ed_command :: command
  ed_value :: "'v option"

text \<open>
  What a compiler sees: the path of the containing flow and which linked flows are ready. A
  compiled value is \<open>None\<close> when Go's \<^verbatim>\<open>isNilValue\<close> holds of it; the linked flow it required,
  if any, is named by its canonical path and attached by \<open>dispatcher_compile\<close>.
\<close>

record compile_context =
  containingFlow :: string
  requireFlow :: "(file_link \<Rightarrow> go_error + string) option"

definition RequireFlow :: "compile_context \<Rightarrow> file_link \<Rightarrow> go_error + string" where
  "RequireFlow c link =
     (case requireFlow c of
        None \<Rightarrow> Inl (NewConfigurationError ''linked-flow compilation is unavailable'' None)
      | Some f \<Rightarrow> f link)"

record ('w, 'v) handler_spec =
  spec_keyword :: string
  spec_effectClass :: effect_class
  spec_postAction :: post_action_policy
  spec_settleRequest :: "('v evaluated_dispatch \<Rightarrow> (settle_request \<times> go_error option) go_return) option"
  spec_exactErrorPolicy :: exact_error_policy
  spec_requiredService :: required_service
  spec_compile :: "(compile_context \<Rightarrow> command \<Rightarrow> (('v option \<times> string option) \<times> go_error option) go_return) option"
  spec_evaluate :: "(command \<Rightarrow> 'v \<Rightarrow> ('w, 'v evaluated_dispatch \<times> go_error option) prog) option"
  spec_execute :: "('v evaluated_dispatch \<Rightarrow> ('w, command_effect \<times> go_error option) prog) option"

definition CommandPressKey :: string where "CommandPressKey = ''pressKey''"
definition CommandRetry :: string where "CommandRetry = ''retry''"

fun validEffectClass :: "effect_class \<Rightarrow> bool" where
  "validEffectClass EffectNone = False"
| "validEffectClass (Other_Effect n) = False"
| "validEffectClass _ = True"

fun validRequiredService :: "required_service \<Rightarrow> bool" where
  "validRequiredService (Other_Service n) = False"
| "validRequiredService _ = True"

definition validateExactErrorPolicy :: "('w, 'v) handler_spec \<Rightarrow> go_error option" where
  "validateExactErrorPolicy spec =
     (case spec_exactErrorPolicy spec of
        exactErrorPublicationUnspecified \<Rightarrow> None
      | exactErrorPublicationPressKey \<Rightarrow>
          if spec_keyword spec \<noteq> CommandPressKey
          then Some (NewConfigurationError ''exact-error publication is authorized only for pressKey'' None) else None
      | exactErrorPublicationRetryPropagation \<Rightarrow>
          if spec_keyword spec \<noteq> CommandRetry
          then Some (NewConfigurationError ''exact-error propagation is authorized only for retry'' None) else None
      | _ \<Rightarrow> Some (NewConfigurationError ''handler exact-error policy is invalid'' None))"

definition validatePostActionPolicy :: "('w, 'v) handler_spec \<Rightarrow> go_error option" where
  "validatePostActionPolicy spec =
     (if spec_effectClass spec \<noteq> EffectDeviceMutation
      then if spec_postAction spec \<noteq> postActionUnspecified \<or> spec_settleRequest spec \<noteq> None
           then Some (NewConfigurationError ''only device-mutation handlers may declare a post-action policy'' None)
           else None
      else case spec_postAction spec of
        postActionSettle \<Rightarrow>
          if spec_settleRequest spec = None
          then Some (NewConfigurationError ''settling device-mutation handler requires a settle request factory'' None)
          else None
      | postActionNoSettle \<Rightarrow>
          if spec_settleRequest spec \<noteq> None
          then Some (NewConfigurationError ''no-settle device-mutation handler must not declare a settle request factory'' None)
          else None
      | _ \<Rightarrow> Some (NewConfigurationError ''device-mutation handler requires an explicit post-action policy'' None))"

type_synonym ('w, 'v) handler_registry = "(string \<times> ('w, 'v) handler_spec) list"

text \<open>One turn of the registration loop of \<^verbatim>\<open>newHandlerRegistry\<close>.\<close>

definition register :: "('w, 'v) handler_registry \<Rightarrow> ('w, 'v) handler_spec \<Rightarrow> unit
    \<Rightarrow> go_error + ('w, 'v) handler_registry \<times> unit" where
  "register registered spec u =
     (if TrimSpace (spec_keyword spec) = '''' then Inl (NewConfigurationError ''handler keyword must not be blank'' None)
      else if map_of registered (spec_keyword spec) \<noteq> None
      then Inl (NewConfigurationError ''handler keyword must be unique'' None)
      else if spec_compile spec = None then Inl (NewConfigurationError ''handler compiler must not be nil'' None)
      else if spec_evaluate spec = None then Inl (NewConfigurationError ''handler evaluator must not be nil'' None)
      else if spec_execute spec = None then Inl (NewConfigurationError ''handler executor must not be nil'' None)
      else if \<not> validEffectClass (spec_effectClass spec)
      then Inl (NewConfigurationError ''handler effect class is invalid'' None)
      else case validatePostActionPolicy spec of
        Some e \<Rightarrow> Inl e
      | None \<Rightarrow>
          (case validateExactErrorPolicy spec of
             Some e \<Rightarrow> Inl e
           | None \<Rightarrow>
               if \<not> validRequiredService (spec_requiredService spec)
               then Inl (NewConfigurationError ''handler required service is invalid'' None)
               else Inr ((spec_keyword spec, spec) # registered, u)))"

definition newHandlerRegistry ::
  "('w, 'v) handler_spec list \<Rightarrow> go_error + ('w, 'v) handler_registry" where
  "newHandlerRegistry specs =
     (case put_all register [] specs () of Inl e \<Rightarrow> Inl e | Inr (registered, u) \<Rightarrow> Inr registered)"

definition lookup :: "('w, 'v) handler_registry \<Rightarrow> string \<Rightarrow> ('w, 'v) handler_spec option" where
  "lookup registry keyword = map_of registry keyword"

section \<open>Compiled commands and flows\<close>

datatype ('w, 'v) compiled_dispatch = CompiledDispatch
  (cd_command: command)
  (cd_spec: "('w, 'v) handler_spec")
  (cd_value: 'v)
  (cd_children: "('w, 'v) compiled_dispatch list")
  (cd_linked: "('w, 'v) compiled_flow option")
and ('w, 'v) compiled_flow = CompiledFlow
  (cf_path: string)
  (cf_config: config)
  (cf_onStart: "('w, 'v) compiled_dispatch list")
  (cf_body: "('w, 'v) compiled_dispatch list")
  (cf_onComplete: "('w, 'v) compiled_dispatch list")

text \<open>\<^verbatim>\<open>ctx.Err()\<close> may change between two reads, so every read advances the world.\<close>

type_synonym 'w ctx_err = "'w \<Rightarrow> go_error option \<times> 'w"

definition invokeCompiler :: "('w, 'v) handler_spec \<Rightarrow> compile_context \<Rightarrow> command
    \<Rightarrow> ('v option \<times> string option) \<times> go_error option" where
  "invokeCompiler spec cc command =
     (case spec_compile spec of
        None \<Rightarrow> ((None, None), Some (NewConfigurationError ''handler compiler panicked'' (Some (Plain_Error ''nil function''))))
      | Some f \<Rightarrow>
          (case f cc command of
             Panic m \<Rightarrow> ((None, None), Some (NewConfigurationError ''handler compiler panicked'' (Some (Plain_Error m))))
           | Return r \<Rightarrow> r))"

lemma size_children: "size_list size (elems (cmd_children c)) < size c"
  by (cases c) (auto simp: elems_def split: option.splits)

lemma size_children_twice: "Suc (2 * size_list size (elems (cmd_children c))) < 2 * size c"
  using size_children [of c] by linarith

function dispatcher_compile :: "'w ctx_err \<Rightarrow> ('w, 'v) handler_registry \<Rightarrow> compile_context
    \<Rightarrow> (string \<times> ('w, 'v) compiled_flow) list \<Rightarrow> command \<Rightarrow> 'w \<Rightarrow> (go_error + ('w, 'v) compiled_dispatch) \<times> 'w"
  and compileSequence :: "'w ctx_err \<Rightarrow> ('w, 'v) handler_registry \<Rightarrow> compile_context
    \<Rightarrow> (string \<times> ('w, 'v) compiled_flow) list \<Rightarrow> command list \<Rightarrow> 'w \<Rightarrow> (go_error + ('w, 'v) compiled_dispatch list) \<times> 'w"
  and compileItems :: "'w ctx_err \<Rightarrow> ('w, 'v) handler_registry \<Rightarrow> compile_context
    \<Rightarrow> (string \<times> ('w, 'v) compiled_flow) list \<Rightarrow> command list \<Rightarrow> 'w \<Rightarrow> (go_error + ('w, 'v) compiled_dispatch list) \<times> 'w"
where
  "dispatcher_compile ctx reg cc flows command w0 =
     (case ctx w0 of
        (Some e, w1) \<Rightarrow> (Inl e, w1)
      | (None, w1) \<Rightarrow>
          (case lookup reg (cmd_kind command) of
             None \<Rightarrow> (Inl (NewConfigurationError ''command has no registered handler'' None), w1)
           | Some spec \<Rightarrow>
               (case (invokeCompiler spec cc (cloneCommand command), ctx w1) of
                  (_, (Some e, w2)) \<Rightarrow> (Inl e, w2)
                | ((_, Some e), (None, w2)) \<Rightarrow> (Inl e, w2)
                | (((None, _), None), (None, w2)) \<Rightarrow>
                    (Inl (NewConfigurationError ''handler compiler returned nil without an error'' None), w2)
                | (((Some v, linked), None), (None, w2)) \<Rightarrow>
                    (case compileSequence ctx reg cc flows (elems (cmd_children command)) w2 of
                       (Inl e, w3) \<Rightarrow> (Inl e, w3)
                     | (Inr kids, w3) \<Rightarrow>
                         (Inr (CompiledDispatch (cloneCommand command) spec v kids
                            (case linked of None \<Rightarrow> None | Some p \<Rightarrow> map_of flows p)), w3)))))"
| "compileSequence ctx reg cc flows commands w0 =
     (case ctx w0 of
        (Some e, w1) \<Rightarrow> (Inl e, w1)
      | (None, w1) \<Rightarrow> compileItems ctx reg cc flows commands w1)"
| "compileItems ctx reg cc flows [] w = (Inr [], w)"
| "compileItems ctx reg cc flows (command # commands) w =
     (case dispatcher_compile ctx reg cc flows command w of
        (Inl e, w1) \<Rightarrow> (Inl e, w1)
      | (Inr item, w1) \<Rightarrow>
          (case compileItems ctx reg cc flows commands w1 of
             (Inl e, w2) \<Rightarrow> (Inl e, w2)
           | (Inr items, w2) \<Rightarrow> (Inr (item # items), w2)))"
  by pat_completeness auto
termination
  by (relation "measure (case_sum (\<lambda>(_, _, _, _, c, _). 2 * size c)
        (case_sum (\<lambda>(_, _, _, _, cs, _). Suc (2 * size_list size cs)) (\<lambda>(_, _, _, _, cs, _). 2 * size_list size cs)))")
    (auto simp: size_children_twice)

section \<open>The exact-error protocol\<close>

fun isNilValue_error :: "foreign \<Rightarrow> go_error option \<Rightarrow> bool" where
  "isNilValue_error F None = True"
| "isNilValue_error F (Some e) = isNilError F e"

definition clearExactErrorState :: "command_effect \<Rightarrow> command_effect" where
  "clearExactErrorState effect = effect\<lparr>exactErrorRequest := None, exactErrorPropagation := None,
     exactErrorDisposition := None\<rparr>"

definition invalidExactErrorDisposition :: "foreign \<Rightarrow> string \<Rightarrow> exact_error_disposition option \<Rightarrow> bool" where
  "invalidExactErrorDisposition F operation disposition =
     (case disposition of
        None \<Rightarrow> True
      | Some d \<Rightarrow>
          isNilValue_error F (published d) \<or> disp_classification d = None
          \<or> snd (sanitizeMalformedErrorWithStatus F operation (published d))
          \<or> invalid (inspectTerminalError F (disp_classification d)))"

definition reject :: "command_effect \<Rightarrow> string \<Rightarrow> command_effect \<times> go_error option" where
  "reject effect message = (clearExactErrorState effect, Some (NewConfigurationError message None))"

definition finalizePropagation :: "foreign \<Rightarrow> string \<Rightarrow> ledger \<Rightarrow> ('w, 'v) handler_spec \<Rightarrow> command_effect
    \<Rightarrow> go_error option \<Rightarrow> command_result option \<Rightarrow> command_effect \<times> go_error option" where
  "finalizePropagation F operation L spec effect err source =
     (if spec_exactErrorPolicy spec \<noteq> exactErrorPublicationRetryPropagation \<or> spec_keyword spec \<noteq> CommandRetry
      then reject effect ''handler requested unauthorized exact-error propagation''
      else if \<not> isNilValue_error F err
      then reject effect ''exact-error propagation must be the sole error channel''
      else case redeemExactError L source of
        None \<Rightarrow> reject effect ''exact-error propagation source is invalid''
      | Some d \<Rightarrow>
          if invalidExactErrorDisposition F operation (Some d)
          then reject effect ''exact-error propagation source is invalid''
          else (effect\<lparr>exactErrorDisposition := Some d\<rparr>, published d))"

definition finalizePublication :: "foreign \<Rightarrow> string \<Rightarrow> ('w, 'v) handler_spec \<Rightarrow> command_effect
    \<Rightarrow> go_error option \<Rightarrow> go_error option \<Rightarrow> command_effect \<times> go_error option" where
  "finalizePublication F operation spec effect err underlying =
     (if spec_exactErrorPolicy spec \<noteq> exactErrorPublicationPressKey \<or> spec_keyword spec \<noteq> CommandPressKey
      then reject effect ''handler requested unauthorized exact-error publication''
      else if \<not> isNilValue_error F err
      then reject effect ''exact-error request must be the sole error channel''
      else if isNilValue_error F underlying
      then reject effect ''exact-error publication requires a non-nil underlying error''
      else if snd (sanitizeMalformedErrorWithStatus F operation underlying)
      then (clearExactErrorState effect, fst (sanitizeMalformedErrorWithStatus F operation underlying))
      else
        (let classification = normalizeTerminalError F operation underlying
         in if classification = None \<or> invalid (inspectTerminalError F classification)
            then reject effect ''exact-error classification is invalid''
            else (effect\<lparr>exactErrorDisposition :=
                    Some \<lparr>published = underlying, disp_classification = classification\<rparr>\<rparr>, underlying)))"

definition finalizeExactErrorRequest :: "foreign \<Rightarrow> string \<Rightarrow> ledger \<Rightarrow> ('w, 'v) handler_spec
    \<Rightarrow> command_effect \<Rightarrow> go_error option \<Rightarrow> command_effect \<times> go_error option" where
  "finalizeExactErrorRequest F operation L spec effect0 err =
     (if exactErrorDisposition effect0 \<noteq> None
      then reject effect0 ''handler forged an exact-error disposition''
      else
        (let request = exactErrorRequest effect0; propagation = exactErrorPropagation effect0;
             effect = effect0\<lparr>exactErrorRequest := None, exactErrorPropagation := None\<rparr>
         in case propagation of
              Some source \<Rightarrow>
                if request \<noteq> None then reject effect ''exact-error request channels are mutually exclusive''
                else finalizePropagation F operation L spec effect err source
            | None \<Rightarrow>
                (case request of
                   None \<Rightarrow> (effect, normalizeTerminalError F operation err)
                 | Some underlying \<Rightarrow> finalizePublication F operation spec effect err underlying)))"

section \<open>Properties\<close>

definition spec_valid :: "('w, 'v) handler_spec \<Rightarrow> bool" where
  "spec_valid spec \<longleftrightarrow> TrimSpace (spec_keyword spec) \<noteq> ''''
     \<and> spec_compile spec \<noteq> None \<and> spec_evaluate spec \<noteq> None \<and> spec_execute spec \<noteq> None
     \<and> validEffectClass (spec_effectClass spec) \<and> validRequiredService (spec_requiredService spec)
     \<and> (spec_postAction spec = postActionSettle \<longleftrightarrow> spec_settleRequest spec \<noteq> None)
     \<and> (spec_effectClass spec = EffectDeviceMutation
          \<longleftrightarrow> spec_postAction spec \<in> {postActionSettle, postActionNoSettle})
     \<and> (spec_effectClass spec \<noteq> EffectDeviceMutation \<longrightarrow> spec_postAction spec = postActionUnspecified)
     \<and> (spec_exactErrorPolicy spec = exactErrorPublicationPressKey \<longrightarrow> spec_keyword spec = CommandPressKey)
     \<and> (spec_exactErrorPolicy spec = exactErrorPublicationRetryPropagation \<longrightarrow> spec_keyword spec = CommandRetry)
     \<and> (\<forall>n. spec_exactErrorPolicy spec \<noteq> Other_Exact_Error_Policy n)"

definition registry_ok :: "('w, 'v) handler_registry \<Rightarrow> bool" where
  "registry_ok reg \<longleftrightarrow> list_all (\<lambda>(k, spec). k = spec_keyword spec \<and> spec_valid spec) reg"

lemma register_Inr:
  "register reg spec u = Inr (reg', u') \<longleftrightarrow>
     lookup reg (spec_keyword spec) = None \<and> reg' = (spec_keyword spec, spec) # reg \<and> spec_valid spec"
  by (cases "spec_postAction spec"; cases "spec_exactErrorPolicy spec")
    (auto simp: register_def spec_valid_def lookup_def validatePostActionPolicy_def validateExactErrorPolicy_def)

interpretation specs: write_once_store register lookup spec_keyword "\<lambda>spec. spec" "\<lambda>_. True" registry_ok
  by unfold_locales (auto simp: register_Inr registry_ok_def lookup_def)

lemma register_all:
  "put_all register reg specs u = Inr (reg', u') \<longleftrightarrow>
     list_all spec_valid specs \<and> distinct (map spec_keyword specs)
     \<and> (\<forall>s \<in> set specs. lookup reg (spec_keyword s) = None)
     \<and> reg' = rev (map (\<lambda>s. (spec_keyword s, s)) specs) @ reg"
proof (induction specs arbitrary: reg u)
  case (Cons s specs)
  have "put_all register reg (s # specs) u = Inr (reg', u') \<longleftrightarrow>
      lookup reg (spec_keyword s) = None \<and> spec_valid s
      \<and> put_all register ((spec_keyword s, s) # reg) specs () = Inr (reg', u')"
  proof (cases "register reg s u")
    case (Inl e)
    then have "\<not> (lookup reg (spec_keyword s) = None \<and> spec_valid s)"
      using register_Inr [of reg s u "(spec_keyword s, s) # reg" "()"] by simp
    then show ?thesis using Inl by auto
  next
    case (Inr r)
    then have "register reg s u = Inr (fst r, ())" by (cases r) simp
    with register_Inr [of reg s u "fst r" "()"]
    have "lookup reg (spec_keyword s) = None" "spec_valid s" "r = ((spec_keyword s, s) # reg, ())"
      by (cases r, simp)+
    then show ?thesis using Inr by simp
  qed
  also have "\<dots> \<longleftrightarrow> list_all spec_valid (s # specs) \<and> distinct (map spec_keyword (s # specs))
     \<and> (\<forall>s \<in> set (s # specs). lookup reg (spec_keyword s) = None)
     \<and> reg' = rev (map (\<lambda>s. (spec_keyword s, s)) (s # specs)) @ reg"
    unfolding Cons.IH by (auto simp: lookup_def) (metis image_eqI)
  finally show ?case .
qed auto

text \<open>Handler registration succeeds exactly when no keyword is repeated and every
  specification is valid (non-blank keyword, all three functions present, a settle factory exactly
  for settling device mutations, exact-error rights only for pressKey and retry), and then a
  lookup finds for each keyword the specification that was supplied for it and nothing else.\<close>

theorem newHandlerRegistry_exact:
  "case newHandlerRegistry specs of
     Inl e \<Rightarrow> \<not> (distinct (map spec_keyword specs) \<and> list_all spec_valid specs)
   | Inr reg \<Rightarrow> distinct (map spec_keyword specs) \<and> list_all spec_valid specs
       \<and> (\<forall>k. lookup reg k = find (\<lambda>s. spec_keyword s = k) specs)"
proof (cases "put_all register [] specs ()")
  case (Inl e)
  then show ?thesis
    using register_all [of "[]" specs "()"] by (auto simp: newHandlerRegistry_def lookup_def)
next
  case (Inr r)
  obtain reg where r: "put_all register [] specs () = Inr (reg, ())" using Inr by (cases r) auto
  have "lookup reg k = find (\<lambda>s. spec_keyword s = k) specs" for k
  proof (cases "find (\<lambda>s. spec_keyword s = k) specs")
    case None
    then have "k \<notin> spec_keyword ` set specs" by (auto simp: find_None_iff)
    then show ?thesis using None r by (force simp: register_all lookup_def map_of_eq_None_iff)
  next
    case (Some s)
    then have "s \<in> set specs" "spec_keyword s = k" by (auto simp: find_Some_iff)
    then have "lookup reg k = Some s"
      using specs.put_all_get [of "[]" specs "()" reg "()" s] r by (simp add: registry_ok_def)
    then show ?thesis using Some by simp
  qed
  moreover have "distinct (map spec_keyword specs)" "list_all spec_valid specs"
    using r by (simp_all add: register_all)
  ultimately show ?thesis by (simp add: newHandlerRegistry_def r)
qed

text \<open>C15: Exact-error publication is a capability. After the executor has finalized a handler's
  effect no request is left in it, and it carries a disposition only if the handler returned no
  other error and either it is pressKey, registered for publication, publishing a well-formed
  error together with its own normalised classification, or it is retry, registered for
  propagation, and the ledger redeemed the disposition from a recorded result; the published
  error is then exactly the error the command returns.\<close>

theorem exact_error_authorised:
  "case finalizeExactErrorRequest F operation L spec effect0 err of
     (effect, err') \<Rightarrow>
       exactErrorRequest effect = None \<and> exactErrorPropagation effect = None
       \<and> (case exactErrorDisposition effect of
            None \<Rightarrow> True
          | Some d \<Rightarrow> err' = published d \<and> isNilValue_error F err \<and> exactErrorDisposition effect0 = None
              \<and> \<not> invalidExactErrorDisposition F operation (Some d)
              \<and> (spec_keyword spec = CommandPressKey \<and> spec_exactErrorPolicy spec = exactErrorPublicationPressKey
                   \<and> exactErrorRequest effect0 = Some (published d) \<and> exactErrorPropagation effect0 = None
                   \<and> disp_classification d = normalizeTerminalError F operation (published d)
                 \<or> spec_keyword spec = CommandRetry
                   \<and> spec_exactErrorPolicy spec = exactErrorPublicationRetryPropagation
                   \<and> exactErrorRequest effect0 = None
                   \<and> (\<exists>source. exactErrorPropagation effect0 = Some source \<and> redeemExactError L source = Some d)))"
  by (auto simp: finalizeExactErrorRequest_def finalizePropagation_def finalizePublication_def reject_def
      clearExactErrorState_def invalidExactErrorDisposition_def Let_def split: option.split if_split_asm)

end
