(* ===== verification/Session.thy ===== *)
theory Session
  imports Dispatch "HOL-Library.State_Monad"
begin

text \<open>
  The execution state of one selected root and the primitives on it:
  \<^verbatim>\<open>internal/engine/callbacks.go\<close> (listeners and the pause controller) and
  \<^verbatim>\<open>internal/engine/session.go\<close> (flow frames, the JavaScript runtime, copied text, poisoning).

  \<open>exec_state\<close> gathers what the core and its session own: the timeline, the ledger, the
  allocation counter, the frames (innermost first), the poison and close flags, the copied text
  and the active application of the element lookup. \<open>es_world\<close> is everything outside (driver,
  JavaScript runtime, context, listeners). \<open>es_trace\<close> records the events in the order in which
  they were handed to the listeners; no code reads it. \<open>es_memo\<close> is the \<^verbatim>\<open>sync.Once\<close> of the
  running handler's \<^verbatim>\<open>runtimeFn\<close>.
\<close>

record 'w exec_state =
  es_world :: 'w
  es_timeline :: timeline
  es_heap :: nat
  es_ledger :: ledger
  es_trace :: "event list"
  es_frames :: "(string \<times> config) list"
  es_poisoned :: bool
  es_closed :: bool
  es_closeErr :: "go_error option"
  es_copiedText :: string
  es_activeApp :: string
  es_memo :: "go_error option option"

type_synonym ('w, 'a) exec = "('w exec_state, 'a) state"

abbreviation ret :: "'a \<Rightarrow> ('s, 'a) state" where
  "ret \<equiv> State_Monad.return"

definition gets :: "('s \<Rightarrow> 'a) \<Rightarrow> ('s, 'a) state" where
  "gets f = State (\<lambda>s. (f s, s))"

definition modifies :: "('s \<Rightarrow> 's) \<Rightarrow> ('s, unit) state" where
  "modifies f = State (\<lambda>s. ((), f s))"

definition world_op :: "('w \<Rightarrow> 'a \<times> 'w) \<Rightarrow> ('w, 'a) exec" where
  "world_op f = State (\<lambda>s. case f (es_world s) of (a, w) \<Rightarrow> (a, s\<lparr>es_world := w\<rparr>))"

text \<open>
  The injected services. A service whose every call the source guards with \<^verbatim>\<open>recover\<close> may
  panic; a panic anywhere else ends the process and has no value here. \<open>d_newRuntime\<close> tells
  whether the factory returned a runtime. Nil interfaces are \<open>None\<close> where the source tests for them.
\<close>

record 'w deps =
  d_foreign :: foreign
  d_clock :: "'w clock"
  d_ctxErr :: "'w ctx_err"
  d_listeners :: "(event \<Rightarrow> 'w \<Rightarrow> go_error option go_return \<times> 'w) option list"
  d_controller :: "('w \<Rightarrow> go_error option go_return \<times> 'w) option"
  d_inputGenerator :: bool
  d_artifactSink :: "(artifact_write_request \<Rightarrow> 'w \<Rightarrow> (artifact \<times> go_error option) \<times> 'w) option"
  d_takeScreenshot :: "'w \<Rightarrow> (string \<times> go_error option) go_return \<times> 'w"
  d_failureResolver :: "(command_result \<Rightarrow> 'w \<Rightarrow> bool go_return \<times> 'w) option"
  d_recordInteraction :: "int \<Rightarrow> 'w \<Rightarrow> unit \<times> 'w"
  d_waitForSettle :: "settle_request \<Rightarrow> 'w \<Rightarrow> go_error option \<times> 'w"
  d_pushEnv :: "'w \<Rightarrow> go_error option \<times> 'w"
  d_popEnv :: "'w \<Rightarrow> go_error option \<times> 'w"
  d_putEnv :: "string \<Rightarrow> string \<Rightarrow> 'w \<Rightarrow> go_error option \<times> 'w"
  d_setCopiedText :: "string \<Rightarrow> 'w \<Rightarrow> go_error option \<times> 'w"
  d_closeRuntime :: "'w \<Rightarrow> go_error option \<times> 'w"
  d_newRuntime :: "'w \<Rightarrow> (bool \<times> go_error option) \<times> 'w"
  d_deviceInfo :: "'w \<Rightarrow> (go_error + string) \<times> 'w"
  d_setPlatform :: "string \<Rightarrow> 'w \<Rightarrow> go_error option \<times> 'w"
  d_enableDevTools :: "'w \<Rightarrow> go_error option \<times> 'w"
  d_reservedEnvironment :: string_map
  d_externalEnvironment :: string_map

definition ctx_Err :: "'w deps \<Rightarrow> ('w, go_error option) exec" where
  "ctx_Err D = world_op (d_ctxErr D)"

definition now :: "'w deps \<Rightarrow> ('w, int) exec" where
  "now D = world_op (d_clock D)"

section \<open>Listeners and controller\<close>

definition invokeListener :: "(event \<Rightarrow> 'w \<Rightarrow> go_error option go_return \<times> 'w) option \<Rightarrow> event
    \<Rightarrow> ('w, go_error option) exec" where
  "invokeListener listener e =
     (case listener of
        None \<Rightarrow> ret (Some (NewConfigurationError ''listener must not be nil'' None))
      | Some f \<Rightarrow> do {
          r \<leftarrow> world_op (f e);
          ret (case r of Return err \<Rightarrow> err | Panic m \<Rightarrow> Some (Plain_Error (''listener panic: '' @ m)))
        })"

record listener_dispatch_result =
  ldr_productError :: "go_error option"
  ldr_failures :: "(nat \<times> go_error option) list"

fun invokeListeners :: "foreign \<Rightarrow> nat \<Rightarrow> (event \<Rightarrow> 'w \<Rightarrow> go_error option go_return \<times> 'w) option list \<Rightarrow> event
    \<Rightarrow> ('w, (nat \<times> go_error option) list) exec" where
  "invokeListeners F i [] e = ret []"
| "invokeListeners F i (l # ls) e = do {
     err \<leftarrow> invokeListener l e;
     rest \<leftarrow> invokeListeners F (Suc i) ls e;
     ret (if err \<noteq> None then (i, sanitizeMalformedError F ''listener callback failed'' err) # rest else rest)
   }"

definition DispatchListeners :: "'w deps \<Rightarrow> event \<Rightarrow> go_error option \<Rightarrow> ('w, listener_dispatch_result) exec" where
  "DispatchListeners D e productError = do {
     modifies (\<lambda>s. s\<lparr>es_trace := es_trace s @ [e]\<rparr>);
     failures \<leftarrow> invokeListeners (d_foreign D) 0 (d_listeners D) e;
     ret \<lparr>ldr_productError =
            sanitizeMalformedError (d_foreign D) ''listener dispatch product failed'' productError,
          ldr_failures = failures\<rparr>
   }"

record controller_result =
  cr_productError :: "go_error option"
  cr_failure :: "go_error option"
  cr_failureMalformed :: bool

definition EffectiveError :: "controller_result \<Rightarrow> go_error option" where
  "EffectiveError r = (if cr_productError r \<noteq> None then cr_productError r else cr_failure r)"

definition WaitForController :: "'w deps \<Rightarrow> go_error option \<Rightarrow> ('w, controller_result) exec" where
  "WaitForController D productError =
     (let product = sanitizeMalformedError (d_foreign D) ''controller product failed'' productError
      in case d_controller D of
           None \<Rightarrow> ret \<lparr>cr_productError = product, cr_failure = None, cr_failureMalformed = False\<rparr>
         | Some f \<Rightarrow> do {
             r \<leftarrow> world_op f;
             let err = (case r of Return err \<Rightarrow> err | Panic m \<Rightarrow> Some (Plain_Error (''controller panic: '' @ m)));
             let (failure, malformed) = sanitizeMalformedErrorWithStatus (d_foreign D) ''controller wait failed'' err;
             ret \<lparr>cr_productError = product, cr_failure = failure, cr_failureMalformed = malformed\<rparr>
           })"

section \<open>Session services\<close>

definition session_available :: "('w, go_error option) exec" where
  "session_available = gets (\<lambda>s.
     if es_poisoned s then Some SessionIntegrityError
     else if es_closed s then Some (NewConfigurationError ''execution session is closed'' None)
     else None)"

definition jsRuntime :: "('w, go_error option) exec" where
  "jsRuntime = session_available"

definition elementLookup :: "('w, go_error option) exec" where
  "elementLookup = session_available"

definition currentConfig :: "('w, go_error + config) exec" where
  "currentConfig = do {
     err \<leftarrow> session_available;
     case err of
       Some e \<Rightarrow> ret (Inl e)
     | None \<Rightarrow> gets (\<lambda>s. case es_frames s of
           [] \<Rightarrow> Inl (NewConfigurationError ''execution session has no active flow'' None)
         | (path, config) # _ \<Rightarrow> Inr (cloneConfig config))
   }"

definition copiedTextValue :: "('w, go_error + string) exec" where
  "copiedTextValue = do {
     err \<leftarrow> session_available;
     case err of Some e \<Rightarrow> ret (Inl e) | None \<Rightarrow> gets (\<lambda>s. Inr (es_copiedText s))
   }"

definition poison :: "'w deps \<Rightarrow> ('w, go_error option) exec" where
  "poison D = do {
     modifies (\<lambda>s. s\<lparr>es_poisoned := True, es_closed := True, es_closeErr := Some SessionIntegrityError\<rparr>);
     _ \<leftarrow> world_op (d_closeRuntime D);
     ret (Some SessionIntegrityError)
   }"

definition setCopiedText :: "'w deps \<Rightarrow> string \<Rightarrow> ('w, go_error option) exec" where
  "setCopiedText D v = do {
     err \<leftarrow> session_available;
     case err of
       Some e \<Rightarrow> ret (Some e)
     | None \<Rightarrow> do {
         failed \<leftarrow> world_op (d_setCopiedText D v);
         if failed \<noteq> None then poison D
         else do {
           modifies (\<lambda>s. s\<lparr>es_copiedText := v\<rparr>);
           ret None
         }
       }
   }"

definition putEnv :: "'w deps \<Rightarrow> string \<Rightarrow> string \<Rightarrow> ('w, go_error option) exec" where
  "putEnv D k v = do {
     err \<leftarrow> session_available;
     case err of
       Some e \<Rightarrow> ret (Some e)
     | None \<Rightarrow> do {
         failed \<leftarrow> world_op (d_putEnv D k v);
         if failed \<noteq> None then poison D else ret None
       }
   }"

definition Session_Close :: "'w deps \<Rightarrow> ('w, go_error option) exec" where
  "Session_Close D = do {
     s \<leftarrow> gets (\<lambda>s. s);
     if es_poisoned s then ret (Some SessionIntegrityError)
     else if es_closed s then ret (es_closeErr s)
     else if es_frames s \<noteq> []
     then ret (Some (NewConfigurationError ''execution session has active flow scopes'' None))
     else do {
       modifies (\<lambda>s. s\<lparr>es_closed := True\<rparr>);
       e \<leftarrow> world_op (d_closeRuntime D);
       let err = sanitizeMalformedError (d_foreign D) ''execution session close failed'' e;
       modifies (\<lambda>s. s\<lparr>es_closeErr := err\<rparr>);
       ret err
     }
   }"

section \<open>Flow scopes\<close>

record flow_scope =
  sc_depth :: nat
  sc_closed :: bool
  sc_err :: "go_error option"
  sc_previousAppID :: string
  sc_restoresApp :: bool

fun putSortedEnvironment :: "'w deps \<Rightarrow> (string \<times> string) list \<Rightarrow> ('w, go_error option) exec" where
  "putSortedEnvironment D [] = ret None"
| "putSortedEnvironment D ((k, v) # kvs) = do {
     c \<leftarrow> ctx_Err D;
     if c \<noteq> None then ret c
     else do {
       e \<leftarrow> world_op (d_putEnv D k v);
       if e \<noteq> None then ret e
       else do {
         c \<leftarrow> ctx_Err D;
         if c \<noteq> None then ret c else putSortedEnvironment D kvs
       }
     }
   }"

definition webViewHierarchyKey :: string where "webViewHierarchyKey = ''androidWebViewHierarchy''"
definition webViewHierarchyDevTools :: string where "webViewHierarchyDevTools = ''devtools''"

definition applyWebViewHierarchy :: "'w deps \<Rightarrow> config \<Rightarrow> ('w, go_error option) exec" where
  "applyWebViewHierarchy D config =
     (if map_of (elems (cfg_ext config)) webViewHierarchyKey \<noteq> Some (DynString webViewHierarchyDevTools)
      then ret None else world_op (d_enableDevTools D))"

text \<open>The first failing step of a sequence of fallible steps.\<close>

fun first_failure :: "('s, go_error option) state list \<Rightarrow> ('s, go_error option) state" where
  "first_failure [] = ret None"
| "first_failure (m # ms) = do { e \<leftarrow> m; if e \<noteq> None then ret e else first_failure ms }"

text \<open>\<^verbatim>\<open>internal/engine/reserved_environment.go\<close>\<close>

definition inlineFlowPathMarker :: string where "inlineFlowPathMarker = ''#runFlow:inline:''"
definition reservedEnvironmentPrefix :: string where "reservedEnvironmentPrefix = ''FLOWBATON_''"

definition flowFileName :: "string \<Rightarrow> string option" where
  "flowFileName path =
     (if path = '''' \<or> contains path inlineFlowPathMarker then None
      else let base = path_Base path in if base \<in> {'''', ''.'', ''/''} then None else Some base)"

definition reservedEnvironmentFor :: "string_map \<Rightarrow> string \<Rightarrow> string_map" where
  "reservedEnvironmentFor reserved path =
     Some (case flowFileName path of
             None \<Rightarrow> elems reserved
           | Some base \<Rightarrow> map_put ''FLOWBATON_FILENAME'' (base) (elems reserved))"

fun join_strings :: "string \<Rightarrow> string list \<Rightarrow> string" where
  "join_strings sep [] = ''''"
| "join_strings sep [x] = x"
| "join_strings sep (x # y # xs) = x @ sep @ join_strings sep (y # xs)"

definition validateReservedEnvironment :: "string_map \<Rightarrow> go_error option" where
  "validateReservedEnvironment values =
     (let keys = filter (\<lambda>k. \<not> starts_with reservedEnvironmentPrefix k) (map fst (elems values))
      in if keys = [] then None
         else Some (NewConfigurationError (''reserved environment keys must start with '' @
                reservedEnvironmentPrefix @ '': '' @ join_strings '', '' keys) None))"

definition enterFlow :: "'w deps \<Rightarrow> string \<Rightarrow> config \<Rightarrow> string_map \<Rightarrow> ('w, go_error + flow_scope) exec" where
  "enterFlow D path config overlay = do {
     c \<leftarrow> ctx_Err D;
     err0 \<leftarrow> (if c \<noteq> None then ret c else first_failure [jsRuntime, world_op (d_pushEnv D)]);
     case err0 of
       Some e \<Rightarrow> ret (Inl e)
     | None \<Rightarrow> do {
         err \<leftarrow> first_failure
           [ctx_Err D,
            putSortedEnvironment D (elems overlay),
            putSortedEnvironment D (elems (cfg_env config)),
            putSortedEnvironment D (elems (reservedEnvironmentFor (d_reservedEnvironment D) path)),
            ctx_Err D,
            applyWebViewHierarchy D config,
            session_available];
         case err of
           Some e \<Rightarrow> do { _ \<leftarrow> world_op (d_popEnv D); ret (Inl e) }
         | None \<Rightarrow> do {
             modifies (\<lambda>s. s\<lparr>es_frames := (path, cloneConfig config) # es_frames s\<rparr>);
             depth \<leftarrow> gets (\<lambda>s. length (es_frames s));
             lookupErr \<leftarrow> elementLookup;
             previous \<leftarrow> gets es_activeApp;
             (if lookupErr = None then modifies (\<lambda>s. s\<lparr>es_activeApp := EffectiveAppID config\<rparr>) else ret ());
             ret (Inr \<lparr>sc_depth = depth, sc_closed = False, sc_err = None,
                    sc_previousAppID = (if lookupErr = None then previous else ''''),
                    sc_restoresApp = (lookupErr = None)\<rparr>)
           }
       }
   }"

definition flowScope_Close :: "'w deps \<Rightarrow> flow_scope \<Rightarrow> ('w, go_error option \<times> flow_scope) exec" where
  "flowScope_Close D scope =
     (if sc_closed scope then ret (sc_err scope, scope)
      else do {
        s \<leftarrow> gets (\<lambda>s. s);
        if length (es_frames s) \<noteq> sc_depth scope
        then ret (Some (NewConfigurationError ''flow scopes must close in LIFO order'' None), scope)
        else do {
          modifies (\<lambda>s. s\<lparr>es_frames := tl (es_frames s)\<rparr>);
          lookupErr \<leftarrow> elementLookup;
          (if sc_restoresApp scope \<and> lookupErr = None
           then modifies (\<lambda>s. s\<lparr>es_activeApp := sc_previousAppID scope\<rparr>) else ret ());
          (if es_poisoned s
           then ret (Some SessionIntegrityError, scope\<lparr>sc_closed := True, sc_err := Some SessionIntegrityError\<rparr>)
           else do {
             e \<leftarrow> world_op (d_popEnv D);
             let err = sanitizeMalformedError (d_foreign D) ''flow scope close failed'' e;
             ret (err, scope\<lparr>sc_closed := True, sc_err := err\<rparr>)
           })
        }
      })"

end
