(* ===== verification/Executor.thy ===== *)
theory Executor
  imports Session
begin

text \<open>
  \<^verbatim>\<open>internal/engine/executor_core.go\<close> and the host services of \<^verbatim>\<open>internal/engine/services.go\<close>:
  the execution of one compiled command from its start event to the recorded, sealed result.

  What a handler can start (its child sequence, its linked flow, an inline flow) is a
  \<open>runner\<close>, supplied by theory \<open>Flow_Run\<close>, where the recursion over compiled commands closes.
\<close>

section \<open>Small pieces\<close>

definition zero_command :: command where
  "zero_command = Command '''' CommandFormScalar DynNil None None None None None None no_source"

definition zero_result :: command_result where
  "zero_result = \<lparr>res_identity = None, res_rootRunID = '''', res_sequence = 0, res_depth = 0,
     res_command = zero_command, res_outcome = Other_Outcome '''', res_productError = None,
     res_retry = None, res_startedAt = 0, res_finishedAt = 0, res_duration = 0,
     res_metadata = no_metadata, res_artifacts = None\<rparr>"

definition zero_flow_result :: flow_result where
  "zero_flow_result = \<lparr>fr_rootRunID = '''', fr_path = '''', fr_name = '''', fr_depth = 0,
     fr_outcome = Other_Outcome '''', fr_productError = None, fr_retry = None,
     fr_exactErrorSource = None, fr_startedAt = 0, fr_finishedAt = 0, fr_duration = 0,
     fr_commands = None\<rparr>"

definition zero_evaluated :: "'v evaluated_dispatch" where
  "zero_evaluated = \<lparr>ed_command = zero_command, ed_value = None\<rparr>"

fun outcome_string :: "outcome \<Rightarrow> string" where
  "outcome_string Completed = ''Completed''"
| "outcome_string Skipped = ''Skipped''"
| "outcome_string Warned = ''Warned''"
| "outcome_string Failed = ''Failed''"
| "outcome_string Cancelled = ''Cancelled''"
| "outcome_string (Other_Outcome s) = s"

definition append_slice :: "'a slice \<Rightarrow> 'a list \<Rightarrow> 'a slice" where
  "append_slice s ys = (if ys = [] then s else Some (elems s @ ys))"

definition validateExecutionInput :: "int \<Rightarrow> go_error option" where
  "validateExecutionInput depth =
     (if depth < 0 then Some (NewConfigurationError ''command depth must not be negative'' None) else None)"

definition validateRequiredService :: "'w deps \<Rightarrow> ('w, 'v) handler_spec \<Rightarrow> go_error option" where
  "validateRequiredService D spec =
     (case spec_requiredService spec of
        requiredServiceNone \<Rightarrow> None
      | requiredServiceInputGenerator \<Rightarrow>
          if d_inputGenerator D then None
          else Some (NewConfigurationError ''handler requires an input generator'' None)
      | _ \<Rightarrow> Some (NewConfigurationError ''handler required service is invalid'' None))"

definition validateSuccessfulEffect :: "effect_class \<Rightarrow> effect_class \<Rightarrow> go_error option" where
  "validateSuccessfulEffect declared returned =
     (if declared = EffectNone \<or> returned = EffectNone
      then Some (NewConfigurationError ''handler reported success without an effect'' None)
      else if returned \<noteq> declared
      then Some (NewConfigurationError ''handler returned an effect outside its registered class'' None)
      else None)"

definition metadataForEffect :: "command \<Rightarrow> command_effect \<Rightarrow> command_metadata" where
  "metadataForEffect command effect =
     NewCommandMetadata (if eff_numberOfRunsSet effect then eff_numberOfRuns effect else 1)
       (case eff_evaluatedCommand effect of None \<Rightarrow> Some (cloneCommand command) | e \<Rightarrow> e)
       (eff_logMessages effect) (eff_insight effect) (eff_aiReasoning effect)"

definition commandIsOptional :: "command \<Rightarrow> bool" where
  "commandIsOptional command =
     (case cmd_optional command of
        Some b \<Rightarrow> b
      | None \<Rightarrow> cmd_kind command \<in> {''assertWithAI'', ''assertNoDefectsWithAI'', ''extractTextWithAI''})"

definition surfacedExecutionError :: "outcome \<Rightarrow> go_error option \<Rightarrow> go_error option" where
  "surfacedExecutionError out productError =
     (case out of
        Completed \<Rightarrow> None | Warned \<Rightarrow> None | Skipped \<Rightarrow> None
      | Failed \<Rightarrow> productError | Cancelled \<Rightarrow> productError
      | Other_Outcome s \<Rightarrow> Some (NewConfigurationError ''command produced an invalid outcome'' None))"

section \<open>Artifacts\<close>

definition writeArtifact :: "'w deps \<Rightarrow> artifact_write_request \<Rightarrow> ('w, artifact option \<times> go_error option) exec" where
  "writeArtifact D request = do {
     c \<leftarrow> ctx_Err D;
     if c \<noteq> None then ret (None, c)
     else case d_artifactSink D of
       None \<Rightarrow> ret (None, Some (NewConfigurationError ''artifact sink is required by this command'' None))
     | Some sink \<Rightarrow> do {
         (artifact, err) \<leftarrow> world_op (sink request);
         if err \<noteq> None then ret (Some artifact, err)
         else do {
           c \<leftarrow> ctx_Err D;
           ret (Some artifact, c)
         }
       }
   }"

definition artifactIsNonzero :: "artifact option \<Rightarrow> bool" where
  "artifactIsNonzero a = (case a of None \<Rightarrow> False
     | Some a \<Rightarrow> art_kind a \<noteq> '''' \<or> art_path a \<noteq> '''' \<or> art_metadata a \<noteq> None)"

fun writeArtifacts :: "'w deps \<Rightarrow> artifact_write_request list \<Rightarrow> ('w, artifact list \<times> go_error option) exec" where
  "writeArtifacts D [] = ret ([], None)"
| "writeArtifacts D (request # requests) = do {
     (artifact, err) \<leftarrow> writeArtifact D request;
     if err \<noteq> None
     then ret (if artifactIsNonzero artifact then [the artifact] else [], err)
     else do {
       (rest, err) \<leftarrow> writeArtifacts D requests;
       ret (the artifact # rest, err)
     }
   }"

text \<open>\<^verbatim>\<open>internal/engine/screenshot_names.go\<close>\<close>

definition screenshotExtension :: "string \<Rightarrow> string" where
  "screenshotExtension data =
     (if starts_with (map char_of [137 :: nat, 80, 78, 71, 13, 10, 26, 10]) data then ''.png''
      else if starts_with (map char_of [255 :: nat, 216, 255]) data then ''.jpg''
      else ''.bin'')"

definition screenshotFileName :: "string \<Rightarrow> string \<Rightarrow> string" where
  "screenshotFileName suggested data =
     (let name = TrimSpace suggested; extension = screenshotExtension data
      in if name = '''' then suggested
         else if map lower_ascii (path_Ext name) = map lower_ascii extension then name
         else name @ extension)"

definition failureScreenshotArtifactKind :: string where
  "failureScreenshotArtifactKind = ''failure-screenshot''"

definition failureRequest :: "command_span \<Rightarrow> command \<Rightarrow> outcome \<Rightarrow> string \<Rightarrow> artifact_write_request" where
  "failureRequest sp command out screenshot =
     \<lparr>aw_owner = cs_rootRunID sp, aw_kind = failureScreenshotArtifactKind,
      aw_suggestedName = screenshotFileName (''failure-'' @ dec_padded 6 (cs_sequence sp)) screenshot,
      aw_data = screenshot,
      aw_metadata = Some ([(''depth'', dec_int (cs_depth sp)), (''keyword'', cmd_kind command),
         (''outcome'', outcome_string out), (''rootRunId'', cs_rootRunID sp),
         (''sequence'', dec (cs_sequence sp))]
         @ (if TrimSpace (src_path (cmd_source command)) \<noteq> ''''
            then [(''sourcePath'', src_path (cmd_source command))] else []))\<rparr>"

definition captureFailureEvidence :: "'w deps \<Rightarrow> command_span \<Rightarrow> command \<Rightarrow> outcome \<Rightarrow> go_error option
    \<Rightarrow> ('w, artifact option) exec" where
  "captureFailureEvidence D sp command out productError = do {
     c \<leftarrow> ctx_Err D;
     if c \<noteq> None \<or> (out \<noteq> Failed \<and> out \<noteq> Warned)
        \<or> invalid (inspectTerminalError (d_foreign D) productError)
        \<or> class_of (inspectTerminalError (d_foreign D) productError) \<noteq> terminalErrorRetryable
        \<or> d_artifactSink D = None
     then ret None
     else do {
       shot \<leftarrow> world_op (d_takeScreenshot D);
       case shot of
         Panic m \<Rightarrow> ret None
       | Return (screenshot, err) \<Rightarrow>
           if err \<noteq> None \<or> screenshot = [] then ret None
           else do {
             c \<leftarrow> ctx_Err D;
             if c \<noteq> None then ret None
             else do {
               (artifact, err) \<leftarrow> writeArtifact D (failureRequest sp command out screenshot);
               if err \<noteq> None then ret None
               else do {
                 c \<leftarrow> ctx_Err D;
                 ret (if c \<noteq> None then None
                      else case artifact of None \<Rightarrow> None
                        | Some a \<Rightarrow> if art_kind a \<noteq> failureScreenshotArtifactKind \<or> TrimSpace (art_path a) = ''''
                                   then None else Some a)
               }
             }
           }
     }
   }"

section \<open>Host services\<close>

type_synonym 'w sequence_runner = "int \<Rightarrow> ('w, command_result list \<times> go_error option) exec"
type_synonym 'w flow_runner = "string_map \<Rightarrow> int \<Rightarrow> ('w, flow_result \<times> go_error option) exec"

record 'w runners =
  run_children :: "'w sequence_runner"
  run_linked :: "'w flow_runner option"
  run_inline :: "string \<Rightarrow> config \<Rightarrow> 'w flow_runner"

definition reply_of :: "go_error option \<Rightarrow> host_reply" where
  "reply_of e = (case e of None \<Rightarrow> Granted | Some err \<Rightarrow> Refused err)"

definition sum_reply :: "('a \<Rightarrow> host_reply) \<Rightarrow> go_error + 'a \<Rightarrow> host_reply" where
  "sum_reply f r = (case r of Inl e \<Rightarrow> Refused e | Inr a \<Rightarrow> f a)"

definition handlerRuntime :: "('w, go_error option) exec" where
  "handlerRuntime = do {
     m \<leftarrow> gets es_memo;
     case m of
       Some e \<Rightarrow> ret e
     | None \<Rightarrow> do {
         e \<leftarrow> jsRuntime;
         modifies (\<lambda>s. s\<lparr>es_memo := Some e\<rparr>);
         ret e
       }
   }"

definition childrenMatch :: "command list \<Rightarrow> command list \<Rightarrow> bool" where
  "childrenMatch commands compiled \<longleftrightarrow>
     length commands = length compiled \<and> list_all2 Equivalent commands compiled"

definition executeChildren :: "'w runners \<Rightarrow> command list \<Rightarrow> int \<Rightarrow> command list
    \<Rightarrow> ('w, command_result list \<times> go_error option) exec" where
  "executeChildren R compiled depth commands =
     (if \<not> childrenMatch commands compiled
      then ret ([], Some (NewConfigurationError ''child commands do not match the precompiled sequence'' None))
      else run_children R (depth + 1))"

definition executeFlow :: "'w deps \<Rightarrow> 'w flow_runner option \<Rightarrow> int \<Rightarrow> string_map
    \<Rightarrow> ('w, flow_result \<times> go_error option) exec" where
  "executeFlow D flow depth overlay =
     (case flow of
        None \<Rightarrow> ret (zero_flow_result, Some (NewConfigurationError ''nested compiled flow must not be nil'' None))
      | Some f \<Rightarrow> do {
          c \<leftarrow> ctx_Err D;
          if c \<noteq> None then ret (zero_flow_result, c) else f overlay (depth + 1)
        })"

definition updateCommandMetadata :: "'w deps \<Rightarrow> command_span \<Rightarrow> command_metadata \<Rightarrow> ('w, go_error option) exec" where
  "updateCommandMetadata D sp metadata = do {
     r \<leftarrow> world_op (MetadataUpdated (d_clock D) sp (cloneMetadata metadata));
     case r of
       Inl e \<Rightarrow> ret (Some e)
     | Inr e \<Rightarrow> do { _ \<leftarrow> DispatchListeners D e None; ret None }
   }"

definition resetCommand :: "'w deps \<Rightarrow> command_span \<Rightarrow> command_result \<Rightarrow> ('w, go_error option) exec" where
  "resetCommand D sp previous = do {
     L \<leftarrow> gets es_ledger;
     case authenticate L (cloneCommandResult previous) of
       None \<Rightarrow> ret (Some (NewConfigurationError ''command reset requires the exact recorded child result'' None))
     | Some recorded \<Rightarrow> do {
         r \<leftarrow> world_op (CommandReset (d_clock D) sp recorded);
         case r of
           Inl e \<Rightarrow> ret (Some e)
         | Inr e \<Rightarrow> do { _ \<leftarrow> DispatchListeners D e None; ret None }
       }
   }"

fun host_service :: "'w deps \<Rightarrow> 'w runners \<Rightarrow> command_span \<Rightarrow> command list \<Rightarrow> int \<Rightarrow> host_request
    \<Rightarrow> ('w, host_reply) exec" where
  "host_service D R sp compiled depth RuntimeRequest = do { e \<leftarrow> handlerRuntime; ret (reply_of e) }"
| "host_service D R sp compiled depth LookupRequest = do { e \<leftarrow> elementLookup; ret (reply_of e) }"
| "host_service D R sp compiled depth ConfigRequest = do { r \<leftarrow> currentConfig; ret (sum_reply ConfigReply r) }"
| "host_service D R sp compiled depth CopiedTextRequest = do { r \<leftarrow> copiedTextValue; ret (sum_reply TextReply r) }"
| "host_service D R sp compiled depth (SetCopiedTextRequest v) = do { e \<leftarrow> setCopiedText D v; ret (reply_of e) }"
| "host_service D R sp compiled depth (PutEnvRequest k v) = do { e \<leftarrow> putEnv D k v; ret (reply_of e) }"
| "host_service D R sp compiled depth CompiledChildrenRequest = ret (CommandsReply compiled)"
| "host_service D R sp compiled depth (ExecuteChildrenRequest commands) = do {
     (results, err) \<leftarrow> executeChildren R compiled depth commands;
     ret (ChildrenReply results err)
   }"
| "host_service D R sp compiled depth (ExecuteLinkedFlowRequest overlay) = do {
     (result, err) \<leftarrow> executeFlow D (run_linked R) depth overlay;
     ret (FlowReply result err)
   }"
| "host_service D R sp compiled depth (ExecuteInlineFlowRequest path config overlay) = do {
     (result, err) \<leftarrow> executeFlow D (Some (run_inline R path config)) depth overlay;
     ret (FlowReply result err)
   }"
| "host_service D R sp compiled depth (UpdateMetadataRequest metadata) = do {
     e \<leftarrow> updateCommandMetadata D sp metadata;
     ret (reply_of e)
   }"
| "host_service D R sp compiled depth DepthRequest = ret (DepthReply depth)"
| "host_service D R sp compiled depth (ResetCommandRequest previous) = do {
     e \<leftarrow> resetCommand D sp previous;
     ret (reply_of e)
   }"

text \<open>The evaluation context exposes JavaScript and the active configuration, nothing else.\<close>

fun evaluation_service :: "'w deps \<Rightarrow> host_request \<Rightarrow> ('w, host_reply) exec" where
  "evaluation_service D RuntimeRequest = do { e \<leftarrow> handlerRuntime; ret (reply_of e) }"
| "evaluation_service D ConfigRequest = do { r \<leftarrow> currentConfig; ret (sum_reply ConfigReply r) }"
| "evaluation_service D _ = ret (Refused (NewConfigurationError ''not offered by the evaluation context'' None))"

definition run_program :: "(host_request \<Rightarrow> ('w, host_reply) exec) \<Rightarrow> ('w, 'a) prog
    \<Rightarrow> ('w, 'a go_return \<times> string list) exec" where
  "run_program host p = State (\<lambda>s.
     case run_prog (\<lambda>q. run_state (host q)) es_world (\<lambda>w s. s\<lparr>es_world := w\<rparr>) p s of
       (r, logs, s') \<Rightarrow> ((r, logs), s'))"

section \<open>Running a handler\<close>

definition invoke_prog :: "(host_request \<Rightarrow> ('w, host_reply) exec) \<Rightarrow> ('w, 'a) prog option
    \<Rightarrow> ('w, 'a go_return \<times> string list) exec" where
  "invoke_prog host p =
     (case p of None \<Rightarrow> ret (Panic ''nil function'', []) | Some q \<Rightarrow> run_program host q)"

definition evaluated_reply :: "command \<Rightarrow> ('v evaluated_dispatch \<times> go_error option) go_return
    \<Rightarrow> 'v evaluated_dispatch \<times> go_error option" where
  "evaluated_reply command r =
     (case r of
        Panic m \<Rightarrow> (zero_evaluated, Some (NewConfigurationError ''handler evaluator panicked'' (Some (Plain_Error m))))
      | Return (evaluated, err) \<Rightarrow>
          (let evaluated = evaluated\<lparr>ed_command := cloneCommand (ed_command evaluated)\<rparr>
           in if err \<noteq> None then (evaluated, err)
              else if cmd_kind (ed_command evaluated) \<noteq> cmd_kind command
              then (zero_evaluated, Some (NewConfigurationError ''handler evaluator changed the command keyword'' None))
              else if ed_value evaluated = None
              then (zero_evaluated, Some (NewConfigurationError ''handler evaluator returned nil without an error'' None))
              else (evaluated, None)))"

definition dispatcher_evaluate :: "'w deps \<Rightarrow> ('w, 'v) handler_spec \<Rightarrow> command \<Rightarrow> 'v
    \<Rightarrow> ('w, ('v evaluated_dispatch \<times> go_error option) \<times> string list) exec" where
  "dispatcher_evaluate D spec command v = do {
     (r, logs) \<leftarrow> invoke_prog (evaluation_service D)
        (map_option (\<lambda>f. f (cloneCommand command) v) (spec_evaluate spec));
     ret (evaluated_reply command r, logs)
   }"

definition operation_of :: "command \<Rightarrow> string" where
  "operation_of command = ''command '' @ cmd_kind command @ '' failed''"

definition dispatcher_execute :: "'w deps \<Rightarrow> (host_request \<Rightarrow> ('w, host_reply) exec) \<Rightarrow> ('w, 'v) handler_spec
    \<Rightarrow> command \<Rightarrow> 'v evaluated_dispatch \<Rightarrow> ('w, (command_effect \<times> go_error option) \<times> string list) exec" where
  "dispatcher_execute D host spec command evaluated = do {
     (r, logs) \<leftarrow> invoke_prog host (map_option (\<lambda>f. f evaluated) (spec_execute spec));
     L \<leftarrow> gets es_ledger;
     ret (case r of
            Panic m \<Rightarrow> (no_effect, Some (NewConfigurationError ''handler executor panicked'' (Some (Plain_Error m))))
          | Return (effect, err) \<Rightarrow>
              finalizeExactErrorRequest (d_foreign D) (operation_of command) L spec effect err, logs)
   }"

definition invokeSettleRequestFactory :: "('w, 'v) handler_spec \<Rightarrow> 'v evaluated_dispatch
    \<Rightarrow> go_error + settle_request" where
  "invokeSettleRequestFactory spec evaluated =
     (case spec_settleRequest spec of
        None \<Rightarrow> Inl (NewConfigurationError ''handler settle request factory is unavailable'' None)
      | Some factory \<Rightarrow>
          (case factory evaluated of
             Panic m \<Rightarrow> Inl (NewConfigurationError ''handler settle request factory panicked'' (Some (Plain_Error m)))
           | Return (request, err) \<Rightarrow>
               if err \<noteq> None then Inl (NewConfigurationError ''handler settle request factory failed'' err)
               else if TrimSpace (settle_appID request) = ''''
               then Inl (NewConfigurationError ''handler settle request requires a non-blank app ID'' None)
               else if (case settle_timeoutMillis request of None \<Rightarrow> False | Some t \<Rightarrow> t < 0)
               then Inl (NewConfigurationError ''handler settle request timeout must not be negative'' None)
               else Inr request))"

definition applyPostAction :: "'w deps \<Rightarrow> ('w, 'v) handler_spec \<Rightarrow> command \<Rightarrow> 'v evaluated_dispatch
    \<Rightarrow> ('w, go_error option) exec" where
  "applyPostAction D spec command evaluated =
     (case spec_postAction spec of
        postActionUnspecified \<Rightarrow> ret None
      | postActionNoSettle \<Rightarrow> ret None
      | postActionSettle \<Rightarrow> do {
          err \<leftarrow> elementLookup;
          if err \<noteq> None
          then ret (normalizeTerminalError (d_foreign D)
                 (''command '' @ cmd_kind command @ '' post-action lookup failed'') err)
          else do {
            t \<leftarrow> now D;
            _ \<leftarrow> world_op (d_recordInteraction D t);
            case invokeSettleRequestFactory spec evaluated of
              Inl e \<Rightarrow> ret (Some e)
            | Inr request \<Rightarrow> do {
                err \<leftarrow> world_op (d_waitForSettle D request);
                ret (normalizeTerminalError (d_foreign D)
                       (''command '' @ cmd_kind command @ '' settle failed'') err)
              }
          }
        }
      | _ \<Rightarrow> ret (Some (NewConfigurationError ''handler has an invalid post-action policy'' None)))"

text \<open>The evaluated command that the effect reports, and whether its keyword was changed.\<close>

definition keep_evaluated :: "command \<Rightarrow> command_effect \<Rightarrow> command_effect \<times> bool" where
  "keep_evaluated evaluated effect =
     (case eff_evaluatedCommand effect of
        None \<Rightarrow> (effect\<lparr>eff_evaluatedCommand := Some (cloneCommand evaluated)\<rparr>, False)
      | Some c \<Rightarrow>
          if cmd_kind (cloneCommand c) \<noteq> cmd_kind evaluated
          then (effect\<lparr>eff_evaluatedCommand := Some (cloneCommand evaluated)\<rparr>, True)
          else (effect\<lparr>eff_evaluatedCommand := Some (cloneCommand c)\<rparr>, False))"

definition after_execute :: "'w deps \<Rightarrow> ('w, 'v) handler_spec \<Rightarrow> command \<Rightarrow> 'v evaluated_dispatch
    \<Rightarrow> command_effect \<times> go_error option \<Rightarrow> ('w, command_effect \<times> go_error option) exec" where
  "after_execute D spec command evaluated outcome0 =
     (case outcome0 of (effect0, err) \<Rightarrow>
      (case keep_evaluated (ed_command evaluated) effect0 of (effect, changed) \<Rightarrow>
        if changed \<and> err = None
        then ret (effect, Some (NewConfigurationError ''handler effect changed the evaluated command keyword'' None))
        else do {
          c \<leftarrow> ctx_Err D;
          if c \<noteq> None
          then ret (if isSessionIntegrityError err then (effect, err) else (clearExactErrorState effect, c))
          else if err \<noteq> None then ret (effect, err)
          else (case validateSuccessfulEffect (spec_effectClass spec) (effectClass effect) of
            Some e \<Rightarrow> ret (effect, Some e)
          | None \<Rightarrow> do {
              e \<leftarrow> applyPostAction D spec command evaluated;
              if e \<noteq> None then ret (effect, e)
              else do {
                c \<leftarrow> ctx_Err D;
                ret (if c \<noteq> None then (clearExactErrorState effect, c) else (effect, None))
              }
            })
        }))"

definition handler_body :: "'w deps \<Rightarrow> (host_request \<Rightarrow> ('w, host_reply) exec) \<Rightarrow> ('w, 'v) handler_spec
    \<Rightarrow> command \<Rightarrow> 'v \<Rightarrow> ('w, (command_effect \<times> go_error option) \<times> string list) exec" where
  "handler_body D host spec command v = do {
     ((evaluated, err), logs) \<leftarrow> dispatcher_evaluate D spec command v;
     let effect = (if cmd_kind (ed_command evaluated) \<noteq> ''''
                   then no_effect\<lparr>eff_evaluatedCommand := Some (cloneCommand (ed_command evaluated))\<rparr>
                   else no_effect);
     if err \<noteq> None then ret ((effect, err), logs)
     else do {
       c \<leftarrow> ctx_Err D;
       if c \<noteq> None then ret ((effect, c), logs)
       else do {
         (r, logs') \<leftarrow> dispatcher_execute D host spec command evaluated;
         r \<leftarrow> after_execute D spec command evaluated r;
         ret (r, logs @ logs')
       }
     }
   }"

definition runHandler :: "'w deps \<Rightarrow> (host_request \<Rightarrow> ('w, host_reply) exec) \<Rightarrow> ('w, 'v) handler_spec
    \<Rightarrow> command \<Rightarrow> 'v \<Rightarrow> ('w, command_effect \<times> go_error option) exec" where
  "runHandler D host spec command v = do {
     outer \<leftarrow> gets es_memo;
     modifies (\<lambda>s. s\<lparr>es_memo := None\<rparr>);
     ((effect, err), logs) \<leftarrow> handler_body D host spec command v;
     modifies (\<lambda>s. s\<lparr>es_memo := outer\<rparr>);
     ret (effect\<lparr>eff_logMessages := append_nil (Some (logs @ elems (eff_logMessages effect)))\<rparr>, err)
   }"

section \<open>The command span\<close>

definition begin_command :: "'w deps \<Rightarrow> command \<Rightarrow> int \<Rightarrow> ('w, go_error + command_span \<times> event) exec" where
  "begin_command D command depth = State (\<lambda>s.
     case BeginCommand (d_clock D) (es_timeline s) command depth (es_world s) of
       (Inl e, w) \<Rightarrow> (Inl e, s\<lparr>es_world := w\<rparr>)
     | (Inr (sp, started, t), w) \<Rightarrow> (Inr (sp, started), s\<lparr>es_world := w, es_timeline := t\<rparr>))"

definition finish_command :: "'w deps \<Rightarrow> command_span \<Rightarrow> outcome \<Rightarrow> go_error option \<Rightarrow> command_metadata
    \<Rightarrow> artifact slice \<Rightarrow> ('w, go_error + command_result \<times> event) exec" where
  "finish_command D sp out err metadata artifacts = State (\<lambda>s.
     case FinishWithArtifacts (d_foreign D) (d_clock D) sp out err metadata artifacts (es_heap s) (es_world s) of
       (Inl e, w) \<Rightarrow> (Inl e, s\<lparr>es_world := w\<rparr>)
     | (Inr (result, finished, sp', h), w) \<Rightarrow> (Inr (result, finished), s\<lparr>es_world := w, es_heap := h\<rparr>))"

definition seal_result :: "command_result \<Rightarrow> ('w, command_result) exec" where
  "seal_result r = State (\<lambda>s. case sealCommandResultErrors r (es_heap s) of (r', h) \<Rightarrow> (r', s\<lparr>es_heap := h\<rparr>))"

definition record_command :: "command_result \<Rightarrow> ('w, go_error option) exec" where
  "record_command r = State (\<lambda>s.
     case record_result (es_ledger s) r (es_heap s) of
       Inl e \<Rightarrow> (Some e, s)
     | Inr (L, h) \<Rightarrow> (None, s\<lparr>es_ledger := L, es_heap := h\<rparr>))"

type_synonym 'w handler_run = "command_span \<Rightarrow> ('w, command_effect \<times> go_error option) exec"

text \<open>The handler part of \<^verbatim>\<open>runCommandSpan\<close>: effect, product error, artifacts.\<close>

definition run_effects :: "'w deps \<Rightarrow> 'w handler_run option \<Rightarrow> command_span \<Rightarrow> go_error option
    \<Rightarrow> ('w, command_effect \<times> go_error option \<times> artifact slice) exec" where
  "run_effects D handler sp productError =
     (case (productError, handler) of
        (None, Some run) \<Rightarrow> do {
          (effect, err) \<leftarrow> run sp;
          err \<leftarrow> (if err = None then ctx_Err D else ret err);
          (written, artifactError) \<leftarrow> writeArtifacts D (elems (artifactWrites effect));
          err \<leftarrow> (if err = None \<and> artifactError \<noteq> None
                 then do {
                   c \<leftarrow> ctx_Err D;
                   ret (if c \<noteq> None then c
                        else Some (NewConfigurationError ''artifact finalization failed'' artifactError))
                 }
                 else ret err);
          ret (effect, err, append_slice (finalizedArtifacts effect) written)
        }
      | _ \<Rightarrow> ret (no_effect, productError, None))"

text \<open>Product error and the error its outcome is classified by.\<close>

definition settle_error :: "foreign \<Rightarrow> string \<Rightarrow> command_effect \<Rightarrow> go_error option
    \<Rightarrow> command_effect \<times> go_error option \<times> go_error option" where
  "settle_error F operation effect productError =
     (case exactErrorDisposition effect of
        Some d \<Rightarrow>
          if invalidExactErrorDisposition F operation (Some d)
          then (let e = Some (NewConfigurationError ''exact-error disposition is incoherent'' None)
                in (clearExactErrorState effect, e, e))
          else (effect, published d, disp_classification d)
      | None \<Rightarrow> (let e = normalizeTerminalError F operation productError in (effect, e, e)))"

definition settle_metadata :: "command_metadata \<Rightarrow> go_error option \<times> go_error option
    \<Rightarrow> command_metadata \<times> go_error option \<times> go_error option" where
  "settle_metadata metadata errs =
     (case (validateCommandMetadata metadata, errs) of
        (None, (productError, classification)) \<Rightarrow> (metadata, productError, classification)
      | (Some e, (productError, classification)) \<Rightarrow>
          (metadata\<lparr>numberOfRuns := 0, numberOfRunsSet := False\<rparr>,
           if productError = None then Some e else productError,
           if productError = None then Some e else classification))"

definition with_publication :: "command_effect \<Rightarrow> go_error option \<Rightarrow> go_error option \<Rightarrow> command_result \<Rightarrow> command_result" where
  "with_publication effect surface classification result =
     (if exactErrorDisposition effect \<noteq> None \<and> surface \<noteq> None
      then result\<lparr>res_retry := Some \<lparr>rec_classification = classification,
                                     publication = exactErrorDisposition effect\<rparr>\<rparr>
      else result)"

definition finish_span :: "'w deps \<Rightarrow> command \<Rightarrow> command_span \<Rightarrow> command_effect \<times> go_error option \<times> artifact slice
    \<Rightarrow> ('w, command_result \<times> go_error option) exec" where
  "finish_span D command sp ended =
     (case ended of (effect0, err, artifacts) \<Rightarrow>
      (case settle_error (d_foreign D) (operation_of command) effect0 err of (effect, errs) \<Rightarrow>
       (case settle_metadata (metadataForEffect command effect) errs of (metadata, productError, classification) \<Rightarrow>
        (let out = ClassifyOutcome (d_foreign D) classification (commandIsOptional command);
             surface = surfacedExecutionError out productError
         in do {
           evidence \<leftarrow> captureFailureEvidence D sp command out classification;
           finished \<leftarrow> finish_command D sp out productError metadata
              (append_slice artifacts (case evidence of None \<Rightarrow> [] | Some a \<Rightarrow> [a]));
           case finished of
             Inl e \<Rightarrow> ret (zero_result, if productError \<noteq> None then productError else Some e)
           | Inr (result, finished) \<Rightarrow> do {
               result \<leftarrow> seal_result (with_publication effect surface classification result);
               refused \<leftarrow> record_command result;
               if refused \<noteq> None
               then ret (result, if productError \<noteq> None then productError else refused)
               else do {
                 _ \<leftarrow> DispatchListeners D finished None;
                 ret (result, surface)
               }
             }
         }))))"

definition runCommandSpan :: "'w deps \<Rightarrow> command \<Rightarrow> 'w handler_run option \<Rightarrow> int \<Rightarrow> go_error option
    \<Rightarrow> ('w, command_result \<times> go_error option) exec" where
  "runCommandSpan D command handler depth productError0 = do {
     begun \<leftarrow> begin_command D command depth;
     case begun of
       Inl e \<Rightarrow> ret (zero_result, Some e)
     | Inr (sp, started) \<Rightarrow> do {
         let productError = sanitizeMalformedError (d_foreign D) (operation_of command) productError0;
         _ \<leftarrow> DispatchListeners D started productError;
         productError \<leftarrow> (if productError = None then ctx_Err D else ret productError);
         ended \<leftarrow> run_effects D handler sp productError;
         finish_span D command sp ended
       }
   }"

section \<open>Commands and sequences\<close>

definition controller_error :: "'w deps \<Rightarrow> ('w, go_error option) exec" where
  "controller_error D = do {
     c \<leftarrow> ctx_Err D;
     if c \<noteq> None then ret c
     else do {
       r \<leftarrow> WaitForController D None;
       if EffectiveError r = None then ret None
       else do {
         c \<leftarrow> ctx_Err D;
         ret (if c \<noteq> None then c
              else if cr_failureMalformed r then EffectiveError r
              else Some (NewConfigurationError ''controller wait failed'' (EffectiveError r)))
       }
     }
   }"

definition execute_compiled :: "'w deps \<Rightarrow> ('w, 'v) handler_spec \<Rightarrow> command \<Rightarrow> 'v \<Rightarrow> command list \<Rightarrow> 'w runners
    \<Rightarrow> int \<Rightarrow> ('w, command_result \<times> go_error option) exec" where
  "execute_compiled D spec command v compiled R depth =
     (case validateRequiredService D spec of
        Some e \<Rightarrow> ret (zero_result, Some e)
      | None \<Rightarrow> do {
          productError \<leftarrow> controller_error D;
          runCommandSpan D command
            (Some (\<lambda>sp. runHandler D (host_service D R sp compiled depth) spec command v)) depth productError
        })"

type_synonym 'w command_runner = "int \<Rightarrow> ('w, command_result \<times> go_error option) exec"

definition unauthenticated :: "go_error option" where
  "unauthenticated =
     Some (NewConfigurationError ''command execution returned an unauthenticated result'' None)"

fun run_items :: "'w command_runner list \<Rightarrow> int \<Rightarrow> command_result list
    \<Rightarrow> ('w, command_result list \<times> go_error option) exec" where
  "run_items [] depth results = ret (results, None)"
| "run_items (item # items) depth results = do {
     (candidate, err) \<leftarrow> item depth;
     L \<leftarrow> gets es_ledger;
     case authenticate L candidate of
       None \<Rightarrow> ret (results, if err \<noteq> None then err else unauthenticated)
     | Some result \<Rightarrow>
         if err \<noteq> None then ret (results @ [result], err)
         else run_items items depth (results @ [result])
   }"

definition executeCompiledSequence :: "'w command_runner list
    \<Rightarrow> int \<Rightarrow> ('w, command_result list \<times> go_error option) exec" where
  "executeCompiledSequence items depth =
     (case validateExecutionInput depth of
        Some e \<Rightarrow> ret ([], Some e)
      | None \<Rightarrow> run_items items depth [])"

end
