(* ===== verification/Flow_Run.thy ===== *)
theory Flow_Run
  imports Executor
begin

text \<open>
  \<^verbatim>\<open>internal/engine/flow_executor.go\<close>, \<^verbatim>\<open>internal/engine/failure_policy.go\<close>, the session
  constructor of \<^verbatim>\<open>internal/engine/session.go\<close> and \<^verbatim>\<open>internal/engine/execution.go\<close>: flow
  lifecycles, the failure policy of a selected root, and the execution of a plan's roots.

  Compiled commands and flows form one finite tree (a flow is compiled only after the flows it
  links), so \<open>executeCompiled\<close> and \<open>executeCompiledFlow\<close> are structurally recursive.
\<close>

section \<open>Failure policy\<close>

definition rootTerminalPrecedence :: "foreign \<Rightarrow> go_error option \<Rightarrow> nat" where
  "rootTerminalPrecedence F e =
     (if isSessionIntegrityError e then terminalClassPrecedence terminalErrorConfiguration
      else case classifyTerminalError F e of
        terminalErrorCancelled \<Rightarrow> terminalClassPrecedence terminalErrorCancelled
      | terminalErrorDeviceConnection \<Rightarrow> terminalClassPrecedence terminalErrorDeviceConnection
      | _ \<Rightarrow> 0)"

definition add_failure :: "foreign \<Rightarrow> go_error option \<Rightarrow> go_error option \<Rightarrow> go_error option" where
  "add_failure F acc e =
     (if e = None then acc
      else if acc = None \<or> rootTerminalPrecedence F e > rootTerminalPrecedence F acc then e
      else acc)"

definition failureResolverBypassed :: "foreign \<Rightarrow> go_error option \<Rightarrow> bool" where
  "failureResolverBypassed F e \<longleftrightarrow>
     isSessionIntegrityError e
     \<or> classifyTerminalError F e \<in> {terminalErrorCancelled, terminalErrorDeviceConnection}"

definition failureResolverContinues :: "'w deps \<Rightarrow> command_result \<Rightarrow> ('w, bool) exec" where
  "failureResolverContinues D result =
     (case d_failureResolver D of
        None \<Rightarrow> ret False
      | Some resolver \<Rightarrow> do {
          r \<leftarrow> world_op (resolver result);
          ret (case r of Panic m \<Rightarrow> False | Return continues \<Rightarrow> continues)
        })"

fun run_root_items :: "'w deps \<Rightarrow> 'w command_runner list \<Rightarrow> int \<Rightarrow> go_error option
    \<Rightarrow> ('w, go_error option \<times> bool) exec" where
  "run_root_items D [] depth acc = ret (acc, False)"
| "run_root_items D (item # items) depth acc = do {
     (candidate, err) \<leftarrow> item depth;
     L \<leftarrow> gets es_ledger;
     case authenticate L candidate of
       None \<Rightarrow> ret (add_failure (d_foreign D) acc (if err = None then unauthenticated else err), True)
     | Some command \<Rightarrow>
         if err = None then run_root_items D items depth acc
         else (let acc = add_failure (d_foreign D) acc err
               in if failureResolverBypassed (d_foreign D) err then ret (acc, True)
                  else do {
                    continues \<leftarrow> failureResolverContinues D command;
                    if continues then run_root_items D items depth acc else ret (acc, True)
                  })
   }"

definition executeRootSequenceWithPolicy :: "'w deps \<Rightarrow> 'w command_runner list \<Rightarrow> int
    \<Rightarrow> ('w, go_error option \<times> bool) exec" where
  "executeRootSequenceWithPolicy D items depth =
     (case validateExecutionInput depth of
        Some e \<Rightarrow> ret (Some e, True)
      | None \<Rightarrow> run_root_items D items depth None)"

section \<open>Flow lifecycle\<close>

datatype flow_ownership = nestedFlowExecution | selectedRootExecution

record 'w flow_parts =
  fp_path :: string
  fp_config :: config
  fp_onStart :: "'w command_runner list"
  fp_body :: "'w command_runner list"
  fp_onComplete :: "'w command_runner list"

definition firstError :: "go_error option \<Rightarrow> go_error option \<Rightarrow> go_error option" where
  "firstError primary later = (if primary \<noteq> None then primary else later)"

definition classifyFlowOutcome :: "foreign \<Rightarrow> go_error option \<Rightarrow> command_result list \<Rightarrow> int \<Rightarrow> outcome" where
  "classifyFlowOutcome F productError commands depth =
     (if productError \<noteq> None then ClassifyOutcome F productError False
      else if list_ex (\<lambda>c. res_depth c = depth \<and> res_outcome c = Warned) commands then Warned
      else Completed)"

definition nested_sequences :: "'w flow_parts \<Rightarrow> int \<Rightarrow> ('w, go_error option) exec" where
  "nested_sequences parts depth = do {
     (_, primary) \<leftarrow> executeCompiledSequence (fp_onStart parts) depth;
     primary \<leftarrow> (if primary = None
        then do { (_, e) \<leftarrow> executeCompiledSequence (fp_body parts) depth; ret e }
        else ret primary);
     if \<not> isSessionIntegrityError primary
     then do { (_, e) \<leftarrow> executeCompiledSequence (fp_onComplete parts) depth; ret (firstError primary e) }
     else ret primary
   }"

definition nested_phases :: "'w deps \<Rightarrow> 'w flow_parts \<Rightarrow> flow_scope \<Rightarrow> int \<Rightarrow> ('w, go_error option) exec" where
  "nested_phases D parts scope depth = do {
     primary \<leftarrow> nested_sequences parts depth;
     (e, _) \<leftarrow> flowScope_Close D scope;
     ret (firstError primary e)
   }"

definition root_sequences :: "'w deps \<Rightarrow> 'w flow_parts \<Rightarrow> int \<Rightarrow> go_error option \<Rightarrow> ('w, go_error option) exec" where
  "root_sequences D parts depth acc = do {
     (failure, halted) \<leftarrow> executeRootSequenceWithPolicy D (fp_onStart parts) depth;
     let acc = add_failure (d_foreign D) acc failure;
     acc \<leftarrow> (if \<not> halted
        then do {
          (failure, _) \<leftarrow> executeRootSequenceWithPolicy D (fp_body parts) depth;
          ret (add_failure (d_foreign D) acc failure)
        }
        else ret acc);
     if \<not> isSessionIntegrityError acc
     then do {
       (failure, _) \<leftarrow> executeRootSequenceWithPolicy D (fp_onComplete parts) depth;
       ret (add_failure (d_foreign D) acc failure)
     }
     else ret acc
   }"

definition root_phases :: "'w deps \<Rightarrow> 'w flow_parts \<Rightarrow> flow_scope \<Rightarrow> int \<Rightarrow> go_error option
    \<Rightarrow> ('w, go_error option) exec" where
  "root_phases D parts scope depth acc = do {
     acc \<leftarrow> root_sequences D parts depth acc;
     (e, _) \<leftarrow> flowScope_Close D scope;
     ret (add_failure (d_foreign D) acc e)
   }"

definition flow_phases :: "'w deps \<Rightarrow> flow_ownership \<Rightarrow> 'w flow_parts \<Rightarrow> string_map \<Rightarrow> int
    \<Rightarrow> ('w, go_error option) exec" where
  "flow_phases D ownership parts overlay depth = do {
     primary \<leftarrow> ctx_Err D;
     primary \<leftarrow> (if primary \<noteq> None then ret primary
        else do {
          entered \<leftarrow> enterFlow D (fp_path parts) (fp_config parts) overlay;
          case entered of
            Inl e \<Rightarrow> ret (Some e)
          | Inr scope \<Rightarrow>
              (case ownership of
                 selectedRootExecution \<Rightarrow> root_phases D parts scope depth None
               | nestedFlowExecution \<Rightarrow> nested_phases D parts scope depth)
        });
     (case ownership of
        nestedFlowExecution \<Rightarrow> ret primary
      | selectedRootExecution \<Rightarrow> do {
          e \<leftarrow> Session_Close D;
          ret (add_failure (d_foreign D) primary e)
        })
   }"

definition begin_flow :: "'w deps \<Rightarrow> string \<Rightarrow> string \<Rightarrow> int \<Rightarrow> ('w, go_error + flow_span \<times> event) exec" where
  "begin_flow D path name depth = State (\<lambda>s.
     case BeginFlow (d_clock D) (es_timeline s) path name depth (es_world s) of
       (r, w) \<Rightarrow> (r, s\<lparr>es_world := w\<rparr>))"

definition executeFlowLifecycle :: "'w deps \<Rightarrow> flow_ownership \<Rightarrow> 'w flow_parts \<Rightarrow> 'w flow_runner" where
  "executeFlowLifecycle D ownership parts overlay depth =
     (if depth < 0
      then ret (zero_flow_result, Some (NewConfigurationError ''flow depth must not be negative'' None))
      else do {
        begun \<leftarrow> begin_flow D (fp_path parts) (cfg_name (fp_config parts)) depth;
        case begun of
          Inl e \<Rightarrow> ret (zero_flow_result, Some e)
        | Inr (sp, started) \<Rightarrow> do {
            _ \<leftarrow> DispatchListeners D started None;
            checkpoint \<leftarrow> gets (\<lambda>s. Checkpoint (es_timeline s));
            primary \<leftarrow> flow_phases D ownership parts overlay depth;
            let primary = sanitizeMalformedError (d_foreign D) ''flow execution failed'' primary;
            commands \<leftarrow> gets (\<lambda>s. snapshotAfter (es_ledger s) checkpoint);
            finished \<leftarrow> world_op (FlowSpan_Finish (d_foreign D) (d_clock D) sp
               (classifyFlowOutcome (d_foreign D) primary commands depth) primary (Some commands));
            case finished of
              Inl e \<Rightarrow> ret (zero_flow_result, firstError primary (Some e))
            | Inr (result, finished, _) \<Rightarrow> do {
                _ \<leftarrow> DispatchListeners D finished primary;
                ret (result, primary)
              }
          }
      })"

section \<open>Commands and flows as one tree\<close>

fun executeCompiled :: "'w deps \<Rightarrow> ('w, 'v) compiled_dispatch \<Rightarrow> 'w command_runner"
  and executeCompiledFlow :: "'w deps \<Rightarrow> ('w, 'v) compiled_flow \<Rightarrow> 'w flow_runner" where
  "executeCompiled D (CompiledDispatch command spec v kids linked) =
     execute_compiled D spec command v (map cd_command kids)
       \<lparr>run_children = executeCompiledSequence (map (executeCompiled D) kids),
        run_linked = map_option (executeCompiledFlow D) linked,
        run_inline = (\<lambda>path config. executeFlowLifecycle D nestedFlowExecution
          \<lparr>fp_path = path, fp_config = config, fp_onStart = [], fp_body = map (executeCompiled D) kids,
           fp_onComplete = []\<rparr>)\<rparr>"
| "executeCompiledFlow D (CompiledFlow path config start body finish) =
     executeFlowLifecycle D nestedFlowExecution
       \<lparr>fp_path = path, fp_config = config, fp_onStart = map (executeCompiled D) start,
        fp_body = map (executeCompiled D) body, fp_onComplete = map (executeCompiled D) finish\<rparr>"

definition parts_of :: "'w deps \<Rightarrow> ('w, 'v) compiled_flow \<Rightarrow> 'w flow_parts" where
  "parts_of D flow = \<lparr>fp_path = cf_path flow, fp_config = cf_config flow,
     fp_onStart = map (executeCompiled D) (cf_onStart flow),
     fp_body = map (executeCompiled D) (cf_body flow),
     fp_onComplete = map (executeCompiled D) (cf_onComplete flow)\<rparr>"

section \<open>Roots\<close>

definition new_state :: "string \<Rightarrow> nat \<Rightarrow> 'w \<Rightarrow> 'w exec_state" where
  "new_state rootRunID h w =
     \<lparr>es_world = w, es_timeline = newTimeline rootRunID, es_heap = h,
      es_ledger = newCommandResultLedger, es_trace = [], es_frames = [], es_poisoned = False,
      es_closed = False, es_closeErr = None, es_copiedText = '''', es_activeApp = '''', es_memo = None\<rparr>"

text \<open>\<^verbatim>\<open>newExecutionSessionForRootRun\<close>: the runtime is closed again on every later failure.\<close>

definition newExecutionSession :: "'w deps \<Rightarrow> ('w, go_error option) exec" where
  "newExecutionSession D = do {
     c \<leftarrow> ctx_Err D;
     err \<leftarrow> (if c \<noteq> None then ret c
        else do {
          (present, e) \<leftarrow> world_op (d_newRuntime D);
          if e \<noteq> None
          then do { _ \<leftarrow> (if present then world_op (d_closeRuntime D) else ret None); ret e }
          else if \<not> present
          then ret (Some (NewConfigurationError ''JavaScript factory returned a nil runtime'' None))
          else do {
            info \<leftarrow> world_op (d_deviceInfo D);
            e \<leftarrow> (case info of
                Inl e \<Rightarrow> ret (Some e)
              | Inr platform \<Rightarrow> first_failure [ctx_Err D, world_op (d_setPlatform D platform), ctx_Err D]);
            if e \<noteq> None then do { _ \<leftarrow> world_op (d_closeRuntime D); ret e } else ret None
          }
        });
     ret (sanitizeMalformedError (d_foreign D) ''execution session setup failed'' err)
   }"

definition session_run :: "'w deps \<Rightarrow> ('w, 'v) compiled_flow \<Rightarrow> ('w, flow_result \<times> go_error option) exec" where
  "session_run D rootFlow =
     executeFlowLifecycle D selectedRootExecution (parts_of D rootFlow) (d_externalEnvironment D) 0"

definition executeCompiledRootForRun :: "'w deps \<Rightarrow> ('w, 'v) compiled_flow \<Rightarrow> ('w, flow_result \<times> go_error option) exec" where
  "executeCompiledRootForRun D rootFlow = do {
     err \<leftarrow> newExecutionSession D;
     if err \<noteq> None then ret (zero_flow_result, err)
     else do {
       (result, runErr) \<leftarrow> session_run D rootFlow;
       closeErr \<leftarrow> Session_Close D;
       ret (result, if runErr \<noteq> None then runErr else closeErr)
     }
   }"

record 'w plan =
  plan_executionID :: string
  plan_sequencedRoots :: int
  plan_continueOnFailure :: bool

text \<open>One turn of the root loop of \<^verbatim>\<open>Execute\<close> is one call; the heap counter is threaded so that no
  two sessions share an address.\<close>

fun execute_roots :: "'w deps \<Rightarrow> 'w plan \<Rightarrow> nat \<Rightarrow> ('w, 'v) compiled_flow option list
    \<Rightarrow> flow_result list \<Rightarrow> go_error option \<Rightarrow> nat \<Rightarrow> 'w \<Rightarrow> (flow_result list \<times> go_error option) \<times> nat \<times> 'w" where
  "execute_roots D P i [] results firstFailure h w = ((results, firstFailure), h, w)"
| "execute_roots D P i (None # roots) results firstFailure h w =
     ((results, Some (NewConfigurationError ''compiled root flow is missing'' None)), h, w)"
| "execute_roots D P i (Some rootFlow # roots) results firstFailure h w =
     (case run_state (executeCompiledRootForRun D rootFlow)
             (new_state (plan_executionID P @ ''/root-run-'' @ dec_padded 6 (i + 1)) h w) of
        ((result, err), s) \<Rightarrow>
          (let results = (if fr_path result \<noteq> '''' then results @ [result] else results);
               firstFailure' = (if firstFailure = None then err else firstFailure)
           in if err = None
              then execute_roots D P (i + 1) roots results firstFailure (es_heap s) (es_world s)
              else if int i < plan_sequencedRoots P \<and> \<not> plan_continueOnFailure P
              then ((results, firstFailure'), es_heap s, es_world s)
              else (case d_ctxErr D (es_world s) of
                      (Some e, w') \<Rightarrow> ((results, firstFailure'), es_heap s, w')
                    | (None, w') \<Rightarrow> execute_roots D P (i + 1) roots results firstFailure' (es_heap s) w')))"

definition validateExecutionID :: "string \<Rightarrow> go_error option" where
  "validateExecutionID executionID =
     (if TrimSpace executionID = ''''
      then Some (NewConfigurationError ''engine Execute requires a non-blank execution ID'' None)
      else if TrimSpace executionID \<noteq> executionID
      then Some (NewConfigurationError ''engine Execute execution ID must not contain surrounding whitespace'' None)
      else None)"

definition snapshotExternalEnvironment :: "string_map \<Rightarrow> string_map" where
  "snapshotExternalEnvironment values =
     map_option (filter (\<lambda>(k, v). k \<notin> {''FLOWBATON_SHARD_ID'', ''FLOWBATON_SHARD_INDEX''})) values"

text \<open>\<open>compile\<close> is \<^verbatim>\<open>compileProgram\<close> on the program with the production registry.\<close>

definition Execute :: "'w deps \<Rightarrow> 'w plan \<Rightarrow> ('w \<Rightarrow> (go_error + ('w, 'v) compiled_flow option list) \<times> 'w)
    \<Rightarrow> nat \<Rightarrow> 'w \<Rightarrow> (flow_result list \<times> go_error option) \<times> nat \<times> 'w" where
  "Execute D0 P compile h w =
     (case (case validateExecutionID (plan_executionID P) of
              Some e \<Rightarrow> (([], Some e), h, w)
            | None \<Rightarrow>
                (case validateReservedEnvironment (d_reservedEnvironment D0) of
                   Some e \<Rightarrow> (([], Some e), h, w)
                 | None \<Rightarrow>
                     (case compile w of
                        (Inl e, w') \<Rightarrow> (([], Some e), h, w')
                      | (Inr roots, w') \<Rightarrow>
                          execute_roots
                            (D0\<lparr>d_externalEnvironment := snapshotExternalEnvironment (d_externalEnvironment D0)\<rparr>)
                            P 0 roots [] None h w'))) of
        ((results, err), h', w') \<Rightarrow>
          ((results, sanitizeMalformedError (d_foreign D0) ''engine Execute failed'' err), h', w'))"

end
