(* ===== verification/Runs.thy ===== *)
theory Runs
  imports Flow_Run
begin

text \<open>
  What holds of every run of the executor, whatever the handlers, listeners, driver and
  JavaScript code do: sequences are allocated in order and recorded once, the events handed to
  the listeners are properly nested, flow scopes are closed in LIFO order.
\<close>

section \<open>Events as brackets\<close>

datatype bracket = Flow_Bracket string | Command_Bracket nat

text \<open>
  \<open>brackets open es\<close> reads \<open>es\<close> with the innermost open scope first in \<open>open\<close>; it is \<open>None\<close> at the
  first event that does not fit: a finish that does not close the innermost scope, a metadata
  update of another command than the innermost, a reset of a command not started after it.
\<close>

fun brackets :: "bracket list \<Rightarrow> event list \<Rightarrow> bracket list option" where
  "brackets opened [] = Some opened"
| "brackets opened (e # es) =
     (case (ev_kind e, opened) of
        (EventFlowStarted, _) \<Rightarrow> brackets (Flow_Bracket (ev_flowPath e) # opened) es
      | (EventCommandStarted, _) \<Rightarrow> brackets (Command_Bracket (ev_sequence e) # opened) es
      | (EventFlowFinished, Flow_Bracket p # outer) \<Rightarrow> if p = ev_flowPath e then brackets outer es else None
      | (EventCommandFinished, Command_Bracket n # outer) \<Rightarrow>
          if n = ev_sequence e then brackets outer es else None
      | (EventCommandMetadataUpdated, Command_Bracket n # outer) \<Rightarrow>
          if n = ev_sequence e then brackets opened es else None
      | (EventCommandReset, Command_Bracket n # outer) \<Rightarrow>
          if n < ev_sequence e then brackets opened es else None
      | _ \<Rightarrow> None)"

lemma brackets_append:
  "brackets opened (xs @ ys) = Option.bind (brackets opened xs) (\<lambda>o1. brackets o1 ys)"
proof (induction xs arbitrary: opened)
  case (Cons x xs)
  show ?case
    by (cases "ev_kind x"; cases opened) (auto simp: Cons.IH split: bracket.split)
qed simp

section \<open>The invariant and the step relation\<close>

abbreviation rows :: "ledger \<Rightarrow> nat \<rightharpoonup> command_result" where
  "rows L \<equiv> map_of (canonicalBySequence L)"

definition run_inv :: "'w exec_state \<Rightarrow> bool" where
  "run_inv s \<longleftrightarrow> ledger_ok (es_ledger s)
     \<and> (\<forall>k r. rows (es_ledger s) k = Some r \<longrightarrow> k \<le> tl_next (es_timeline s))"

text \<open>Between sequence counters \<open>n\<close> and \<open>m\<close> the ledger keeps its rows and gains exactly one row for
  every sequence allocated.\<close>

definition grows :: "nat \<Rightarrow> nat \<Rightarrow> ledger \<Rightarrow> ledger \<Rightarrow> bool" where
  "grows n m L L' \<longleftrightarrow> (\<forall>k r. rows L k = Some r \<longrightarrow> rows L' k = Some r)
     \<and> dom (rows L') = dom (rows L) \<union> {n<..m}"

lemma grows_refl [simp]: "grows n n L L"
  by (simp add: grows_def)

lemma grows_trans: "grows n m L L' \<Longrightarrow> grows m p L' L'' \<Longrightarrow> n \<le> m \<Longrightarrow> m \<le> p \<Longrightarrow> grows n p L L''"
  unfolding grows_def by (simp add: Un_assoc ivl_disj_un)

lemma grows_None: "grows n m L L' \<Longrightarrow> rows L k = None \<Longrightarrow> k \<le> n \<Longrightarrow> rows L' k = None"
  unfolding grows_def by (metis UnE domIff greaterThanAtMost_iff not_le)

lemma grows_Some: "grows n m L L' \<Longrightarrow> rows L k = Some r \<Longrightarrow> rows L' k = Some r"
  unfolding grows_def by blast

definition advances :: "'w exec_state \<Rightarrow> 'w exec_state \<Rightarrow> bool" where
  "advances s s' \<longleftrightarrow> run_inv s'
     \<and> tl_next (es_timeline s) \<le> tl_next (es_timeline s')
     \<and> tl_rootRunID (es_timeline s') = tl_rootRunID (es_timeline s)
     \<and> es_heap s \<le> es_heap s'
     \<and> (es_poisoned s \<longrightarrow> es_poisoned s') \<and> (es_closed s \<longrightarrow> es_closed s')
     \<and> grows (tl_next (es_timeline s)) (tl_next (es_timeline s')) (es_ledger s) (es_ledger s')"

definition emits :: "bracket list \<Rightarrow> 'w exec_state \<Rightarrow> 'w exec_state \<Rightarrow> bool" where
  "emits opened s s' \<longleftrightarrow> (\<exists>es. es_trace s' = es_trace s @ es
     \<and> (\<forall>outer. brackets (opened @ outer) es = Some (opened @ outer)))"

definition inside :: "bracket list \<Rightarrow> 'w exec_state \<Rightarrow> 'w exec_state \<Rightarrow> bool" where
  "inside opened s s' \<longleftrightarrow>
     (run_inv s \<longrightarrow> advances s s' \<and> emits opened s s' \<and> es_frames s' = es_frames s)"

lemma advances_refl: "run_inv s \<Longrightarrow> advances s s"
  by (simp add: advances_def)

lemma advances_trans: "advances s s' \<Longrightarrow> advances s' s'' \<Longrightarrow> advances s s''"
  unfolding advances_def by (elim conjE, intro conjI) (simp_all add: grows_trans)

lemma emits_refl: "emits opened s s"
  by (auto simp: emits_def intro!: exI [of _ "[]"])

lemma emits_trans: "emits opened s s' \<Longrightarrow> emits opened s' s'' \<Longrightarrow> emits opened s s''"
  unfolding emits_def by (metis append_assoc bind.bind_lunit brackets_append)

lemma emits_weaken: "emits [] s s' \<Longrightarrow> emits opened s s'"
  by (auto simp: emits_def)

lemma inside_refl [intro!, simp]: "inside opened s s"
  by (simp add: inside_def advances_refl emits_refl)

lemma inside_trans: "inside opened s s' \<Longrightarrow> inside opened s' s'' \<Longrightarrow> inside opened s s''"
  unfolding inside_def by (metis advances_def advances_trans emits_trans)

lemma inside_weaken: "inside [] s s' \<Longrightarrow> inside opened s s'"
  using emits_weaken by (auto simp: inside_def)

section \<open>Rules for monadic code\<close>

named_theorems exec_rules \<open>introduction rules of \<open>keeps\<close>\<close>

definition keeps :: "bracket list \<Rightarrow> ('w, 'a) exec \<Rightarrow> bool" where
  "keeps opened m \<longleftrightarrow> state_io_rel (inside opened) m"

lemma keepsI: "(\<And>s. inside opened s (snd (run_state m s))) \<Longrightarrow> keeps opened m"
  by (simp add: keeps_def state_io_rel_def)

lemma keepsD: "keeps opened m \<Longrightarrow> run_state m s = (a, s') \<Longrightarrow> inside opened s s'"
  unfolding keeps_def by (rule state_io_relD)

lemma keeps_weaken: "keeps [] m \<Longrightarrow> keeps opened m"
  by (auto simp: keeps_def state_io_rel_def intro: inside_weaken)

lemma keeps_ret [exec_rules]: "keeps opened (ret x)"
  by (rule keepsI) simp

lemma keeps_gets [exec_rules]: "keeps opened (gets f)"
  by (rule keepsI) (simp add: gets_def)

lemma keeps_bind [exec_rules]:
  assumes "keeps opened m" and "\<And>x. keeps opened (f x)"
  shows "keeps opened (State_Monad.bind m f)"
proof (rule keepsI)
  fix s
  obtain a s' where 1: "run_state m s = (a, s')" by fastforce
  obtain b s'' where 2: "run_state (f a) s' = (b, s'')" by fastforce
  show "inside opened s (snd (run_state (State_Monad.bind m f) s))"
    using keepsD [OF assms(1) 1] keepsD [OF assms(2) 2] 1 2 by (auto intro: inside_trans)
qed

lemma keeps_if [exec_rules]:
  "(b \<Longrightarrow> keeps opened m) \<Longrightarrow> (\<not> b \<Longrightarrow> keeps opened m') \<Longrightarrow> keeps opened (if b then m else m')"
  by simp

lemma keeps_case_prod [exec_rules]:
  "(\<And>a b. p = (a, b) \<Longrightarrow> keeps opened (f a b)) \<Longrightarrow> keeps opened (case p of (a, b) \<Rightarrow> f a b)"
  by (cases p) simp

lemma keeps_case_prod_app [exec_rules]:
  "(\<And>a b. p = (a, b) \<Longrightarrow> keeps opened (f a b z)) \<Longrightarrow> keeps opened ((case p of (a, b) \<Rightarrow> f a b) z)"
  by (cases p) simp

lemma keeps_case_option [exec_rules]:
  "(x = None \<Longrightarrow> keeps opened m) \<Longrightarrow> (\<And>y. x = Some y \<Longrightarrow> keeps opened (f y)) \<Longrightarrow>
     keeps opened (case x of None \<Rightarrow> m | Some y \<Rightarrow> f y)"
  by (cases x) simp_all

lemma keeps_case_sum [exec_rules]:
  "(\<And>y. x = Inl y \<Longrightarrow> keeps opened (f y)) \<Longrightarrow> (\<And>y. x = Inr y \<Longrightarrow> keeps opened (g y)) \<Longrightarrow>
     keeps opened (case x of Inl y \<Rightarrow> f y | Inr y \<Rightarrow> g y)"
  by (cases x) simp_all

lemma keeps_case_return [exec_rules]:
  "(\<And>y. x = Return y \<Longrightarrow> keeps opened (f y)) \<Longrightarrow> (\<And>y. x = Panic y \<Longrightarrow> keeps opened (g y)) \<Longrightarrow>
     keeps opened (case x of Return y \<Rightarrow> f y | Panic y \<Rightarrow> g y)"
  by (cases x) simp_all

lemma keeps_Let [exec_rules]: "keeps opened (f x) \<Longrightarrow> keeps opened (Let x f)"
  by simp

text \<open>A change of state that touches neither rows, counters, events nor frames.\<close>

definition quiet :: "'w exec_state \<Rightarrow> 'w exec_state \<Rightarrow> bool" where
  "quiet s s' \<longleftrightarrow> es_timeline s' = es_timeline s \<and> es_ledger s' = es_ledger s \<and> es_heap s \<le> es_heap s'
     \<and> es_trace s' = es_trace s \<and> es_frames s' = es_frames s
     \<and> (es_poisoned s \<longrightarrow> es_poisoned s') \<and> (es_closed s \<longrightarrow> es_closed s')"

lemma quiet_inside: "quiet s s' \<Longrightarrow> inside opened s s'"
  by (auto simp: quiet_def inside_def advances_def run_inv_def emits_def intro!: exI [of _ "[]"])

lemma keeps_world_op [exec_rules]: "keeps opened (world_op f)"
  by (rule keepsI, rule quiet_inside) (simp add: world_op_def quiet_def split: prod.split)

lemma keeps_modifies: "(\<And>s. quiet s (f s)) \<Longrightarrow> keeps opened (modifies f)"
  by (rule keepsI, rule quiet_inside) (simp add: modifies_def)

lemma keeps_bind_post:
  assumes "keeps opened m" and "\<And>x s s'. run_state m s = (x, s') \<Longrightarrow> keeps opened (f x)"
  shows "keeps opened (State_Monad.bind m f)"
proof (rule keepsI)
  fix s
  obtain a s' where 1: "run_state m s = (a, s')" by fastforce
  obtain b s'' where 2: "run_state (f a) s' = (b, s'')" by fastforce
  show "inside opened s (snd (run_state (State_Monad.bind m f) s))"
    using keepsD [OF assms(1) 1] keepsD [OF assms(2) [OF 1] 2] 1 2 by (auto intro: inside_trans)
qed

section \<open>Primitives\<close>

lemma keeps_ctx_Err [exec_rules]: "keeps opened (ctx_Err D)"
  unfolding ctx_Err_def by (intro exec_rules)

lemma keeps_now [exec_rules]: "keeps opened (now D)"
  unfolding now_def by (intro exec_rules)

lemma keeps_invokeListener [exec_rules]: "keeps opened (invokeListener l e)"
  unfolding invokeListener_def by (intro exec_rules)

lemma keeps_invokeListeners [exec_rules]: "keeps opened (invokeListeners F i ls e)"
  by (induction ls arbitrary: i) (simp_all only: invokeListeners.simps, (intro exec_rules | assumption)+)

lemma quiet_refl [intro!, simp]: "quiet s s"
  by (simp add: quiet_def)

lemma quiet_trans: "quiet s s' \<Longrightarrow> quiet s' s'' \<Longrightarrow> quiet s s''"
  by (auto simp: quiet_def)

text \<open>Dispatching an event appends it to the trace and otherwise runs listener code only.\<close>

lemma invokeListeners_quiet: "run_state (invokeListeners F i ls e) s = (r, s') \<Longrightarrow> quiet s s'"
proof (induction ls arbitrary: i s r s')
  case (Cons l ls)
  obtain a s1 where 1: "run_state (invokeListener l e) s = (a, s1)" by fastforce
  have "quiet s s1"
    using 1 by (auto simp: invokeListener_def world_op_def quiet_def split: option.splits prod.splits)
  moreover obtain b s2 where 2: "run_state (invokeListeners F (Suc i) ls e) s1 = (b, s2)" by fastforce
  ultimately show ?case
    using Cons.prems 1 Cons.IH [OF 2] by (auto intro: quiet_trans)
qed simp

lemma DispatchListeners_trace:
  assumes "run_state (DispatchListeners D e p) s = (r, s')"
  shows "quiet (s\<lparr>es_trace := es_trace s @ [e]\<rparr>) s'"
  using assms invokeListeners_quiet
  by (auto simp: DispatchListeners_def modifies_def split: prod.splits)

lemma trace_step:
  assumes "quiet (s\<lparr>es_trace := es_trace s @ [e]\<rparr>) s'"
  shows "run_inv s \<Longrightarrow> advances s s'" "es_trace s' = es_trace s @ [e]" "es_frames s' = es_frames s"
    "es_timeline s' = es_timeline s" "es_ledger s' = es_ledger s" "es_heap s \<le> es_heap s'"
  using assms by (auto simp: quiet_def advances_def run_inv_def)

lemma keeps_DispatchListeners:
  assumes "\<And>outer. brackets (opened @ outer) [e] = Some (opened @ outer)"
  shows "keeps opened (DispatchListeners D e p)"
proof (rule keepsI)
  fix s
  obtain r s' where "run_state (DispatchListeners D e p) s = (r, s')" by fastforce
  moreover from this have "quiet (s\<lparr>es_trace := es_trace s @ [e]\<rparr>) s'" by (rule DispatchListeners_trace)
  note trace_step [OF this]
  moreover from this(2) have "emits opened s s'" unfolding emits_def using assms by blast
  ultimately show "inside opened s (snd (run_state (DispatchListeners D e p) s))"
    by (simp add: inside_def)
qed

lemma keeps_WaitForController [exec_rules]: "keeps opened (WaitForController D p)"
  unfolding WaitForController_def by (intro exec_rules)

lemma keeps_session_available [exec_rules]: "keeps opened session_available"
  unfolding session_available_def by (intro exec_rules)

lemma keeps_jsRuntime [exec_rules]: "keeps opened jsRuntime"
  unfolding jsRuntime_def by (intro exec_rules)

lemma keeps_elementLookup [exec_rules]: "keeps opened elementLookup"
  unfolding elementLookup_def by (intro exec_rules)

lemma keeps_currentConfig [exec_rules]: "keeps opened currentConfig"
  unfolding currentConfig_def by (intro exec_rules)

lemma keeps_copiedTextValue [exec_rules]: "keeps opened copiedTextValue"
  unfolding copiedTextValue_def by (intro exec_rules)

lemma keeps_poison [exec_rules]: "keeps opened (poison D)"
  unfolding poison_def by (intro exec_rules keeps_modifies) (simp_all add: quiet_def)

lemma keeps_setCopiedText [exec_rules]: "keeps opened (setCopiedText D v)"
  unfolding setCopiedText_def by (intro exec_rules keeps_modifies) (simp_all add: quiet_def)

lemma keeps_putEnv [exec_rules]: "keeps opened (putEnv D k v)"
  unfolding putEnv_def by (intro exec_rules)

lemma keeps_Session_Close [exec_rules]: "keeps opened (Session_Close D)"
  unfolding Session_Close_def by (intro exec_rules keeps_modifies) (simp_all add: quiet_def)

lemma keeps_writeArtifact [exec_rules]: "keeps opened (writeArtifact D request)"
  unfolding writeArtifact_def by (intro exec_rules)

lemma keeps_writeArtifacts [exec_rules]: "keeps opened (writeArtifacts D requests)"
  by (induction requests) (simp_all only: writeArtifacts.simps, (intro exec_rules | assumption)+)

lemma keeps_captureFailureEvidence [exec_rules]: "keeps opened (captureFailureEvidence D sp command out e)"
  unfolding captureFailureEvidence_def by (intro exec_rules)

lemma keeps_handlerRuntime [exec_rules]: "keeps opened handlerRuntime"
  unfolding handlerRuntime_def by (intro exec_rules keeps_modifies) (simp add: quiet_def)

lemma keeps_updateCommandMetadata [exec_rules]:
  "keeps [Command_Bracket (cs_sequence sp)] (updateCommandMetadata D sp metadata)"
  unfolding updateCommandMetadata_def
proof (rule keeps_bind_post, intro exec_rules)
  fix r and s s' :: "'a exec_state"
  assume "run_state (world_op (MetadataUpdated (d_clock D) sp (cloneMetadata metadata))) s = (r, s')"
  then have "ev_kind e = EventCommandMetadataUpdated" "ev_sequence e = cs_sequence sp" if "r = Inr e" for e
    using that by (auto simp: world_op_def MetadataUpdated_def split: option.splits prod.splits if_splits)
  then show "keeps [Command_Bracket (cs_sequence sp)]
      (case r of Inl e \<Rightarrow> ret (Some e) | Inr e \<Rightarrow> DispatchListeners D e None \<bind> (\<lambda>_. ret None))"
    by (intro exec_rules keeps_DispatchListeners) simp
qed

lemma keeps_resetCommand [exec_rules]:
  "keeps [Command_Bracket (cs_sequence sp)] (resetCommand D sp previous)"
proof -
  have "keeps [Command_Bracket (cs_sequence sp)]
      (world_op (CommandReset (d_clock D) sp recorded) \<bind>
        (\<lambda>r. case r of Inl e \<Rightarrow> ret (Some e) | Inr e \<Rightarrow> DispatchListeners D e None \<bind> (\<lambda>_. ret None)))" for recorded
  proof (rule keeps_bind_post, intro exec_rules)
    fix r and s s' :: "'a exec_state"
    assume "run_state (world_op (CommandReset (d_clock D) sp recorded)) s = (r, s')"
    then have "ev_kind e = EventCommandReset" "cs_sequence sp < ev_sequence e" if "r = Inr e" for e
      using that by (auto simp: world_op_def CommandReset_def split: prod.splits if_splits)
    then show "keeps [Command_Bracket (cs_sequence sp)]
        (case r of Inl e \<Rightarrow> ret (Some e) | Inr e \<Rightarrow> DispatchListeners D e None \<bind> (\<lambda>_. ret None))"
      by (intro exec_rules keeps_DispatchListeners) simp
  qed
  then show ?thesis
    unfolding resetCommand_def
    by (intro keeps_bind [OF keeps_gets] keeps_case_option keeps_ret)
qed

section \<open>Handlers\<close>

lemma keeps_run_program [exec_rules]:
  assumes "\<And>q. keeps opened (host q)"
  shows "keeps opened (run_program host p)"
proof -
  have "run_prog (\<lambda>q. run_state (host q)) es_world (\<lambda>w s. s\<lparr>es_world := w\<rparr>) p s = (r, logs, s')
      \<Longrightarrow> inside opened s s'" for s r logs s'
  proof (induction p arbitrary: s r logs s')
    case (World step k)
    obtain l w where 1: "step (es_world s) = (l, w)" by fastforce
    obtain r1 l1 s1 where 2: "run_prog (\<lambda>q. run_state (host q)) es_world (\<lambda>w s. s\<lparr>es_world := w\<rparr>)
        (k (es_world s)) (s\<lparr>es_world := w\<rparr>) = (r1, l1, s1)" by (metis prod_cases3)
    have "inside opened s (s\<lparr>es_world := w\<rparr>)" by (rule quiet_inside) (simp add: quiet_def)
    moreover have "inside opened (s\<lparr>es_world := w\<rparr>) s1" using World.IH [OF rangeI 2] .
    moreover have "s' = s1" using World.prems 1 2 by simp
    ultimately show ?case using inside_trans by blast
  next
    case (Host q k)
    obtain reply s1 where 1: "run_state (host q) s = (reply, s1)" by fastforce
    have "inside opened s s1" using keepsD [OF assms 1] .
    moreover have "inside opened s1 s'" using Host.IH [OF rangeI] Host.prems 1 by simp
    ultimately show ?case using inside_trans by blast
  qed auto
  then show ?thesis
    by (intro keepsI) (auto simp: run_program_def split: prod.split)
qed

lemma keeps_invoke_prog [exec_rules]:
  "(\<And>q. keeps opened (host q)) \<Longrightarrow> keeps opened (invoke_prog host p)"
  unfolding invoke_prog_def by (intro exec_rules)

lemma keeps_evaluation_service [exec_rules]: "keeps opened (evaluation_service D q)"
  by (cases q) (simp_all only: evaluation_service.simps, (intro exec_rules)+)

definition good_runners :: "'w runners \<Rightarrow> bool" where
  "good_runners R \<longleftrightarrow> (\<forall>depth. keeps [] (run_children R depth))
     \<and> (\<forall>f overlay depth. run_linked R = Some f \<longrightarrow> 0 \<le> depth \<longrightarrow> keeps [] (f overlay depth))
     \<and> (\<forall>path config overlay depth. 0 \<le> depth \<longrightarrow> keeps [] (run_inline R path config overlay depth))"

lemma keeps_executeFlow:
  "0 \<le> depth \<Longrightarrow> (\<And>f. flow = Some f \<Longrightarrow> keeps [] (f overlay (depth + 1))) \<Longrightarrow> keeps opened (executeFlow D flow depth overlay)"
  unfolding executeFlow_def by (intro exec_rules) (auto intro: keeps_weaken)

lemma keeps_executeChildren: "good_runners R \<Longrightarrow> keeps opened (executeChildren R compiled depth commands)"
  unfolding executeChildren_def good_runners_def by (intro exec_rules) (auto intro: keeps_weaken)

lemma keeps_host_service:
  assumes "good_runners R" and "0 \<le> depth"
  shows "keeps [Command_Bracket (cs_sequence sp)] (host_service D R sp compiled depth q)"
  using assms
  by (cases q; simp only: host_service.simps)
    ((intro exec_rules keeps_executeChildren keeps_executeFlow; auto simp: good_runners_def)+)

lemma keeps_applyPostAction [exec_rules]: "keeps opened (applyPostAction D spec command evaluated)"
  unfolding applyPostAction_def
  by (cases "spec_postAction spec"; simp only: post_action_policy.case) (intro exec_rules)+

lemma keeps_after_execute [exec_rules]: "keeps opened (after_execute D spec command evaluated outcome0)"
  unfolding after_execute_def by (intro exec_rules)

lemma keeps_dispatcher_evaluate [exec_rules]: "keeps opened (dispatcher_evaluate D spec command v)"
  unfolding dispatcher_evaluate_def by (intro exec_rules)

lemma keeps_dispatcher_execute [exec_rules]:
  "(\<And>q. keeps opened (host q)) \<Longrightarrow> keeps opened (dispatcher_execute D host spec command evaluated)"
  unfolding dispatcher_execute_def by (intro exec_rules)

lemma keeps_handler_body [exec_rules]:
  "(\<And>q. keeps opened (host q)) \<Longrightarrow> keeps opened (handler_body D host spec command v)"
  unfolding handler_body_def by (intro exec_rules)

lemma keeps_runHandler:
  "(\<And>q. keeps opened (host q)) \<Longrightarrow> keeps opened (runHandler D host spec command v)"
  unfolding runHandler_def by (intro exec_rules keeps_modifies) (simp_all add: quiet_def)

section \<open>The command span\<close>

lemma validOutcome_ClassifyOutcome [simp]: "validOutcome (ClassifyOutcome F e optional)"
  by (auto simp: ClassifyOutcome_def split: terminalErrorClass.split)

lemma settle_metadata_valid:
  "settle_metadata metadata errs = (metadata', productError, classification) \<Longrightarrow> validateCommandMetadata metadata' = None"
  by (cases errs) (auto simp: settle_metadata_def validateCommandMetadata_def split: if_splits)

lemma sealResultError_facts:
  "sealResultError e h = (e', h') \<Longrightarrow> sealed_error e' \<and> unsealResultError e' = e \<and> h \<le> h'"
  by (auto simp: sealResultError_def unsealResultError_def split: option.splits)

lemma seal_facts:
  assumes "sealCommandResultErrors r h = (r', h')"
  shows "is_sealed r'" "ProductError r' = res_productError r" "h \<le> h'"
    "res_sequence r' = res_sequence r" "res_depth r' = res_depth r" "res_identity r' = res_identity r"
    "res_outcome r' = res_outcome r" "res_command r' = res_command r" "res_metadata r' = res_metadata r"
    "res_artifacts r' = res_artifacts r" "res_rootRunID r' = res_rootRunID r"
  using assms
  by (auto simp: sealCommandResultErrors_def is_sealed_def errors_of_def ProductError_def Let_def
      split: prod.splits option.splits dest!: sealResultError_facts)

lemma clone_id_iff:
  "cloneCommandResult r = r \<longleftrightarrow>
     cloneCommand (res_command r) = res_command r \<and> cloneMetadata (res_metadata r) = res_metadata r"
  by (cases r) (auto simp: cloneCommandResult_def)

lemma sealed_clone:
  "sealCommandResultErrors r h = (r', h') \<Longrightarrow> cloneCommandResult r = r \<Longrightarrow> cloneCommandResult r' = r'"
  using seal_facts(8,9) [of r h r' h'] by (simp add: clone_id_iff)

lemma begin_command_ok:
  assumes "0 \<le> depth"
  obtains sp started w where
    "run_state (begin_command D command depth) s
       = (Inr (sp, started), s\<lparr>es_world := w, es_timeline := (es_timeline s)\<lparr>tl_next := Suc (tl_next (es_timeline s))\<rparr>\<rparr>)"
    "cs_sequence sp = Suc (tl_next (es_timeline s))" "cs_depth sp = depth" "\<not> cs_finished sp"
    "cs_command sp = cloneCommand command" "cs_rootRunID sp = tl_rootRunID (es_timeline s)"
    "ev_kind started = EventCommandStarted" "ev_sequence started = Suc (tl_next (es_timeline s))"
proof -
  obtain t w where "d_clock D (es_world s) = (t, w)" by fastforce
  then show ?thesis
    using assms that by (simp add: begin_command_def BeginCommand_def Let_def)
qed

lemma finish_command_ok:
  assumes "validOutcome out" "validateCommandMetadata metadata = None" "\<not> cs_finished sp"
  obtains result finished w where
    "run_state (finish_command D sp out err metadata artifacts) s
       = (Inr (result, finished), s\<lparr>es_world := w, es_heap := Suc (es_heap s)\<rparr>)"
    "res_sequence result = cs_sequence sp" "res_depth result = cs_depth sp" "res_identity result = Some (es_heap s)"
    "res_command result = cloneCommand (cs_command sp)" "res_outcome result = out"
    "res_productError result = sanitizeMalformedError (d_foreign D) ''command result finalization failed'' err"
    "cloneCommandResult result = result" "res_rootRunID result = cs_rootRunID sp"
    "ev_kind finished = EventCommandFinished" "ev_sequence finished = cs_sequence sp" "res_retry result = None"
proof -
  obtain t w where "d_clock D (es_world s) = (t, w)" by fastforce
  then show ?thesis
    using assms that by (simp add: finish_command_def FinishWithArtifacts_def Let_def clone_id_iff)
qed

lemma record_fresh:
  assumes "ledger_ok L" "rows L (res_sequence r) = None" "res_sequence r \<noteq> 0" "0 \<le> res_depth r"
    "is_sealed r" "cloneCommandResult r = r"
  shows "record_result L r h = Inr (\<lparr>bySequence = (res_sequence r, r) # bySequence L,
      canonicalBySequence = (res_sequence r, r) # canonicalBySequence L\<rparr>, h)"
  using assms by (simp add: record_result_def ledger_ok_def retain_is_sealed)

lemma authenticate_facts:
  assumes "ledger_ok L" "authenticate L r = Some r"
  shows "rows L (res_sequence r) = Some r" "res_identity r \<noteq> None" "is_sealed r"
proof -
  obtain c where c: "rows L (res_sequence r) = Some c" "sameAuthenticatedCommandResult c r"
    "r = cloneCommandResult c" "res_identity r \<noteq> None"
    using assms(2) by (auto simp: authenticate_def split: if_splits option.splits)
  then have "r = c" using ledger_row [OF assms(1) c(1)] by (simp add: row_ok_def)
  then show "rows L (res_sequence r) = Some r" "res_identity r \<noteq> None" "is_sealed r"
    using c sameAuthenticated_sealed by auto
qed

lemma authenticate_row:
  assumes "ledger_ok L" "rows L (res_sequence r) = Some r" "res_identity r \<noteq> None" "is_sealed r"
  shows "authenticate L r = Some r"
  using assms ledger_row [OF assms(1,2)]
  by (auto simp: authenticate_def ledger_ok_def row_ok_def sameStored_refl sameAuthenticated_refl)

lemma ClassifyOutcome_None [simp]: "ClassifyOutcome F None optional = Completed"
  by (simp add: ClassifyOutcome_def classifyTerminalError_def inspectTerminalError_def maxTerminalErrorTraversalDepth_def
      numeral_eq_Suc)

lemma settled_errors:
  assumes "settle_error F operation effect err = (effect', errs)"
    and "settle_metadata metadata errs = (metadata', productError, classification)"
  shows "productError = None \<longleftrightarrow> classification = None"
  using assms
  by (auto simp: settle_error_def settle_metadata_def invalidExactErrorDisposition_def Let_def
      split: option.splits if_splits)

lemma surfaced_iff:
  assumes "productError = None \<longleftrightarrow> classification = None"
  shows "surfacedExecutionError (ClassifyOutcome F classification optional) productError = None
    \<longleftrightarrow> ClassifyOutcome F classification optional \<in> {Completed, Skipped, Warned}"
proof (cases classification)
  case (Some c)
  then show ?thesis
    using assms validOutcome_ClassifyOutcome [of F classification optional]
    by (cases "ClassifyOutcome F classification optional") (auto simp: surfacedExecutionError_def)
qed (simp add: surfacedExecutionError_def)

lemma finish_span_ok:
  fixes sp :: command_span and s s' :: "'w exec_state"
  assumes inv: "run_inv s" and fresh: "rows (es_ledger s) (cs_sequence sp) = None"
    and n: "cs_sequence sp \<noteq> 0" "cs_sequence sp \<le> tl_next (es_timeline s)" "0 \<le> cs_depth sp" "\<not> cs_finished sp"
    and run: "run_state (finish_span D command sp ended) s = ((r, e), s')"
  obtains s1 fin where "inside [Command_Bracket (cs_sequence sp)] s s1"
    "es_trace s' = es_trace s1 @ [fin]" "ev_kind fin = EventCommandFinished" "ev_sequence fin = cs_sequence sp"
    "es_timeline s' = es_timeline s1" "es_frames s' = es_frames s1" "ledger_ok (es_ledger s')"
    "rows (es_ledger s') = (rows (es_ledger s1))(cs_sequence sp \<mapsto> r)" "es_heap s1 \<le> es_heap s'"
    "es_poisoned s1 \<longrightarrow> es_poisoned s'" "es_closed s1 \<longrightarrow> es_closed s'"
    "is_sealed r" "res_sequence r = cs_sequence sp" "res_identity r \<noteq> None" "res_depth r = cs_depth sp"
    "res_command r = cloneCommand (cs_command sp)" "res_rootRunID r = cs_rootRunID sp"
    "e = None \<longleftrightarrow> res_outcome r \<in> {Completed, Skipped, Warned}"
proof -
  obtain effect0 err artifacts where [simp]: "ended = (effect0, err, artifacts)" by (metis prod_cases3)
  obtain effect errs where se: "settle_error (d_foreign D) (operation_of command) effect0 err = (effect, errs)" by (metis surj_pair)
  obtain metadata pe ce where sm: "settle_metadata (metadataForEffect command effect) errs = (metadata, pe, ce)"
    by (metis prod_cases3)
  define out where "out = ClassifyOutcome (d_foreign D) ce (commandIsOptional command)"
  obtain evidence s1 where ev: "run_state (captureFailureEvidence D sp command out ce) s = (evidence, s1)" by fastforce
  have in1: "inside [Command_Bracket (cs_sequence sp)] s s1"
    using keepsD [OF keeps_captureFailureEvidence ev] .
  then have adv: "advances s s1" using inv by (simp add: inside_def)
  have valid: "validateCommandMetadata metadata = None" using settle_metadata_valid [OF sm] .
  have out_ok: "validOutcome out" by (simp add: out_def)
  obtain r0 fin w where fin: "run_state (finish_command D sp out pe metadata
        (append_slice artifacts (case evidence of None \<Rightarrow> [] | Some a \<Rightarrow> [a]))) s1
       = (Inr (r0, fin), s1\<lparr>es_world := w, es_heap := Suc (es_heap s1)\<rparr>)"
    "res_sequence r0 = cs_sequence sp" "res_depth r0 = cs_depth sp" "res_identity r0 = Some (es_heap s1)"
    "res_command r0 = cloneCommand (cs_command sp)" "res_outcome r0 = out" "cloneCommandResult r0 = r0"
    "res_rootRunID r0 = cs_rootRunID sp"
    "ev_kind fin = EventCommandFinished" "ev_sequence fin = cs_sequence sp"
    using finish_command_ok [OF out_ok valid n(4)] by metis
  define r1 where "r1 = with_publication effect (surfacedExecutionError out pe) ce r0"
  have r1: "res_sequence r1 = cs_sequence sp" "res_depth r1 = cs_depth sp" "res_identity r1 = Some (es_heap s1)"
    "res_command r1 = cloneCommand (cs_command sp)" "res_outcome r1 = out" "cloneCommandResult r1 = r1"
    "res_rootRunID r1 = cs_rootRunID sp"
    using fin by (simp_all add: r1_def with_publication_def clone_id_iff)
  obtain r2 h where seal: "sealCommandResultErrors r1 (Suc (es_heap s1)) = (r2, h)" by fastforce
  note r2 = seal_facts [OF seal]
  have r2_clone: "cloneCommandResult r2 = r2" using sealed_clone [OF seal r1(6)] .
  have fresh1: "rows (es_ledger s1) (cs_sequence sp) = None"
    using adv fresh n(2) grows_None by (auto simp: advances_def)
  have ok1: "ledger_ok (es_ledger s1)" using adv by (simp add: advances_def run_inv_def)
  define L where "L = \<lparr>bySequence = (cs_sequence sp, r2) # bySequence (es_ledger s1),
      canonicalBySequence = (cs_sequence sp, r2) # canonicalBySequence (es_ledger s1)\<rparr>"
  have rec: "record_result (es_ledger s1) r2 h = Inr (L, h)"
    using record_fresh [OF ok1, of r2 h] fresh1 r1 r2 n r2_clone by (simp add: L_def)
  define s2 where "s2 = s1\<lparr>es_world := w, es_ledger := L, es_heap := h\<rparr>"
  obtain ldr s3 where disp: "run_state (DispatchListeners D fin None) s2 = (ldr, s3)" by fastforce
  note tr = trace_step [OF DispatchListeners_trace [OF disp]]
  have res: "r = r2 \<and> e = surfacedExecutionError out pe \<and> s' = s3"
    using run se sm ev fin(1) seal rec disp
    by (simp add: finish_span_def out_def [symmetric] r1_def [symmetric] seal_result_def record_command_def
        s2_def Let_def)
  have mono: "es_poisoned s1 \<longrightarrow> es_poisoned s3" "es_closed s1 \<longrightarrow> es_closed s3"
    using DispatchListeners_trace [OF disp] by (auto simp: quiet_def s2_def)
  show ?thesis
  proof (rule that [of s1 fin])
    show "e = None \<longleftrightarrow> res_outcome r \<in> {Completed, Skipped, Warned}"
      using surfaced_iff [OF settled_errors [OF se sm]] res r1 r2 by (simp add: out_def)
    show "ledger_ok (es_ledger s')"
      using record_ledger_ok [OF ok1 rec] res tr(5) by (simp add: s2_def)
    show "rows (es_ledger s') = (rows (es_ledger s1))(cs_sequence sp \<mapsto> r)"
      using res tr(5) by (simp add: s2_def L_def)
    show "es_heap s1 \<le> es_heap s'" using res tr(6) r2(3) by (simp add: s2_def)
  qed (use in1 res tr fin r1 r2 mono in \<open>simp_all add: s2_def\<close>)
qed

lemma keeps_run_effects [exec_rules]:
  "(\<And>f. handler = Some f \<Longrightarrow> keeps opened (f sp)) \<Longrightarrow> keeps opened (run_effects D handler sp productError)"
  unfolding run_effects_def by (cases productError; cases handler) (simp_all, (intro exec_rules | assumption)+)

text \<open>What a finished command is: recorded, authentic, numbered by the timeline, with the error
  that its outcome surfaces.\<close>

definition finished_command :: "'w exec_state \<Rightarrow> command \<Rightarrow> int \<Rightarrow> command_result \<times> go_error option \<Rightarrow> 'w exec_state \<Rightarrow> bool" where
  "finished_command s command depth re s' \<longleftrightarrow> (case re of (r, e) \<Rightarrow>
     authenticate (es_ledger s') r = Some r
     \<and> res_sequence r = Suc (tl_next (es_timeline s)) \<and> res_depth r = depth
     \<and> res_command r = cloneCommand command \<and> res_rootRunID r = tl_rootRunID (es_timeline s)
     \<and> (e = None \<longleftrightarrow> res_outcome r \<in> {Completed, Skipped, Warned}))"

lemma runCommandSpan_ok:
  fixes s s' :: "'w exec_state"
  assumes inv: "run_inv s" and depth: "0 \<le> depth"
    and handler: "\<And>f sp. handler = Some f \<Longrightarrow> keeps [Command_Bracket (cs_sequence sp)] (f sp)"
    and run: "run_state (runCommandSpan D command handler depth p0) s = (re, s')"
  shows "inside [] s s'" and "finished_command s command depth re s'"
proof -
  let ?n = "Suc (tl_next (es_timeline s))"
  obtain sp started w where begun: "run_state (begin_command D command depth) s
       = (Inr (sp, started), s\<lparr>es_world := w, es_timeline := (es_timeline s)\<lparr>tl_next := ?n\<rparr>\<rparr>)"
    and sp: "cs_sequence sp = ?n" "cs_depth sp = depth" "\<not> cs_finished sp" "cs_command sp = cloneCommand command"
      "cs_rootRunID sp = tl_rootRunID (es_timeline s)"
    and started: "ev_kind started = EventCommandStarted" "ev_sequence started = ?n"
    using begin_command_ok [OF depth] by metis
  define s1 where "s1 = s\<lparr>es_world := w, es_timeline := (es_timeline s)\<lparr>tl_next := ?n\<rparr>\<rparr>"
  define p1 where "p1 = sanitizeMalformedError (d_foreign D) (operation_of command) p0"
  obtain ldr s2 where disp: "run_state (DispatchListeners D started p1) s1 = (ldr, s2)" by fastforce
  note tr = trace_step [OF DispatchListeners_trace [OF disp]]
  define mid where "mid = State_Monad.bind (if p1 = None then ctx_Err D else ret p1) (run_effects D handler sp)"
  obtain ended s3 where mid: "run_state mid s2 = (ended, s3)" by fastforce
  have fin: "run_state (finish_span D command sp ended) s3 = (re, s')"
    using run begun disp mid
    by (simp add: runCommandSpan_def s1_def [symmetric] p1_def [symmetric] mid_def Let_def split: prod.splits)
  have "keeps [Command_Bracket ?n] mid"
    unfolding mid_def using handler sp(1) by (intro exec_rules) metis
  then have in3: "inside [Command_Bracket ?n] s2 s3" using mid by (rule keepsD)
  have inv2: "run_inv s2"
    using inv tr(4,5) by (auto simp: run_inv_def s1_def le_Suc_eq)
  have none2: "rows (es_ledger s2) ?n = None"
  proof -
    have "rows (es_ledger s) ?n \<noteq> Some r" for r
      using inv unfolding run_inv_def by (metis Suc_n_not_le_n)
    then have "rows (es_ledger s) ?n = None" by (metis not_None_eq)
    then show ?thesis using tr(5) by (simp add: s1_def)
  qed
  have adv3: "advances s2 s3" "emits [Command_Bracket ?n] s2 s3" "es_frames s3 = es_frames s2"
    using in3 inv2 by (simp_all add: inside_def)
  have next2: "tl_next (es_timeline s2) = ?n" using tr(4) by (simp add: s1_def)
  have none3: "rows (es_ledger s3) (cs_sequence sp) = None"
    using adv3(1) none2 next2 sp(1) grows_None by (auto simp: advances_def)
  obtain r e where re: "re = (r, e)" by fastforce
  have inv3: "run_inv s3" "?n \<le> tl_next (es_timeline s3)" using adv3(1) next2 by (simp_all add: advances_def)
  obtain s4 f where f: "inside [Command_Bracket (cs_sequence sp)] s3 s4"
    "es_trace s' = es_trace s4 @ [f]" "ev_kind f = EventCommandFinished" "ev_sequence f = cs_sequence sp"
    "es_timeline s' = es_timeline s4" "es_frames s' = es_frames s4" "ledger_ok (es_ledger s')"
    "rows (es_ledger s') = (rows (es_ledger s4))(cs_sequence sp \<mapsto> r)" "es_heap s4 \<le> es_heap s'"
    "es_poisoned s4 \<longrightarrow> es_poisoned s'" "es_closed s4 \<longrightarrow> es_closed s'"
    and r: "is_sealed r" "res_sequence r = cs_sequence sp" "res_identity r \<noteq> None" "res_depth r = cs_depth sp"
    "res_command r = cloneCommand (cs_command sp)" "res_rootRunID r = cs_rootRunID sp"
    "e = None \<longleftrightarrow> res_outcome r \<in> {Completed, Skipped, Warned}"
    using finish_span_ok [OF inv3(1) none3 _ _ _ sp(3) fin [unfolded re]] sp depth inv3(2)
    by (metis Zero_not_Suc)
  show "finished_command s command depth re s'"
    using authenticate_row [OF f(7), of r] f(8) r sp by (simp add: finished_command_def re)
  have adv4: "advances s2 s4" "emits [Command_Bracket ?n] s2 s4" "es_frames s4 = es_frames s2"
    using in3 f(1) inv2 sp(1) inside_trans [of _ s2 s3 s4] by (auto simp: inside_def)
  have g: "grows ?n (tl_next (es_timeline s')) (es_ledger s) (es_ledger s4)"
    using adv4(1) next2 tr(5) f(5) by (simp add: advances_def s1_def)
  have none: "rows (es_ledger s) ?n = None" using none2 tr(5) by (simp add: s1_def)
  have "advances s s'"
    unfolding advances_def
  proof (intro conjI)
    show "run_inv s'"
      using f(5,7,8) adv4(1) sp(1) inv3 next2
      by (auto simp: run_inv_def advances_def split: if_splits)
    show "grows (tl_next (es_timeline s)) (tl_next (es_timeline s')) (es_ledger s) (es_ledger s')"
      unfolding grows_def
    proof (intro conjI allI impI)
      fix k r0
      assume "rows (es_ledger s) k = Some r0"
      then show "rows (es_ledger s') k = Some r0"
        using grows_Some [OF g] none f(8) sp(1) by (cases "k = ?n") auto
    next
      have "?n \<le> tl_next (es_timeline s')" using f(5) adv4(1) next2 by (simp add: advances_def)
      then show "dom (rows (es_ledger s')) = dom (rows (es_ledger s)) \<union> {tl_next (es_timeline s)<..tl_next (es_timeline s')}"
        using g f(8) sp(1) by (auto simp: grows_def)
    qed
    show "es_heap s \<le> es_heap s'" using adv4(1) tr(6) f(9) by (simp add: advances_def s1_def)
    show "es_poisoned s \<longrightarrow> es_poisoned s'" "es_closed s \<longrightarrow> es_closed s'"
      using adv4(1) f(10,11) DispatchListeners_trace [OF disp] by (auto simp: advances_def quiet_def s1_def)
  qed (use adv4(1) next2 tr(4) f(5) in \<open>simp_all add: advances_def s1_def\<close>)
  moreover have "emits [] s s'"
  proof -
    obtain es where es: "es_trace s4 = es_trace s2 @ es"
      "\<And>outer. brackets ([Command_Bracket ?n] @ outer) es = Some ([Command_Bracket ?n] @ outer)"
      using adv4(2) by (auto simp: emits_def)
    have "es_trace s' = es_trace s @ (started # es @ [f])"
      using f(2) es(1) tr(2) by (simp add: s1_def)
    moreover have "brackets outer (started # es @ [f]) = Some outer" for outer
      using es(2) [of outer] started f(3,4) sp(1) by (simp add: brackets_append)
    ultimately show ?thesis by (auto simp: emits_def)
  qed
  moreover have "es_frames s' = es_frames s" using f(6) adv4(3) tr(3) by (simp add: s1_def)
  ultimately show "inside [] s s'" by (simp add: inside_def)
qed

lemma keeps_controller_error [exec_rules]: "keeps opened (controller_error D)"
  unfolding controller_error_def by (intro exec_rules)

lemma inside_run_inv: "inside opened s s' \<Longrightarrow> run_inv s \<Longrightarrow> run_inv s'"
  by (simp add: inside_def advances_def)

lemma keeps_runCommandSpan:
  assumes "0 \<le> depth" "\<And>f sp. handler = Some f \<Longrightarrow> keeps [Command_Bracket (cs_sequence sp)] (f sp)"
  shows "keeps [] (runCommandSpan D command handler depth p0)"
proof (rule keepsI)
  fix s :: "'a exec_state"
  obtain re s' where run: "run_state (runCommandSpan D command handler depth p0) s = (re, s')" by fastforce
  show "inside [] s (snd (run_state (runCommandSpan D command handler depth p0) s))"
  proof (cases "run_inv s")
    case True
    then have "inside [] s s'" by (rule runCommandSpan_ok(1) [OF _ _ _ run]) (use assms in auto)
    then show ?thesis using run by simp
  next
    case False
    then show ?thesis by (simp add: inside_def)
  qed
qed

lemma execute_compiled_handler:
  "good_runners R \<Longrightarrow> 0 \<le> depth \<Longrightarrow> Some (\<lambda>sp. runHandler D (host_service D R sp compiled depth) spec command v) = Some f
    \<Longrightarrow> keeps [Command_Bracket (cs_sequence sp)] (f sp)"
  by (auto intro!: keeps_runHandler keeps_host_service)

lemma keeps_execute_compiled:
  assumes "good_runners R" "0 \<le> depth"
  shows "keeps [] (execute_compiled D spec command v compiled R depth)"
  unfolding execute_compiled_def using assms
  by (intro exec_rules keeps_runCommandSpan) (simp_all, (metis execute_compiled_handler option.inject)+)

section \<open>Sequences and flows\<close>

lemma keeps_run_items:
  "\<forall>item \<in> set items. keeps [] (item depth) \<Longrightarrow> keeps [] (run_items items depth results)"
  by (induction items arbitrary: results) (simp_all only: run_items.simps list.set, (intro exec_rules | simp)+)

lemma keeps_executeCompiledSequence:
  assumes "\<forall>item \<in> set items. \<forall>depth \<ge> 0. keeps [] (item depth)"
  shows "keeps [] (executeCompiledSequence items depth)"
  unfolding executeCompiledSequence_def validateExecutionInput_def
  using assms by (intro exec_rules keeps_run_items) (auto split: if_splits)

lemma keeps_failureResolverContinues [exec_rules]: "keeps opened (failureResolverContinues D r)"
  unfolding failureResolverContinues_def by (intro exec_rules)

lemma keeps_run_root_items:
  "\<forall>item \<in> set items. keeps [] (item depth) \<Longrightarrow> keeps [] (run_root_items D items depth acc)"
  by (induction items arbitrary: acc) (simp_all only: run_root_items.simps list.set, (intro exec_rules | simp)+)

lemma keeps_executeRootSequence:
  assumes "\<forall>item \<in> set items. \<forall>depth \<ge> 0. keeps [] (item depth)"
  shows "keeps [] (executeRootSequenceWithPolicy D items depth)"
  unfolding executeRootSequenceWithPolicy_def validateExecutionInput_def
  using assms by (intro exec_rules keeps_run_root_items) (auto split: if_splits)

definition good_parts :: "'w flow_parts \<Rightarrow> bool" where
  "good_parts parts \<longleftrightarrow> (\<forall>item \<in> set (fp_onStart parts) \<union> set (fp_body parts) \<union> set (fp_onComplete parts).
     \<forall>depth \<ge> 0. keeps [] (item depth))"

lemma keeps_nested_sequences: "good_parts parts \<Longrightarrow> keeps [] (nested_sequences parts depth)"
  unfolding nested_sequences_def good_parts_def
  by (intro exec_rules keeps_executeCompiledSequence) auto

lemma keeps_root_sequences: "good_parts parts \<Longrightarrow> keeps [] (root_sequences D parts depth acc)"
  unfolding root_sequences_def good_parts_def
  by (intro exec_rules keeps_executeRootSequence) auto

text \<open>Entering a flow pushes one frame when it succeeds and none when it fails.\<close>

lemma first_failure_keeps [exec_rules]:
  "(\<And>m. m \<in> set ms \<Longrightarrow> keeps opened m) \<Longrightarrow> keeps opened (first_failure ms)"
  by (induction ms) (simp_all only: first_failure.simps list.set, (intro exec_rules | simp)+)

lemma frames_irrelevant [simp]:
  "run_inv (s\<lparr>es_frames := x\<rparr>) = run_inv s" "advances s (s'\<lparr>es_frames := x\<rparr>) = advances s s'"
  "advances (s\<lparr>es_frames := x\<rparr>) s' = advances s s'" "emits opened s (s'\<lparr>es_frames := x\<rparr>) = emits opened s s'"
  "emits opened (s\<lparr>es_frames := x\<rparr>) s' = emits opened s s'"
  by (simp_all add: run_inv_def advances_def emits_def)

lemma keeps_putSortedEnvironment [exec_rules]: "keeps opened (putSortedEnvironment D kvs)"
proof (induction kvs)
  case (Cons kv kvs)
  then show ?case
    by (cases kv) (simp only: putSortedEnvironment.simps, (intro exec_rules | assumption)+)
qed (simp add: exec_rules)

lemma keeps_applyWebViewHierarchy [exec_rules]: "keeps opened (applyWebViewHierarchy D config)"
  unfolding applyWebViewHierarchy_def by (intro exec_rules)

declare first_failure.simps [simp del]

lemma enterFlow_frames:
  assumes "run_state (enterFlow D path config overlay) s = (r, s')" and inv: "run_inv s"
  shows "case r of Inl e \<Rightarrow> inside opened s s'
    | Inr scope \<Rightarrow> inside opened s (s'\<lparr>es_frames := es_frames s\<rparr>)
        \<and> es_frames s' = (path, cloneConfig config) # es_frames s
        \<and> sc_depth scope = length (es_frames s') \<and> \<not> sc_closed scope"
proof -
  obtain c s1 where 1: "run_state (ctx_Err D) s = (c, s1)" by fastforce
  obtain err0 s2 where 2: "run_state (if c \<noteq> None then ret c
      else first_failure [jsRuntime, world_op (d_pushEnv D)]) s1 = (err0, s2)" by fastforce
  have in2: "inside opened s s2"
    using inside_trans [OF keepsD [OF _ 1] keepsD [OF _ 2]] by (force intro!: exec_rules)
  let ?steps = "first_failure [ctx_Err D, putSortedEnvironment D (elems overlay),
      putSortedEnvironment D (elems (cfg_env config)),
      putSortedEnvironment D (elems (reservedEnvironmentFor (d_reservedEnvironment D) path)),
      ctx_Err D, applyWebViewHierarchy D config, session_available]"
  obtain err s3 where 3: "run_state ?steps s2 = (err, s3)" by fastforce
  have "keeps opened ?steps" by (intro exec_rules) (auto intro: exec_rules)
  then have in3: "inside opened s s3" using inside_trans [OF in2 keepsD [OF _ 3]] by blast
  have frames3: "es_frames s3 = es_frames s" using in3 inv by (simp add: inside_def)
  show ?thesis
  proof (cases err0)
    case (Some e)
    then show ?thesis using assms 1 2 in2 by (auto simp: enterFlow_def)
  next
    case None
    show ?thesis
    proof (cases err)
      case (Some e)
      obtain p s4 where 4: "run_state (world_op (d_popEnv D)) s3 = (p, s4)" by fastforce
      have "inside opened s s4" using inside_trans [OF in3 keepsD [OF keeps_world_op 4]] .
      then show ?thesis using assms 1 2 3 4 None Some by (auto simp: enterFlow_def)
    next
      case err_none: None
      show ?thesis
        using assms 1 2 3 None err_none in3 frames3 inv
        by (auto simp: enterFlow_def modifies_def gets_def elementLookup_def session_available_def
            inside_def run_inv_def advances_def emits_def split: if_splits)
    qed
  qed
qed

lemma flowScope_Close_frames:
  assumes "run_state (flowScope_Close D scope) s = (r, s')"
    and "sc_depth scope = length (es_frames s)" "\<not> sc_closed scope"
  shows "quiet (s\<lparr>es_frames := tl (es_frames s)\<rparr>) s'"
  using assms
  by (auto simp: flowScope_Close_def gets_def modifies_def elementLookup_def session_available_def world_op_def
      quiet_def Let_def split: if_splits prod.splits)

text \<open>Whatever the sequences of a flow do, its scope is closed again.\<close>

lemma scoped_sequence:
  assumes seq: "keeps [] m" and inv: "run_inv s" and opened: "inside [] s (s1\<lparr>es_frames := es_frames s\<rparr>)"
    and frames: "es_frames s1 = f # es_frames s" and scope: "sc_depth scope = length (es_frames s1)" "\<not> sc_closed scope"
    and run: "run_state (State_Monad.bind m (\<lambda>x. State_Monad.bind (flowScope_Close D scope)
                (\<lambda>(e, _). ret (g x e)))) s1 = (y, s')"
  shows "inside [] s s'"
proof -
  obtain x s2 where 2: "run_state m s1 = (x, s2)" by fastforce
  obtain r s3 where 3: "run_state (flowScope_Close D scope) s2 = (r, s3)" by fastforce
  have s': "s' = s3" using run 2 3 by (cases r) simp
  have inv1: "run_inv s1" using inside_run_inv [OF opened inv] by simp
  then have 12: "advances s1 s2" "emits [] s1 s2" "es_frames s2 = es_frames s1"
    using keepsD [OF seq 2] by (simp_all add: inside_def)
  have q: "quiet (s2\<lparr>es_frames := tl (es_frames s2)\<rparr>) s3"
    using flowScope_Close_frames [OF 3] scope 12(3) by simp
  have 23: "advances s2 s3" "emits [] s2 s3" "es_frames s3 = es_frames s"
    using quiet_inside [OF q] 12 frames inside_run_inv by (auto simp: inside_def advances_def)
  have 01: "advances s s1" "emits [] s s1" using opened inv by (simp_all add: inside_def)
  show ?thesis
    using 01 12 23 s' advances_trans emits_trans by (auto simp: inside_def) (blast intro: advances_trans emits_trans)+
qed

lemma keeps_flow_phases:
  assumes "good_parts parts"
  shows "keeps [] (flow_phases D ownership parts overlay depth)"
proof -
  have entered: "keeps [] (State_Monad.bind (enterFlow D (fp_path parts) (fp_config parts) overlay)
      (\<lambda>entered. case entered of Inl e \<Rightarrow> ret (Some e)
         | Inr scope \<Rightarrow> State_Monad.bind m (\<lambda>x. State_Monad.bind (flowScope_Close D scope) (\<lambda>(e, _). ret (g x e)))))"
    if "keeps [] m" for m :: "('a, go_error option) exec" and g
  proof (rule keepsI)
    fix s :: "'a exec_state"
    let ?m = "State_Monad.bind (enterFlow D (fp_path parts) (fp_config parts) overlay)
      (\<lambda>entered. case entered of Inl e \<Rightarrow> ret (Some e)
         | Inr scope \<Rightarrow> State_Monad.bind m (\<lambda>x. State_Monad.bind (flowScope_Close D scope) (\<lambda>(e, _). ret (g x e))))"
    obtain r s1 where 1: "run_state (enterFlow D (fp_path parts) (fp_config parts) overlay) s = (r, s1)" by fastforce
    show "inside [] s (snd (run_state ?m s))"
    proof (cases "run_inv s")
      case True
      note enter = enterFlow_frames [OF 1 True, of "[]"]
      show ?thesis
      proof (cases r)
        case (Inl e)
        then show ?thesis using enter 1 by simp
      next
        case (Inr scope)
        obtain y s' where run: "run_state (State_Monad.bind m (\<lambda>x. State_Monad.bind (flowScope_Close D scope)
            (\<lambda>(e, _). ret (g x e)))) s1 = (y, s')" by fastforce
        have "inside [] s s'" using scoped_sequence [OF that True _ _ _ _ run] enter Inr by auto
        then show ?thesis using 1 run Inr by (simp del: run_state_bind add: run_state_bind [of "enterFlow D (fp_path parts) (fp_config parts) overlay"])
      qed
    next
      case False
      then show ?thesis by (simp add: inside_def)
    qed
  qed
  have "keeps [] (nested_sequences parts depth)" "keeps [] (root_sequences D parts depth None)"
    using assms by (auto intro: keeps_nested_sequences keeps_root_sequences)
  note both = entered [OF this(1), of firstError] entered [OF this(2), of "add_failure (d_foreign D)"]
  show ?thesis
    unfolding flow_phases_def
    by (cases ownership; simp only: flow_ownership.case nested_phases_def root_phases_def)
      (intro keeps_bind [OF keeps_ctx_Err] keeps_bind keeps_if keeps_ret keeps_Session_Close both)+
qed

lemma begin_flow_ok:
  assumes "0 \<le> depth"
  obtains sp started w where
    "run_state (begin_flow D path name depth) s = (Inr (sp, started), s\<lparr>es_world := w\<rparr>)"
    "fs_path sp = path" "\<not> fs_finished sp" "ev_kind started = EventFlowStarted" "ev_flowPath started = path"
proof -
  obtain t w where "d_clock D (es_world s) = (t, w)" by fastforce
  then show ?thesis
    using assms that by (simp add: begin_flow_def BeginFlow_def Let_def)
qed

lemma validOutcome_flow [simp]: "validOutcome (classifyFlowOutcome F e commands depth)"
  by (simp add: classifyFlowOutcome_def)

lemma finish_flow_ok:
  assumes "validOutcome out" "validateCommandOrder commands = None" "\<not> fs_finished sp"
  obtains result finished sp' w where
    "FlowSpan_Finish F clock sp out err (Some commands) w0 = (Inr (result, finished, sp'), w)"
    "ev_kind finished = EventFlowFinished" "ev_flowPath finished = fs_path sp" "fr_path result = fs_path sp"
    "fr_outcome result = out" "fr_commands result = Some (map cloneCommandResult commands)"
proof -
  obtain t w where "clock w0 = (t, w)" by fastforce
  then show ?thesis
    using assms that by (simp add: FlowSpan_Finish_def Let_def cloneCommandResults_def)
qed

lemma snapshot_order:
  assumes ok: "ledger_ok L"
  shows "validateCommandOrder (snapshotAfter L k) = None"
proof -
  let ?rel = "map (releaseLedgerResultErrors \<circ> snd) (canonicalBySequence L)"
  have rel: "res_sequence (releaseLedgerResultErrors r) = res_sequence r"
    "res_depth (releaseLedgerResultErrors r) = res_depth r" for r
    by (simp_all add: releaseLedgerResultErrors_def)
  have "map res_sequence ?rel = map fst (canonicalBySequence L)"
    using ok by (auto simp: rel ledger_ok_def list_all_iff row_ok_def)
  then have "distinct (map res_sequence ?rel)" using ok unfolding ledger_ok_def by argo
  then have "distinct (map res_sequence (filter (\<lambda>r. k < res_sequence r) ?rel))"
    by (rule distinct_map_filter)
  then have "distinct (map res_sequence (snapshotAfter L k))"
    by (simp only: snapshot_rows [OF ok] distinct_map set_sort distinct_sort)
  then have "sorted_wrt (<) (map res_sequence (snapshotAfter L k))"
    by (simp add: snapshot_rows [OF ok] strict_sorted_iff)
  then show ?thesis
    unfolding validateCommandOrder_def
    using ok by (intro strictly_increasing_order)
      (auto simp: snapshot_rows [OF ok] rel ledger_ok_def list_all_iff row_ok_def)
qed

lemma executeFlowLifecycle_ok:
  fixes s s' :: "'w exec_state"
  assumes inv: "run_inv s" and depth: "0 \<le> depth" and parts: "good_parts parts"
    and run: "run_state (executeFlowLifecycle D ownership parts overlay depth) s = ((result, e), s')"
  shows "inside [] s s'" and "fr_path result = fp_path parts"
    and "fr_commands result = Some (map cloneCommandResult (snapshotAfter (es_ledger s') (tl_next (es_timeline s))))"
    and "fr_outcome result = classifyFlowOutcome (d_foreign D) e (snapshotAfter (es_ledger s') (tl_next (es_timeline s))) depth"
proof -
  obtain sp started w where begun:
    "run_state (begin_flow D (fp_path parts) (cfg_name (fp_config parts)) depth) s = (Inr (sp, started), s\<lparr>es_world := w\<rparr>)"
    and sp: "fs_path sp = fp_path parts" "\<not> fs_finished sp"
    and started: "ev_kind started = EventFlowStarted" "ev_flowPath started = fp_path parts"
    using begin_flow_ok [OF depth] by metis
  define s1 where "s1 = s\<lparr>es_world := w\<rparr>"
  obtain ldr s2 where disp: "run_state (DispatchListeners D started None) s1 = (ldr, s2)" by fastforce
  note tr = trace_step [OF DispatchListeners_trace [OF disp]]
  obtain p s3 where phases: "run_state (flow_phases D ownership parts overlay depth) s2 = (p, s3)" by fastforce
  define primary where "primary = sanitizeMalformedError (d_foreign D) ''flow execution failed'' p"
  define commands where "commands = snapshotAfter (es_ledger s3) (Checkpoint (es_timeline s2))"
  have inv2: "run_inv s2" using inv tr(4,5) by (simp add: run_inv_def s1_def)
  have in3: "inside [] s2 s3" using keepsD [OF keeps_flow_phases [OF parts] phases] .
  then have adv3: "advances s2 s3" "emits [] s2 s3" "es_frames s3 = es_frames s2" using inv2 by (simp_all add: inside_def)
  have ok3: "ledger_ok (es_ledger s3)" using adv3(1) by (simp add: advances_def run_inv_def)
  obtain res fin sp' w4 where fin: "FlowSpan_Finish (d_foreign D) (d_clock D) sp
       (classifyFlowOutcome (d_foreign D) primary commands depth) primary (Some commands) (es_world s3)
      = (Inr (res, fin, sp'), w4)"
    "ev_kind fin = EventFlowFinished" "ev_flowPath fin = fs_path sp" "fr_path res = fs_path sp"
    "fr_outcome res = classifyFlowOutcome (d_foreign D) primary commands depth"
    "fr_commands res = Some (map cloneCommandResult commands)"
    using finish_flow_ok [OF validOutcome_flow _ sp(2)] snapshot_order [OF ok3] commands_def by metis
  define s4 where "s4 = s3\<lparr>es_world := w4\<rparr>"
  obtain ldr' s5 where disp': "run_state (DispatchListeners D fin primary) s4 = (ldr', s5)" by fastforce
  note tr' = trace_step [OF DispatchListeners_trace [OF disp']]
  have out: "result = res \<and> e = primary \<and> s' = s5"
    using run depth begun disp phases fin(1) disp'
    by (simp add: executeFlowLifecycle_def s1_def [symmetric] gets_def Let_def primary_def [symmetric]
        commands_def [symmetric] world_op_def s4_def)
  have cp: "Checkpoint (es_timeline s2) = tl_next (es_timeline s)" "es_ledger s' = es_ledger s3"
    using tr(4) tr'(5) out by (simp_all add: Checkpoint_def s1_def s4_def)
  show "fr_path result = fp_path parts"
    "fr_commands result = Some (map cloneCommandResult (snapshotAfter (es_ledger s') (tl_next (es_timeline s))))"
    "fr_outcome result = classifyFlowOutcome (d_foreign D) e (snapshotAfter (es_ledger s') (tl_next (es_timeline s))) depth"
    using out fin(4,5,6) sp(1) cp by (simp_all add: commands_def)
  have "advances s s'"
  proof -
    have "advances s s1" using inv by (simp add: s1_def advances_def run_inv_def)
    moreover have "advances s1 s2" using tr(1) inv by (simp add: s1_def run_inv_def)
    moreover have "advances s3 s4" using adv3(1) by (simp add: s4_def advances_def run_inv_def)
    moreover have "advances s4 s5" using tr'(1) adv3(1) by (simp add: s4_def advances_def run_inv_def)
    ultimately show ?thesis using adv3(1) out advances_trans by blast
  qed
  moreover have "emits [] s s'"
  proof -
    obtain es where es: "es_trace s3 = es_trace s2 @ es" "\<And>outer. brackets outer es = Some outer"
      using adv3(2) by (auto simp: emits_def)
    have "es_trace s' = es_trace s @ (started # es @ [fin])"
      using tr'(2) es(1) tr(2) out by (simp add: s1_def s4_def)
    moreover have "brackets outer (started # es @ [fin]) = Some outer" for outer
      using es(2) started fin(2,3) sp(1) by (simp add: brackets_append)
    ultimately show ?thesis by (auto simp: emits_def)
  qed
  moreover have "es_frames s' = es_frames s" using tr'(3) adv3(3) tr(3) out by (simp add: s1_def s4_def)
  ultimately show "inside [] s s'" by (simp add: inside_def)
qed

lemma keeps_executeFlowLifecycle:
  assumes "0 \<le> depth" "good_parts parts"
  shows "keeps [] (executeFlowLifecycle D ownership parts overlay depth)"
proof (rule keepsI)
  fix s :: "'a exec_state"
  obtain result e s' where run: "run_state (executeFlowLifecycle D ownership parts overlay depth) s = ((result, e), s')"
    by (metis surj_pair)
  show "inside [] s (snd (run_state (executeFlowLifecycle D ownership parts overlay depth) s))"
  proof (cases "run_inv s")
    case True
    then show ?thesis using executeFlowLifecycle_ok(1) [OF True assms run] run by simp
  qed (simp add: inside_def)
qed

section \<open>Every compiled command and flow\<close>

lemma keeps_executeCompiled:
  fixes c :: "('w, 'v) compiled_dispatch" and f :: "('w, 'v) compiled_flow"
  shows "\<forall>depth \<ge> 0. keeps [] (executeCompiled D c depth)"
    and "\<forall>overlay. \<forall>depth \<ge> 0. keeps [] (executeCompiledFlow D f overlay depth)"
proof (induction c and f rule: compiled_dispatch.induct compiled_flow.induct)
  case (CompiledDispatch command spec v kids linked)
  have kids: "\<forall>item \<in> set (map (executeCompiled D) kids). \<forall>depth \<ge> 0. keeps [] (item depth)"
    using CompiledDispatch.IH(1) by auto
  let ?R = "\<lparr>run_children = executeCompiledSequence (map (executeCompiled D) kids),
        run_linked = map_option (executeCompiledFlow D) linked,
        run_inline = (\<lambda>path config. executeFlowLifecycle D nestedFlowExecution
          \<lparr>fp_path = path, fp_config = config, fp_onStart = [], fp_body = map (executeCompiled D) kids,
           fp_onComplete = []\<rparr>)\<rparr>"
  have "good_runners ?R"
    unfolding good_runners_def
  proof (intro conjI allI impI)
    fix depth
    show "keeps [] (run_children ?R depth)"
      using keeps_executeCompiledSequence [OF kids] by simp
  next
    fix f overlay and depth :: int
    assume "run_linked ?R = Some f" "0 \<le> depth"
    then show "keeps [] (f overlay depth)" using CompiledDispatch.IH(2) by (cases linked) auto
  next
    fix path config overlay and depth :: int
    assume "0 \<le> depth"
    then show "keeps [] (run_inline ?R path config overlay depth)"
      using kids by (auto intro!: keeps_executeFlowLifecycle simp: good_parts_def)
  qed
  then show ?case by (simp add: keeps_execute_compiled)
next
  case (CompiledFlow path config start body finish)
  then show ?case by (auto intro!: keeps_executeFlowLifecycle simp: good_parts_def)
qed

lemma good_runners_of:
  "good_runners \<lparr>run_children = executeCompiledSequence (map (executeCompiled D) kids),
        run_linked = map_option (executeCompiledFlow D) linked,
        run_inline = (\<lambda>path config. executeFlowLifecycle D nestedFlowExecution
          \<lparr>fp_path = path, fp_config = config, fp_onStart = [], fp_body = map (executeCompiled D) kids,
           fp_onComplete = []\<rparr>)\<rparr>"
  unfolding good_runners_def
  by (auto simp: keeps_executeCompiled good_parts_def intro!: keeps_executeCompiledSequence keeps_executeFlowLifecycle)

lemma good_parts_of: "good_parts (parts_of D flow)"
  by (auto simp: good_parts_def parts_of_def keeps_executeCompiled)

end
