(* ===== verification/Engine_Run.thy ===== *)
theory Engine_Run
  imports Runs
begin

text \<open>
  Properties of whole executor runs: of a command, of a sequence, of a selected root, and of
  the failure policy. They hold for every handler program, listener, driver and JavaScript
  runtime, because theory \<open>Runs\<close> quantifies over them.
\<close>

section \<open>Commands\<close>

lemma executeCompiled_unfold:
  "executeCompiled D c depth = execute_compiled D (cd_spec c) (cd_command c) (cd_value c) (map cd_command (cd_children c))
     \<lparr>run_children = executeCompiledSequence (map (executeCompiled D) (cd_children c)),
      run_linked = map_option (executeCompiledFlow D) (cd_linked c),
      run_inline = (\<lambda>path config. executeFlowLifecycle D nestedFlowExecution
          \<lparr>fp_path = path, fp_config = config, fp_onStart = [], fp_body = map (executeCompiled D) (cd_children c),
           fp_onComplete = []\<rparr>)\<rparr> depth"
  by (cases c) simp

lemma controller_error_inside:
  "run_state (controller_error D) s = (p, s1) \<Longrightarrow> inside opened s s1"
  by (rule keepsD [OF keeps_controller_error])

lemma controller_quiet: "run_state (controller_error D) s = (p, s') \<Longrightarrow> quiet s s'"
  by (auto simp: controller_error_def ctx_Err_def WaitForController_def world_op_def quiet_def Let_def
      split: prod.splits if_splits option.splits)

lemma executeCompiled_ok:
  assumes inv: "run_inv s" and depth: "0 \<le> depth" and service: "validateRequiredService D (cd_spec c) = None"
    and run: "run_state (executeCompiled D c depth) s = (re, s')"
  shows "finished_command s (cd_command c) depth re s'"
proof -
  obtain p s1 where 1: "run_state (controller_error D) s = (p, s1)" by fastforce
  have q: "quiet s s1" using controller_quiet [OF 1] .
  then have inv1: "run_inv s1" using inv by (simp add: quiet_def run_inv_def)
  let ?R = "\<lparr>run_children = executeCompiledSequence (map (executeCompiled D) (cd_children c)),
      run_linked = map_option (executeCompiledFlow D) (cd_linked c),
      run_inline = (\<lambda>path config. executeFlowLifecycle D nestedFlowExecution
          \<lparr>fp_path = path, fp_config = config, fp_onStart = [], fp_body = map (executeCompiled D) (cd_children c),
           fp_onComplete = []\<rparr>)\<rparr>"
  have handler: "keeps [Command_Bracket (cs_sequence sp)] (f sp)"
    if "Some (\<lambda>sp. runHandler D (host_service D ?R sp (map cd_command (cd_children c)) depth)
           (cd_spec c) (cd_command c) (cd_value c)) = Some f" for f sp
    using execute_compiled_handler [OF good_runners_of depth that] .
  have "run_state (runCommandSpan D (cd_command c)
      (Some (\<lambda>sp. runHandler D (host_service D ?R sp (map cd_command (cd_children c)) depth)
           (cd_spec c) (cd_command c) (cd_value c))) depth p) s1 = (re, s')"
    using run service 1 by (simp add: executeCompiled_unfold execute_compiled_def)
  with handler have "finished_command s1 (cd_command c) depth re s'"
    by (rule runCommandSpan_ok(2) [OF inv1 depth])
  then show ?thesis using q by (simp add: finished_command_def quiet_def)
qed


section \<open>Sequences\<close>

lemma run_items_ok:
  assumes "run_inv s" "0 \<le> depth" "list_all (\<lambda>c. validateRequiredService D (cd_spec c) = None) cs"
    and "run_state (run_items (map (executeCompiled D) cs) depth before) s = ((rs, e), s')"
  shows "\<exists>new. rs = before @ new \<and> length new \<le> length cs
     \<and> map res_command new = map (cloneCommand \<circ> cd_command) (take (length new) cs)
     \<and> sorted_wrt (<) (tl_next (es_timeline s) # map res_sequence new)
     \<and> list_all (\<lambda>r. authenticate (es_ledger s') r = Some r \<and> res_depth r = depth) new
     \<and> (if e = None then length new = length cs \<and> list_all (\<lambda>r. res_outcome r \<in> {Completed, Skipped, Warned}) new
        else new \<noteq> [] \<and> res_outcome (last new) \<notin> {Completed, Skipped, Warned}
          \<and> list_all (\<lambda>r. res_outcome r \<in> {Completed, Skipped, Warned}) (butlast new))"
  using assms
proof (induction cs arbitrary: s before)
  case (Cons c cs)
  obtain r e1 s1 where 1: "run_state (executeCompiled D c depth) s = ((r, e1), s1)" by (metis surj_pair)
  have fin: "finished_command s (cd_command c) depth (r, e1) s1"
    using executeCompiled_ok [OF Cons.prems(1,2) _ 1] Cons.prems(3) by simp
  have "keeps [] (executeCompiled D c depth)" using keeps_executeCompiled(1) Cons.prems(2) by auto
  then have in1: "inside [] s s1" using 1 by (rule keepsD)
  have auth: "authenticate (es_ledger s1) r = Some r" using fin by (simp add: finished_command_def)
  have "res_sequence r \<le> tl_next (es_timeline s1)"
  proof -
    have inv1: "run_inv s1" using inside_run_inv [OF in1 Cons.prems(1)] .
    have "rows (es_ledger s1) (res_sequence r) \<noteq> None"
      using auth by (auto simp: authenticate_def split: if_splits option.splits)
    then show ?thesis using inv1 by (auto simp: run_inv_def)
  qed
  show ?case
  proof (cases e1)
    case (Some x)
    then have "rs = before @ [r]" "e = e1" "s' = s1"
      using Cons.prems(4) 1 auth by (simp_all add: gets_def)
    then show ?thesis
      using Some auth fin by (intro exI [of _ "[r]"]) (simp add: finished_command_def)
  next
    case None
    then have rest: "run_state (run_items (map (executeCompiled D) cs) depth (before @ [r])) s1 = ((rs, e), s')"
      using Cons.prems(4) 1 auth by (simp add: gets_def)
    have inv1: "run_inv s1" using inside_run_inv [OF in1 Cons.prems(1)] .
    obtain new where new: "rs = (before @ [r]) @ new" "length new \<le> length cs"
      "map res_command new = map (cloneCommand \<circ> cd_command) (take (length new) cs)"
      "sorted_wrt (<) (tl_next (es_timeline s1) # map res_sequence new)"
      "list_all (\<lambda>r. authenticate (es_ledger s') r = Some r \<and> res_depth r = depth) new"
      "if e = None then length new = length cs \<and> list_all (\<lambda>r. res_outcome r \<in> {Completed, Skipped, Warned}) new
        else new \<noteq> [] \<and> res_outcome (last new) \<notin> {Completed, Skipped, Warned}
          \<and> list_all (\<lambda>r. res_outcome r \<in> {Completed, Skipped, Warned}) (butlast new)"
      using Cons.IH [OF inv1 Cons.prems(2) _ rest] Cons.prems(3) by auto
    have "keeps [] (run_items (map (executeCompiled D) cs) depth (before @ [r]))"
      using keeps_executeCompiled(1) Cons.prems(2) by (intro keeps_run_items) auto
    then have "inside [] s1 s'" using rest by (rule keepsD)
    then have adv: "advances s1 s'" using inv1 by (simp add: inside_def)
    have "authenticate (es_ledger s') r = Some r"
    proof -
      have "rows (es_ledger s1) (res_sequence r) = Some r" "res_identity r \<noteq> None" "is_sealed r"
        using authenticate_facts [of "es_ledger s1" r] auth inv1 by (auto simp: run_inv_def)
      then show ?thesis
        using authenticate_row [of "es_ledger s'" r] adv grows_Some by (auto simp: advances_def run_inv_def)
    qed
    then show ?thesis
      using new fin None \<open>res_sequence r \<le> tl_next (es_timeline s1)\<close>
      by (intro exI [of _ "r # new"]) (auto simp: finished_command_def split: if_splits)
  qed
qed auto


section \<open>Selected roots\<close>

lemma new_state_inv [simp]: "run_inv (new_state rootRunID h w)"
  by (simp add: run_inv_def new_state_def) (simp add: newCommandResultLedger_def)

lemma keeps_newExecutionSession [exec_rules]: "keeps opened (newExecutionSession D)"
  unfolding newExecutionSession_def
  by (intro exec_rules) (auto simp: ctx_Err_def intro: exec_rules)

lemma keeps_executeCompiledRootForRun: "keeps [] (executeCompiledRootForRun D f)"
  unfolding executeCompiledRootForRun_def session_run_def
  by (intro exec_rules keeps_executeFlowLifecycle good_parts_of order_refl)

lemma root_run_facts:
  assumes "run_state (executeCompiledRootForRun D f) (new_state rootRunID h w) = (r, s)"
  shows "run_inv s" "dom (rows (es_ledger s)) = {0<..tl_next (es_timeline s)}" "es_frames s = []"
    "\<And>outer. brackets outer (es_trace s) = Some outer"
proof -
  have "inside [] (new_state rootRunID h w) s"
    using keepsD [OF keeps_executeCompiledRootForRun assms] .
  then have "advances (new_state rootRunID h w) s" "emits [] (new_state rootRunID h w) s" "es_frames s = []"
    by (simp_all add: inside_def) (simp add: new_state_def)
  then show "run_inv s" "dom (rows (es_ledger s)) = {0<..tl_next (es_timeline s)}" "es_frames s = []"
    "\<And>outer. brackets outer (es_trace s) = Some outer"
    by (auto simp: advances_def grows_def emits_def new_state_def newTimeline_def newCommandResultLedger_def)
qed



section \<open>Failure policy\<close>

lemma add_failure_all:
  "foldl (add_failure F) (Some a) es \<noteq> None"
  by (induction es arbitrary: a) (auto simp: add_failure_def)

lemma foldl_add_failure:
  assumes "acc \<noteq> None"
  shows "\<exists>i \<le> length es. (acc # es) ! i = foldl (add_failure F) acc es \<and> foldl (add_failure F) acc es \<noteq> None
    \<and> (\<forall>j \<le> length es. (acc # es) ! j \<noteq> None \<longrightarrow>
         rootTerminalPrecedence F ((acc # es) ! j) \<le> rootTerminalPrecedence F (foldl (add_failure F) acc es)
         \<and> (j < i \<longrightarrow> rootTerminalPrecedence F ((acc # es) ! j) < rootTerminalPrecedence F (foldl (add_failure F) acc es)))"
  using assms
proof (induction es rule: rev_induct)
  case Nil
  then show ?case by (intro exI [of _ 0]) auto
next
  case (snoc e es)
  let ?m = "foldl (add_failure F) acc es"
  obtain i where i: "i \<le> length es" "(acc # es) ! i = ?m" "?m \<noteq> None"
    "\<And>j. j \<le> length es \<Longrightarrow> (acc # es) ! j \<noteq> None \<Longrightarrow>
       rootTerminalPrecedence F ((acc # es) ! j) \<le> rootTerminalPrecedence F ?m
       \<and> (j < i \<longrightarrow> rootTerminalPrecedence F ((acc # es) ! j) < rootTerminalPrecedence F ?m)"
    using snoc by blast
  have nth: "(acc # es @ [e]) ! j = (if j \<le> length es then (acc # es) ! j else e)" if "j \<le> Suc (length es)" for j
    using that by (cases j) (auto simp: nth_append)
  show ?case
  proof (cases "e \<noteq> None \<and> rootTerminalPrecedence F e > rootTerminalPrecedence F ?m")
    case True
    then have "foldl (add_failure F) acc (es @ [e]) = e" by (auto simp: add_failure_def)
    moreover have lt: "rootTerminalPrecedence F ((acc # es) ! j) < rootTerminalPrecedence F e"
      if "j \<le> length es" "(acc # es) ! j \<noteq> None" for j
      using i(4) [OF that] True by linarith
    ultimately have m: "foldl (add_failure F) acc (es @ [e]) = e" by simp
    show ?thesis
      unfolding m
    proof (intro exI [of _ "Suc (length es)"] conjI allI impI)
      fix j
      assume j: "j \<le> length (es @ [e])" and some: "(acc # es @ [e]) ! j \<noteq> None"
      show "rootTerminalPrecedence F ((acc # es @ [e]) ! j) \<le> rootTerminalPrecedence F e"
        using nth [of j] j some lt [of j] by (cases "j \<le> length es") auto
      show "j < Suc (length es) \<Longrightarrow> rootTerminalPrecedence F ((acc # es @ [e]) ! j) < rootTerminalPrecedence F e"
        using nth [of j] j some lt [of j] by simp
    qed (use True nth in auto)
  next
    case False
    then have m: "foldl (add_failure F) acc (es @ [e]) = ?m" using i(3) by (auto simp: add_failure_def)
    show ?thesis
      unfolding m using False nth i by (intro exI [of _ i]) (auto simp: le_Suc_eq)
  qed
qed


section \<open>Concrete runs\<close>

text \<open>Services that answer at once, and a command whose handler fails.\<close>

definition idle_deps :: "unit deps" where
  "idle_deps = \<lparr>d_foreign = (\<lambda>_. opaque_node),
     d_clock = (\<lambda>w. (0, w)), d_ctxErr = (\<lambda>w. (None, w)), d_listeners = [], d_controller = None,
     d_inputGenerator = False, d_artifactSink = None, d_takeScreenshot = (\<lambda>w. (Return ('''', None), w)),
     d_failureResolver = None, d_recordInteraction = (\<lambda>_ w. ((), w)), d_waitForSettle = (\<lambda>_ w. (None, w)),
     d_pushEnv = (\<lambda>w. (None, w)), d_popEnv = (\<lambda>w. (None, w)), d_putEnv = (\<lambda>_ _ w. (None, w)),
     d_setCopiedText = (\<lambda>_ w. (None, w)), d_closeRuntime = (\<lambda>w. (None, w)),
     d_newRuntime = (\<lambda>w. ((True, None), w)), d_deviceInfo = (\<lambda>w. (Inr ''Android'', w)),
     d_setPlatform = (\<lambda>_ w. (None, w)), d_enableDevTools = (\<lambda>w. (None, w)),
     d_reservedEnvironment = None, d_externalEnvironment = None\<rparr>"

definition failing_item :: "string \<Rightarrow> (unit, nat) compiled_dispatch" where
  "failing_item kind = CompiledDispatch (plain_command kind)
     \<lparr>spec_keyword = kind, spec_effectClass = EffectNone, spec_postAction = postActionNoSettle,
      spec_settleRequest = None, spec_exactErrorPolicy = exactErrorPublicationUnspecified, spec_requiredService = requiredServiceNone,
      spec_compile = None, spec_evaluate = Some (\<lambda>c v. Done (\<lparr>ed_command = c, ed_value = Some v\<rparr>, None)),
      spec_execute = Some (\<lambda>e. Done (no_effect, Some (Plain_Error ''down'')))\<rparr> 0 [] None"




end
