(* ===== verification/Decode.thy ===== *)
theory Decode
  imports Dispatch
begin

text \<open>
  \<^verbatim>\<open>internal/engine/decoder.go\<close>: the decoding of the normalised argument of a command into the
  fields a handler compiler asks for, and the decimal numerals it accepts.

  An object is its list of fields in key order, as everywhere in this development, so a loop
  over the sorted keys is a traversal of the list. A decoder returns an error, or the value
  with the flag that says whether the field was present (\<open>None\<close> for an absent field).
  \<^verbatim>\<open>optionalNumber\<close> is not modelled: it needs the decimal conversion of \<^verbatim>\<open>float64\<close>.
\<close>

section \<open>Numerals\<close>

definition digit_value :: "char \<Rightarrow> nat option" where
  "digit_value c = (let n = of_char c :: nat in if 48 \<le> n \<and> n \<le> 57 then Some (n - 48) else None)"

text \<open>\<open>decimal s\<close> is the value of a non-empty digit string of any length.\<close>

fun decimal_from :: "nat \<Rightarrow> string \<Rightarrow> nat option" where
  "decimal_from acc [] = Some acc"
| "decimal_from acc (c # cs) =
     (case digit_value c of None \<Rightarrow> None | Some d \<Rightarrow> decimal_from (10 * acc + d) cs)"

definition decimal :: "string \<Rightarrow> nat option" where
  "decimal s = (if s = '''' then None else decimal_from 0 s)"

text \<open>\<^verbatim>\<open>strconv.ParseUint(s, 10, bits)\<close> and \<^verbatim>\<open>strconv.Atoi\<close>; the reason of a failure is not kept.\<close>

definition ParseUint :: "nat \<Rightarrow> string \<Rightarrow> nat option" where
  "ParseUint bits s =
     (case decimal s of None \<Rightarrow> None | Some n \<Rightarrow> if n < 2 ^ bits then Some n else None)"

definition Atoi :: "string \<Rightarrow> int option" where
  "Atoi s =
     (let negative = (s \<noteq> '''' \<and> hd s = CHR ''-'');
          digits = (if s \<noteq> '''' \<and> (hd s = CHR ''-'' \<or> hd s = CHR ''+'') then tl s else s)
      in case decimal digits of
           None \<Rightarrow> None
         | Some n \<Rightarrow> (let i = (if negative then - int n else int n)
                      in if - (2 ^ 63) \<le> i \<and> i < 2 ^ 63 then Some i else None))"

section \<open>Decoded objects\<close>

record decoded_object =
  od_command :: string
  od_fields :: "(string \<times> dyn) list"

datatype decoded_string_or_object = DecodedString string | DecodedObject decoded_object

definition commandDecodeError :: "string \<Rightarrow> string \<Rightarrow> go_error" where
  "commandDecodeError kind message = NewConfigurationError (''command '' @ kind @ '' '' @ message) None"

definition fieldError :: "decoded_object \<Rightarrow> string \<Rightarrow> string \<Rightarrow> go_error" where
  "fieldError obj f message =
     NewConfigurationError (''command '' @ od_command obj @ '' field '' @ f @ '' '' @ message) None"

fun cloneDecodedValue :: "dyn \<Rightarrow> dyn" where
  "cloneDecodedValue (DynMap m) = DynMap (Some (elems (map_option (map (map_prod id cloneDecodedValue)) m)))"
| "cloneDecodedValue (DynList xs) = DynList (Some (elems (map_option (map cloneDecodedValue) xs)))"
| "cloneDecodedValue (DynStringMap m) = DynStringMap (Some (elems m))"
| "cloneDecodedValue (DynStrings xs) = DynStrings (append_nil xs)"
| "cloneDecodedValue v = v"

definition newDecodedObject :: "string \<Rightarrow> (string \<times> dyn) list \<Rightarrow> decoded_object" where
  "newDecodedObject kind obj = \<lparr>od_command = kind, od_fields = map (map_prod id cloneDecodedValue) obj\<rparr>"

definition decodeNoArguments :: "command \<Rightarrow> go_error option" where
  "decodeNoArguments c =
     (if cmd_form c \<noteq> CommandFormScalar
      then Some (commandDecodeError (cmd_kind c) ''must use bare scalar form without arguments'')
      else if cmd_arguments c \<noteq> DynNil
      then Some (commandDecodeError (cmd_kind c) ''bare scalar form must not carry arguments'')
      else None)"

definition decodeString :: "command \<Rightarrow> go_error + string" where
  "decodeString c =
     (if cmd_form c \<noteq> CommandFormObject
      then Inl (commandDecodeError (cmd_kind c) ''requires object form with a string argument'')
      else case cmd_arguments c of
             DynString s \<Rightarrow> Inr s
           | _ \<Rightarrow> Inl (commandDecodeError (cmd_kind c) ''argument must be a string''))"

definition decodeOptionalString :: "command \<Rightarrow> go_error + string option" where
  "decodeOptionalString c =
     (case cmd_form c of
        CommandFormScalar \<Rightarrow>
          if cmd_arguments c \<noteq> DynNil
          then Inl (commandDecodeError (cmd_kind c) ''bare scalar form must not carry arguments'')
          else Inr None
      | CommandFormObject \<Rightarrow>
          (case cmd_arguments c of
             DynString s \<Rightarrow> Inr (Some s)
           | _ \<Rightarrow> Inl (commandDecodeError (cmd_kind c) ''argument must be a string when provided'')))"

definition decodeObject :: "command \<Rightarrow> go_error + decoded_object" where
  "decodeObject c =
     (if cmd_form c \<noteq> CommandFormObject
      then Inl (commandDecodeError (cmd_kind c) ''requires object form with an object argument'')
      else case cmd_arguments c of
             DynMap m \<Rightarrow> Inr (newDecodedObject (cmd_kind c) (elems m))
           | _ \<Rightarrow> Inl (commandDecodeError (cmd_kind c) ''argument must be an object''))"

definition decodeOptionalObject :: "command \<Rightarrow> go_error + decoded_object \<times> bool" where
  "decodeOptionalObject c =
     (case cmd_form c of
        CommandFormScalar \<Rightarrow>
          if cmd_arguments c \<noteq> DynNil
          then Inl (commandDecodeError (cmd_kind c) ''bare scalar form must not carry arguments'')
          else Inr (newDecodedObject (cmd_kind c) [], False)
      | CommandFormObject \<Rightarrow>
          (case cmd_arguments c of
             DynMap m \<Rightarrow> Inr (newDecodedObject (cmd_kind c) (elems m), True)
           | _ \<Rightarrow> Inl (commandDecodeError (cmd_kind c) ''argument must be an object when provided'')))"

definition decodeStringOrObject :: "command \<Rightarrow> go_error + decoded_string_or_object" where
  "decodeStringOrObject c =
     (if cmd_form c \<noteq> CommandFormObject
      then Inl (commandDecodeError (cmd_kind c) ''requires object form with a string or object argument'')
      else case cmd_arguments c of
             DynString s \<Rightarrow> Inr (DecodedString s)
           | DynMap m \<Rightarrow> Inr (DecodedObject (newDecodedObject (cmd_kind c) (elems m)))
           | _ \<Rightarrow> Inl (commandDecodeError (cmd_kind c) ''argument must be a string or object''))"

section \<open>Fields\<close>

definition requireString :: "decoded_object \<Rightarrow> string \<Rightarrow> go_error + string" where
  "requireString obj f =
     (case map_of (od_fields obj) f of
        None \<Rightarrow> Inl (fieldError obj f ''is required'')
      | Some (DynString s) \<Rightarrow> Inr s
      | Some _ \<Rightarrow> Inl (fieldError obj f ''must be a string''))"

definition optionalString :: "decoded_object \<Rightarrow> string \<Rightarrow> go_error + string option" where
  "optionalString obj f =
     (case map_of (od_fields obj) f of
        None \<Rightarrow> Inr None
      | Some (DynString s) \<Rightarrow> Inr (Some s)
      | Some _ \<Rightarrow> Inl (fieldError obj f ''must be a string''))"

text \<open>Only ASCII letters lower to the ASCII words compared with.\<close>

definition optionalBool :: "decoded_object \<Rightarrow> string \<Rightarrow> go_error + bool option" where
  "optionalBool obj f =
     (let bad = Inl (fieldError obj f ''must be a boolean'')
      in case map_of (od_fields obj) f of
           None \<Rightarrow> Inr None
         | Some (DynBool b) \<Rightarrow> Inr (Some b)
         | Some (DynString s) \<Rightarrow>
             if map lower_ascii s = ''true'' then Inr (Some True)
             else if map lower_ascii s = ''false'' then Inr (Some False) else bad
         | Some _ \<Rightarrow> bad)"

definition optionalInt :: "decoded_object \<Rightarrow> string \<Rightarrow> go_error + int option" where
  "optionalInt obj f =
     (let bad = Inl (fieldError obj f ''must be an int64 integer'')
      in case map_of (od_fields obj) f of
           None \<Rightarrow> Inr None
         | Some (DynInt i) \<Rightarrow> Inr (Some i)
         | Some (DynString s) \<Rightarrow> (case Atoi s of Some i \<Rightarrow> Inr (Some i) | None \<Rightarrow> bad)
         | Some _ \<Rightarrow> bad)"

fun string_entries :: "(string \<Rightarrow> go_error) \<Rightarrow> (string \<times> dyn) list \<Rightarrow> go_error + (string \<times> string) list" where
  "string_entries bad [] = Inr []"
| "string_entries bad ((k, v) # kvs) =
     (case v of
        DynString s \<Rightarrow> (case string_entries bad kvs of Inl e \<Rightarrow> Inl e | Inr r \<Rightarrow> Inr ((k, s) # r))
      | _ \<Rightarrow> Inl (bad k))"

definition optionalStringMap :: "decoded_object \<Rightarrow> string \<Rightarrow> go_error + string_map option" where
  "optionalStringMap obj f =
     (case map_of (od_fields obj) f of
        None \<Rightarrow> Inr None
      | Some (DynMap m) \<Rightarrow>
          (case string_entries (\<lambda>k. fieldError obj f (''entry '' @ k @ '' must be a string'')) (elems m) of
             Inl e \<Rightarrow> Inl e | Inr r \<Rightarrow> Inr (Some (Some r)))
      | Some _ \<Rightarrow> Inl (fieldError obj f ''must be an object with string values''))"

fun string_items :: "(nat \<Rightarrow> go_error) \<Rightarrow> nat \<Rightarrow> dyn list \<Rightarrow> go_error + string list" where
  "string_items bad i [] = Inr []"
| "string_items bad i (x # xs) =
     (case x of
        DynString s \<Rightarrow> (case string_items bad (i + 1) xs of Inl e \<Rightarrow> Inl e | Inr r \<Rightarrow> Inr (s # r))
      | _ \<Rightarrow> Inl (bad i))"

definition optionalStrings :: "decoded_object \<Rightarrow> string \<Rightarrow> go_error + string list option" where
  "optionalStrings obj f =
     (case map_of (od_fields obj) f of
        None \<Rightarrow> Inr None
      | Some (DynList xs) \<Rightarrow>
          (case string_items (\<lambda>i. fieldError obj f (''entry '' @ dec i @ '' must be a string'')) 0 (elems xs) of
             Inl e \<Rightarrow> Inl e | Inr r \<Rightarrow> Inr (Some r))
      | Some _ \<Rightarrow> Inl (fieldError obj f ''must be an array of strings''))"

definition raw :: "decoded_object \<Rightarrow> string \<Rightarrow> dyn option" where
  "raw obj f = map_option cloneDecodedValue (map_of (od_fields obj) f)"

definition rejectUnknown :: "decoded_object \<Rightarrow> string list \<Rightarrow> go_error option" where
  "rejectUnknown obj allowed =
     (case filter (\<lambda>f. f \<notin> set (''label'' # ''optional'' # allowed)) (map fst (od_fields obj)) of
        [] \<Rightarrow> None
      | f # _ \<Rightarrow> Some (fieldError obj f ''is unknown''))"

section \<open>Numerals are exact\<close>

lemma digit_value_digit [simp]: "d < 10 \<Longrightarrow> digit_value (char_of (48 + d)) = Some d"
  by (simp add: digit_value_def)

lemma decimal_from_append:
  "decimal_from acc (s @ t) = (case decimal_from acc s of None \<Rightarrow> None | Some n \<Rightarrow> decimal_from n t)"
  by (induction s arbitrary: acc) (auto split: option.split)

lemma decimal_from_dec_fuel: "n < 10 ^ k \<Longrightarrow> decimal_from 0 (dec_fuel k n) = Some n"
proof (induction k arbitrary: n)
  case (Suc k)
  then have "n div 10 < 10 ^ k" by (simp add: less_mult_imp_div_less mult.commute)
  with Suc.IH show ?case by (auto simp: decimal_from_append)
qed simp

lemma less_ten_power: "n < (10 :: nat) ^ Suc n"
  by (induction n) auto

lemma decimal_dec: "decimal (dec n) = Some n"
  using decimal_from_dec_fuel [OF less_ten_power, of n] by (simp add: decimal_def dec_def)

lemma decimal_digits: "decimal_from acc s = Some n \<Longrightarrow> list_all (\<lambda>c. digit_value c \<noteq> None) s"
  by (induction s arbitrary: acc) (auto split: option.splits)

lemma decimal_total: "list_all (\<lambda>c. digit_value c \<noteq> None) s \<Longrightarrow> \<exists>n. decimal_from acc s = Some n"
  by (induction s arbitrary: acc) auto

lemma digit_value_None: "digit_value c = None \<longleftrightarrow> (of_char c :: nat) < 48 \<or> 57 < (of_char c :: nat)"
  by (auto simp: digit_value_def Let_def)

end
