(* ===== verification/Hierarchy.thy ===== *)
theory Hierarchy
  imports Decode "HOL-Library.Sublist"
begin

text \<open>
  \<^verbatim>\<open>internal/hierarchy\<close>: bounds and viewports (\<^verbatim>\<open>geometry.go\<close>) and the normalised element tree
  (\<^verbatim>\<open>tree.go\<close>).

  Coordinates are 64-bit integers; \<open>wrap64\<close> is the value an \<^verbatim>\<open>int\<close> operation leaves. Fractions
  are exact rationals: for areas below \<^verbatim>\<open>2^53\<close> the conversions to \<^verbatim>\<open>float64\<close> are exact, and the
  correctly rounded quotient compares with \<^verbatim>\<open>0.10\<close> as the rational does.

  An element is a node with its children below it. The source identifies elements by address;
  all elements of one tree come from \<^verbatim>\<open>New\<close> or from \<^verbatim>\<open>filterVisible\<close>, which give distinct
  orders to distinct elements, so here the order is the identity. The \<^verbatim>\<open>Parent\<close> pointer is the
  list of ancestors, innermost first.
\<close>

section \<open>Geometry\<close>

definition wrap64 :: "int \<Rightarrow> int" where
  "wrap64 i = (i + 2 ^ 63) mod 2 ^ 64 - 2 ^ 63"

definition int64 :: "int \<Rightarrow> bool" where
  "int64 i \<longleftrightarrow> - (2 ^ 63) \<le> i \<and> i < 2 ^ 63"

lemma wrap64_id: "int64 i \<Longrightarrow> wrap64 i = i"
  by (simp add: wrap64_def int64_def)

record bounds =
  b_x :: int
  b_y :: int
  b_width :: int
  b_height :: int

definition no_bounds :: bounds where
  "no_bounds = \<lparr>b_x = 0, b_y = 0, b_width = 0, b_height = 0\<rparr>"

record point =
  p_x :: rat
  p_y :: rat

datatype bounds_reason = Expected_Format | Outside_Range | Inverted

text \<open>The two capture groups of one half of the bounds pattern, and the whole anchored pattern.\<close>

definition take_integer :: "string \<Rightarrow> (string \<times> string) option" where
  "take_integer s =
     (let sign = (if s \<noteq> '''' \<and> hd s = CHR ''-'' then [CHR ''-''] else '''');
          rest = drop (length sign) s;
          digits = takeWhile (\<lambda>c. digit_value c \<noteq> None) rest
      in if digits = '''' then None else Some (sign @ digits, drop (length digits) rest))"

definition take_char :: "char \<Rightarrow> string \<Rightarrow> string option" where
  "take_char c s = (if s \<noteq> '''' \<and> hd s = c then Some (tl s) else None)"

definition take_pair :: "string \<Rightarrow> ((string \<times> string) \<times> string) option" where
  "take_pair s =
     Option.bind (take_char (CHR ''['') s) (\<lambda>s.
     Option.bind (take_integer s) (\<lambda>(a, s).
     Option.bind (take_char (CHR '','') s) (\<lambda>s.
     Option.bind (take_integer s) (\<lambda>(b, s).
     Option.bind (take_char (CHR '']'') s) (\<lambda>s. Some ((a, b), s))))))"

definition match_bounds :: "string \<Rightarrow> (string \<times> string \<times> string \<times> string) option" where
  "match_bounds s =
     Option.bind (take_pair s) (\<lambda>((a, b), s).
     Option.bind (take_pair s) (\<lambda>((c, d), s). if s = '''' then Some (a, b, c, d) else None))"

definition ParseBounds :: "string \<Rightarrow> bounds_reason + bounds" where
  "ParseBounds value =
     (case match_bounds value of
        None \<Rightarrow> Inl Expected_Format
      | Some (a, b, c, d) \<Rightarrow>
          (case (Atoi a, Atoi b, Atoi c, Atoi d) of
             (Some x1, Some y1, Some x2, Some y2) \<Rightarrow>
               if x2 < x1 \<or> y2 < y1 then Inl Inverted
               else Inr \<lparr>b_x = x1, b_y = y1, b_width = wrap64 (x2 - x1),
                         b_height = wrap64 (y2 - y1)\<rparr>
           | _ \<Rightarrow> Inl Outside_Range))"

definition FormatBounds :: "bounds \<Rightarrow> string" where
  "FormatBounds b =
     ''['' @ dec_int (b_x b) @ '','' @ dec_int (b_y b) @ '']['' @ dec_int (wrap64 (b_x b + b_width b))
     @ '','' @ dec_int (wrap64 (b_y b + b_height b)) @ '']''"

definition Area :: "bounds \<Rightarrow> int" where
  "Area b = (if b_width b \<le> 0 \<or> b_height b \<le> 0 then 0 else wrap64 (b_width b * b_height b))"

definition Center :: "bounds \<Rightarrow> point" where
  "Center b = \<lparr>p_x = of_int (b_x b) + of_int (b_width b) / 2, p_y = of_int (b_y b) + of_int (b_height b) / 2\<rparr>"

definition b_right :: "bounds \<Rightarrow> int" where "b_right b = wrap64 (b_x b + b_width b)"
definition b_bottom :: "bounds \<Rightarrow> int" where "b_bottom b = wrap64 (b_y b + b_height b)"

definition VisiblePercentage :: "bounds \<Rightarrow> bounds \<Rightarrow> rat" where
  "VisiblePercentage b viewport =
     (if Area b = 0 \<or> Area viewport = 0 then 0
      else if b_x b \<le> b_x viewport \<and> b_y b \<le> b_y viewport
           \<and> b_right b \<ge> b_right viewport \<and> b_bottom b \<ge> b_bottom viewport then 1
      else let w = wrap64 (min (b_right b) (b_right viewport) - max (b_x b) (b_x viewport));
               h = wrap64 (min (b_bottom b) (b_bottom viewport) - max (b_y b) (b_y viewport))
           in if w \<le> 0 \<or> h \<le> 0 then 0 else of_int (wrap64 (w * h)) / of_int (Area b))"

definition Intersection :: "bounds \<Rightarrow> bounds \<Rightarrow> bounds" where
  "Intersection b c =
     (let x1 = max (b_x b) (b_x c); y1 = max (b_y b) (b_y c);
          x2 = min (b_right b) (b_right c); y2 = min (b_bottom b) (b_bottom c)
      in if x2 \<le> x1 \<or> y2 \<le> y1 then no_bounds
         else \<lparr>b_x = x1, b_y = y1, b_width = wrap64 (x2 - x1), b_height = wrap64 (y2 - y1)\<rparr>)"

definition MinimumVisiblePercentage :: rat where
  "MinimumVisiblePercentage = 1 / 10"

definition IsVisible :: "bounds \<Rightarrow> bounds \<Rightarrow> bool" where
  "IsVisible b viewport \<longleftrightarrow> VisiblePercentage b viewport \<ge> MinimumVisiblePercentage"

definition VisibleCenter :: "bounds \<Rightarrow> bounds \<Rightarrow> point" where
  "VisibleCenter b viewport =
     (if Area b = 0 \<or> Area viewport = 0 then Center b
      else let x1 = max (b_x b) (b_x viewport); y1 = max (b_y b) (b_y viewport);
               x2 = min (b_right b) (b_right viewport); y2 = min (b_bottom b) (b_bottom viewport)
           in if x2 \<le> x1 \<or> y2 \<le> y1 then Center b
              else Center \<lparr>b_x = x1, b_y = y1, b_width = wrap64 (x2 - x1), b_height = wrap64 (y2 - y1)\<rparr>)"

section \<open>Element trees\<close>

lemma map_filter_cong [fundef_cong]:
  "xs = ys \<Longrightarrow> (\<And>x. x \<in> set ys \<Longrightarrow> f x = g x) \<Longrightarrow> List.map_filter f xs = List.map_filter g ys"
  by (induction ys arbitrary: xs) (auto simp: List.map_filter_def)

record node_fields =
  nf_attributes :: string_map
  nf_clickable :: "bool option"
  nf_enabled :: "bool option"
  nf_focused :: "bool option"
  nf_checked :: "bool option"
  nf_selected :: "bool option"

datatype tree_node = TreeNode (tn_fields: node_fields) (tn_children: "tree_node list")

datatype element = Element
  (el_node: node_fields)
  (el_bounds: bounds)
  (el_hasBounds: bool)
  (el_order: nat)
  (el_onScreen: bool)
  (el_children: "element list")

definition attribute :: "node_fields \<Rightarrow> string \<Rightarrow> string option" where
  "attribute f k = map_of (elems (nf_attributes f)) k"

text \<open>\<^verbatim>\<open>newElement\<close>: the order counter is threaded through the children.\<close>

fun newElement :: "tree_node \<Rightarrow> nat \<Rightarrow> bounds_reason + (element \<times> nat)"
  and newElements :: "tree_node list \<Rightarrow> nat \<Rightarrow> bounds_reason + (element list \<times> nat)" where
  "newElement (TreeNode f kids) n =
     (case (case attribute f ''bounds'' of
              None \<Rightarrow> Inr (no_bounds, False)
            | Some text \<Rightarrow> (case ParseBounds text of Inl e \<Rightarrow> Inl e | Inr b \<Rightarrow> Inr (b, True))) of
        Inl e \<Rightarrow> Inl e
      | Inr (b, has) \<Rightarrow>
          (case newElements kids (n + 1) of
             Inl e \<Rightarrow> Inl e
           | Inr (es, n') \<Rightarrow> Inr (Element f b has n False es, n')))"
| "newElements [] n = Inr ([], n)"
| "newElements (k # ks) n =
     (case newElement k n of
        Inl e \<Rightarrow> Inl e
      | Inr (e, n1) \<Rightarrow>
          (case newElements ks n1 of Inl e' \<Rightarrow> Inl e' | Inr (es, n2) \<Rightarrow> Inr (e # es, n2)))"

definition new_tree :: "tree_node \<Rightarrow> bounds_reason + element" where
  "new_tree r = (case newElement r 0 of Inl e \<Rightarrow> Inl e | Inr (e, n) \<Rightarrow> Inr e)"

text \<open>\<^verbatim>\<open>Walk\<close> keeps its own stack, here with the top first.\<close>

function walk_stack :: "element list \<Rightarrow> element list" where
  "walk_stack [] = []"
| "walk_stack (e # es) = e # walk_stack (el_children e @ es)"
  by pat_completeness auto
termination
proof (relation "measure (size_list size)", simp)
  fix e :: element and es
  have "size_list size (el_children e) < size e" by (cases e) simp
  then show "(el_children e @ es, e # es) \<in> measure (size_list size)" by simp
qed

definition Walk :: "element option \<Rightarrow> element list" where
  "Walk root_element = (case root_element of None \<Rightarrow> [] | Some e \<Rightarrow> walk_stack [e])"

definition clipTo :: "(node_fields \<Rightarrow> bool) option \<Rightarrow> element \<Rightarrow> bounds \<Rightarrow> bounds" where
  "clipTo clips e viewport =
     (case clips of
        None \<Rightarrow> viewport
      | Some c \<Rightarrow> if \<not> el_hasBounds e \<or> Area (el_bounds e) = 0 \<or> \<not> c (el_node e) then viewport
                  else Intersection viewport (el_bounds e))"

fun filterVisible :: "(node_fields \<Rightarrow> bool) option \<Rightarrow> bounds \<Rightarrow> element \<Rightarrow> element option" where
  "filterVisible clips viewport (Element f b has n shown kids) =
     (let inner = clipTo clips (Element f b has n shown kids) viewport;
          kids' = List.map_filter (filterVisible clips inner) kids;
          shown' = (\<not> has \<or> IsVisible b viewport)
      in if shown' \<or> kids' \<noteq> [] then Some (Element f b has n shown' kids') else None)"

definition FilterVisibleWithin :: "element \<Rightarrow> bounds \<Rightarrow> (node_fields \<Rightarrow> bool) option \<Rightarrow> element option" where
  "FilterVisibleWithin e viewport clips = filterVisible clips viewport e"

definition FilterVisible :: "element \<Rightarrow> bounds \<Rightarrow> element option" where
  "FilterVisible e viewport = FilterVisibleWithin e viewport None"

definition ClippedViewport :: "element list \<Rightarrow> bounds \<Rightarrow> (node_fields \<Rightarrow> bool) option \<Rightarrow> bounds" where
  "ClippedViewport ancestors viewport clips = foldl (\<lambda>v a. clipTo clips a v) viewport ancestors"

section \<open>The walk is the preorder\<close>

fun preorder :: "element \<Rightarrow> element list" where
  "preorder (Element f b has n shown kids) =
     Element f b has n shown kids # concat (map preorder kids)"

lemma walk_stack_preorder: "walk_stack es = concat (map preorder es)"
proof (induction es rule: walk_stack.induct)
  case (2 e es)
  then show ?case by (cases e) simp
qed simp

lemma Walk_simps [simp]: "Walk None = []" "Walk (Some e) = preorder e"
  by (simp_all add: Walk_def walk_stack_preorder)

fun tree_preorder :: "tree_node \<Rightarrow> node_fields list" where
  "tree_preorder (TreeNode f kids) = f # concat (map tree_preorder kids)"

definition bad_bounds :: "node_fields \<Rightarrow> bool" where
  "bad_bounds f \<longleftrightarrow> (case attribute f ''bounds'' of None \<Rightarrow> False | Some s \<Rightarrow> \<exists>e. ParseBounds s = Inl e)"

definition element_of_node :: "element \<Rightarrow> bool" where
  "element_of_node e \<longleftrightarrow> \<not> el_onScreen e \<and>
     (case attribute (el_node e) ''bounds'' of
        None \<Rightarrow> \<not> el_hasBounds e
      | Some s \<Rightarrow> el_hasBounds e \<and> ParseBounds s = Inr (el_bounds e))"

lemma element_of_node_simps [simp]:
  "element_of_node (Element f b has n shown kids) \<longleftrightarrow> \<not> shown \<and>
     (case attribute f ''bounds'' of None \<Rightarrow> \<not> has | Some s \<Rightarrow> has \<and> ParseBounds s = Inr b)"
  by (auto simp: element_of_node_def split: option.split)

lemma upt_step: "n1 \<le> n2 \<Longrightarrow> n \<le> n1 \<Longrightarrow> [n..<n1] @ [n1..<n2] = [n..<n2]" for n n1 n2 :: nat
  by (metis le_add_diff_inverse upt_add_eq_append)

lemma newElement_facts:
  "(case newElement t n of
      Inl e \<Rightarrow> list_ex bad_bounds (tree_preorder t)
    | Inr (e, n') \<Rightarrow> n < n' \<and> map el_order (preorder e) = [n..<n']
        \<and> map el_node (preorder e) = tree_preorder t \<and> list_all element_of_node (preorder e))"
  "(case newElements ts n of
      Inl e \<Rightarrow> list_ex bad_bounds (concat (map tree_preorder ts))
    | Inr (es, n') \<Rightarrow> n \<le> n' \<and> map el_order (concat (map preorder es)) = [n..<n']
        \<and> map el_node (concat (map preorder es)) = concat (map tree_preorder ts)
        \<and> list_all element_of_node (concat (map preorder es)))"
proof (induction t n and ts n rule: newElement_newElements.induct)
  case (1 f kids n)
  show ?case
  proof (cases "attribute f ''bounds''")
    case None
    then show ?thesis
      using 1 [of "(no_bounds, False)" no_bounds False]
      by (auto simp: upt_conv_Cons split: sum.splits)
  next
    case (Some s)
    show ?thesis
    proof (cases "ParseBounds s")
      case (Inr b)
      with Some show ?thesis
        using 1 [of "(b, True)" b True]
        by (auto simp: upt_conv_Cons split: sum.splits)
    qed (simp add: Some bad_bounds_def)
  qed
next
  case (3 k ks n)
  show ?case
  proof (cases "newElement k n")
    case (Inr p)
    obtain e n1 where p: "p = (e, n1)" by (cases p)
    show ?thesis
      using 3(1) 3(2) [OF Inr p [symmetric]] Inr p by (auto simp: upt_step split: sum.splits)
  qed (use 3(1) in auto)
qed simp_all

text \<open>Normalising a device tree keeps the nodes in document order and numbers them 0, 1, 2, ...
  in that order, so an order identifies an element and the walk is sorted by it; every element has the
  bounds its attribute spells, or none when it has no such attribute; and it fails only when some
  bounds attribute is malformed.\<close>

theorem new_tree_is_document_order:
  "case new_tree t of
     Inl e \<Rightarrow> list_ex bad_bounds (tree_preorder t)
   | Inr r \<Rightarrow> map el_node (Walk (Some r)) = tree_preorder t
       \<and> map el_order (Walk (Some r)) = [0..<length (Walk (Some r))]
       \<and> list_all element_of_node (Walk (Some r))"
proof (cases "newElement t 0")
  case (Inl e)
  then show ?thesis using newElement_facts(1) [of t 0] by (simp add: new_tree_def)
next
  case (Inr p)
  obtain r n where p: "p = (r, n)" by (cases p)
  have "map el_order (preorder r) = [0..<n]" using newElement_facts(1) [of t 0] Inr p by simp
  moreover from this have "length (preorder r) = n" by (metis diff_zero length_map length_upt)
  ultimately show ?thesis
    using newElement_facts(1) [of t 0] Inr p by (simp add: new_tree_def)
qed

section \<open>Visibility filtering\<close>

text \<open>Every element of a tree with its ancestors, innermost first, in document order.\<close>

fun located :: "element list \<Rightarrow> element \<Rightarrow> (element list \<times> element) list" where
  "located as (Element f b has n shown kids) =
     (as, Element f b has n shown kids) # concat (map (located (Element f b has n shown kids # as)) kids)"

text \<open>An element is visible when it has no bounds, or enough of it shows in the viewport narrowed by
  every clipping ancestor, the outermost first.\<close>

definition visible_in :: "(node_fields \<Rightarrow> bool) option \<Rightarrow> bounds \<Rightarrow> element list \<times> element \<Rightarrow> bool" where
  "visible_in clips viewport = (\<lambda>(as, e).
     \<not> el_hasBounds e \<or> IsVisible (el_bounds e) (foldr (clipTo clips) as viewport))"

lemma located_append: "located (as @ bs) e = map (\<lambda>(cs, x). (cs @ bs, x)) (located as e)"
proof (induction e arbitrary: as)
  case (Element f b has n shown kids)
  have "located ((k # as) @ bs) x = map (\<lambda>(cs, x). (cs @ bs, x)) (located (k # as) x)" if "x \<in> set kids" for k x
    using Element.IH [OF that] by blast
  then show ?case by (auto simp: map_concat intro!: arg_cong [where f = concat])
qed

lemma visible_in_child:
  "map (el_order \<circ> snd) (filter (visible_in clips viewport) (located [e] k))
     = map (el_order \<circ> snd) (filter (visible_in clips (clipTo clips e viewport)) (located [] k))"
proof -
  have "located [e] k = map (\<lambda>(cs, x). (cs @ [e], x)) (located [] k)"
    using located_append [of "[]" "[e]" k] by simp
  then show ?thesis
    by (auto simp: filter_map comp_def visible_in_def case_prod_unfold)
qed

lemma visible_in_child_none:
  "list_all (\<lambda>p. \<not> visible_in clips viewport p) (located [e] k)
     \<longleftrightarrow> list_all (\<lambda>p. \<not> visible_in clips (clipTo clips e viewport) p) (located [] k)"
proof -
  have "located [e] k = map (\<lambda>(cs, x). (cs @ [e], x)) (located [] k)"
    using located_append [of "[]" "[e]" k] by simp
  then show ?thesis by (auto simp: list_all_iff visible_in_def)
qed

definition filtered :: "(node_fields \<Rightarrow> bool) option \<Rightarrow> bounds \<Rightarrow> element \<Rightarrow> element option \<Rightarrow> bool" where
  "filtered clips viewport e r =
     (case r of
        None \<Rightarrow> list_all (\<lambda>p. \<not> visible_in clips viewport p) (located [] e)
      | Some e' \<Rightarrow> subseq (map el_order (preorder e')) (map el_order (preorder e))
          \<and> map el_order (filter el_onScreen (preorder e'))
              = map (el_order \<circ> snd) (filter (visible_in clips viewport) (located [] e))
          \<and> list_all (\<lambda>x. list_ex el_onScreen (preorder x)) (preorder e'))"

lemma filtered_children:
  assumes "\<And>k. k \<in> set kids \<Longrightarrow> filtered clips v k (g k)"
  shows "subseq (map el_order (concat (map preorder (List.map_filter g kids)))) (map el_order (concat (map preorder kids)))"
    "map el_order (filter el_onScreen (concat (map preorder (List.map_filter g kids))))
       = concat (map (\<lambda>k. map (el_order \<circ> snd) (filter (visible_in clips v) (located [] k))) kids)"
    "list_all (\<lambda>x. list_ex el_onScreen (preorder x)) (concat (map preorder (List.map_filter g kids)))"
    "List.map_filter g kids = [] \<Longrightarrow> list_all (\<lambda>k. list_all (\<lambda>p. \<not> visible_in clips v p) (located [] k)) kids"
proof -
  have "subseq (map el_order (concat (map preorder (List.map_filter g kids)))) (map el_order (concat (map preorder kids)))
    \<and> map el_order (filter el_onScreen (concat (map preorder (List.map_filter g kids))))
       = concat (map (\<lambda>k. map (el_order \<circ> snd) (filter (visible_in clips v) (located [] k))) kids)
    \<and> list_all (\<lambda>x. list_ex el_onScreen (preorder x)) (concat (map preorder (List.map_filter g kids)))
    \<and> (List.map_filter g kids = [] \<longrightarrow> list_all (\<lambda>k. list_all (\<lambda>p. \<not> visible_in clips v p) (located [] k)) kids)"
    using assms
  proof (induction kids)
    case (Cons k ks)
    then have k: "filtered clips v k (g k)" by simp
    show ?case
    proof (cases "g k")
      case None
      then have "filter (visible_in clips v) (located [] k) = []"
        using k by (auto simp: filtered_def list_all_iff filter_empty_conv)
      then show ?thesis using None k Cons by (auto simp: filtered_def intro: list_emb_append2)
    next
      case (Some e')
      then show ?thesis using k Cons by (auto simp: filtered_def intro: list_emb_append_mono)
    qed
  qed simp
  then show "subseq (map el_order (concat (map preorder (List.map_filter g kids)))) (map el_order (concat (map preorder kids)))"
    "map el_order (filter el_onScreen (concat (map preorder (List.map_filter g kids))))
       = concat (map (\<lambda>k. map (el_order \<circ> snd) (filter (visible_in clips v) (located [] k))) kids)"
    "list_all (\<lambda>x. list_ex el_onScreen (preorder x)) (concat (map preorder (List.map_filter g kids)))"
    "List.map_filter g kids = [] \<Longrightarrow> list_all (\<lambda>k. list_all (\<lambda>p. \<not> visible_in clips v p) (located [] k)) kids"
    by simp_all
qed

lemma preorder_self: "e \<in> set (preorder e)"
  by (cases e) simp

lemma list_ex_concat: "list_ex P (concat xss) \<longleftrightarrow> list_ex (list_ex P) xss"
  by (induction xss) auto

lemma filterVisible_filtered: "filtered clips viewport e (filterVisible clips viewport e)"
proof (induction e arbitrary: viewport)
  case (Element f b has n shown kids)
  let ?e = "Element f b has n shown kids"
  define v where "v = clipTo clips ?e viewport"
  define kids' where "kids' = List.map_filter (filterVisible clips v) kids"
  define shown' where "shown' = (\<not> has \<or> IsVisible b viewport)"
  note kid = filtered_children [of kids clips v "filterVisible clips v", OF Element.IH, folded kids'_def]
  have result: "filterVisible clips viewport ?e = (if shown' \<or> kids' \<noteq> [] then Some (Element f b has n shown' kids') else None)"
    by (simp add: v_def kids'_def shown'_def Let_def)
  have self: "visible_in clips viewport ([], ?e) \<longleftrightarrow> shown'" by (simp add: visible_in_def shown'_def)
  show ?case
  proof (cases "shown' \<or> kids' \<noteq> []")
    case True
    have "list_ex el_onScreen (preorder (Element f b has n shown' kids'))"
    proof (cases shown')
      case False
      then obtain k ks where ks: "kids' = k # ks" using True by (cases kids') auto
      then have "list_ex el_onScreen (preorder k)" using kid(3) preorder_self [of k] by (auto simp: list_all_iff)
      then show ?thesis using ks by simp
    qed simp
    moreover have "map el_order (filter el_onScreen (preorder (Element f b has n shown' kids')))
        = map (el_order \<circ> snd) (filter (visible_in clips viewport) (located [] ?e))"
      using kid(2) self visible_in_child [of clips viewport ?e]
      by (simp add: v_def filter_concat map_concat comp_def)
    ultimately show ?thesis using True kid(1,3) result by (simp add: filtered_def)
  next
    case False
    then have "list_all (\<lambda>k. list_all (\<lambda>p. \<not> visible_in clips viewport p) (located [?e] k)) kids"
      using kid(4) by (simp add: visible_in_child_none v_def)
    then show ?thesis using False self result by (simp add: filtered_def list_all_iff)
  qed
qed


section \<open>Boxes\<close>

text \<open>Bounds whose edges are all machine integers, as \<^verbatim>\<open>ParseBounds\<close> gives them for a span below \<^verbatim>\<open>2^63\<close>.\<close>

definition proper :: "bounds \<Rightarrow> bool" where
  "proper b \<longleftrightarrow> int64 (b_x b) \<and> int64 (b_y b) \<and> int64 (b_x b + b_width b) \<and> int64 (b_y b + b_height b)
     \<and> 0 \<le> b_width b \<and> 0 \<le> b_height b \<and> int64 (b_width b) \<and> int64 (b_height b)"

definition box :: "int \<Rightarrow> int \<Rightarrow> int \<Rightarrow> int \<Rightarrow> bounds" where
  "box x1 y1 x2 y2 =
     (if x2 \<le> x1 \<or> y2 \<le> y1 then no_bounds
      else \<lparr>b_x = x1, b_y = y1, b_width = x2 - x1, b_height = y2 - y1\<rparr>)"

lemma proper_edges:
  assumes "proper b"
  shows "b_right b = b_x b + b_width b" "b_bottom b = b_y b + b_height b"
  using assms by (simp_all add: proper_def b_right_def b_bottom_def wrap64_id)

lemma Intersection_box:
  assumes "proper b" "proper c"
  shows "Intersection b c = box (max (b_x b) (b_x c)) (max (b_y b) (b_y c))
     (min (b_x b + b_width b) (b_x c + b_width c)) (min (b_y b + b_height b) (b_y c + b_height c))"
proof -
  have "wrap64 (min (b_x b + b_width b) (b_x c + b_width c) - max (b_x b) (b_x c))
      = min (b_x b + b_width b) (b_x c + b_width c) - max (b_x b) (b_x c)"
    if "\<not> min (b_x b + b_width b) (b_x c + b_width c) \<le> max (b_x b) (b_x c)"
    using assms that by (intro wrap64_id) (auto simp: proper_def int64_def)
  moreover have "wrap64 (min (b_y b + b_height b) (b_y c + b_height c) - max (b_y b) (b_y c))
      = min (b_y b + b_height b) (b_y c + b_height c) - max (b_y b) (b_y c)"
    if "\<not> min (b_y b + b_height b) (b_y c + b_height c) \<le> max (b_y b) (b_y c)"
    using assms that by (intro wrap64_id) (auto simp: proper_def int64_def)
  ultimately show ?thesis
    by (simp add: Intersection_def box_def Let_def proper_edges assms)
qed

lemma proper_Intersection:
  assumes "proper b" "proper c"
  shows "proper (Intersection b c)"
  using assms by (auto simp: Intersection_box box_def no_bounds_def proper_def int64_def)

lemma box_fields: "x1 < x2 \<Longrightarrow> y1 < y2 \<Longrightarrow> box x1 y1 x2 y2 = \<lparr>b_x = x1, b_y = y1, b_width = x2 - x1, b_height = y2 - y1\<rparr>"
  by (simp add: box_def)

lemma box_empty: "x2 \<le> x1 \<or> y2 \<le> y1 \<Longrightarrow> box x1 y1 x2 y2 = no_bounds"
  by (simp add: box_def)

lemma no_bounds_proper [simp]: "proper no_bounds"
  by (simp add: proper_def no_bounds_def int64_def)

lemma Intersection_empty [simp]: "proper c \<Longrightarrow> Intersection no_bounds c = no_bounds"
  using Intersection_box [OF no_bounds_proper, of c] by (auto simp: no_bounds_def box_def proper_def)

text \<open>Three boxes meet in one box, whatever the order they are intersected in.\<close>

lemma Intersection_three:
  assumes "proper v" "proper a" "proper b"
  shows "Intersection (Intersection v a) b =
     box (max (max (b_x v) (b_x a)) (b_x b)) (max (max (b_y v) (b_y a)) (b_y b))
       (min (min (b_x v + b_width v) (b_x a + b_width a)) (b_x b + b_width b))
       (min (min (b_y v + b_height v) (b_y a + b_height a)) (b_y b + b_height b))"
proof (cases "min (b_x v + b_width v) (b_x a + b_width a) \<le> max (b_x v) (b_x a)
    \<or> min (b_y v + b_height v) (b_y a + b_height a) \<le> max (b_y v) (b_y a)")
  case True
  then have "Intersection v a = no_bounds" using assms by (simp add: Intersection_box box_empty)
  moreover have "box (max (max (b_x v) (b_x a)) (b_x b)) (max (max (b_y v) (b_y a)) (b_y b))
       (min (min (b_x v + b_width v) (b_x a + b_width a)) (b_x b + b_width b))
       (min (min (b_y v + b_height v) (b_y a + b_height a)) (b_y b + b_height b)) = no_bounds"
    using True by (intro box_empty) linarith
  ultimately show ?thesis using assms(3) by simp
next
  case False
  then have va: "Intersection v a = \<lparr>b_x = max (b_x v) (b_x a), b_y = max (b_y v) (b_y a),
      b_width = min (b_x v + b_width v) (b_x a + b_width a) - max (b_x v) (b_x a),
      b_height = min (b_y v + b_height v) (b_y a + b_height a) - max (b_y v) (b_y a)\<rparr>"
    using assms by (simp add: Intersection_box box_def)
  show ?thesis
    using Intersection_box [OF proper_Intersection [OF assms(1,2)] assms(3)] by (simp add: va)
qed

lemma Intersection_commute_right:
  "proper v \<Longrightarrow> proper a \<Longrightarrow> proper b \<Longrightarrow>
     Intersection (Intersection v a) b = Intersection (Intersection v b) a"
  by (simp add: Intersection_three max.assoc min.assoc max.commute min.commute max.left_commute min.left_commute)

definition proper_element :: "element \<Rightarrow> bool" where
  "proper_element e \<longleftrightarrow> (el_hasBounds e \<longrightarrow> proper (el_bounds e))"

lemma clipTo_cases:
  "clipTo clips a v = v \<or> el_hasBounds a \<and> clipTo clips a v = Intersection v (el_bounds a)"
  by (simp add: clipTo_def split: option.split)

lemma proper_clipTo: "proper v \<Longrightarrow> proper_element a \<Longrightarrow> proper (clipTo clips a v)"
  using clipTo_cases [of clips a v] proper_Intersection by (auto simp: proper_element_def)

lemma clipTo_commute:
  assumes "proper v" "proper_element a" "proper_element b"
  shows "clipTo clips a (clipTo clips b v) = clipTo clips b (clipTo clips a v)"
  using assms Intersection_commute_right [of v "el_bounds a" "el_bounds b"]
  by (simp add: clipTo_def proper_element_def split: option.split)

lemma proper_foldr: "proper v \<Longrightarrow> list_all proper_element as \<Longrightarrow> proper (foldr (clipTo clips) as v)"
  by (induction as) (auto intro: proper_clipTo)

lemma clipTo_foldr:
  "proper v \<Longrightarrow> proper_element a \<Longrightarrow> list_all proper_element as \<Longrightarrow>
     foldr (clipTo clips) as (clipTo clips a v) = clipTo clips a (foldr (clipTo clips) as v)"
  by (induction as) (auto simp: clipTo_commute proper_foldr)

lemma ClippedViewport_foldr:
  "proper v \<Longrightarrow> list_all proper_element as \<Longrightarrow> ClippedViewport as v clips = foldr (clipTo clips) as v"
  unfolding ClippedViewport_def
  by (induction as arbitrary: v) (auto simp: clipTo_foldr proper_clipTo)

lemma located_members: "(as, x) \<in> set (located bs e) \<Longrightarrow> set as \<subseteq> set bs \<union> set (preorder e)"
proof (induction e arbitrary: bs)
  case (Element f b has n shown kids)
  show ?case
  proof (cases "as = bs \<and> x = Element f b has n shown kids")
    case False
    then obtain k where k: "k \<in> set kids" "(as, x) \<in> set (located (Element f b has n shown kids # bs) k)"
      using Element.prems by auto
    then show ?thesis using Element.IH [OF k] by auto
  qed auto
qed

text \<open>The viewport computed for one element by climbing its ancestors, innermost first, decides
  its visibility exactly as the filter does going down from the root, although the two
  intersect in opposite orders.\<close>

theorem clipped_viewport_agrees_with_filter:
  assumes "(as, x) \<in> set (located [] e)" and "list_all proper_element (Walk (Some e))" and "proper viewport"
  shows "visible_in clips viewport (as, x)
     \<longleftrightarrow> \<not> el_hasBounds x \<or> IsVisible (el_bounds x) (ClippedViewport as viewport clips)"
proof -
  have "list_all proper_element as"
    using located_members [OF assms(1)] assms(2) by (auto simp: list_all_iff)
  then show ?thesis using assms(3) by (simp add: visible_in_def ClippedViewport_foldr)
qed

section \<open>Visible share and visible center\<close>

definition covers :: "bounds \<Rightarrow> bounds \<Rightarrow> bool" where
  "covers b v \<longleftrightarrow> b_x b \<le> b_x v \<and> b_y b \<le> b_y v
     \<and> b_x v + b_width v \<le> b_x b + b_width b \<and> b_y v + b_height v \<le> b_y b + b_height b"

text \<open>Bounds of a screen: every coordinate and extent is a 32-bit integer, and extents are not negative.\<close>

definition on_screen_scale :: "bounds \<Rightarrow> bool" where
  "on_screen_scale b \<longleftrightarrow> - (2 ^ 31) \<le> b_x b \<and> b_x b < 2 ^ 31 \<and> - (2 ^ 31) \<le> b_y b \<and> b_y b < 2 ^ 31
     \<and> 0 \<le> b_width b \<and> b_width b < 2 ^ 31 \<and> 0 \<le> b_height b \<and> b_height b < 2 ^ 31"

lemma on_screen_proper: "on_screen_scale b \<Longrightarrow> proper b"
  by (simp add: on_screen_scale_def proper_def int64_def)

lemma small_product: "0 \<le> w \<Longrightarrow> w < 2 ^ 31 \<Longrightarrow> 0 \<le> h \<Longrightarrow> h < 2 ^ 31 \<Longrightarrow> wrap64 (w * h) = w * h"
proof -
  assume w: "0 \<le> w" "w < 2 ^ 31" and h: "0 \<le> h" "h < 2 ^ 31"
  then have "w * h \<le> 2 ^ 31 * 2 ^ 31" by (intro mult_mono) auto
  moreover have "0 \<le> w * h" using w h by simp
  ultimately show ?thesis by (intro wrap64_id) (simp add: int64_def)
qed

lemma Area_exact: "on_screen_scale b \<Longrightarrow> Area b = b_width b * b_height b"
  using small_product [of "b_width b" "b_height b"]
  by (auto simp: Area_def on_screen_scale_def)

lemma fraction: "0 < p \<Longrightarrow> p \<le> q \<Longrightarrow> (0 :: rat) \<le> of_int p / of_int q \<and> (of_int p :: rat) / of_int q \<le> 1"
  by (simp add: divide_le_eq_1)

text \<open>The visible share of an element is a share: never negative, never above one; it is one for an
  element that covers the viewport and otherwise the exact ratio of the overlap to the area. This
  holds at the scale of screens, where no product of extents leaves the machine integers.\<close>

theorem visible_percentage_is_a_share:
  assumes b: "on_screen_scale b" and v: "on_screen_scale viewport"
  shows "0 \<le> VisiblePercentage b viewport \<and> VisiblePercentage b viewport \<le> 1
     \<and> VisiblePercentage b viewport =
         (if Area b = 0 \<or> Area viewport = 0 then 0 else if covers b viewport then 1
          else of_int (b_width (Intersection b viewport) * b_height (Intersection b viewport))
               / of_int (b_width b * b_height b))"
proof (cases "(Area b = 0 \<or> Area viewport = 0) \<or> covers b viewport")
  case True
  then show ?thesis
    using proper_edges [OF on_screen_proper [OF b]] proper_edges [OF on_screen_proper [OF v]]
    by (auto simp: VisiblePercentage_def covers_def)
next
  case False
  let ?x1 = "max (b_x b) (b_x viewport)" and ?y1 = "max (b_y b) (b_y viewport)"
  let ?x2 = "min (b_x b + b_width b) (b_x viewport + b_width viewport)"
  let ?y2 = "min (b_y b + b_height b) (b_y viewport + b_height viewport)"
  let ?w = "?x2 - ?x1" and ?h = "?y2 - ?y1"
  note scale = b [unfolded on_screen_scale_def] v [unfolded on_screen_scale_def]
  have meet: "Intersection b viewport = box ?x1 ?y1 ?x2 ?y2"
    using b v by (intro Intersection_box on_screen_proper)
  have area: "Area b = b_width b * b_height b" using Area_exact b by blast
  have positive: "0 < b_width b * b_height b" using False area scale by (auto simp: less_le)
  have wrap: "wrap64 ?w = ?w" "wrap64 ?h = ?h"
    using scale by (intro wrap64_id; simp add: int64_def; linarith)+
  have share: "VisiblePercentage b viewport =
      (if ?w \<le> 0 \<or> ?h \<le> 0 then 0 else of_int (wrap64 (?w * ?h)) / of_int (Area b))"
    using False wrap proper_edges [OF on_screen_proper [OF b]] proper_edges [OF on_screen_proper [OF v]]
    unfolding VisiblePercentage_def covers_def by (auto simp: Let_def)
  show ?thesis
  proof (cases "?w \<le> 0 \<or> ?h \<le> 0")
    case True
    then have "VisiblePercentage b viewport = 0" using share by (simp only: if_True)
    moreover have "b_width (Intersection b viewport) * b_height (Intersection b viewport) = 0"
      using True meet box_empty [of ?x2 ?x1 ?y2 ?y1] by (simp add: no_bounds_def)
    ultimately show ?thesis using False by simp
  next
    case overlap: False
    have le: "?w \<le> b_width b" "?h \<le> b_height b" by simp_all
    have "?w * ?h \<le> b_width b * b_height b" using le overlap by (intro mult_mono) auto
    moreover have "wrap64 (?w * ?h) = ?w * ?h" using overlap le scale by (intro small_product) linarith+
    moreover have "0 < ?w * ?h" using overlap by (intro mult_pos_pos) linarith+
    moreover have "b_width (Intersection b viewport) * b_height (Intersection b viewport) = ?w * ?h"
      using overlap meet by (simp add: box_def)
    ultimately have "VisiblePercentage b viewport
        = of_int (b_width (Intersection b viewport) * b_height (Intersection b viewport)) / of_int (b_width b * b_height b)"
      "0 < b_width (Intersection b viewport) * b_height (Intersection b viewport)"
      "b_width (Intersection b viewport) * b_height (Intersection b viewport) \<le> b_width b * b_height b"
      using share overlap area by (simp_all only: if_False)
    then show ?thesis using False fraction by presburger
  qed
qed

text \<open>C28: The visible center of an element that overlaps the viewport lies in both the element and the
  viewport, so a tap aimed at it lands on what the user sees.\<close>

theorem visible_center_on_screen:
  assumes "on_screen_scale b" and "on_screen_scale viewport"
    and "Area (Intersection b viewport) \<noteq> 0"
  shows "of_int (max (b_x b) (b_x viewport)) < p_x (VisibleCenter b viewport)
    \<and> p_x (VisibleCenter b viewport) < of_int (min (b_x b + b_width b) (b_x viewport + b_width viewport))
    \<and> of_int (max (b_y b) (b_y viewport)) < p_y (VisibleCenter b viewport)
    \<and> p_y (VisibleCenter b viewport) < of_int (min (b_y b + b_height b) (b_y viewport + b_height viewport))"
proof -
  let ?x1 = "max (b_x b) (b_x viewport)" and ?y1 = "max (b_y b) (b_y viewport)"
  let ?x2 = "min (b_x b + b_width b) (b_x viewport + b_width viewport)"
  let ?y2 = "min (b_y b + b_height b) (b_y viewport + b_height viewport)"
  note scale = assms(1,2) [unfolded on_screen_scale_def]
  have "Intersection b viewport = box ?x1 ?y1 ?x2 ?y2"
    using assms(1,2) by (intro Intersection_box on_screen_proper)
  then have overlap: "\<not> (?x2 \<le> ?x1 \<or> ?y2 \<le> ?y1)"
    using assms(3) by (auto simp: box_def Area_def no_bounds_def)
  then have "0 < b_width b" "0 < b_height b" "0 < b_width viewport" "0 < b_height viewport" by linarith+
  then have area: "\<not> (Area b = 0 \<or> Area viewport = 0)" using Area_exact assms(1,2) by simp
  have wrap: "wrap64 (?x2 - ?x1) = ?x2 - ?x1" "wrap64 (?y2 - ?y1) = ?y2 - ?y1"
    using scale by (intro wrap64_id; simp add: int64_def; linarith)+
  have center: "VisibleCenter b viewport = Center \<lparr>b_x = ?x1, b_y = ?y1, b_width = ?x2 - ?x1, b_height = ?y2 - ?y1\<rparr>"
    unfolding VisibleCenter_def Let_def
    using area overlap wrap proper_edges [OF on_screen_proper [OF assms(1)]] proper_edges [OF on_screen_proper [OF assms(2)]]
    by simp
  have "(of_int ?x1 :: rat) < of_int ?x2" "(of_int ?y1 :: rat) < of_int ?y2"
    using overlap by (simp_all only: of_int_less_iff) linarith+
  then show ?thesis unfolding center Center_def by (simp only: point.select_convs bounds.select_convs) (simp add: field_simps)
qed

section \<open>Bounds text\<close>

lemma dec_digits: "list_all (\<lambda>c. digit_value c \<noteq> None) (dec n)"
  using decimal_digits [of 0 "dec n" n] decimal_dec [of n] by (simp add: decimal_def split: if_splits)

lemma dec_nonempty [simp]: "dec n \<noteq> ''''"
  by (simp add: dec_def)

lemma dec_first: "hd (dec n) \<noteq> CHR ''-''" "hd (dec n) \<noteq> CHR ''+''"
  using dec_digits [of n] by (cases "dec n"; simp add: digit_value_def Let_def split: if_splits; auto)+

lemma Atoi_dec_int: "int64 i \<Longrightarrow> Atoi (dec_int i) = Some i"
  using dec_first [of "nat i"] dec_first [of "nat (- i)"]
  by (simp add: Atoi_def dec_int_def decimal_dec int64_def Let_def)

lemma takeWhile_digits:
  assumes "digit_value c = None"
  shows "takeWhile (\<lambda>c. digit_value c \<noteq> None) (dec n @ c # s) = dec n"
  using dec_digits [of n] assms by (subst takeWhile_append2) (auto simp: list_all_iff)

lemma take_integer_dec_int:
  assumes "digit_value c = None"
  shows "take_integer (dec_int i @ c # s) = Some (dec_int i, c # s)"
proof (cases "i < 0")
  case True
  then show ?thesis using takeWhile_digits [OF assms, of "nat (- i)" s] by (simp add: take_integer_def dec_int_def Let_def)
next
  case False
  have "hd (dec (nat i) @ c # s) \<noteq> CHR ''-''" using dec_first [of "nat i"] by (simp add: hd_append)
  then show ?thesis
    using False takeWhile_digits [OF assms, of "nat i" s] by (simp add: take_integer_def dec_int_def Let_def)
qed

lemma separators [simp]: "digit_value (CHR '','') = None" "digit_value (CHR '']'') = None"
  by (simp_all add: digit_value_def)

lemma take_pair_dec_int:
  "take_pair (CHR ''['' # dec_int i @ CHR '','' # dec_int j @ CHR '']'' # s) = Some ((dec_int i, dec_int j), s)"
  by (simp add: take_pair_def take_char_def take_integer_dec_int)

definition bounds_text :: "int \<Rightarrow> int \<Rightarrow> int \<Rightarrow> int \<Rightarrow> string" where
  "bounds_text x1 y1 x2 y2 =
     ''['' @ dec_int x1 @ '','' @ dec_int y1 @ '']['' @ dec_int x2 @ '','' @ dec_int y2 @ '']''"

lemma ParseBounds_text:
  assumes "int64 x1" "int64 y1" "int64 x2" "int64 y2" "x1 \<le> x2" "y1 \<le> y2"
  shows "ParseBounds (bounds_text x1 y1 x2 y2)
     = Inr \<lparr>b_x = x1, b_y = y1, b_width = wrap64 (x2 - x1), b_height = wrap64 (y2 - y1)\<rparr>"
proof -
  have "match_bounds (bounds_text x1 y1 x2 y2) = Some (dec_int x1, dec_int y1, dec_int x2, dec_int y2)"
    using take_pair_dec_int [of x1 y1] take_pair_dec_int [of x2 y2 "''''"] by (simp add: match_bounds_def bounds_text_def)
  then show ?thesis using assms by (simp add: ParseBounds_def Atoi_dec_int)
qed

text \<open>Bounds survive being written in the Android syntax and read back, for every bounds whose
  edges are machine integers.\<close>

theorem bounds_round_trip:
  assumes "proper b"
  shows "ParseBounds (FormatBounds b) = Inr b"
proof -
  have i: "int64 (b_x b)" "int64 (b_y b)" "int64 (b_x b + b_width b)" "int64 (b_y b + b_height b)"
    "0 \<le> b_width b" "0 \<le> b_height b" "wrap64 (b_width b) = b_width b" "wrap64 (b_height b) = b_height b"
    using assms by (simp_all add: proper_def wrap64_id)
  have "FormatBounds b = bounds_text (b_x b) (b_y b) (b_x b + b_width b) (b_y b + b_height b)"
    using i by (simp add: FormatBounds_def bounds_text_def wrap64_id)
  then show ?thesis using i ParseBounds_text [OF i(1-4)] by simp
qed

lemma bounds_round_trip_witness:
  "ParseBounds (FormatBounds \<lparr>b_x = -3, b_y = 20, b_width = 7, b_height = 0\<rparr>)
     = Inr \<lparr>b_x = -3, b_y = 20, b_width = 7, b_height = 0\<rparr>"
  by (rule bounds_round_trip) (simp add: proper_def int64_def)

text \<open>The parser accepts bounds whose extent does not fit a machine integer: their width comes out
  negative, although their right edge does not precede their left one.\<close>

theorem parsed_width_can_be_negative:
  "ParseBounds (''['' @ dec_int (- (2 ^ 63)) @ '','' @ dec_int 0 @ '']['' @ dec_int (2 ^ 63 - 1) @ '','' @ dec_int 1 @ '']'')
     = Inr \<lparr>b_x = - (2 ^ 63), b_y = 0, b_width = -1, b_height = 1\<rparr>"
  using ParseBounds_text [of "- (2 ^ 63)" 0 "2 ^ 63 - 1" 1]
  by (simp only: bounds_text_def) (simp add: int64_def wrap64_def)

lemma visible_percentage_is_a_share_witness:
  "VisiblePercentage \<lparr>b_x = 0, b_y = 90, b_width = 10, b_height = 20\<rparr> \<lparr>b_x = 0, b_y = 0, b_width = 50, b_height = 100\<rparr> = 1 / 2"
proof -
  let ?b = "\<lparr>b_x = 0, b_y = 90, b_width = 10, b_height = 20\<rparr>" and ?v = "\<lparr>b_x = 0, b_y = 0, b_width = 50, b_height = 100\<rparr>"
  have "on_screen_scale ?b" "on_screen_scale ?v" by (simp_all add: on_screen_scale_def)
  from visible_percentage_is_a_share [OF this] Area_exact [OF this(1)] Area_exact [OF this(2)] show ?thesis
    by (simp add: covers_def Intersection_def b_right_def b_bottom_def wrap64_def)
qed

lemma visible_center_on_screen_witness:
  "p_y (VisibleCenter \<lparr>b_x = 0, b_y = 90, b_width = 10, b_height = 60\<rparr> \<lparr>b_x = 0, b_y = 0, b_width = 50, b_height = 100\<rparr>) < 100"
proof -
  let ?b = "\<lparr>b_x = 0, b_y = 90, b_width = 10, b_height = 60\<rparr>" and ?v = "\<lparr>b_x = 0, b_y = 0, b_width = 50, b_height = 100\<rparr>"
  have "on_screen_scale ?b" "on_screen_scale ?v" by (simp_all add: on_screen_scale_def)
  from visible_center_on_screen [OF this] show ?thesis
    by (simp add: Intersection_def b_right_def b_bottom_def wrap64_def Area_def)
qed

text \<open>A window of 50 by 40 in a screen of 50 by 100, with a row below its edge.\<close>

definition clipped_window :: element where
  "clipped_window =
     (let f = \<lparr>nf_attributes = None, nf_clickable = None, nf_enabled = None, nf_focused = None,
               nf_checked = None, nf_selected = None\<rparr>
      in Element f \<lparr>b_x = 0, b_y = 0, b_width = 50, b_height = 40\<rparr> True 0 False
           [Element f \<lparr>b_x = 0, b_y = 60, b_width = 50, b_height = 10\<rparr> True 1 False []])"

lemma clipped_viewport_agrees_with_filter_witness:
  "list_ex (\<lambda>(as, x). \<not> visible_in (Some (\<lambda>_. True)) \<lparr>b_x = 0, b_y = 0, b_width = 50, b_height = 100\<rparr> (as, x))
     (located [] clipped_window)"
proof -
  let ?v = "\<lparr>b_x = 0, b_y = 0, b_width = 50, b_height = 100\<rparr>"
  let ?row = "hd (el_children clipped_window)"
  have "([clipped_window], ?row) \<in> set (located [] clipped_window)" by (simp add: clipped_window_def Let_def)
  moreover have "list_all proper_element (Walk (Some clipped_window))"
    by (simp add: clipped_window_def Let_def proper_element_def proper_def int64_def)
  moreover have "proper ?v" by (simp add: proper_def int64_def)
  moreover have "\<not> (\<not> el_hasBounds ?row \<or> IsVisible (el_bounds ?row) (ClippedViewport [clipped_window] ?v (Some (\<lambda>_. True))))"
    by (simp add: clipped_window_def Let_def ClippedViewport_def clipTo_def Area_def wrap64_def Intersection_def
        b_right_def b_bottom_def IsVisible_def VisiblePercentage_def MinimumVisiblePercentage_def)
  ultimately have "\<not> visible_in (Some (\<lambda>_. True)) ?v ([clipped_window], ?row)"
    using clipped_viewport_agrees_with_filter [of "[clipped_window]" ?row clipped_window ?v "Some (\<lambda>_. True)"] by blast
  then show ?thesis by (simp add: clipped_window_def Let_def)
qed

end
