(* ===== verification/Text.thy ===== *)
theory Text
  imports Decode "HOL-Library.Multiset"
begin

text \<open>
  The part of Go's \<^verbatim>\<open>strings\<close> and \<^verbatim>\<open>unicode/utf8\<close> packages the modelled code uses, on strings as
  byte sequences.
\<close>

definition byte :: "char \<Rightarrow> nat" where
  "byte c = of_char c"

section \<open>Runes\<close>

text \<open>The width of the first rune of a non-empty byte sequence and whether it is well formed; an
  ill-formed byte is a rune of width one.\<close>

definition continuation :: "nat \<Rightarrow> nat \<Rightarrow> nat \<Rightarrow> bool" where
  "continuation lo hi b \<longleftrightarrow> lo \<le> b \<and> b \<le> hi"

fun rune_head :: "nat list \<Rightarrow> nat \<times> bool" where
  "rune_head [] = (0, False)"
| "rune_head (b0 # bs) =
     (let c = (\<lambda>i lo hi. i < length bs \<and> continuation lo hi (bs ! i))
      in if b0 < 128 then (1, True)
         else if 194 \<le> b0 \<and> b0 \<le> 223 \<and> c 0 128 191 then (2, True)
         else if b0 = 224 \<and> c 0 160 191 \<and> c 1 128 191 then (3, True)
         else if b0 = 237 \<and> c 0 128 159 \<and> c 1 128 191 then (3, True)
         else if 225 \<le> b0 \<and> b0 \<le> 239 \<and> b0 \<noteq> 237 \<and> c 0 128 191 \<and> c 1 128 191 then (3, True)
         else if b0 = 240 \<and> c 0 144 191 \<and> c 1 128 191 \<and> c 2 128 191 then (4, True)
         else if 241 \<le> b0 \<and> b0 \<le> 243 \<and> c 0 128 191 \<and> c 1 128 191 \<and> c 2 128 191 then (4, True)
         else if b0 = 244 \<and> c 0 128 143 \<and> c 1 128 191 \<and> c 2 128 191 then (4, True)
         else (1, False))"

lemma rune_head_positive: "0 < fst (rune_head (b # bs))"
  by (simp add: Let_def)

function rune_widths :: "nat list \<Rightarrow> (nat \<times> bool) list" where
  "rune_widths [] = []"
| "rune_widths (b # bs) = rune_head (b # bs) # rune_widths (drop (fst (rune_head (b # bs))) (b # bs))"
  by pat_completeness auto
termination
  using rune_head_positive by (relation "measure length") (auto simp del: rune_head.simps)

definition RuneCountInString :: "string \<Rightarrow> nat" where
  "RuneCountInString s = length (rune_widths (map byte s))"

definition ValidString :: "string \<Rightarrow> bool" where
  "ValidString s \<longleftrightarrow> list_all snd (rune_widths (map byte s))"

section \<open>Searching\<close>

text \<open>\<^verbatim>\<open>strings.Index\<close> and \<^verbatim>\<open>strings.LastIndex\<close>; \<open>None\<close> is the index -1.\<close>

fun index_from :: "nat \<Rightarrow> string \<Rightarrow> string \<Rightarrow> nat option" where
  "index_from i sub [] = (if sub = [] then Some i else None)"
| "index_from i sub (c # cs) = (if starts_with sub (c # cs) then Some i else index_from (i + 1) sub cs)"

definition string_Index :: "string \<Rightarrow> string \<Rightarrow> nat option" where
  "string_Index s sub = index_from 0 sub s"

definition after_last :: "char \<Rightarrow> string \<Rightarrow> string" where
  "after_last c s = rev (takeWhile (\<lambda>d. d \<noteq> c) (rev s))"

definition HasPrefix :: "string \<Rightarrow> string \<Rightarrow> bool" where
  "HasPrefix s prefix \<longleftrightarrow> starts_with prefix s"

definition HasSuffix :: "string \<Rightarrow> string \<Rightarrow> bool" where
  "HasSuffix s suffix \<longleftrightarrow> starts_with (rev suffix) (rev s)"

text \<open>\<^verbatim>\<open>strings.NewReplacer\<close> with non-empty old strings: at each position the first old string in
  argument order that starts there is replaced.\<close>

function replace_pairs :: "(string \<times> string) list \<Rightarrow> string \<Rightarrow> string" where
  "replace_pairs ps [] = []"
| "replace_pairs ps (c # cs) =
     (case find (\<lambda>(old, new). old \<noteq> [] \<and> starts_with old (c # cs)) ps of
        None \<Rightarrow> c # replace_pairs ps cs
      | Some (old, new) \<Rightarrow> new @ replace_pairs ps (drop (length old) (c # cs)))"
  by pat_completeness auto
termination
proof (relation "measure (\<lambda>(ps, s). length s)", goal_cases)
  case (3 ps c cs x2 x y)
  then have "x \<noteq> []" by (auto simp: find_Some_iff)
  then show ?case by (cases x) simp_all
qed simp_all

section \<open>Stable sorting\<close>

text \<open>\<^verbatim>\<open>sort.SliceStable\<close>: for a strict weak order there is one stable sorted arrangement.\<close>

fun insert_stable :: "('a \<Rightarrow> 'a \<Rightarrow> bool) \<Rightarrow> 'a \<Rightarrow> 'a list \<Rightarrow> 'a list" where
  "insert_stable lt x [] = [x]"
| "insert_stable lt x (y # ys) = (if lt y x then y # insert_stable lt x ys else x # y # ys)"

definition SliceStable :: "('a \<Rightarrow> 'a \<Rightarrow> bool) \<Rightarrow> 'a list \<Rightarrow> 'a list" where
  "SliceStable lt xs = foldr (insert_stable lt) xs []"

lemma mset_insert_stable [simp]: "mset (insert_stable lt x xs) = add_mset x (mset xs)"
  by (induction xs) auto

lemma mset_SliceStable [simp]: "mset (SliceStable lt xs) = mset xs"
  by (induction xs) (simp_all add: SliceStable_def)

lemma set_SliceStable [simp]: "set (SliceStable lt xs) = set xs"
  using mset_SliceStable by (metis mset_eq_setD)

lemma length_SliceStable [simp]: "length (SliceStable lt xs) = length xs"
  using mset_SliceStable by (metis size_mset)

text \<open>Sorting by a Boolean key is a stable partition.\<close>

lemma insert_stable_partition:
  "insert_stable (\<lambda>a b. P a \<and> \<not> P b) x (filter P xs @ filter (\<lambda>a. \<not> P a) xs)
     = filter P (x # xs) @ filter (\<lambda>a. \<not> P a) (x # xs)"
proof (cases "P x")
  case True
  then have "insert_stable (\<lambda>a b. P a \<and> \<not> P b) x ys = x # ys" for ys by (cases ys) simp_all
  then show ?thesis using True by simp
next
  case False
  have "insert_stable (\<lambda>a b. P a \<and> \<not> P b) x (ps @ ns) = ps @ x # ns"
    if "list_all P ps" "list_all (\<lambda>a. \<not> P a) ns" for ps ns
    using that False
  proof (induction ps)
    case Nil
    then show ?case by (cases ns) simp_all
  qed simp
  then show ?thesis using False by (simp add: list_all_iff)
qed

lemma SliceStable_partition:
  "SliceStable (\<lambda>a b. P a \<and> \<not> P b) xs = filter P xs @ filter (\<lambda>a. \<not> P a) xs"
proof (induction xs)
  case (Cons x xs)
  then have "SliceStable (\<lambda>a b. P a \<and> \<not> P b) (x # xs)
      = insert_stable (\<lambda>a b. P a \<and> \<not> P b) x (filter P xs @ filter (\<lambda>a. \<not> P a) xs)"
    by (simp add: SliceStable_def)
  then show ?case by (simp only: insert_stable_partition)
qed (simp add: SliceStable_def)

section \<open>Slash-separated paths\<close>

text \<open>\<^verbatim>\<open>path/filepath\<close> on a system whose separator is the slash: the lexical \<^verbatim>\<open>Clean\<close>, \<^verbatim>\<open>Dir\<close> and
  \<^verbatim>\<open>Join\<close> of two elements.\<close>

fun split_at :: "char \<Rightarrow> string \<Rightarrow> string \<Rightarrow> string list" where
  "split_at c acc [] = [rev acc]"
| "split_at c acc (d # ds) = (if d = c then rev acc # split_at c [] ds else split_at c (d # acc) ds)"

fun clean_parts :: "bool \<Rightarrow> string list \<Rightarrow> string list \<Rightarrow> string list" where
  "clean_parts rooted acc [] = rev acc"
| "clean_parts rooted acc (p # ps) =
     (if p = '''' \<or> p = ''.'' then clean_parts rooted acc ps
      else if p \<noteq> ''..'' then clean_parts rooted (p # acc) ps
      else if acc \<noteq> [] \<and> hd acc \<noteq> ''..'' then clean_parts rooted (tl acc) ps
      else if rooted then clean_parts rooted acc ps
      else clean_parts rooted (''..'' # acc) ps)"

fun join_slash :: "string list \<Rightarrow> string" where
  "join_slash [] = ''''"
| "join_slash [p] = p"
| "join_slash (p # q # ps) = p @ ''/'' @ join_slash (q # ps)"

definition IsAbs :: "string \<Rightarrow> bool" where
  "IsAbs p = HasPrefix p ''/''"

definition Clean :: "string \<Rightarrow> string" where
  "Clean p =
     (let parts = clean_parts (IsAbs p) [] (split_at (CHR ''/'') [] p)
      in if IsAbs p then CHR ''/'' # join_slash parts
         else if parts = [] then ''.'' else join_slash parts)"

definition path_Dir :: "string \<Rightarrow> string" where
  "path_Dir p = Clean (rev (dropWhile (\<lambda>c. c \<noteq> CHR ''/'') (rev p)))"

definition path_Join :: "string \<Rightarrow> string \<Rightarrow> string" where
  "path_Join a b =
     (if a \<noteq> '''' then Clean (a @ ''/'' @ b) else if b \<noteq> '''' then Clean b else '''')"

end
