(* ===== verification/Matching.thy ===== *)
theory Matching
  imports Hierarchy Text
begin

text \<open>
  \<^verbatim>\<open>internal/matching\<close>: the selection of elements by a selector (\<^verbatim>\<open>matching.go\<close>) and the refresh of a
  selected element by its attributes (\<^verbatim>\<open>refresh.go\<close>).

  The regular expression engine is the argument \<open>regexp\<close>: it maps a pattern to \<open>None\<close> when it does
  not compile, and otherwise to the test for a match somewhere in a text. A set of elements is the
  set of their orders (see theory \<open>Hierarchy\<close>). The ratio of the trait \<^verbatim>\<open>square\<close> is rational.
\<close>

type_synonym regexp_engine = "string \<Rightarrow> (string \<Rightarrow> bool) option"

section \<open>Compilation\<close>

record exact_pattern =
  pat_raw :: string
  pat_compiled :: "string \<Rightarrow> bool"

datatype matching_error = RegexError string string | IndexError string

datatype compiled_selector = CompiledSelector
  (cs_fields: selector_fields)
  (cs_text: "exact_pattern option")
  (cs_id: "exact_pattern option")
  (cs_index: "int option")
  (cs_below: "compiled_selector option")
  (cs_above: "compiled_selector option")
  (cs_leftOf: "compiled_selector option")
  (cs_rightOf: "compiled_selector option")
  (cs_containsChild: "compiled_selector option")
  (cs_containsDescendants: "compiled_selector list")
  (cs_childOf: "compiled_selector option")

definition compilePattern :: "regexp_engine \<Rightarrow> string \<Rightarrow> string option \<Rightarrow> matching_error + exact_pattern option" where
  "compilePattern regexp f raw_pattern =
     (case raw_pattern of
        None \<Rightarrow> Inr None
      | Some p \<Rightarrow>
          (case regexp (''(?ims:^(?:'' @ p @ '')$)'') of
             None \<Rightarrow> Inl (RegexError f p)
           | Some m \<Rightarrow> Inr (Some \<lparr>pat_raw = p, pat_compiled = m\<rparr>)))"

definition compileIndex :: "string option \<Rightarrow> matching_error + int option" where
  "compileIndex i =
     (case i of
        None \<Rightarrow> Inr None
      | Some text \<Rightarrow> (case Atoi (TrimSpace text) of None \<Rightarrow> Inl (IndexError text) | Some n \<Rightarrow> Inr (Some n)))"

text \<open>Compiling an optional or repeated nested selector.\<close>

definition opt_result :: "('e + 'a) option \<Rightarrow> 'e + 'a option" where
  "opt_result r = (case r of None \<Rightarrow> Inr None | Some (Inl e) \<Rightarrow> Inl e | Some (Inr a) \<Rightarrow> Inr (Some a))"

fun list_result :: "('e + 'a) list \<Rightarrow> 'e + 'a list" where
  "list_result [] = Inr []"
| "list_result (r # rs) =
     (case r of
        Inl e \<Rightarrow> Inl e
      | Inr a \<Rightarrow> (case list_result rs of Inl e \<Rightarrow> Inl e | Inr xs \<Rightarrow> Inr (a # xs)))"

abbreviation bind_result :: "'e + 'a \<Rightarrow> ('a \<Rightarrow> 'e + 'b) \<Rightarrow> 'e + 'b" where
  "bind_result r f \<equiv> (case r of Inl e \<Rightarrow> Inl e | Inr a \<Rightarrow> f a)"

primrec compileSelector :: "regexp_engine \<Rightarrow> element_selector \<Rightarrow> matching_error + compiled_selector" where
  "compileSelector regexp (ElementSelector attrs lower upper leftOf rightOf child descs childOf src fsrc) =
     bind_result (compilePattern regexp ''text'' (sel_textRegex attrs)) (\<lambda>text.
     bind_result (compilePattern regexp ''id'' (sel_idRegex attrs)) (\<lambda>ident.
     bind_result (compileIndex (sel_index attrs)) (\<lambda>i.
     bind_result (opt_result (map_option (compileSelector regexp) lower)) (\<lambda>lower'.
     bind_result (opt_result (map_option (compileSelector regexp) upper)) (\<lambda>upper'.
     bind_result (opt_result (map_option (compileSelector regexp) leftOf)) (\<lambda>leftOf'.
     bind_result (opt_result (map_option (compileSelector regexp) rightOf)) (\<lambda>rightOf'.
     bind_result (opt_result (map_option (compileSelector regexp) child)) (\<lambda>child'.
     bind_result (opt_result (map_option (compileSelector regexp) childOf)) (\<lambda>childOf'.
     bind_result (list_result (elems (map_option (map (compileSelector regexp)) descs))) (\<lambda>descs'.
       Inr (CompiledSelector attrs text ident i lower' upper' leftOf' rightOf' child' descs' childOf')))))))))))"

section \<open>Predicates on one element\<close>

definition spacesAScreenShows :: "(string \<times> string) list" where
  "spacesAScreenShows =
     [(map char_of [10 :: nat], '' ''), (map char_of [194 :: nat, 160], '' ''),
      (map char_of [226 :: nat, 128, 175], '' ''), (map char_of [226 :: nat, 128, 135], '' '')]"

definition pattern_matches :: "exact_pattern \<Rightarrow> string \<Rightarrow> bool" where
  "pattern_matches p v =
     (if v = pat_raw p \<or> pat_compiled p v then True
      else let n = replace_pairs spacesAScreenShows v in n = pat_raw p \<or> pat_compiled p n)"

definition matchesAnyText :: "exact_pattern \<Rightarrow> element \<Rightarrow> bool" where
  "matchesAnyText p e =
     list_ex (\<lambda>k. pattern_matches p (case attribute (el_node e) k of None \<Rightarrow> '''' | Some v \<Rightarrow> v))
       [''text'', ''hintText'', ''accessibilityText'']"

definition matchesID :: "exact_pattern \<Rightarrow> element \<Rightarrow> bool" where
  "matchesID p e =
     list_ex (\<lambda>k. case attribute (el_node e) k of
                    None \<Rightarrow> False
                  | Some v \<Rightarrow> pattern_matches p v \<or> pattern_matches p (after_last (CHR ''/'') v))
       [''resource-id'', ''id'']"

definition absoluteDifference :: "int \<Rightarrow> int \<Rightarrow> int" where
  "absoluteDifference l r = (let d = wrap64 (l - r) in if d < 0 then wrap64 (- d) else d)"

definition matchesSize :: "size_selector option \<Rightarrow> element \<Rightarrow> bool" where
  "matchesSize size_sel e =
     (case size_sel of
        None \<Rightarrow> True
      | Some s \<Rightarrow>
          el_hasBounds e
          \<and> (let tolerance = (case size_tolerance s of None \<Rightarrow> 0 | Some t \<Rightarrow> t)
             in (case size_width s of None \<Rightarrow> True
                 | Some w \<Rightarrow> \<not> absoluteDifference (b_width (el_bounds e)) w > tolerance)
              \<and> (case size_height s of None \<Rightarrow> True
                 | Some h \<Rightarrow> absoluteDifference (b_height (el_bounds e)) h \<le> tolerance)))"

fun matchesTrait :: "element_trait \<Rightarrow> element \<Rightarrow> bool" where
  "matchesTrait TraitText e = (attribute (el_node e) ''text'' \<noteq> None)"
| "matchesTrait TraitSquare e =
     (el_hasBounds e \<and> b_height (el_bounds e) > 0
      \<and> abs (1 - (of_int (b_width (el_bounds e)) / of_int (b_height (el_bounds e)) :: rat)) < 3 / 100)"
| "matchesTrait TraitLongText e =
     (case attribute (el_node e) ''text'' of None \<Rightarrow> False | Some t \<Rightarrow> RuneCountInString t > 200)"
| "matchesTrait (TraitOther t) e = False"

definition matchesTraits :: "element_trait slice \<Rightarrow> element \<Rightarrow> bool" where
  "matchesTraits traits e = list_all (\<lambda>t. matchesTrait t e) (elems traits)"

definition matchesBool :: "bool option \<Rightarrow> bool option \<Rightarrow> bool" where
  "matchesBool want actual \<longleftrightarrow> want = None \<or> actual \<noteq> None \<and> actual = want"

definition matchesBasic :: "compiled_selector \<Rightarrow> element \<Rightarrow> bool" where
  "matchesBasic s e =
     ((case cs_text s of None \<Rightarrow> True | Some p \<Rightarrow> matchesAnyText p e)
      \<and> (case cs_id s of None \<Rightarrow> True | Some p \<Rightarrow> matchesID p e)
      \<and> matchesSize (sel_size (cs_fields s)) e \<and> matchesTraits (sel_traits (cs_fields s)) e
      \<and> matchesBool (sel_enabled (cs_fields s)) (nf_enabled (el_node e))
      \<and> matchesBool (sel_selected (cs_fields s)) (nf_selected (el_node e))
      \<and> matchesBool (sel_checked (cs_fields s)) (nf_checked (el_node e))
      \<and> matchesBool (sel_focused (cs_fields s)) (nf_focused (el_node e)))"

definition hasBasicFilter :: "compiled_selector \<Rightarrow> bool" where
  "hasBasicFilter s \<longleftrightarrow> cs_text s \<noteq> None \<or> cs_id s \<noteq> None \<or> sel_size (cs_fields s) \<noteq> None
     \<or> elems (sel_traits (cs_fields s)) \<noteq> [] \<or> sel_enabled (cs_fields s) \<noteq> None
     \<or> sel_selected (cs_fields s) \<noteq> None \<or> sel_checked (cs_fields s) \<noteq> None \<or> sel_focused (cs_fields s) \<noteq> None"

section \<open>Structure and direction\<close>

definition elementSet :: "element list \<Rightarrow> nat set" where
  "elementSet es = set (map el_order es)"

text \<open>The depth-first search of \<^verbatim>\<open>hasDescendantIn\<close> and \<^verbatim>\<open>hasMatchingDescendant\<close>, with the top of its
  stack first: the children are pushed in order, so the last is popped first.\<close>

function search_stack :: "nat set \<Rightarrow> element list \<Rightarrow> bool" where
  "search_stack orders [] = False"
| "search_stack orders (e # es) =
     (if el_order e \<in> orders then True else search_stack orders (rev (el_children e) @ es))"
  by pat_completeness auto
termination
proof (relation "measure (\<lambda>(orders, es). size_list size es)", simp)
  fix orders and e :: element and es
  have "size_list size (rev (el_children e)) < size e" by (cases e) (simp add: size_list_conv_sum_list rev_map [symmetric])
  then show "((orders, rev (el_children e) @ es), orders, e # es) \<in> measure (\<lambda>(orders, es). size_list size es)" by simp
qed

definition hasDescendantIn :: "element \<Rightarrow> nat set \<Rightarrow> bool" where
  "hasDescendantIn candidate orders = search_stack orders (rev (el_children candidate))"

definition hasDirectChildIn :: "element \<Rightarrow> nat set \<Rightarrow> bool" where
  "hasDirectChildIn candidate orders = list_ex (\<lambda>k. el_order k \<in> orders) (el_children candidate)"

definition deepest :: "element list \<Rightarrow> element list" where
  "deepest candidates = filter (\<lambda>c. \<not> hasDescendantIn c (elementSet candidates)) candidates"

datatype direction = directionBelow | directionAbove | directionLeft | directionRight

fun isDirectionalMatch :: "direction \<Rightarrow> element \<Rightarrow> element \<Rightarrow> bool" where
  "isDirectionalMatch directionBelow c a = (b_y (el_bounds c) > b_y (el_bounds a))"
| "isDirectionalMatch directionAbove c a = (b_y (el_bounds c) < b_y (el_bounds a))"
| "isDirectionalMatch directionLeft c a = (b_x (el_bounds c) < b_x (el_bounds a))"
| "isDirectionalMatch directionRight c a = (b_x (el_bounds c) > b_x (el_bounds a))"

definition matchesAnyAnchor :: "direction \<Rightarrow> element list \<Rightarrow> element \<Rightarrow> bool" where
  "matchesAnyAnchor d anchors c \<longleftrightarrow>
     el_hasBounds c \<and> list_ex (\<lambda>a. el_hasBounds a \<and> isDirectionalMatch d c a) anchors"

text \<open>\<open>anchors\<close> is \<open>None\<close> when the selector names no anchor in this direction.\<close>

definition applyDirection :: "direction \<Rightarrow> element list option \<Rightarrow> element list \<Rightarrow> element list" where
  "applyDirection d anchors candidates =
     (case anchors of None \<Rightarrow> candidates | Some as \<Rightarrow> filter (matchesAnyAnchor d as) candidates)"

definition filterStructural :: "element list option \<Rightarrow> element list list \<Rightarrow> element list \<Rightarrow> element list" where
  "filterStructural children_found descendants_found candidates =
     filter (\<lambda>c. (case children_found of None \<Rightarrow> True | Some es \<Rightarrow> hasDirectChildIn c (elementSet es))
        \<and> list_all (\<lambda>es. hasDescendantIn c (elementSet es)) descendants_found) candidates"

section \<open>Ranking\<close>

definition indexLess :: "element \<Rightarrow> element \<Rightarrow> bool" where
  "indexLess l r =
     (if el_hasBounds l \<noteq> el_hasBounds r then el_hasBounds l
      else if \<not> el_hasBounds l then el_order l < el_order r
      else if b_y (el_bounds l) \<noteq> b_y (el_bounds r) then b_y (el_bounds l) < b_y (el_bounds r)
      else if b_x (el_bounds l) \<noteq> b_x (el_bounds r) then b_x (el_bounds l) < b_x (el_bounds r)
      else el_order l < el_order r)"

definition isClickable :: "element \<Rightarrow> bool" where
  "isClickable e \<longleftrightarrow> nf_clickable (el_node e) = Some True"

definition rank :: "int option \<Rightarrow> element list \<Rightarrow> element list" where
  "rank index candidates =
     (case index of
        Some i \<Rightarrow>
          (let sorted_candidates = SliceStable indexLess candidates;
               j = (if i < 0 then wrap64 (i + int (length candidates)) else i)
           in if j < 0 \<or> j \<ge> int (length candidates) then [] else [sorted_candidates ! nat j])
      | None \<Rightarrow>
          SliceStable (\<lambda>l r. el_onScreen l \<and> \<not> el_onScreen r)
            (SliceStable (\<lambda>l r. isClickable l \<and> \<not> isClickable r) candidates))"

section \<open>Search\<close>

text \<open>One search, given what the nested selectors find from the root.\<close>

definition find_with :: "compiled_selector \<Rightarrow> element option \<Rightarrow> element list option
    \<Rightarrow> element list option \<Rightarrow> element list option \<Rightarrow> element list option \<Rightarrow> element list option
    \<Rightarrow> element list option \<Rightarrow> element list list \<Rightarrow> element list" where
  "find_with s root_element anchors lower upper leftOf rightOf child descs =
     (case (case anchors of
              None \<Rightarrow> Some root_element | Some [] \<Rightarrow> None | Some (a # _) \<Rightarrow> Some (Some a)) of
        None \<Rightarrow> []
      | Some scope \<Rightarrow>
          (let basic = filter (matchesBasic s) (Walk scope);
               structural = filterStructural child descs basic;
               reduced = (if hasBasicFilter s then deepest structural else structural)
           in rank (cs_index s)
                (applyDirection directionRight rightOf
                  (applyDirection directionLeft leftOf
                    (applyDirection directionAbove upper
                      (applyDirection directionBelow lower reduced))))))"

primrec selector_find :: "element option \<Rightarrow> compiled_selector \<Rightarrow> element list" where
  "selector_find root_element (CompiledSelector attrs text ident i lower upper leftOf rightOf child descs childOf) =
     find_with (CompiledSelector attrs text ident i lower upper leftOf rightOf child descs childOf) root_element
       (map_option (selector_find root_element) childOf)
       (map_option (selector_find root_element) lower) (map_option (selector_find root_element) upper)
       (map_option (selector_find root_element) leftOf) (map_option (selector_find root_element) rightOf)
       (map_option (selector_find root_element) child) (map (selector_find root_element) descs)"

definition Find :: "regexp_engine \<Rightarrow> element option \<Rightarrow> element_selector \<Rightarrow> matching_error + element list" where
  "Find regexp root_element s =
     (case compileSelector regexp s of Inl e \<Rightarrow> Inl e | Inr c \<Rightarrow> Inr (selector_find root_element c))"

section \<open>Refresh\<close>

definition attributesEqualIgnoringBounds :: "string_map \<Rightarrow> string_map \<Rightarrow> bool" where
  "attributesEqualIgnoringBounds l r =
     (let lk = filter (\<lambda>(k, v). k \<noteq> ''bounds'') (elems l); rk = filter (\<lambda>(k, v). k \<noteq> ''bounds'') (elems r)
      in list_all (\<lambda>(k, v). map_of (elems r) k = Some v) lk \<and> length lk = length rk)"

definition Refresh :: "element option \<Rightarrow> element option \<Rightarrow> nat + element" where
  "Refresh root_element previous =
     (case previous of
        None \<Rightarrow> Inl 0
      | Some p \<Rightarrow>
          (case filter (\<lambda>c. attributesEqualIgnoringBounds (nf_attributes (el_node c)) (nf_attributes (el_node p)))
                  (Walk root_element) of
             [e] \<Rightarrow> Inr e
           | es \<Rightarrow> Inl (length es)))"

end
