(* ===== verification/Matching_Facts.thy ===== *)
theory Matching_Facts
  imports Matching "HOL-Library.Product_Lexorder"
begin

text \<open>
  What a search returns, stated without the searches and loops that compute it: which elements
  are selected, in which order, and which one an index picks.
\<close>

section \<open>Descendants and found sets\<close>

definition descendants :: "element \<Rightarrow> element list" where
  "descendants e = concat (map preorder (el_children e))"

lemma preorder_unfold: "preorder e = e # descendants e"
  by (cases e) (simp add: descendants_def)

lemma search_stack_iff: "search_stack orders es \<longleftrightarrow> (\<exists>x \<in> set (concat (map preorder es)). el_order x \<in> orders)"
proof (induction orders es rule: search_stack.induct)
  case (2 orders e es)
  then show ?case by (cases e) auto
qed simp

lemma hasDescendantIn_iff: "hasDescendantIn c orders \<longleftrightarrow> (\<exists>x \<in> set (descendants c). el_order x \<in> orders)"
  by (auto simp: hasDescendantIn_def search_stack_iff descendants_def)

lemma preorder_trans: "x \<in> set (preorder e) \<Longrightarrow> set (preorder x) \<subseteq> set (preorder e)"
proof (induction e)
  case (Element f b has n shown kids)
  show ?case
  proof (cases "x = Element f b has n shown kids")
    case False
    then obtain k where "k \<in> set kids" "x \<in> set (preorder k)" using Element.prems by auto
    then show ?thesis using Element.IH by fastforce
  qed simp
qed

lemma descendants_in: "x \<in> set (preorder e) \<Longrightarrow> set (descendants x) \<subseteq> set (preorder e)"
  using preorder_trans [of x e] by (simp add: preorder_unfold [of x])

lemma children_in: "k \<in> set (el_children e) \<Longrightarrow> k \<in> set (descendants e)"
  using preorder_self by (auto simp: descendants_def)

lemma rank_members: "set (rank i xs) \<subseteq> set xs"
proof (cases i)
  case (Some j)
  have "SliceStable indexLess xs ! n \<in> set xs" if "n < length xs" for n
    using that nth_mem [of n "SliceStable indexLess xs"] by simp
  then show ?thesis using Some by (auto simp: rank_def Let_def nat_less_iff)
qed (simp add: rank_def)

lemma applyDirection_members: "set (applyDirection d a xs) \<subseteq> set xs"
  by (auto simp: applyDirection_def split: option.split)

lemma find_with_members:
  assumes "\<And>as. anchors = Some as \<Longrightarrow> set as \<subseteq> set (preorder r)"
  shows "set (find_with s (Some r) anchors lower upper leftOf rightOf child descs) \<subseteq> set (preorder r)"
proof -
  have walk: "set (rank i (applyDirection d1 a1 (applyDirection d2 a2 (applyDirection d3 a3 (applyDirection d4 a4
      (if P then deepest (filterStructural c ds (filter Q (preorder e))) else filterStructural c ds (filter Q (preorder e))))))))
      \<subseteq> set (preorder e)" for i d1 a1 d2 a2 d3 a3 d4 a4 P c ds Q e
    by (intro order_trans [OF rank_members] order_trans [OF applyDirection_members])
      (auto simp: deepest_def filterStructural_def)
  show ?thesis
  proof (cases anchors)
    case None
    then show ?thesis using walk by (simp add: find_with_def Let_def)
  next
    case (Some as)
    show ?thesis
    proof (cases as)
      case (Cons a rest)
      then have "set (preorder a) \<subseteq> set (preorder r)" using assms [OF Some] by (simp add: preorder_trans)
      then show ?thesis
        unfolding find_with_def Some Cons list.case option.case Walk_simps Let_def by (rule order_trans [OF walk])
    qed (simp add: Some find_with_def)
  qed
qed

lemma selector_find_members: "set (selector_find (Some r) s) \<subseteq> set (preorder r)"
proof (induction s)
  case (CompiledSelector attrs txtp ident i lower upper leftOf rightOf child descs childOf)
  have "set as \<subseteq> set (preorder r)" if "map_option (selector_find (Some r)) childOf = Some as" for as
    using that CompiledSelector by (cases childOf) auto
  then show ?case by (simp only: selector_find.simps) (rule find_with_members)
qed

section \<open>Which elements are selected\<close>

definition structurally :: "element \<Rightarrow> compiled_selector \<Rightarrow> element \<Rightarrow> bool" where
  "structurally r s e \<longleftrightarrow>
     (\<forall>c. cs_containsChild s = Some c \<longrightarrow> (\<exists>k \<in> set (el_children e). k \<in> set (selector_find (Some r) c)))
     \<and> (\<forall>d \<in> set (cs_containsDescendants s). \<exists>x \<in> set (descendants e). x \<in> set (selector_find (Some r) d))"

definition directed :: "element \<Rightarrow> compiled_selector option \<Rightarrow> direction \<Rightarrow> element \<Rightarrow> bool" where
  "directed r anchor d e \<longleftrightarrow>
     (\<forall>a. anchor = Some a \<longrightarrow> el_hasBounds e
        \<and> (\<exists>x \<in> set (selector_find (Some r) a). el_hasBounds x \<and> isDirectionalMatch d e x))"

definition selected :: "element \<Rightarrow> compiled_selector \<Rightarrow> element \<Rightarrow> bool" where
  "selected r s e \<longleftrightarrow> matchesBasic s e \<and> structurally r s e
     \<and> (hasBasicFilter s \<longrightarrow> (\<forall>d \<in> set (descendants e). \<not> (matchesBasic s d \<and> structurally r s d)))
     \<and> directed r (cs_below s) directionBelow e \<and> directed r (cs_above s) directionAbove e
     \<and> directed r (cs_leftOf s) directionLeft e \<and> directed r (cs_rightOf s) directionRight e"

text \<open>Where a selector looks: the whole tree, or the first element that its \<^verbatim>\<open>childOf\<close> finds, if any.\<close>

definition search_scope :: "element \<Rightarrow> compiled_selector \<Rightarrow> element option" where
  "search_scope r s =
     (case cs_childOf s of
        None \<Rightarrow> Some r
      | Some c \<Rightarrow> (case selector_find (Some r) c of [] \<Rightarrow> None | a # _ \<Rightarrow> Some a))"

definition hits :: "element \<Rightarrow> compiled_selector \<Rightarrow> element list" where
  "hits r s = (case search_scope r s of None \<Rightarrow> [] | Some e \<Rightarrow> filter (selected r s) (preorder e))"

text \<open>Trees with one order per element, as \<^verbatim>\<open>New\<close> and the visibility filter give.\<close>

definition distinct_orders :: "element \<Rightarrow> bool" where
  "distinct_orders r \<longleftrightarrow> distinct (map el_order (preorder r))"

lemma same_element:
  "distinct_orders r \<Longrightarrow> x \<in> set (preorder r) \<Longrightarrow> y \<in> set (preorder r) \<Longrightarrow> el_order x = el_order y \<Longrightarrow> x = y"
  by (auto simp: distinct_orders_def distinct_map dest: inj_onD)

lemma elementSet_member:
  "distinct_orders r \<Longrightarrow> x \<in> set (preorder r) \<Longrightarrow> set es \<subseteq> set (preorder r) \<Longrightarrow>
     el_order x \<in> elementSet es \<longleftrightarrow> x \<in> set es"
proof -
  assume *: "distinct_orders r" "x \<in> set (preorder r)" "set es \<subseteq> set (preorder r)"
  have "x \<in> set es" if "y \<in> set es" "el_order x = el_order y" for y
    using same_element [OF *(1,2) _ that(2)] that(1) *(3) by auto
  then show ?thesis by (auto simp: elementSet_def)
qed

lemma filterStructural_selected:
  assumes "distinct_orders r" and "set xs \<subseteq> set (preorder r)"
  shows "filterStructural (map_option (selector_find (Some r)) (cs_containsChild s))
      (map (selector_find (Some r)) (cs_containsDescendants s)) xs = filter (structurally r s) xs"
proof -
  have "hasDirectChildIn x (elementSet (selector_find (Some r) c))
      \<longleftrightarrow> (\<exists>k \<in> set (el_children x). k \<in> set (selector_find (Some r) c))" if "x \<in> set xs" for x c
  proof -
    have "k \<in> set (preorder r)" if "k \<in> set (el_children x)" for k
      using that \<open>x \<in> set xs\<close> assms(2) children_in descendants_in by blast
    then show ?thesis
      using elementSet_member [OF assms(1) _ selector_find_members] by (auto simp: hasDirectChildIn_def list_ex_iff)
  qed
  moreover have "hasDescendantIn x (elementSet (selector_find (Some r) d))
      \<longleftrightarrow> (\<exists>y \<in> set (descendants x). y \<in> set (selector_find (Some r) d))" if "x \<in> set xs" for x d
  proof -
    have "y \<in> set (preorder r)" if "y \<in> set (descendants x)" for y
      using that \<open>x \<in> set xs\<close> assms(2) descendants_in by blast
    then show ?thesis
      using elementSet_member [OF assms(1) _ selector_find_members] by (auto simp: hasDescendantIn_iff)
  qed
  ultimately show ?thesis
    unfolding filterStructural_def structurally_def
    by (intro filter_cong refl) (auto simp: list_all_iff split: option.split)
qed

lemma deepest_selected:
  assumes "distinct_orders r" and "e \<in> set (preorder r)" and "xs = filter P (preorder e)"
  shows "deepest xs = filter (\<lambda>x. \<forall>d \<in> set (descendants x). \<not> P d) xs"
proof -
  have "hasDescendantIn x (elementSet xs) \<longleftrightarrow> (\<exists>d \<in> set (descendants x). P d)" if "x \<in> set xs" for x
  proof -
    have "set (descendants x) \<subseteq> set (preorder e)" "set (preorder e) \<subseteq> set (preorder r)"
      using that assms descendants_in [of x e] preorder_trans by auto
    then have "el_order d \<in> elementSet xs \<longleftrightarrow> P d" if "d \<in> set (descendants x)" for d
      using that assms elementSet_member [OF assms(1), of d xs] by fastforce
    then show ?thesis by (auto simp: hasDescendantIn_iff)
  qed
  then show ?thesis unfolding deepest_def by (intro filter_cong) auto
qed

lemma applyDirection_selected:
  "applyDirection d (map_option (selector_find (Some r)) a) xs = filter (directed r a d) xs"
  unfolding applyDirection_def directed_def matchesAnyAnchor_def
  by (cases a) (auto simp: list_ex_iff intro!: filter_cong filter_True [symmetric])

lemma selector_find_ranked:
  assumes "distinct_orders r"
  shows "selector_find (Some r) s = rank (cs_index s) (hits r s)"
proof -
  obtain attrs txtp ident i lower upper leftOf rightOf child descs childOf
    where s: "s = CompiledSelector attrs txtp ident i lower upper leftOf rightOf child descs childOf"
    by (cases s)
  have in_scope: "rank i (applyDirection directionRight (map_option (selector_find (Some r)) rightOf)
       (applyDirection directionLeft (map_option (selector_find (Some r)) leftOf)
       (applyDirection directionAbove (map_option (selector_find (Some r)) upper)
       (applyDirection directionBelow (map_option (selector_find (Some r)) lower)
         (let structural = filterStructural (map_option (selector_find (Some r)) child)
              (map (selector_find (Some r)) descs) (filter (matchesBasic s) (preorder e))
          in if hasBasicFilter s then deepest structural else structural)))))
      = rank i (filter (selected r s) (preorder e))" if e: "e \<in> set (preorder r)" for e
  proof -
    have "set (filter (matchesBasic s) (preorder e)) \<subseteq> set (preorder r)"
      using preorder_trans [OF e] by auto
    then have st: "filterStructural (map_option (selector_find (Some r)) child)
        (map (selector_find (Some r)) descs) (filter (matchesBasic s) (preorder e))
        = filter (\<lambda>x. matchesBasic s x \<and> structurally r s x) (preorder e)"
      using filterStructural_selected [OF assms, of _ s] by (simp add: s conj_commute)
    show ?thesis
      unfolding st Let_def using deepest_selected [OF assms e refl]
      by (auto simp: applyDirection_selected selected_def s conj_ac intro!: arg_cong [where f = "rank i"] filter_cong)
  qed
  show ?thesis
  proof (cases childOf)
    case None
    then show ?thesis
      using in_scope [OF preorder_self] by (simp add: s hits_def search_scope_def find_with_def Let_def)
  next
    case (Some c)
    show ?thesis
    proof (cases "selector_find (Some r) c")
      case Nil
      then show ?thesis
        using Some by (cases i) (auto simp: s hits_def search_scope_def find_with_def rank_def SliceStable_def Let_def)
    next
      case (Cons a as)
      then have "a \<in> set (preorder r)" using selector_find_members [of r c] by auto
      then show ?thesis
        using in_scope [of a] Some Cons by (simp add: s hits_def search_scope_def find_with_def Let_def)
    qed
  qed
qed

section \<open>Ranking\<close>

text \<open>Reading order: elements with bounds first, then by row, by column, and by document order.\<close>

definition reading_key :: "element \<Rightarrow> bool \<times> int \<times> int \<times> nat" where
  "reading_key e = (\<not> el_hasBounds e, if el_hasBounds e then b_y (el_bounds e) else 0,
     if el_hasBounds e then b_x (el_bounds e) else 0, el_order e)"

lemma indexLess_key: "indexLess l r \<longleftrightarrow> reading_key l < reading_key r"
  by (auto simp: indexLess_def reading_key_def less_prod_def)

lemma insert_stable_insort: "insert_stable (\<lambda>l r. f l < f r) x xs = insort_key f x xs" for f :: "'a \<Rightarrow> 'k :: linorder"
  by (induction xs) auto

lemma SliceStable_sort_key: "SliceStable (\<lambda>l r. f l < f r) xs = sort_key f xs" for f :: "'a \<Rightarrow> 'k :: linorder"
  by (induction xs) (simp_all add: SliceStable_def sort_key_def insert_stable_insort)

lemma SliceStable_indexLess: "SliceStable indexLess xs = sort_key reading_key xs"
proof -
  have "indexLess = (\<lambda>l r. reading_key l < reading_key r)" by (intro ext indexLess_key)
  then have "SliceStable indexLess xs = SliceStable (\<lambda>l r. reading_key l < reading_key r) xs" by (rule arg_cong)
  then show ?thesis unfolding SliceStable_sort_key .
qed

lemma reading_key_inj: "distinct (map el_order xs) \<Longrightarrow> distinct (map reading_key xs)"
  by (auto simp: distinct_map inj_on_def reading_key_def)

lemma sorted_position:
  fixes f :: "'a \<Rightarrow> 'k :: linorder"
  assumes "sorted (map f ys)" and "distinct (map f ys)" and "j < length ys"
  shows "length (filter (\<lambda>x. f x < f (ys ! j)) ys) = j"
proof -
  have strict: "sorted_wrt (<) (map f ys)" using assms(1,2) by (simp add: strict_sorted_iff)
  have lt: "f (ys ! a) < f (ys ! b)" if "a < b" "b < length ys" for a b
    using sorted_wrt_nth_less [OF strict, of a b] that by simp
  have "f (ys ! i) < f (ys ! j) \<longleftrightarrow> i < j" if "i < length ys" for i
    using lt [of i j] lt [of j i] that assms(3) by (metis less_irrefl linorder_neqE_nat order_less_asym)
  then have "{i. i < length ys \<and> f (ys ! i) < f (ys ! j)} = {..<j}" using assms(3) by auto
  then show ?thesis by (simp add: length_filter_conv_card)
qed

lemma distinct_orders_below: "e \<in> set (preorder r) \<Longrightarrow> distinct_orders r \<Longrightarrow> distinct_orders e"
proof (induction r)
  case (Element f b has n shown kids)
  show ?case
  proof (cases "e = Element f b has n shown kids")
    case False
    then obtain k where k: "k \<in> set kids" "e \<in> set (preorder k)" using Element.prems(1) by auto
    have "distinct (concat (map (\<lambda>k. map el_order (preorder k)) kids))"
      using Element.prems(2) by (simp add: distinct_orders_def map_concat comp_def)
    then have "distinct_orders k" using k(1) by (auto simp: distinct_orders_def distinct_concat_iff)
    then show ?thesis using Element.IH [OF k] by simp
  qed (use Element in simp)
qed

lemma scope_in_tree: "search_scope r s = Some e \<Longrightarrow> e \<in> set (preorder r)"
proof -
  assume e: "search_scope r s = Some e"
  show ?thesis
  proof (cases "cs_childOf s")
    case None
    then show ?thesis using e preorder_self by (simp add: search_scope_def)
  next
    case (Some c)
    then have "e \<in> set (selector_find (Some r) c)" using e by (simp add: search_scope_def split: list.splits)
    then show ?thesis using selector_find_members by blast
  qed
qed

lemma hits_distinct: "distinct_orders r \<Longrightarrow> distinct (map el_order (hits r s))"
  using distinct_orders_below [OF scope_in_tree]
  by (auto simp: hits_def distinct_orders_def distinct_map inj_on_def split: option.splits)

text \<open>C26: A search without an index returns exactly the selected elements of its scope: those that satisfy
  the element's own filters and the structural ones, are minimal among those in the tree when the
  selector has a filter of its own, and stand in every requested direction of some anchor. The ones on
  screen come first, then the clickable ones, and document order decides the rest.\<close>

theorem search_returns_selected_in_order:
  assumes "distinct_orders r" and "cs_index s = None"
  shows "selector_find (Some r) s =
     filter (\<lambda>e. el_onScreen e \<and> isClickable e) (hits r s) @ filter (\<lambda>e. el_onScreen e \<and> \<not> isClickable e) (hits r s)
     @ filter (\<lambda>e. \<not> el_onScreen e \<and> isClickable e) (hits r s)
     @ filter (\<lambda>e. \<not> el_onScreen e \<and> \<not> isClickable e) (hits r s)"
  by (simp add: selector_find_ranked [OF assms(1)] assms(2) rank_def SliceStable_partition conj_commute)

lemma rank_index:
  assumes "distinct (map el_order xs)" and "int64 i" and "length xs < 2 ^ 62"
  shows "let n = int (length xs) in
     (if - n \<le> i \<and> i < n
      then \<exists>e \<in> set xs. rank (Some i) xs = [e] \<and> int (length (filter (\<lambda>x. indexLess x e) xs)) = i mod n
      else rank (Some i) xs = [])"
proof -
  let ?ys = "sort_key reading_key xs" and ?n = "int (length xs)"
  let ?j = "if i < 0 then i + ?n else i"
  have "wrap64 (i + ?n) = i + ?n" if "i < 0"
    using that assms(2,3) by (intro wrap64_id) (auto simp: int64_def)
  then have rank: "rank (Some i) xs = (if ?j < 0 \<or> ?j \<ge> ?n then [] else [?ys ! nat ?j])"
    by (simp add: rank_def Let_def SliceStable_indexLess)
  show ?thesis
  proof (cases "- ?n \<le> i \<and> i < ?n")
    case True
    define j where "j = ?j"
    have j: "0 \<le> j" "j < ?n" using True by (auto simp: j_def)
    have mod: "i mod ?n = j"
    proof (cases "i < 0")
      case neg: True
      have "i mod ?n = (i + ?n) mod ?n" by simp
      also have "\<dots> = i + ?n" using True neg by (intro mod_pos_pos_trivial) auto
      finally show ?thesis using neg by (simp add: j_def)
    qed (use True in \<open>simp add: j_def\<close>)
    have dist: "distinct (map reading_key ?ys)"
      using reading_key_inj [OF assms(1)] by (simp add: distinct_map)
    have count: "length (filter (\<lambda>x. reading_key x < reading_key (?ys ! nat j)) ?ys) = nat j"
      using j by (intro sorted_position dist) auto
    have perm: "length (filter P ?ys) = length (filter P xs)" for P
      using filter_sort [of P reading_key xs] length_sort by metis
    have "?ys ! nat j \<in> set xs" using j nth_mem [of "nat j" ?ys] by simp
    moreover have "rank (Some i) xs = [?ys ! nat j]" using rank j by (simp add: j_def)
    moreover have "int (length (filter (\<lambda>x. indexLess x (?ys ! nat j)) xs)) = i mod ?n"
      using count perm mod j(1) by (simp add: indexLess_key)
    ultimately show ?thesis using True by (simp only: Let_def) auto
  next
    case False
    then show ?thesis using rank by (auto simp: Let_def)
  qed
qed

text \<open>An index counts the selected elements in reading order, from the front, or from the back when it
  is negative: it picks the one element that has that many of them before it, and nothing when it
  is out of range.\<close>

theorem index_counts_in_reading_order:
  assumes "distinct_orders r" and "cs_index s = Some i" and "length (hits r s) < 2 ^ 62" and "int64 i"
  shows "let n = int (length (hits r s)) in
     (if - n \<le> i \<and> i < n
      then \<exists>e \<in> set (hits r s). selector_find (Some r) s = [e]
        \<and> int (length (filter (\<lambda>x. indexLess x e) (hits r s))) = i mod n
      else selector_find (Some r) s = [])"
  using rank_index [OF hits_distinct [OF assms(1)] assms(4,3)]
  by (simp only: selector_find_ranked [OF assms(1)] assms(2))

section \<open>Refresh\<close>

definition kept_attributes :: "string_map \<Rightarrow> string \<rightharpoonup> string" where
  "kept_attributes m = map_of (elems m) |` (- {''bounds''})"

definition map_keys :: "string_map \<Rightarrow> bool" where
  "map_keys m \<longleftrightarrow> distinct (map fst (elems m))"

lemma same_size_map_eq:
  assumes "finite (dom m')" "m \<subseteq>\<^sub>m m'" "card (dom m) = card (dom m')"
  shows "m = m'"
proof -
  have "dom m \<subseteq> dom m'" using assms(2) by (rule map_le_implies_dom_le)
  then have d: "dom m = dom m'" using assms(1,3) by (simp add: card_subset_eq)
  show ?thesis
  proof (rule map_le_antisym [OF assms(2)])
    show "m' \<subseteq>\<^sub>m m" using assms(2) d by (simp add: map_le_def)
  qed
qed

lemma kept_dom: "dom (kept_attributes m) = fst ` set (filter (\<lambda>(k, v). k \<noteq> ''bounds'') (elems m))"
proof -
  have "dom (kept_attributes m) = fst ` set (elems m) \<inter> - {''bounds''}"
    by (simp add: kept_attributes_def dom_map_of_conv_image_fst)
  then show ?thesis by force
qed

lemma kept_card:
  assumes "map_keys m"
  shows "card (dom (kept_attributes m)) = length (filter (\<lambda>(k, v). k \<noteq> ''bounds'') (elems m))"
proof -
  let ?kept = "filter (\<lambda>(k, v). k \<noteq> ''bounds'') (elems m)"
  have "distinct (map fst ?kept)" using assms by (simp add: map_keys_def distinct_map_filter)
  then have "card (set (map fst ?kept)) = length (map fst ?kept)" by (rule distinct_card)
  then show ?thesis by (simp add: kept_dom)
qed

lemma kept_le:
  assumes "map_keys l"
  shows "list_all (\<lambda>(k, v). map_of (elems r) k = Some v) (filter (\<lambda>(k, v). k \<noteq> ''bounds'') (elems l))
      \<longleftrightarrow> kept_attributes l \<subseteq>\<^sub>m kept_attributes r"
proof -
  have "(k, v) \<in> set (elems l) \<longleftrightarrow> map_of (elems l) k = Some v" for k v
    using assms by (simp add: map_keys_def)
  then show ?thesis
    by (auto simp: list_all_iff kept_attributes_def map_le_def restrict_map_def dom_def)
qed

lemma attributesEqual_iff:
  assumes "map_keys l" "map_keys r"
  shows "attributesEqualIgnoringBounds l r \<longleftrightarrow> kept_attributes l = kept_attributes r"
proof -
  have fin: "finite (dom (kept_attributes r))" unfolding kept_dom by simp
  show ?thesis
    unfolding attributesEqualIgnoringBounds_def Let_def kept_le [OF assms(1)]
    using same_size_map_eq [OF fin, of "kept_attributes l"] kept_card [OF assms(1)] kept_card [OF assms(2)] by auto
qed

text \<open>A refresh returns an element exactly when it is the only one in the tree whose attributes, bounds
  aside, are those of the previous element; with none or several it reports how many there are.\<close>

theorem refresh_finds_the_only_match:
  assumes "list_all (\<lambda>e. map_keys (nf_attributes (el_node e))) (Walk root_element)" and "map_keys (nf_attributes (el_node p))"
  shows "Refresh root_element (Some p) =
     (case filter (\<lambda>e. kept_attributes (nf_attributes (el_node e)) = kept_attributes (nf_attributes (el_node p)))
        (Walk root_element) of
       [e] \<Rightarrow> Inr e | es \<Rightarrow> Inl (length es))"
proof -
  have "filter (\<lambda>c. attributesEqualIgnoringBounds (nf_attributes (el_node c)) (nf_attributes (el_node p))) (Walk root_element)
      = filter (\<lambda>e. kept_attributes (nf_attributes (el_node e)) = kept_attributes (nf_attributes (el_node p))) (Walk root_element)"
    using assms by (intro filter_cong refl) (auto simp: list_all_iff attributesEqual_iff)
  then show ?thesis by (simp add: Refresh_def)
qed

section \<open>A concrete screen\<close>

definition leaf :: "string \<Rightarrow> nat \<Rightarrow> int \<Rightarrow> bool \<Rightarrow> bool \<Rightarrow> element list \<Rightarrow> element" where
  "leaf label n y shown click kids =
     Element \<lparr>nf_attributes = Some [(''text'', label)], nf_clickable = Some click, nf_enabled = None,
       nf_focused = None, nf_checked = None, nf_selected = None\<rparr>
       \<lparr>b_x = 0, b_y = y, b_width = 10, b_height = 10\<rparr> True n shown kids"

definition settings_screen :: element where
  "settings_screen = leaf ''S'' 0 0 True False
     [leaf ''G'' 1 50 False True [], leaf ''G'' 2 30 True False [], leaf ''G'' 3 40 True True []]"

definition text_selector :: "string \<Rightarrow> int option \<Rightarrow> compiled_selector" where
  "text_selector t i = CompiledSelector
     \<lparr>sel_textRegex = Some t, sel_idRegex = None, sel_size = None, sel_optional = None, sel_retryTapIfNoChange = None,
      sel_waitUntilVisible = None, sel_point = None, sel_start = None, sel_end = None, sel_traits = None,
      sel_index = None, sel_enabled = None, sel_selected = None, sel_checked = None, sel_focused = None,
      sel_repeat = None, sel_delay = None, sel_waitToSettleTimeoutMS = None, sel_label = None, sel_css = None\<rparr>
     (Some \<lparr>pat_raw = t, pat_compiled = (\<lambda>v. v = t)\<rparr>) None i None None None None None [] None"

lemma settings_distinct: "distinct_orders settings_screen"
  by (simp add: distinct_orders_def settings_screen_def leaf_def)

lemma leaf_sel [simp]:
  "el_children (leaf t n y s c kids) = kids" "el_order (leaf t n y s c kids) = n" "el_onScreen (leaf t n y s c kids) = s"
  "isClickable (leaf t n y s c kids) = c" "preorder (leaf t n y s c kids) = leaf t n y s c kids # concat (map preorder kids)"
  "nf_attributes (el_node (leaf t n y s c kids)) = Some [(''text'', t)]"
  by (simp_all add: leaf_def isClickable_def)

lemma replaced [simp]: "replace_pairs spacesAScreenShows '''' = ''''" "replace_pairs spacesAScreenShows ''S'' = ''S''"
  by code_simp+

lemma leaf_basic: "matchesBasic (text_selector ''G'' i) (leaf t n y s c kids) \<longleftrightarrow> t = ''G''" if "t \<in> {''S'', ''G''}"
  using that
  by (auto simp: matchesBasic_def text_selector_def leaf_def matchesAnyText_def pattern_matches_def attribute_def
      matchesSize_def matchesTraits_def matchesBool_def simp del: replace_pairs.simps)

lemma settings_hits:
  "hits settings_screen (text_selector ''G'' i) = [leaf ''G'' 1 50 False True [], leaf ''G'' 2 30 True False [], leaf ''G'' 3 40 True True []]"
proof -
  have "structurally r (text_selector ''G'' i) e" "directed r None d e" for r e d
    by (simp_all add: structurally_def directed_def text_selector_def)
  then have "selected r (text_selector ''G'' i) e \<longleftrightarrow> matchesBasic (text_selector ''G'' i) e
      \<and> list_all (\<lambda>d. \<not> matchesBasic (text_selector ''G'' i) d) (descendants e)" for r e
    by (auto simp: selected_def list_all_iff hasBasicFilter_def) (simp_all add: text_selector_def)
  moreover have "cs_childOf (text_selector ''G'' i) = None" by (simp add: text_selector_def)
  ultimately show ?thesis
    by (simp add: hits_def search_scope_def settings_screen_def descendants_def leaf_basic)
qed

lemma search_returns_selected_in_order_witness:
  "map el_order (selector_find (Some settings_screen) (text_selector ''G'' None)) = [3, 2, 1]"
proof -
  have "cs_index (text_selector ''G'' None) = None" by (simp add: text_selector_def)
  from search_returns_selected_in_order [OF settings_distinct this] show ?thesis by (simp add: settings_hits)
qed

lemma index_counts_in_reading_order_witness:
  "\<exists>e. selector_find (Some settings_screen) (text_selector ''G'' (Some (- 1))) = [e]"
proof -
  have "cs_index (text_selector ''G'' (Some (- 1))) = Some (- 1)" by (simp add: text_selector_def)
  from index_counts_in_reading_order [OF settings_distinct this] show ?thesis
    by (auto simp: int64_def Let_def settings_hits)
qed

lemma refresh_finds_the_only_match_witness:
  "Refresh (Some settings_screen) (Some (leaf ''S'' 7 90 False False [])) = Inr settings_screen"
proof -
  have "list_all (\<lambda>e. map_keys (nf_attributes (el_node e))) (Walk (Some settings_screen))"
    "map_keys (nf_attributes (el_node (leaf ''S'' 7 90 False False [])))"
    by (simp_all add: settings_screen_def map_keys_def)
  moreover have "kept_attributes (Some [(''text'', a)]) = kept_attributes (Some [(''text'', b)]) \<longleftrightarrow> a = b" for a b
    by (auto simp: kept_attributes_def restrict_map_def fun_eq_iff split: if_splits)
  ultimately show ?thesis
    using refresh_finds_the_only_match [of "Some settings_screen" "leaf ''S'' 7 90 False False []"]
    by (simp add: settings_screen_def)
qed

end
