(* ===== verification/Handler_Base.thy ===== *)
theory Handler_Base
  imports Executor Matching
begin

text \<open>
  What the command handlers share: the sequencing of handler programs, the services of the
  outside world they call, and the treatment of selectors before a lookup
  (\<^verbatim>\<open>internal/engine/walking_skeleton_handlers.go\<close>).

  \<open>handler_services\<close> holds the context, the JavaScript engine (whose calls emit log lines), the waiting
  clock, the driver's description of the device and the element lookup; a lookup answers whether
  the element was found, respectively was absent, before the deadline that the flag for
  optional commands selects.
\<close>

section \<open>Programs\<close>

primrec prog_bind :: "('w, 'a) prog \<Rightarrow> ('a \<Rightarrow> ('w, 'b) prog) \<Rightarrow> ('w, 'b) prog" where
  "prog_bind (Done a) f = f a"
| "prog_bind (Panicking m) f = Panicking m"
| "prog_bind (World step k) f = World step (\<lambda>w. prog_bind (k w) f)"
| "prog_bind (Host q k) f = Host q (\<lambda>r. prog_bind (k r) f)"

lemma run_prog_bind:
  "run_prog host get put (prog_bind p f) s =
     (case run_prog host get put p s of
        (Return a, logs, s') \<Rightarrow>
          (case run_prog host get put (f a) s' of (r, logs', s'') \<Rightarrow> (r, logs @ logs', s''))
      | (Panic m, logs, s') \<Rightarrow> (Panic m, logs, s'))"
  by (induction p arbitrary: s) (auto split: prod.splits go_return.splits)

datatype js_value = JsNil | JsBool bool | JsString string | JsInt int | JsNilBigInt | JsFloat rat | JsNaN | JsOther

record 'w handler_services =
  hs_foreign :: foreign
  hs_regexp :: regexp_engine
  hs_matchingError :: "matching_error \<Rightarrow> go_error"
  hs_ctxErr :: "'w ctx_err"
  hs_interpolate :: "string \<Rightarrow> 'w \<Rightarrow> (go_error + string) \<times> string list \<times> 'w"
  hs_evaluate :: "string \<Rightarrow> string \<Rightarrow> string \<Rightarrow> 'w \<Rightarrow> (go_error + js_value \<times> string) \<times> string list \<times> 'w"
  hs_wait :: "int \<Rightarrow> 'w \<Rightarrow> go_error option \<times> 'w"
  hs_devicePlatform :: "'w \<Rightarrow> (go_error + string) \<times> 'w"
  hs_findVisible :: "bool \<Rightarrow> element_selector \<Rightarrow> 'w \<Rightarrow> (go_error + bool) \<times> 'w"
  hs_findAbsent :: "bool \<Rightarrow> element_selector \<Rightarrow> 'w \<Rightarrow> (go_error + bool) \<times> 'w"

definition ctx_check :: "'w handler_services \<Rightarrow> ('w, go_error option) prog" where
  "ctx_check S = world_call (hs_ctxErr S) Done"

text \<open>A request whose answer is a possible error.\<close>

definition request :: "host_request \<Rightarrow> ('w, go_error option) prog" where
  "request q = Host q (\<lambda>r. Done (case r of Refused e \<Rightarrow> Some e | _ \<Rightarrow> None))"

text \<open>A call of the JavaScript runtime, obtained first.\<close>

definition js_call :: "('w \<Rightarrow> (go_error + 'r) \<times> string list \<times> 'w) \<Rightarrow> ('w, go_error + 'r) prog" where
  "js_call f = prog_bind (request RuntimeRequest) (\<lambda>err.
     case err of
       Some e \<Rightarrow> Done (Inl e)
     | None \<Rightarrow> World (\<lambda>w. case f w of (_, logs, w') \<Rightarrow> (logs, w')) (\<lambda>w. Done (fst (f w))))"

definition Interpolate :: "'w handler_services \<Rightarrow> string \<Rightarrow> ('w, go_error + string) prog" where
  "Interpolate S input = js_call (hs_interpolate S input)"

section \<open>Selector targets\<close>

definition selectorHasImplementedTarget :: "element_selector \<Rightarrow> bool" where
  "selectorHasImplementedTarget s \<longleftrightarrow>
     (let f = sel_fields s in
        sel_textRegex f \<noteq> None \<or> sel_idRegex f \<noteq> None
      \<or> (case sel_size f of None \<Rightarrow> False | Some z \<Rightarrow> size_width z \<noteq> None \<or> size_height z \<noteq> None)
      \<or> elems (sel_traits f) \<noteq> [] \<or> sel_enabled f \<noteq> None \<or> sel_selected f \<noteq> None \<or> sel_checked f \<noteq> None
      \<or> sel_focused f \<noteq> None \<or> sel_below s \<noteq> None \<or> sel_above s \<noteq> None \<or> sel_leftOf s \<noteq> None
      \<or> sel_rightOf s \<noteq> None \<or> sel_containsChild s \<noteq> None \<or> elems (sel_containsDescendants s) \<noteq> []
      \<or> sel_childOf s \<noteq> None \<or> sel_css f \<noteq> None)"

fun first_error :: "go_error option list \<Rightarrow> go_error option" where
  "first_error [] = None"
| "first_error (e # es) = (if e \<noteq> None then e else first_error es)"

definition at_path :: "(string \<Rightarrow> go_error option) option \<Rightarrow> string \<Rightarrow> go_error option" where
  "at_path f p = (case f of None \<Rightarrow> None | Some g \<Rightarrow> g p)"

primrec validateImplementedSelectorTargets :: "string \<Rightarrow> element_selector \<Rightarrow> string \<Rightarrow> go_error option" where
  "validateImplementedSelectorTargets keyword (ElementSelector attrs lower upper leftOf rightOf child descs childOf src fsrc) =
     (\<lambda>path.
        if \<not> selectorHasImplementedTarget (ElementSelector attrs lower upper leftOf rightOf child descs childOf src fsrc)
        then Some (NewConfigurationError (''command '' @ keyword @ '' '' @ path @ '' requires an implemented target predicate'') None)
        else first_error
          ([at_path (map_option (validateImplementedSelectorTargets keyword) lower) (path @ ''.below''),
            at_path (map_option (validateImplementedSelectorTargets keyword) upper) (path @ ''.above''),
            at_path (map_option (validateImplementedSelectorTargets keyword) leftOf) (path @ ''.leftOf''),
            at_path (map_option (validateImplementedSelectorTargets keyword) rightOf) (path @ ''.rightOf''),
            at_path (map_option (validateImplementedSelectorTargets keyword) child) (path @ ''.containsChild''),
            at_path (map_option (validateImplementedSelectorTargets keyword) childOf) (path @ ''.childOf'')]
           @ map2 (\<lambda>i f. f (path @ ''.containsDescendants['' @ dec i @ '']''))
               [0..<length (elems descs)]
               (elems (map_option (map (validateImplementedSelectorTargets keyword)) descs))))"

definition unsupportedFeature :: "element_selector \<Rightarrow> bool \<Rightarrow> bool \<Rightarrow> string option" where
  "unsupportedFeature s allowTopLevelSettleTimeout topLevel =
     (let f = sel_fields s in
        if sel_point f \<noteq> None then Some ''point''
        else if sel_start f \<noteq> None then Some ''start''
        else if sel_end f \<noteq> None then Some ''end''
        else if sel_retryTapIfNoChange f \<noteq> None then Some ''retryTapIfNoChange''
        else if sel_waitUntilVisible f \<noteq> None then Some ''waitUntilVisible''
        else if sel_repeat f \<noteq> None then Some ''repeat''
        else if sel_delay f \<noteq> None then Some ''delay''
        else if sel_waitToSettleTimeoutMS f \<noteq> None \<and> (\<not> allowTopLevelSettleTimeout \<or> \<not> topLevel)
        then Some ''waitToSettleTimeoutMs''
        else if sel_optional f \<noteq> None \<and> \<not> topLevel then Some ''nested optional''
        else None)"

primrec rejectUnsupportedSelectorFeatures :: "string \<Rightarrow> bool \<Rightarrow> element_selector \<Rightarrow> bool \<Rightarrow> go_error option" where
  "rejectUnsupportedSelectorFeatures keyword allow (ElementSelector attrs lower upper leftOf rightOf child descs childOf src fsrc) =
     (\<lambda>topLevel.
        case unsupportedFeature (ElementSelector attrs lower upper leftOf rightOf child descs childOf src fsrc) allow topLevel of
          Some feature \<Rightarrow>
            Some (NewConfigurationError
              (''command '' @ keyword @ '' selector feature '' @ feature @ '' is not implemented'') None)
        | None \<Rightarrow>
            first_error
              (map (\<lambda>f. case f of None \<Rightarrow> None | Some g \<Rightarrow> g False)
                 [map_option (rejectUnsupportedSelectorFeatures keyword allow) lower,
                  map_option (rejectUnsupportedSelectorFeatures keyword allow) upper,
                  map_option (rejectUnsupportedSelectorFeatures keyword allow) leftOf,
                  map_option (rejectUnsupportedSelectorFeatures keyword allow) rightOf,
                  map_option (rejectUnsupportedSelectorFeatures keyword allow) child,
                  map_option (rejectUnsupportedSelectorFeatures keyword allow) childOf]
               @ map (\<lambda>g. g False) (elems (map_option (map (rejectUnsupportedSelectorFeatures keyword allow)) descs))))"

definition validateSelectorCommand :: "command \<Rightarrow> go_error option" where
  "validateSelectorCommand c =
     (if cmd_form c \<noteq> CommandFormObject
      then Some (commandDecodeError (cmd_kind c) ''requires object form with a selector'')
      else case cmd_selector c of
             None \<Rightarrow> Some (commandDecodeError (cmd_kind c) ''requires a selector'')
           | Some s \<Rightarrow>
               (case validateImplementedSelectorTargets (cmd_kind c) s ''selector'' of
                  Some e \<Rightarrow> Some e
                | None \<Rightarrow>
                    if elems (cmd_children c) \<noteq> []
                    then Some (commandDecodeError (cmd_kind c) ''must not contain child commands'') else None))"

section \<open>Interpolation of selectors\<close>

text \<open>An interpolation works in place: after an error the fields before it are already replaced.\<close>

definition interpolateStringPointer :: "'w handler_services \<Rightarrow> string option \<Rightarrow> ('w, string option \<times> go_error option) prog" where
  "interpolateStringPointer S v =
     (case v of
        None \<Rightarrow> Done (None, None)
      | Some t \<Rightarrow> prog_bind (Interpolate S t) (\<lambda>r.
          Done (case r of Inl e \<Rightarrow> (Some t, Some e) | Inr t' \<Rightarrow> (Some t', None))))"

type_synonym string_field =
  "(selector_fields \<Rightarrow> string option) \<times> (string option \<Rightarrow> selector_fields \<Rightarrow> selector_fields)"

definition interpolated_fields :: "string_field list" where
  "interpolated_fields =
     [(sel_textRegex, \<lambda>v. sel_textRegex_update (\<lambda>_. v)), (sel_idRegex, \<lambda>v. sel_idRegex_update (\<lambda>_. v)),
      (sel_point, \<lambda>v. sel_point_update (\<lambda>_. v)), (sel_start, \<lambda>v. sel_start_update (\<lambda>_. v)),
      (sel_end, \<lambda>v. sel_end_update (\<lambda>_. v)), (sel_label, \<lambda>v. sel_label_update (\<lambda>_. v)),
      (sel_css, \<lambda>v. sel_css_update (\<lambda>_. v)), (sel_index, \<lambda>v. sel_index_update (\<lambda>_. v))]"

fun interpolate_fields :: "'w handler_services \<Rightarrow> string_field list \<Rightarrow> selector_fields
    \<Rightarrow> ('w, selector_fields \<times> go_error option) prog" where
  "interpolate_fields S [] attrs = Done (attrs, None)"
| "interpolate_fields S ((get, put) # fs) attrs =
     prog_bind (interpolateStringPointer S (get attrs)) (\<lambda>(v, e).
       if e \<noteq> None then Done (put v attrs, e) else interpolate_fields S fs (put v attrs))"

text \<open>The nested selectors one after the other, each with the program that interpolates it.\<close>

fun interpolate_all :: "('a \<times> ('w, 'a \<times> go_error option) prog) list \<Rightarrow> ('w, 'a list \<times> go_error option) prog" where
  "interpolate_all [] = Done ([], None)"
| "interpolate_all ((x, p) # rest) = prog_bind p (\<lambda>(y, e).
     if e \<noteq> None then Done (y # map fst rest, e)
     else prog_bind (interpolate_all rest) (\<lambda>(ys, e). Done (y # ys, e)))"

definition interpolate_opt :: "'a option \<Rightarrow> ('w, 'a \<times> go_error option) prog option
    \<Rightarrow> 'a option \<times> ('w, 'a option \<times> go_error option) prog" where
  "interpolate_opt x p =
     (x, case p of None \<Rightarrow> Done (x, None) | Some q \<Rightarrow> prog_bind q (\<lambda>(y, e). Done (Some y, e)))"

primrec interpolateSelector :: "'w handler_services \<Rightarrow> element_selector \<Rightarrow> ('w, element_selector \<times> go_error option) prog" where
  "interpolateSelector S (ElementSelector attrs lower upper leftOf rightOf child descs childOf src fsrc) =
     prog_bind (interpolate_fields S interpolated_fields attrs) (\<lambda>(attrs, e).
       if e \<noteq> None
       then Done (ElementSelector attrs lower upper leftOf rightOf child descs childOf src fsrc, e)
       else prog_bind (interpolate_all
          [interpolate_opt lower (map_option (interpolateSelector S) lower),
           interpolate_opt upper (map_option (interpolateSelector S) upper),
           interpolate_opt leftOf (map_option (interpolateSelector S) leftOf),
           interpolate_opt rightOf (map_option (interpolateSelector S) rightOf),
           interpolate_opt child (map_option (interpolateSelector S) child),
           interpolate_opt childOf (map_option (interpolateSelector S) childOf)]) (\<lambda>(n, e).
         if e \<noteq> None
         then Done (ElementSelector attrs (n ! 0) (n ! 1) (n ! 2) (n ! 3) (n ! 4) descs (n ! 5) src fsrc, e)
         else prog_bind (interpolate_all
                (zip (elems descs) (elems (map_option (map (interpolateSelector S)) descs)))) (\<lambda>(ds, e).
           Done (ElementSelector attrs (n ! 0) (n ! 1) (n ! 2) (n ! 3) (n ! 4) (map_option (\<lambda>_. ds) descs)
             (n ! 5) src fsrc, e))))"

text \<open>The raw arguments follow the interpolated selector.\<close>

definition selector_string :: "selector_fields \<Rightarrow> string \<Rightarrow> string option" where
  "selector_string f name =
     (case map_of [(''text'', sel_textRegex f), (''id'', sel_idRegex f), (''point'', sel_point f),
         (''start'', sel_start f), (''end'', sel_end f), (''label'', sel_label f), (''css'', sel_css f)] name of
        None \<Rightarrow> None | Some v \<Rightarrow> v)"

definition sync_nested :: "(string \<times> (dyn \<Rightarrow> dyn) option) list \<Rightarrow> string \<Rightarrow> dyn \<Rightarrow> dyn" where
  "sync_nested fs name v = (case map_of fs name of Some (Some f) \<Rightarrow> f v | _ \<Rightarrow> v)"

definition sync_list :: "(dyn \<Rightarrow> dyn) list \<Rightarrow> dyn \<Rightarrow> dyn" where
  "sync_list fs v =
     (case v of
        DynList xs \<Rightarrow> DynList (map_option (\<lambda>xs. map2 (\<lambda>f x. f x) fs xs @ drop (length fs) xs) xs)
      | _ \<Rightarrow> v)"

primrec synchronizeSelectorArguments :: "element_selector \<Rightarrow> dyn \<Rightarrow> dyn" where
  "synchronizeSelectorArguments (ElementSelector attrs lower upper leftOf rightOf child descs childOf src fsrc) =
     (\<lambda>arguments. case arguments of
        DynString t \<Rightarrow> (case sel_textRegex attrs of None \<Rightarrow> cloneDynamic arguments | Some t' \<Rightarrow> DynString t')
      | DynMap m \<Rightarrow>
          (let cloned = (case cloneDynamic arguments of DynMap c \<Rightarrow> elems c | _ \<Rightarrow> [])
           in DynMap (Some (map (\<lambda>(name, v).
                (name,
                 case selector_string attrs name of
                   Some t \<Rightarrow> DynString t
                 | None \<Rightarrow>
                     if name = ''containsDescendants''
                     then sync_list (elems (map_option (map synchronizeSelectorArguments) descs)) v
                     else sync_nested
                       [(''below'', map_option synchronizeSelectorArguments lower),
                        (''above'', map_option synchronizeSelectorArguments upper),
                        (''leftOf'', map_option synchronizeSelectorArguments leftOf),
                        (''rightOf'', map_option synchronizeSelectorArguments rightOf),
                        (''containsChild'', map_option synchronizeSelectorArguments child),
                        (''childOf'', map_option synchronizeSelectorArguments childOf)] name v)) cloned)))
      | _ \<Rightarrow> cloneDynamic arguments)"

definition set_selector :: "element_selector option \<Rightarrow> command \<Rightarrow> command" where
  "set_selector s c = (case c of Command kind form args _ cond kids links label opt src \<Rightarrow>
     Command kind form args s cond kids links label opt src)"

definition set_condition :: "condition option \<Rightarrow> command \<Rightarrow> command" where
  "set_condition d c = (case c of Command kind form args s _ kids links label opt src \<Rightarrow>
     Command kind form args s d kids links label opt src)"

definition set_arguments :: "dyn \<Rightarrow> command \<Rightarrow> command" where
  "set_arguments a c = (case c of Command kind form _ s cond kids links label opt src \<Rightarrow>
     Command kind form a s cond kids links label opt src)"

definition set_label :: "string option \<Rightarrow> command \<Rightarrow> command" where
  "set_label l c = (case c of Command kind form args s cond kids links _ opt src \<Rightarrow>
     Command kind form args s cond kids links l opt src)"

definition selector_error :: "'w handler_services \<Rightarrow> element_selector \<Rightarrow> go_error option" where
  "selector_error S s =
     (case Find (hs_regexp S) None s of Inl e \<Rightarrow> Some (hs_matchingError S e) | Inr _ \<Rightarrow> None)"

definition evaluateSelectorCommand :: "'w handler_services \<Rightarrow> command \<Rightarrow> ('w, command \<times> go_error option) prog" where
  "evaluateSelectorCommand S command0 =
     (let evaluated = cloneCommand command0 in
      case cmd_selector evaluated of
        None \<Rightarrow> Done (evaluated, Some (NewConfigurationError (''command '' @ cmd_kind command0 @ '' requires a selector'') None))
      | Some s \<Rightarrow> prog_bind (interpolateSelector S s) (\<lambda>(s, e).
          let evaluated = set_selector (Some s) evaluated in
          if e \<noteq> None then Done (evaluated, e)
          else case selector_error S s of
                 Some cause \<Rightarrow> Done (evaluated, Some (NewConfigurationError
                   (''command '' @ cmd_kind command0 @ '' selector is invalid after interpolation'') (Some cause)))
               | None \<Rightarrow>
                   Done (set_label (sel_label (sel_fields s))
                     (set_arguments (synchronizeSelectorArguments s (cmd_arguments command0)) evaluated), None)))"

end
