(* ===== verification/Composite.thy ===== *)
theory Composite
  imports Handler_Base
begin

text \<open>
  The composite commands: conditions (\<^verbatim>\<open>condition.go\<close>), \<^verbatim>\<open>retry\<close> (\<^verbatim>\<open>retry_handler.go\<close>), \<^verbatim>\<open>repeat\<close>
  (\<^verbatim>\<open>repeat_handler.go\<close>) and \<^verbatim>\<open>runFlow\<close> (\<^verbatim>\<open>run_flow_handler.go\<close>), each with its compiler, evaluator and
  executor as the dispatcher takes them. The loops of \<^verbatim>\<open>retry\<close> and \<^verbatim>\<open>repeat\<close> count down the runs
  that remain, so the programs are total.
\<close>

section \<open>Conditions\<close>

fun conditionScriptTruthy :: "js_value \<Rightarrow> bool" where
  "conditionScriptTruthy JsNil = False"
| "conditionScriptTruthy (JsBool b) = b"
| "conditionScriptTruthy (JsString s) = (s \<noteq> '''')"
| "conditionScriptTruthy (JsInt i) = (i \<noteq> 0)"
| "conditionScriptTruthy JsNilBigInt = False"
| "conditionScriptTruthy (JsFloat f) = (f \<noteq> 0)"
| "conditionScriptTruthy JsNaN = False"
| "conditionScriptTruthy JsOther = True"

definition exactInterpolatedConditionExpression :: "string \<Rightarrow> string option" where
  "exactInterpolatedConditionExpression script =
     (let trimmed = TrimSpace script in
      if \<not> HasPrefix trimmed ''${'' then None
      else case string_Index (drop 2 trimmed) ''}'' of
             None \<Rightarrow> None
           | Some closing \<Rightarrow>
               if closing + 2 \<noteq> length trimmed - 1 then None
               else Some (take (length trimmed - 1 - 2) (drop 2 trimmed)))"

definition evaluateConditionSelector :: "'w handler_services \<Rightarrow> element_selector \<Rightarrow> string
    \<Rightarrow> ('w, element_selector \<times> go_error option) prog" where
  "evaluateConditionSelector S s f =
     prog_bind (interpolateSelector S s) (\<lambda>(s, e).
       Done (s,
         if e \<noteq> None then e
         else case validateImplementedSelectorTargets ''condition'' s f of
                Some e \<Rightarrow> Some e
              | None \<Rightarrow>
                  (case rejectUnsupportedSelectorFeatures ''condition'' False s True of
                     Some e \<Rightarrow> Some e
                   | None \<Rightarrow>
                       (case selector_error S s of
                          None \<Rightarrow> None
                        | Some cause \<Rightarrow> Some (NewConfigurationError
                            (''condition '' @ f @ '' selector is invalid after interpolation'') (Some cause))))))"

text \<open>One predicate of a condition: the condition as evaluated so far, and an error or its verdict.\<close>

type_synonym 'w predicate = "condition \<Rightarrow> ('w, condition \<times> (go_error + bool)) prog"

definition platform_holds :: "'w handler_services \<Rightarrow> 'w predicate" where
  "platform_holds S c =
     (case cond_platform c of
        None \<Rightarrow> Done (c, Inr True)
      | Some wanted \<Rightarrow> prog_bind (request LookupRequest) (\<lambda>e.
          case e of
            Some err \<Rightarrow> Done (c, Inl err)
          | None \<Rightarrow> world_call (hs_devicePlatform S) (\<lambda>r.
              Done (c, case r of Inl err \<Rightarrow> Inl err | Inr platform \<Rightarrow> Inr (platform = wanted)))))"

definition script_dir :: "string \<Rightarrow> string" where
  "script_dir path = (if path \<noteq> '''' then path_Dir path else '''')"

definition script_holds :: "'w handler_services \<Rightarrow> 'w predicate" where
  "script_holds S c =
     (case cond_script c of
        None \<Rightarrow> Done (c, Inr True)
      | Some raw_script \<Rightarrow>
          (let path = src_path (cond_source c);
               run = (\<lambda>c script. js_call (hs_evaluate S script path (script_dir path))) in
           case exactInterpolatedConditionExpression raw_script of
             Some script \<Rightarrow> prog_bind (run c script) (\<lambda>r. Done
               (case r of
                  Inl e \<Rightarrow> (c, Inl e)
                | Inr (v, text_value) \<Rightarrow> (c\<lparr>cond_script := Some text_value\<rparr>, Inr (conditionScriptTruthy v))))
           | None \<Rightarrow> prog_bind (Interpolate S raw_script) (\<lambda>r.
               case r of
                 Inl e \<Rightarrow> Done (c, Inl e)
               | Inr script \<Rightarrow>
                   (let c = c\<lparr>cond_script := Some script\<rparr> in
                    prog_bind (run c script) (\<lambda>r. Done
                      (case r of
                         Inl e \<Rightarrow> (c, Inl e)
                       | Inr (v, _) \<Rightarrow> (c, Inr (conditionScriptTruthy v))))))))"

definition lookup_holds :: "(bool \<Rightarrow> element_selector \<Rightarrow> 'w \<Rightarrow> (go_error + bool) \<times> 'w)
    \<Rightarrow> condition \<Rightarrow> element_selector \<Rightarrow> ('w, go_error + bool) prog" where
  "lookup_holds look c s = prog_bind (request LookupRequest) (\<lambda>e.
     case e of
       Some err \<Rightarrow> Done (Inl err)
     | None \<Rightarrow> world_call (look (cond_optional c = Some True) s) Done)"

definition visible_holds :: "'w handler_services \<Rightarrow> 'w predicate" where
  "visible_holds S c =
     (case cond_visible c of
        None \<Rightarrow> Done (c, Inr True)
      | Some s \<Rightarrow> prog_bind (evaluateConditionSelector S s ''visible'') (\<lambda>(s, e).
          let c = c\<lparr>cond_visible := Some s\<rparr> in
          case e of
            Some err \<Rightarrow> Done (c, Inl err)
          | None \<Rightarrow> prog_bind (lookup_holds (hs_findVisible S) c s) (\<lambda>r. Done (c, r))))"

definition notVisible_holds :: "'w handler_services \<Rightarrow> 'w predicate" where
  "notVisible_holds S c =
     (case cond_notVisible c of
        None \<Rightarrow> Done (c, Inr True)
      | Some s \<Rightarrow> prog_bind (evaluateConditionSelector S s ''notVisible'') (\<lambda>(s, e).
          let c = c\<lparr>cond_notVisible := Some s\<rparr> in
          case e of
            Some err \<Rightarrow> Done (c, Inl err)
          | None \<Rightarrow> prog_bind (lookup_holds (hs_findAbsent S) c s) (\<lambda>r. Done (c, r))))"

fun predicates_hold :: "'w predicate list \<Rightarrow> condition \<Rightarrow> ('w, condition \<times> bool \<times> go_error option) prog" where
  "predicates_hold [] c = Done (c, True, None)"
| "predicates_hold (p # ps) c = prog_bind (p c) (\<lambda>(c, r).
     case r of
       Inl e \<Rightarrow> Done (c, False, Some e)
     | Inr holds \<Rightarrow> if \<not> holds then Done (c, False, None) else predicates_hold ps c)"

definition evaluateCondition :: "'w handler_services \<Rightarrow> condition option \<Rightarrow> ('w, condition option \<times> bool \<times> go_error option) prog" where
  "evaluateCondition S source = prog_bind (ctx_check S) (\<lambda>e.
     if e \<noteq> None then Done (None, False, e)
     else case cloneCondition source of
            None \<Rightarrow> Done (None, True, None)
          | Some c \<Rightarrow> prog_bind
              (predicates_hold [platform_holds S, script_holds S, visible_holds S, notVisible_holds S] c)
              (\<lambda>(c, holds, e). Done (Some c, holds, e)))"

section \<open>Payloads\<close>

datatype counter_kind = CounterMissing | CounterFixed | CounterDynamic | Other_Counter nat
datatype flow_source = LinkedSource | InlineSource | Other_Source nat

record retry_compiled =
  rtc_source :: flow_source
  rtc_linked :: bool
  rtc_counterKind :: counter_kind
  rtc_fixedMaxRetries :: int
  rtc_maxRetriesExpression :: string

record retry_evaluated =
  rte_source :: flow_source
  rte_linked :: bool
  rte_maxRetries :: int

record repeat_compiled =
  rpc_counterKind :: counter_kind
  rpc_fixedTimes :: int
  rpc_timesExpression :: string
  rpc_hasCondition :: bool

record repeat_evaluated =
  rpe_times :: int
  rpe_hasCondition :: bool

record run_flow_payload =
  rf_source :: flow_source
  rf_linked :: bool
  rf_inlinePath :: string
  rf_environment :: string_map

text \<open>The payload types of the registered handlers; a type assertion is a case distinction.\<close>

datatype payload =
    RetryCompiled retry_compiled
  | RetryDeferred retry_compiled
  | RetryEvaluated retry_evaluated
  | RepeatCompiled repeat_compiled
  | RepeatDeferred repeat_compiled
  | RepeatEvaluated repeat_evaluated
  | RunFlowCompiled run_flow_payload
  | RunFlowEvaluated run_flow_payload

type_synonym compiler_result = "((payload option \<times> string option) \<times> go_error option) go_return"

definition compile_failed :: "go_error \<Rightarrow> compiler_result" where
  "compile_failed e = Return ((None, None), Some e)"

definition failed :: "string \<Rightarrow> go_error option" where
  "failed message = Some (NewConfigurationError message None)"

definition no_evaluation :: "payload evaluated_dispatch" where
  "no_evaluation = zero_evaluated"

section \<open>Retry\<close>

definition RetryCommandMaxRetries :: int where
  "RetryCommandMaxRetries = 3"

fun retryChildMatches :: "dyn \<Rightarrow> command \<Rightarrow> bool" where
  "retryChildMatches r c =
     (case cmd_form c of
        CommandFormScalar \<Rightarrow> r = DynString (cmd_kind c) \<and> cmd_arguments c = DynNil
      | CommandFormObject \<Rightarrow>
          (case r of
             DynMap m \<Rightarrow> length (elems m) = 1 \<and> map_of (elems m) (cmd_kind c) = Some (cmd_arguments c)
           | _ \<Rightarrow> False))"

definition retryRawChildrenMatch :: "dyn list \<Rightarrow> command list \<Rightarrow> bool" where
  "retryRawChildrenMatch rs cs \<longleftrightarrow> length rs = length cs \<and> list_all2 retryChildMatches rs cs"

definition retry_counter :: "decoded_object \<Rightarrow> go_error + counter_kind \<times> int \<times> string" where
  "retry_counter obj =
     (case raw obj ''maxRetries'' of
        None \<Rightarrow> Inr (CounterMissing, 0, '''')
      | Some (DynInt v) \<Rightarrow>
          if v < 0 \<or> v > RetryCommandMaxRetries
          then Inl (fieldError obj ''maxRetries'' ''must be between zero and three'')
          else Inr (CounterFixed, v, '''')
      | Some (DynString s) \<Rightarrow> Inr (CounterDynamic, 0, s)
      | Some _ \<Rightarrow> Inl (fieldError obj ''maxRetries'' ''must be an int64 integer or string''))"

definition retry_file_error :: "decoded_object \<Rightarrow> command \<Rightarrow> go_error + file_link" where
  "retry_file_error obj c =
     (case optionalString obj ''file'' of
        Inl e \<Rightarrow> Inl e
      | Inr file0 \<Rightarrow>
          (let file = (case file0 of None \<Rightarrow> '''' | Some f \<Rightarrow> f) in
           if TrimSpace file = '''' then Inl (fieldError obj ''file'' ''must not be blank'')
           else if elems (cmd_children c) \<noteq> []
           then Inl (commandDecodeError (cmd_kind c) ''file form must not contain inline child commands'')
           else case elems (cmd_links c) of
                  [l] \<Rightarrow>
                    if link_kind l \<noteq> FileLinkFlow then Inl (commandDecodeError (cmd_kind c) ''file link must be a flow'')
                    else if TrimSpace (link_path l) = '''' \<or> link_path l \<noteq> file
                    then Inl (commandDecodeError (cmd_kind c) ''file argument does not match its prepared flow link'')
                    else Inr l
                | _ \<Rightarrow> Inl (commandDecodeError (cmd_kind c) ''file form requires exactly one prepared flow link'')))"

definition compileRetry :: "compile_context \<Rightarrow> command \<Rightarrow> compiler_result" where
  "compileRetry ctx c =
     (case decodeObject c of
        Inl e \<Rightarrow> compile_failed e
      | Inr obj \<Rightarrow>
          (case rejectUnknown obj [''maxRetries'', ''commands'', ''file''] of
             Some e \<Rightarrow> compile_failed e
           | None \<Rightarrow>
               if cmd_selector c \<noteq> None \<or> cmd_condition c \<noteq> None
               then compile_failed (commandDecodeError (cmd_kind c) ''contains unsupported typed metadata'')
               else if (raw obj ''file'' \<noteq> None) = (raw obj ''commands'' \<noteq> None)
               then compile_failed (commandDecodeError (cmd_kind c) ''requires exactly one of file or commands'')
               else case retry_counter obj of
                 Inl e \<Rightarrow> compile_failed e
               | Inr (kind, fixed, expression) \<Rightarrow>
                   (if raw obj ''file'' \<noteq> None
                    then case retry_file_error obj c of
                      Inl e \<Rightarrow> compile_failed e
                    | Inr link \<Rightarrow>
                        (case RequireFlow ctx link of
                           Inl e \<Rightarrow> compile_failed e
                         | Inr canonical \<Rightarrow> Return
                             ((Some (RetryCompiled \<lparr>rtc_source = LinkedSource, rtc_linked = True, rtc_counterKind = kind,
                                 rtc_fixedMaxRetries = fixed, rtc_maxRetriesExpression = expression\<rparr>), Some canonical), None))
                    else case raw obj ''commands'' of
                      Some (DynList xs) \<Rightarrow>
                        if \<not> retryRawChildrenMatch (elems xs) (elems (cmd_children c))
                        then compile_failed (fieldError obj ''commands'' ''does not match the typed child sequence'')
                        else if elems (cmd_links c) \<noteq> []
                        then compile_failed (commandDecodeError (cmd_kind c) ''inline form must not contain file links'')
                        else Return ((Some (RetryCompiled \<lparr>rtc_source = InlineSource, rtc_linked = False, rtc_counterKind = kind,
                                 rtc_fixedMaxRetries = fixed, rtc_maxRetriesExpression = expression\<rparr>), None), None)
                    | _ \<Rightarrow> compile_failed (fieldError obj ''commands'' ''must be an array''))))"

fun validRetrySource :: "flow_source \<Rightarrow> bool \<Rightarrow> bool" where
  "validRetrySource LinkedSource linked = linked"
| "validRetrySource InlineSource linked = (\<not> linked)"
| "validRetrySource (Other_Source _) linked = False"

definition retry_compiled_valid :: "retry_compiled \<Rightarrow> bool" where
  "retry_compiled_valid p \<longleftrightarrow> validRetrySource (rtc_source p) (rtc_linked p) \<and>
     (case rtc_counterKind p of
        CounterMissing \<Rightarrow> rtc_fixedMaxRetries p = 0 \<and> rtc_maxRetriesExpression p = ''''
      | CounterFixed \<Rightarrow> 0 \<le> rtc_fixedMaxRetries p \<and> rtc_fixedMaxRetries p \<le> RetryCommandMaxRetries
          \<and> rtc_maxRetriesExpression p = ''''
      | CounterDynamic \<Rightarrow> rtc_fixedMaxRetries p = 0
      | Other_Counter _ \<Rightarrow> False)"

definition retry_evaluated_valid :: "retry_evaluated \<Rightarrow> bool" where
  "retry_evaluated_valid p \<longleftrightarrow> validRetrySource (rte_source p) (rte_linked p)
     \<and> 0 \<le> rte_maxRetries p \<and> rte_maxRetries p \<le> RetryCommandMaxRetries"

text \<open>\<^verbatim>\<open>strconv.ParseUint\<close> fails here only by its range; \<open>range_error\<close> is the error it then returns.\<close>

definition all_digits :: "string \<Rightarrow> bool" where
  "all_digits s \<longleftrightarrow> s \<noteq> '''' \<and> list_all (\<lambda>c. digit_value c \<noteq> None) s"

definition parseRetryMaxRetries :: "go_error \<Rightarrow> string \<Rightarrow> go_error + int" where
  "parseRetryMaxRetries range_error v =
     (let message = ''command retry field maxRetries must be an unsigned base-10 Int32'' in
      if \<not> all_digits v then Inl (NewConfigurationError message None)
      else case ParseUint 31 v of
             None \<Rightarrow> Inl (NewConfigurationError message (Some range_error))
           | Some n \<Rightarrow>
               if int n > RetryCommandMaxRetries
               then Inl (NewConfigurationError ''command retry field maxRetries must not exceed three'' None)
               else Inr (int n))"

text \<open>An assignment to a key of a map value, kept in key order.\<close>

definition synchronize_argument :: "string \<Rightarrow> dyn \<Rightarrow> command \<Rightarrow> command" where
  "synchronize_argument key v c =
     (case cmd_arguments c of
        DynMap m \<Rightarrow> set_arguments (DynMap (Some (map_put key v (elems m)))) c
      | _ \<Rightarrow> c)"

definition evaluateRetry :: "'w handler_services \<Rightarrow> go_error \<Rightarrow> command \<Rightarrow> payload
    \<Rightarrow> ('w, payload evaluated_dispatch \<times> go_error option) prog" where
  "evaluateRetry S range_error c compiled =
     (let invalid = Done (no_evaluation, failed ''retry received an invalid compiled payload'') in
      case compiled of
        RetryCompiled p \<Rightarrow>
          if \<not> retry_compiled_valid p then invalid
          else
            (let evaluated = cloneCommand c;
                 done = (\<lambda>evaluated n. Done (\<lparr>ed_command = evaluated, ed_value = Some (RetryEvaluated
                    \<lparr>rte_source = rtc_source p, rte_linked = rtc_linked p, rte_maxRetries = n\<rparr>)\<rparr>, None))
             in case rtc_counterKind p of
                  CounterMissing \<Rightarrow> done evaluated 1
                | CounterFixed \<Rightarrow> done evaluated (rtc_fixedMaxRetries p)
                | CounterDynamic \<Rightarrow> prog_bind (Interpolate S (rtc_maxRetriesExpression p)) (\<lambda>r.
                    case r of
                      Inl e \<Rightarrow> Done (\<lparr>ed_command = evaluated, ed_value = None\<rparr>, Some e)
                    | Inr interpolated \<Rightarrow>
                        (case parseRetryMaxRetries range_error interpolated of
                           Inl e \<Rightarrow> Done (\<lparr>ed_command = evaluated, ed_value = None\<rparr>, Some e)
                         | Inr n \<Rightarrow> done (synchronize_argument ''maxRetries'' (DynString interpolated) evaluated) n))
                | Other_Counter _ \<Rightarrow> Done (no_evaluation, failed ''retry counter kind is invalid''))
      | _ \<Rightarrow> invalid)"

definition evaluateRetryForExecution :: "'w handler_services \<Rightarrow> go_error \<Rightarrow> command \<Rightarrow> payload
    \<Rightarrow> ('w, payload evaluated_dispatch \<times> go_error option) prog" where
  "evaluateRetryForExecution S range_error c compiled =
     (case compiled of
        RetryCompiled p \<Rightarrow>
          if \<not> retry_compiled_valid p
          then Done (no_evaluation, failed ''retry received an invalid compiled payload'')
          else if rtc_counterKind p \<noteq> CounterDynamic then evaluateRetry S range_error c compiled
          else Done (\<lparr>ed_command = cloneCommand c, ed_value = Some (RetryDeferred p)\<rparr>, None)
      | _ \<Rightarrow> Done (no_evaluation, failed ''retry received an invalid compiled payload''))"

record retry_attempt_result =
  ra_results :: "command_result list"
  ra_directSkipped :: bool
  ra_productError :: "go_error option"
  ra_classification :: "retry_error_classification option"
  ra_exactErrorSource :: "command_result option"

definition skippedRetryResultError :: "foreign \<Rightarrow> command_result list \<Rightarrow> go_error option" where
  "skippedRetryResultError F results =
     (case find (\<lambda>r. IsCommandSkipped F (ProductError r)) results of None \<Rightarrow> None | Some r \<Rightarrow> ProductError r)"

definition immediateRetryResults :: "command_result list \<Rightarrow> int \<Rightarrow> command_result list" where
  "immediateRetryResults results depth = filter (\<lambda>r. res_depth r = depth) results"

definition inlineRetryClassification :: "command_result list \<Rightarrow> retry_error_classification option" where
  "inlineRetryClassification results =
     (if results = [] then None
      else if res_productError (last results) = None then None else res_retry (last results))"

text \<open>What an attempt makes of the children's results, or of the linked flow's.\<close>

definition inline_attempt :: "foreign \<Rightarrow> int \<Rightarrow> command_result list \<Rightarrow> go_error option \<Rightarrow> retry_attempt_result" where
  "inline_attempt F depth results err =
     (let immediate = immediateRetryResults results (depth + 1);
          skippedErr = skippedRetryResultError F immediate;
          err = (if err = None then skippedErr else err);
          classification = (if skippedErr = None \<and> err \<noteq> None then inlineRetryClassification immediate else None)
      in \<lparr>ra_results = immediate, ra_directSkipped = (skippedErr \<noteq> None), ra_productError = err,
          ra_classification = classification,
          ra_exactErrorSource =
            (case classification of
               None \<Rightarrow> None
             | Some k \<Rightarrow> if publication k \<noteq> None \<and> immediate \<noteq> [] then Some (cloneCommandResult (last immediate))
                          else None)\<rparr>)"

definition linked_attempt :: "foreign \<Rightarrow> int \<Rightarrow> flow_result \<Rightarrow> go_error option \<Rightarrow> retry_attempt_result" where
  "linked_attempt F depth result err =
     (let immediate = immediateRetryResults (elems (cloneCommandResults (fr_commands result))) (depth + 1);
          skippedErr = skippedRetryResultError F immediate;
          err = (if err = None then skippedErr else err);
          classified = (skippedErr = None \<and> err \<noteq> None)
      in \<lparr>ra_results = immediate, ra_directSkipped = (skippedErr \<noteq> None), ra_productError = err,
          ra_classification = (if classified then fr_retry result else None),
          ra_exactErrorSource =
            (if classified then map_option cloneCommandResult (fr_exactErrorSource result) else None)\<rparr>)"

definition children_of_reply :: "host_reply \<Rightarrow> command_result list \<times> go_error option" where
  "children_of_reply r =
     (case r of ChildrenReply results e \<Rightarrow> (results, e) | _ \<Rightarrow> ([], failed ''child command execution is unavailable''))"

definition flow_of_reply :: "host_reply \<Rightarrow> flow_result \<times> go_error option" where
  "flow_of_reply r =
     (case r of FlowReply result e \<Rightarrow> (result, e) | _ \<Rightarrow> (zero_flow_result, failed ''nested flow execution is unavailable''))"

definition depth_of_reply :: "host_reply \<Rightarrow> int" where
  "depth_of_reply r = (case r of DepthReply d \<Rightarrow> d | _ \<Rightarrow> 0)"

definition executeRetryAttempt :: "'w handler_services \<Rightarrow> command \<Rightarrow> retry_evaluated \<Rightarrow> ('w, retry_attempt_result) prog" where
  "executeRetryAttempt S c p =
     (case rte_source p of
        InlineSource \<Rightarrow> Host (ExecuteChildrenRequest (elems (cmd_children c))) (\<lambda>r.
          Host DepthRequest (\<lambda>d.
            case children_of_reply r of (results, err) \<Rightarrow> Done (inline_attempt (hs_foreign S) (depth_of_reply d) results err)))
      | LinkedSource \<Rightarrow> Host (ExecuteLinkedFlowRequest None) (\<lambda>r.
          Host DepthRequest (\<lambda>d.
            case flow_of_reply r of (result, err) \<Rightarrow> Done (linked_attempt (hs_foreign S) (depth_of_reply d) result err)))
      | Other_Source _ \<Rightarrow> Done \<lparr>ra_results = [], ra_directSkipped = False,
          ra_productError = failed ''retry source is invalid'', ra_classification = None, ra_exactErrorSource = None\<rparr>)"

text \<open>The error an attempt is classified by and the exact error it may propagate.\<close>

definition attempt_classification :: "retry_attempt_result \<Rightarrow> go_error option \<times> command_result option option" where
  "attempt_classification a =
     (case ra_classification a of
        None \<Rightarrow> (ra_productError a, None)
      | Some k \<Rightarrow>
          if rec_classification k = None then (ra_productError a, None)
          else (unsealResultError (rec_classification k),
                if publication k \<noteq> None \<and> ra_exactErrorSource a \<noteq> None
                then Some (map_option cloneCommandResult (ra_exactErrorSource a)) else None))"

fun reset_all :: "'w handler_services \<Rightarrow> command_result list \<Rightarrow> ('w, go_error option) prog" where
  "reset_all S [] = Done None"
| "reset_all S (r # rs) = prog_bind (request (ResetCommandRequest r)) (\<lambda>resetErr.
     prog_bind (ctx_check S) (\<lambda>c.
       if c \<noteq> None then Done c else if resetErr \<noteq> None then Done resetErr else reset_all S rs))"

definition retrySuccessInsight :: string where
  "retrySuccessInsight = ''Command succeeded after retry''"

text \<open>What follows an attempt once its metadata is published; \<open>again\<close> is the next attempt, if one is left.\<close>

definition after_attempt :: "'w handler_services \<Rightarrow> command_effect \<Rightarrow> retry_attempt_result \<Rightarrow> go_error option
    \<Rightarrow> go_error option \<Rightarrow> command_result option option \<Rightarrow> go_error option
    \<Rightarrow> (command_effect \<Rightarrow> ('w, command_effect \<times> go_error option) prog) option
    \<Rightarrow> ('w, command_effect \<times> go_error option) prog" where
  "after_attempt S effect a err classification propagation metadataErr again =
     (if err = None
      then if metadataErr \<noteq> None then Done (effect\<lparr>eff_insight := ''''\<rparr>, metadataErr) else Done (effect, None)
      else if metadataErr \<noteq> None then Done (effect, err)
      else if ra_directSkipped a \<or> \<not> IsRetryable (hs_foreign S) classification then Done (effect, err)
      else case again of
             None \<Rightarrow>
               (case propagation of
                  Some source \<Rightarrow> Done (effect\<lparr>exactErrorPropagation := Some source\<rparr>, None)
                | None \<Rightarrow> Done (effect, err))
           | Some next_attempt \<Rightarrow> prog_bind (reset_all S (ra_results a)) (\<lambda>e.
               if e \<noteq> None then Done (effect, e) else next_attempt effect))"

definition retry_turn :: "'w handler_services \<Rightarrow> command \<Rightarrow> retry_evaluated \<Rightarrow> bool \<Rightarrow> command_effect
    \<Rightarrow> (command_effect \<Rightarrow> ('w, command_effect \<times> go_error option) prog) option
    \<Rightarrow> ('w, command_effect \<times> go_error option) prog" where
  "retry_turn S c p first effect0 again = prog_bind (ctx_check S) (\<lambda>cancelled.
     if cancelled \<noteq> None then Done (effect0, cancelled)
     else
       (let effect1 = effect0\<lparr>eff_numberOfRuns := eff_numberOfRuns effect0 + 1\<rparr> in
        prog_bind (executeRetryAttempt S c p) (\<lambda>a.
          prog_bind (ctx_check S) (\<lambda>cancelled.
            (let (classification, propagation) =
                   (if cancelled \<noteq> None then (cancelled, None) else attempt_classification a);
                 err = (if cancelled \<noteq> None then cancelled else ra_productError a);
                 effect2 = (if err = None \<and> \<not> first then effect1\<lparr>eff_insight := retrySuccessInsight\<rparr> else effect1)
             in prog_bind (request (UpdateMetadataRequest (NewCommandMetadata (eff_numberOfRuns effect2)
                    (eff_evaluatedCommand effect2) None (eff_insight effect2) ''''))) (\<lambda>metadataErr.
                  prog_bind (ctx_check S) (\<lambda>cancelled.
                    if cancelled \<noteq> None
                    then after_attempt S (effect2\<lparr>eff_insight := ''''\<rparr>) a cancelled cancelled None metadataErr again
                    else after_attempt S effect2 a err classification propagation metadataErr again)))))))"

primrec retry_loop :: "'w handler_services \<Rightarrow> command \<Rightarrow> retry_evaluated \<Rightarrow> nat \<Rightarrow> bool \<Rightarrow> command_effect
    \<Rightarrow> ('w, command_effect \<times> go_error option) prog" where
  "retry_loop S c p 0 = (\<lambda>first effect. retry_turn S c p first effect None)"
| "retry_loop S c p (Suc n) = (\<lambda>first effect. retry_turn S c p first effect (Some (retry_loop S c p n False)))"

text \<open>The start of the executors of \<^verbatim>\<open>retry\<close> and \<^verbatim>\<open>repeat\<close>: a deferred evaluation is caught up.\<close>

definition composite_effect :: "command \<Rightarrow> command_effect" where
  "composite_effect c = no_effect\<lparr>effectClass := EffectComposite, eff_numberOfRunsSet := True,
     eff_evaluatedCommand := Some (cloneCommand c)\<rparr>"

definition resolve_deferred :: "('w, payload evaluated_dispatch \<times> go_error option) prog \<Rightarrow> command_effect
    \<Rightarrow> (payload evaluated_dispatch \<Rightarrow> command_effect \<Rightarrow> ('w, command_effect \<times> go_error option) prog)
    \<Rightarrow> ('w, command_effect \<times> go_error option) prog" where
  "resolve_deferred evaluate effect k = prog_bind evaluate (\<lambda>(resolved, err).
     let effect = (if cmd_kind (ed_command resolved) \<noteq> ''''
                   then effect\<lparr>eff_evaluatedCommand := Some (cloneCommand (ed_command resolved))\<rparr> else effect)
     in if err \<noteq> None then Done (effect, err)
        else k resolved (effect\<lparr>eff_evaluatedCommand := Some (cloneCommand (ed_command resolved))\<rparr>))"

definition run_retry :: "'w handler_services \<Rightarrow> payload evaluated_dispatch \<Rightarrow> command_effect
    \<Rightarrow> ('w, command_effect \<times> go_error option) prog" where
  "run_retry S evaluated effect =
     (let invalid = Done (effect, failed ''retry received an invalid evaluated payload'') in
      case ed_value evaluated of
        Some (RetryEvaluated p) \<Rightarrow>
          if \<not> retry_evaluated_valid p then invalid
          else retry_loop S (ed_command evaluated) p (nat (rte_maxRetries p)) True effect
      | _ \<Rightarrow> invalid)"

definition executeRetry :: "'w handler_services \<Rightarrow> go_error \<Rightarrow> payload evaluated_dispatch
    \<Rightarrow> ('w, command_effect \<times> go_error option) prog" where
  "executeRetry S range_error evaluated =
     (let effect = composite_effect (ed_command evaluated) in
      case ed_value evaluated of
        Some (RetryDeferred p) \<Rightarrow>
          resolve_deferred (evaluateRetry S range_error (ed_command evaluated) (RetryCompiled p)) effect (run_retry S)
      | _ \<Rightarrow> run_retry S evaluated effect)"

section \<open>Repeat\<close>

definition MaxInt32 :: int where
  "MaxInt32 = 2 ^ 31 - 1"

text \<open>\<^verbatim>\<open>RepeatDelay\<close> in nanoseconds.\<close>

definition RepeatDelay :: int where
  "RepeatDelay = 100 * 1000000"

definition repeat_counter :: "decoded_object \<Rightarrow> bool \<Rightarrow> go_error + repeat_compiled" where
  "repeat_counter obj hasCondition =
     (let compiled = \<lparr>rpc_counterKind = CounterMissing, rpc_fixedTimes = 0, rpc_timesExpression = '''',
                      rpc_hasCondition = hasCondition\<rparr> in
      case raw obj ''times'' of
        None \<Rightarrow> Inr compiled
      | Some (DynInt v) \<Rightarrow>
          if v < 0 \<or> v > MaxInt32 then Inl (fieldError obj ''times'' ''must be a nonnegative Int32'')
          else Inr (compiled\<lparr>rpc_counterKind := CounterFixed, rpc_fixedTimes := v\<rparr>)
      | Some (DynString s) \<Rightarrow> Inr (compiled\<lparr>rpc_counterKind := CounterDynamic, rpc_timesExpression := s\<rparr>)
      | Some _ \<Rightarrow> Inl (fieldError obj ''times'' ''must be an int64 integer or string''))"

definition compileRepeat :: "compile_context \<Rightarrow> command \<Rightarrow> compiler_result" where
  "compileRepeat ctx c =
     (case decodeObject c of
        Inl e \<Rightarrow> compile_failed e
      | Inr obj \<Rightarrow>
          (case rejectUnknown obj [''times'', ''while'', ''commands''] of
             Some e \<Rightarrow> compile_failed e
           | None \<Rightarrow>
               if elems (cmd_links c) \<noteq> []
               then compile_failed (commandDecodeError (cmd_kind c) ''must not contain file links'')
               else case raw obj ''commands'' of
                 None \<Rightarrow> compile_failed (fieldError obj ''commands'' ''is required'')
               | Some (DynList xs) \<Rightarrow>
                   if length (elems xs) \<noteq> length (elems (cmd_children c))
                   then compile_failed (fieldError obj ''commands'' ''does not match the typed child sequence'')
                   else if (raw obj ''while'' \<noteq> None) \<noteq> (cmd_condition c \<noteq> None)
                   then compile_failed (NewConfigurationError ''command repeat condition does not match its typed snapshot'' None)
                   else if (case raw obj ''while'' of None \<Rightarrow> True | Some (DynMap _) \<Rightarrow> True | Some _ \<Rightarrow> False)
                   then (case repeat_counter obj (raw obj ''while'' \<noteq> None) of
                           Inl e \<Rightarrow> compile_failed e
                         | Inr p \<Rightarrow> Return ((Some (RepeatCompiled p), None), None))
                   else compile_failed (fieldError obj ''while'' ''must be an object'')
               | Some _ \<Rightarrow> compile_failed (fieldError obj ''commands'' ''must be an array'')))"

definition repeat_compiled_valid :: "repeat_compiled \<Rightarrow> bool" where
  "repeat_compiled_valid p =
     (case rpc_counterKind p of
        CounterMissing \<Rightarrow> rpc_fixedTimes p = 0 \<and> rpc_timesExpression p = ''''
      | CounterFixed \<Rightarrow> 0 \<le> rpc_fixedTimes p \<and> rpc_fixedTimes p \<le> MaxInt32 \<and> rpc_timesExpression p = ''''
      | CounterDynamic \<Rightarrow> rpc_fixedTimes p = 0
      | Other_Counter _ \<Rightarrow> False)"

definition parseRepeatTimes :: "go_error \<Rightarrow> string \<Rightarrow> go_error + int" where
  "parseRepeatTimes range_error v =
     (let message = ''command repeat field times must be an unsigned base-10 Int32'' in
      if \<not> all_digits v then Inl (NewConfigurationError message None)
      else case ParseUint 31 v of
             None \<Rightarrow> Inl (NewConfigurationError message (Some range_error))
           | Some n \<Rightarrow> Inr (int n))"

definition evaluateRepeat :: "'w handler_services \<Rightarrow> go_error \<Rightarrow> command \<Rightarrow> payload
    \<Rightarrow> ('w, payload evaluated_dispatch \<times> go_error option) prog" where
  "evaluateRepeat S range_error c compiled =
     (let invalid = Done (no_evaluation, failed ''repeat received an invalid compiled payload'') in
      case compiled of
        RepeatCompiled p \<Rightarrow>
          if \<not> repeat_compiled_valid p then invalid
          else
            (let evaluated = cloneCommand c;
                 done = (\<lambda>evaluated n. Done (\<lparr>ed_command = evaluated, ed_value = Some (RepeatEvaluated
                    \<lparr>rpe_times = n, rpe_hasCondition = rpc_hasCondition p\<rparr>)\<rparr>, None))
             in case rpc_counterKind p of
                  CounterMissing \<Rightarrow> done evaluated MaxInt32
                | CounterFixed \<Rightarrow> done evaluated (rpc_fixedTimes p)
                | CounterDynamic \<Rightarrow> prog_bind (Interpolate S (rpc_timesExpression p)) (\<lambda>r.
                    case r of
                      Inl e \<Rightarrow> Done (\<lparr>ed_command = evaluated, ed_value = None\<rparr>, Some e)
                    | Inr interpolated \<Rightarrow>
                        (case parseRepeatTimes range_error interpolated of
                           Inl e \<Rightarrow> Done (\<lparr>ed_command = evaluated, ed_value = None\<rparr>, Some e)
                         | Inr n \<Rightarrow> done (synchronize_argument ''times'' (DynString interpolated) evaluated) n))
                | Other_Counter _ \<Rightarrow> Done (no_evaluation, failed ''repeat counter kind is invalid''))
      | _ \<Rightarrow> invalid)"

definition evaluateRepeatForExecution :: "'w handler_services \<Rightarrow> go_error \<Rightarrow> command \<Rightarrow> payload
    \<Rightarrow> ('w, payload evaluated_dispatch \<times> go_error option) prog" where
  "evaluateRepeatForExecution S range_error c compiled =
     (case compiled of
        RepeatCompiled p \<Rightarrow>
          if \<not> repeat_compiled_valid p
          then Done (no_evaluation, failed ''repeat received an invalid compiled payload'')
          else if rpc_counterKind p \<noteq> CounterDynamic then evaluateRepeat S range_error c compiled
          else Done (\<lparr>ed_command = cloneCommand c, ed_value = Some (RepeatDeferred p)\<rparr>, None)
      | _ \<Rightarrow> Done (no_evaluation, failed ''repeat received an invalid compiled payload''))"

fun reset_children :: "command_result list \<Rightarrow> ('w, go_error option) prog" where
  "reset_children [] = Done None"
| "reset_children (r # rs) = prog_bind (request (ResetCommandRequest r)) (\<lambda>e.
     if e \<noteq> None then Done e else reset_children rs)"

text \<open>The condition is evaluated anew from its source before every run; the command records what it evaluated to.\<close>

definition repeat_guard :: "'w handler_services \<Rightarrow> condition option \<Rightarrow> command \<Rightarrow> command_effect
    \<Rightarrow> (command \<Rightarrow> command_effect \<Rightarrow> ('w, command_effect \<times> go_error option) prog)
    \<Rightarrow> ('w, command_effect \<times> go_error option) prog" where
  "repeat_guard S source c effect go_on = prog_bind (evaluateCondition S source) (\<lambda>(evaluated, shouldRun, err).
     let c = set_condition evaluated c;
         effect = effect\<lparr>eff_evaluatedCommand := Some (cloneCommand c)\<rparr>
     in if err \<noteq> None \<or> \<not> shouldRun then Done (effect, err) else go_on c effect)"

text \<open>One run; \<open>again\<close> goes on with the next run, if one is left.\<close>

definition repeat_turn :: "'w handler_services \<Rightarrow> condition option \<Rightarrow> command \<Rightarrow> command_effect
    \<Rightarrow> (command \<Rightarrow> command_effect \<Rightarrow> ('w, command_effect \<times> go_error option) prog) option
    \<Rightarrow> ('w, command_effect \<times> go_error option) prog" where
  "repeat_turn S source c effect0 again =
     (let effect = effect0\<lparr>eff_numberOfRuns := eff_numberOfRuns effect0 + 1\<rparr> in
      Host (ExecuteChildrenRequest (elems (cmd_children c))) (\<lambda>reply.
        case children_of_reply reply of (children_results, childErr) \<Rightarrow>
        prog_bind (request (UpdateMetadataRequest (NewCommandMetadata (eff_numberOfRuns effect)
            (eff_evaluatedCommand effect) None '''' ''''))) (\<lambda>metadataErr.
          if childErr \<noteq> None then Done (effect, childErr)
          else if metadataErr \<noteq> None then Done (effect, metadataErr)
          else case again of
                 None \<Rightarrow> Done (effect, None)
               | Some next_run \<Rightarrow> repeat_guard S source c effect (\<lambda>c effect.
                   prog_bind (world_call (hs_wait S RepeatDelay) Done) (\<lambda>e.
                     if e \<noteq> None then Done (effect, e)
                     else prog_bind (ctx_check S) (\<lambda>e.
                       if e \<noteq> None then Done (effect, e)
                       else prog_bind (reset_children children_results) (\<lambda>e.
                         if e \<noteq> None then Done (effect, e) else next_run c effect)))))))"

primrec repeat_loop :: "'w handler_services \<Rightarrow> condition option \<Rightarrow> nat \<Rightarrow> command \<Rightarrow> command_effect
    \<Rightarrow> ('w, command_effect \<times> go_error option) prog" where
  "repeat_loop S source 0 = (\<lambda>c effect. repeat_turn S source c effect None)"
| "repeat_loop S source (Suc n) = (\<lambda>c effect. repeat_turn S source c effect (Some (repeat_loop S source n)))"

definition run_repeat :: "'w handler_services \<Rightarrow> payload evaluated_dispatch \<Rightarrow> command_effect
    \<Rightarrow> ('w, command_effect \<times> go_error option) prog" where
  "run_repeat S evaluated effect =
     (let invalid = Done (effect, failed ''repeat received an invalid evaluated payload'');
          c = ed_command evaluated in
      case ed_value evaluated of
        Some (RepeatEvaluated p) \<Rightarrow>
          if rpe_times p < 0 \<or> rpe_times p > MaxInt32 \<or> rpe_hasCondition p \<noteq> (cmd_condition c \<noteq> None) then invalid
          else if rpe_times p = 0 then Done (effect, None)
          else (let source = cloneCondition (cmd_condition c)
                in repeat_guard S source c effect (repeat_loop S source (nat (rpe_times p) - 1)))
      | _ \<Rightarrow> invalid)"

definition executeRepeat :: "'w handler_services \<Rightarrow> go_error \<Rightarrow> payload evaluated_dispatch
    \<Rightarrow> ('w, command_effect \<times> go_error option) prog" where
  "executeRepeat S range_error evaluated =
     (let effect = composite_effect (ed_command evaluated) in
      case ed_value evaluated of
        Some (RepeatDeferred p) \<Rightarrow>
          resolve_deferred (evaluateRepeat S range_error (ed_command evaluated) (RepeatCompiled p)) effect (run_repeat S)
      | _ \<Rightarrow> run_repeat S evaluated effect)"

section \<open>runFlow\<close>

definition inlineRunFlowPath :: "string \<Rightarrow> source_info \<Rightarrow> string" where
  "inlineRunFlowPath containingPath source =
     (let base = TrimSpace containingPath;
          base = (if base = '''' then TrimSpace (src_path source) else base);
          base = (if base = '''' then ''<inline-flow>'' else base);
          start = src_start source
      in base @ inlineFlowPathMarker @ dec_int (pos_line start) @ '':'' @ dec_int (pos_column start)
         @ '':'' @ dec_int (pos_offset start))"

definition validateRunFlowTypedMetadata :: "decoded_object \<Rightarrow> command \<Rightarrow> go_error option" where
  "validateRunFlowTypedMetadata obj c =
     (case optionalString obj ''label'' of
        Inl e \<Rightarrow> Some e
      | Inr label \<Rightarrow>
          if label \<noteq> cmd_label c then failed ''command runFlow label does not match its typed snapshot''
          else case optionalBool obj ''optional'' of
            Inl e \<Rightarrow> Some e
          | Inr optional \<Rightarrow>
              if optional \<noteq> cmd_optional c then failed ''command runFlow optional flag does not match its typed snapshot''
              else if (raw obj ''when'' \<noteq> None) \<noteq> (cmd_condition c \<noteq> None)
              then failed ''command runFlow condition does not match its typed snapshot''
              else case raw obj ''when'' of
                None \<Rightarrow> None | Some (DynMap _) \<Rightarrow> None | Some _ \<Rightarrow> Some (fieldError obj ''when'' ''must be an object''))"

definition compileLinkedRunFlow :: "compile_context \<Rightarrow> command \<Rightarrow> string \<Rightarrow> string_map \<Rightarrow> compiler_result" where
  "compileLinkedRunFlow ctx c file environment =
     (case elems (cmd_links c) of
        [l] \<Rightarrow>
          if link_kind l \<noteq> FileLinkFlow then compile_failed (commandDecodeError (cmd_kind c) ''file link must be a flow'')
          else if link_path l \<noteq> file
          then compile_failed (commandDecodeError (cmd_kind c) ''file argument does not match its prepared flow link'')
          else (case RequireFlow ctx l of
                  Inl e \<Rightarrow> compile_failed e
                | Inr canonical \<Rightarrow> Return
                    ((Some (RunFlowCompiled \<lparr>rf_source = LinkedSource, rf_linked = True, rf_inlinePath = '''',
                        rf_environment = environment\<rparr>), Some canonical), None))
      | _ \<Rightarrow> compile_failed (commandDecodeError (cmd_kind c) ''file form requires exactly one prepared flow link''))"

definition compileRunFlowObject :: "compile_context \<Rightarrow> command \<Rightarrow> decoded_object \<Rightarrow> compiler_result" where
  "compileRunFlowObject ctx c obj =
     (case rejectUnknown obj [''file'', ''env'', ''when'', ''commands'', ''label'', ''optional''] of
        Some e \<Rightarrow> compile_failed e
      | None \<Rightarrow>
          if (raw obj ''file'' \<noteq> None) = (raw obj ''commands'' \<noteq> None)
          then compile_failed (commandDecodeError (cmd_kind c) ''requires exactly one of file or commands'')
          else case optionalStringMap obj ''env'' of
            Inl e \<Rightarrow> compile_failed e
          | Inr env \<Rightarrow>
              (let environment = (case env of None \<Rightarrow> None | Some m \<Rightarrow> m) in
               case validateRunFlowTypedMetadata obj c of
                 Some e \<Rightarrow> compile_failed e
               | None \<Rightarrow>
                   if raw obj ''file'' \<noteq> None
                   then (case optionalString obj ''file'' of
                           Inl e \<Rightarrow> compile_failed e
                         | Inr file0 \<Rightarrow>
                             (let file = (case file0 of None \<Rightarrow> '''' | Some f \<Rightarrow> f) in
                              if TrimSpace file = '''' then compile_failed (fieldError obj ''file'' ''must not be blank'')
                              else if elems (cmd_children c) \<noteq> []
                              then compile_failed (commandDecodeError (cmd_kind c) ''file form must not contain inline child commands'')
                              else compileLinkedRunFlow ctx c file environment))
                   else case raw obj ''commands'' of
                     Some (DynList xs) \<Rightarrow>
                       if length (elems xs) \<noteq> length (elems (cmd_children c))
                       then compile_failed (fieldError obj ''commands'' ''does not match the typed child sequence'')
                       else if elems (cmd_links c) \<noteq> []
                       then compile_failed (commandDecodeError (cmd_kind c) ''inline form must not contain file links'')
                       else Return ((Some (RunFlowCompiled \<lparr>rf_source = InlineSource, rf_linked = False,
                               rf_inlinePath = inlineRunFlowPath (containingFlow ctx) (cmd_source c),
                               rf_environment = environment\<rparr>), None), None)
                   | _ \<Rightarrow> compile_failed (fieldError obj ''commands'' ''must be an array'')))"

definition compileRunFlow :: "compile_context \<Rightarrow> command \<Rightarrow> compiler_result" where
  "compileRunFlow ctx c =
     (case decodeStringOrObject c of
        Inl e \<Rightarrow> compile_failed e
      | Inr (DecodedString file) \<Rightarrow>
          if TrimSpace file = '''' then compile_failed (commandDecodeError (cmd_kind c) ''file path must not be blank'')
          else if cmd_condition c \<noteq> None \<or> cmd_label c \<noteq> None \<or> cmd_optional c \<noteq> None
          then compile_failed (commandDecodeError (cmd_kind c) ''scalar file form has forged typed metadata'')
          else if elems (cmd_children c) \<noteq> []
          then compile_failed (commandDecodeError (cmd_kind c) ''file form must not contain inline child commands'')
          else compileLinkedRunFlow ctx c file None
      | Inr (DecodedObject obj) \<Rightarrow> compileRunFlowObject ctx c obj)"

definition run_flow_valid :: "run_flow_payload \<Rightarrow> bool" where
  "run_flow_valid p =
     (case rf_source p of
        LinkedSource \<Rightarrow> rf_linked p \<and> rf_inlinePath p = ''''
      | InlineSource \<Rightarrow> \<not> rf_linked p \<and> TrimSpace (rf_inlinePath p) \<noteq> ''''
      | Other_Source _ \<Rightarrow> False)"

definition evaluateRunFlow :: "command \<Rightarrow> payload \<Rightarrow> ('w, payload evaluated_dispatch \<times> go_error option) prog" where
  "evaluateRunFlow c compiled =
     (let invalid = Done (no_evaluation, failed ''runFlow received an invalid compiled payload'') in
      case compiled of
        RunFlowCompiled p \<Rightarrow>
          if \<not> run_flow_valid p then invalid
          else Done (\<lparr>ed_command = cloneCommand c, ed_value = Some (RunFlowEvaluated p)\<rparr>, None)
      | _ \<Rightarrow> invalid)"

fun interpolate_entries :: "'w handler_services \<Rightarrow> (string \<times> string) list \<Rightarrow> ('w, go_error + (string \<times> string) list) prog" where
  "interpolate_entries S [] = Done (Inr [])"
| "interpolate_entries S ((k, v) # kvs) = prog_bind (World (\<lambda>w. case hs_interpolate S v w of (_, logs, w') \<Rightarrow> (logs, w'))
     (\<lambda>w. Done (fst (hs_interpolate S v w)))) (\<lambda>r.
       case r of
         Inl e \<Rightarrow> Done (Inl e)
       | Inr v' \<Rightarrow> prog_bind (interpolate_entries S kvs) (\<lambda>r.
           Done (case r of Inl e \<Rightarrow> Inl e | Inr kvs' \<Rightarrow> Inr ((k, v') # kvs'))))"

definition evaluateEnvironmentOverlay :: "'w handler_services \<Rightarrow> string_map \<Rightarrow> ('w, go_error + string_map) prog" where
  "evaluateEnvironmentOverlay S source =
     (if elems source = [] then Done (Inr source)
      else prog_bind (request RuntimeRequest) (\<lambda>err.
        case err of
          Some e \<Rightarrow> Done (Inl e)
        | None \<Rightarrow> prog_bind (interpolate_entries S (elems source)) (\<lambda>r.
            Done (case r of Inl e \<Rightarrow> Inl e | Inr kvs \<Rightarrow> Inr (Some kvs)))))"

definition synchronizeRunFlowEnvironment :: "string_map \<Rightarrow> command \<Rightarrow> command" where
  "synchronizeRunFlowEnvironment environment c =
     (case environment of
        None \<Rightarrow> c
      | Some kvs \<Rightarrow> synchronize_argument ''env'' (DynMap (Some (map (\<lambda>(k, v). (k, DynString v)) kvs))) c)"

definition runFlowInlineChildren :: "command list \<Rightarrow> command list \<Rightarrow> go_error option" where
  "runFlowInlineChildren commands compiled =
     (if length commands \<noteq> length compiled \<or> \<not> list_all2 Equivalent commands compiled
      then failed ''runFlow inline commands do not match the precompiled sequence'' else None)"

definition inline_config :: "config \<Rightarrow> config" where
  "inline_config g = (case g of Config name appId url tags _ _ _ props ext src fsrc \<Rightarrow>
     Config name appId url tags None None None props ext src fsrc)"

definition run_flow_source :: "run_flow_payload \<Rightarrow> command \<Rightarrow> string_map \<Rightarrow> ('w, go_error option) prog" where
  "run_flow_source p c overlay =
     (case rf_source p of
        LinkedSource \<Rightarrow> Host (ExecuteLinkedFlowRequest overlay) (\<lambda>r. Done (snd (flow_of_reply r)))
      | InlineSource \<Rightarrow> Host ConfigRequest (\<lambda>r.
          case r of
            ConfigReply config \<Rightarrow> Host CompiledChildrenRequest (\<lambda>k.
              case runFlowInlineChildren (elems (cmd_children c)) (case k of CommandsReply cs \<Rightarrow> cs | _ \<Rightarrow> []) of
                Some e \<Rightarrow> Done (Some e)
              | None \<Rightarrow> Host (ExecuteInlineFlowRequest (rf_inlinePath p) (inline_config config) overlay)
                  (\<lambda>r. Done (snd (flow_of_reply r))))
          | Refused e \<Rightarrow> Done (Some e)
          | _ \<Rightarrow> Done (failed ''active flow configuration is unavailable''))
      | Other_Source _ \<Rightarrow> Done (failed ''runFlow source is invalid''))"

definition evaluated_effect :: "effect_class \<Rightarrow> command \<Rightarrow> command_effect" where
  "evaluated_effect k c = no_effect\<lparr>effectClass := k, eff_evaluatedCommand := Some (cloneCommand c)\<rparr>"

definition executeRunFlow :: "'w handler_services \<Rightarrow> payload evaluated_dispatch \<Rightarrow> ('w, command_effect \<times> go_error option) prog" where
  "executeRunFlow S evaluated =
     (let invalid = Done (no_effect, failed ''runFlow received an invalid evaluated payload'');
          c = ed_command evaluated in
      case ed_value evaluated of
        Some (RunFlowEvaluated p) \<Rightarrow>
          if \<not> run_flow_valid p then invalid
          else prog_bind (evaluateCondition S (cmd_condition c)) (\<lambda>(condition, holds, err).
            let c = set_condition condition c in
            if err \<noteq> None then Done (evaluated_effect EffectNone c, err)
            else if \<not> holds
            then Done (evaluated_effect EffectComposite c, Some (NewCommandSkippedError ''runFlow condition was false'' None))
            else prog_bind (evaluateEnvironmentOverlay S (rf_environment p)) (\<lambda>r.
              case r of
                Inl e \<Rightarrow> Done (evaluated_effect EffectNone c, Some e)
              | Inr overlay \<Rightarrow>
                  (let c = synchronizeRunFlowEnvironment overlay c
                   in prog_bind (run_flow_source p c overlay) (\<lambda>err. Done (evaluated_effect EffectComposite c, err)))))
      | _ \<Rightarrow> invalid)"

section \<open>Specifications\<close>

definition composite_spec :: "string \<Rightarrow> exact_error_policy \<Rightarrow> (compile_context \<Rightarrow> command \<Rightarrow> compiler_result)
    \<Rightarrow> (command \<Rightarrow> payload \<Rightarrow> ('w, payload evaluated_dispatch \<times> go_error option) prog)
    \<Rightarrow> (payload evaluated_dispatch \<Rightarrow> ('w, command_effect \<times> go_error option) prog) \<Rightarrow> ('w, payload) handler_spec" where
  "composite_spec keyword policy compile evaluate execute =
     \<lparr>spec_keyword = keyword, spec_effectClass = EffectComposite, spec_postAction = postActionUnspecified,
      spec_settleRequest = None, spec_exactErrorPolicy = policy, spec_requiredService = requiredServiceNone,
      spec_compile = Some compile, spec_evaluate = Some evaluate, spec_execute = Some execute\<rparr>"

definition retryHandlerSpec :: "'w handler_services \<Rightarrow> go_error \<Rightarrow> ('w, payload) handler_spec" where
  "retryHandlerSpec S range_error = composite_spec CommandRetry exactErrorPublicationRetryPropagation
     compileRetry (evaluateRetryForExecution S range_error) (executeRetry S range_error)"

definition repeatHandlerSpec :: "'w handler_services \<Rightarrow> go_error \<Rightarrow> ('w, payload) handler_spec" where
  "repeatHandlerSpec S range_error = composite_spec ''repeat'' exactErrorPublicationUnspecified
     compileRepeat (evaluateRepeatForExecution S range_error) (executeRepeat S range_error)"

definition runFlowHandlerSpec :: "'w handler_services \<Rightarrow> ('w, payload) handler_spec" where
  "runFlowHandlerSpec S = composite_spec ''runFlow'' exactErrorPublicationUnspecified
     compileRunFlow evaluateRunFlow (executeRunFlow S)"

end
