(* ===== verification/Composite_Facts.thy ===== *)
theory Composite_Facts
  imports Composite
begin

text \<open>
  How often the composite commands run their children, what they do between the runs, and when they
  stop. A handler program is observed by \<open>possible p tr a\<close>: it can return \<open>a\<close> having exchanged the
  requests and replies \<open>tr\<close> with the executor, whatever the world shows it and whatever the
  executor answers. Every actual run is possible (\<open>run_prog_possible\<close>).
\<close>

section \<open>Observations\<close>

type_synonym exchange = "host_request \<times> host_reply"

inductive possible :: "('w, 'a) prog \<Rightarrow> exchange list \<Rightarrow> 'a \<Rightarrow> bool" where
  possible_Done: "possible (Done a) [] a"
| possible_World: "possible (k w) tr a \<Longrightarrow> possible (World step k) tr a"
| possible_Host: "possible (k r) tr a \<Longrightarrow> possible (Host q k) ((q, r) # tr) a"

inductive_simps possible_Done_iff [simp]: "possible (Done a) tr b"
inductive_simps possible_Panicking_iff [simp]: "possible (Panicking m) tr b"
inductive_simps possible_World_iff: "possible (World step k) tr a"
inductive_simps possible_Host_iff: "possible (Host q k) tr a"

lemma possible_bind:
  "possible (prog_bind p f) tr b \<longleftrightarrow> (\<exists>tr1 tr2 a. possible p tr1 a \<and> possible (f a) tr2 b \<and> tr = tr1 @ tr2)"
proof (induction p arbitrary: tr)
  case (World step k)
  note ih = World.IH [OF rangeI]
  show ?case by (auto simp: possible_World_iff ih)
next
  case (Host q k)
  note ih = Host.IH [OF rangeI]
  show ?case
  proof
    assume "possible (prog_bind (Host q k) f) tr b"
    then obtain r t where "tr = (q, r) # t" "possible (prog_bind (k r) f) t b" by (auto simp: possible_Host_iff)
    then obtain tr1 tr2 a where t: "t = tr1 @ tr2" "possible (k r) tr1 a" "possible (f a) tr2 b" by (auto simp: ih)
    then have "possible (Host q k) ((q, r) # tr1) a" by (simp add: possible_Host)
    then show "\<exists>tr1 tr2 a. possible (Host q k) tr1 a \<and> possible (f a) tr2 b \<and> tr = tr1 @ tr2"
      using t \<open>tr = (q, r) # t\<close> by (metis append_Cons)
  next
    assume "\<exists>tr1 tr2 a. possible (Host q k) tr1 a \<and> possible (f a) tr2 b \<and> tr = tr1 @ tr2"
    then obtain tr1 tr2 a r t where "possible (k r) t a" "possible (f a) tr2 b" "tr = (q, r) # t @ tr2"
      by (auto simp: possible_Host_iff)
    then show "possible (prog_bind (Host q k) f) tr b" by (auto simp: possible_Host_iff ih)
  qed
qed simp_all

lemma possible_bindI:
  "possible p tr1 a \<Longrightarrow> possible (f a) tr2 b \<Longrightarrow> possible (prog_bind p f) (tr1 @ tr2) b"
  unfolding possible_bind by blast

lemma possible_bind_silent: "possible p [] a \<Longrightarrow> possible (f a) tr b \<Longrightarrow> possible (prog_bind p f) tr b"
  using possible_bindI by fastforce

lemma possible_bind_last: "possible p tr a \<Longrightarrow> f a = Done b \<Longrightarrow> possible (prog_bind p f) tr b"
  using possible_bindI [of p tr a f "[]" b] by simp

lemma possible_bindE:
  assumes "possible (prog_bind p f) tr b"
  obtains tr1 tr2 a where "possible p tr1 a" "possible (f a) tr2 b" "tr = tr1 @ tr2"
  using assms unfolding possible_bind by blast

lemma possible_world_call: "possible (world_call f k) tr a \<longleftrightarrow> (\<exists>w. possible (k (fst (f w))) tr a)"
  by (auto simp: world_call_def possible_World_iff)

lemma possible_ctx_check: "possible (ctx_check S) tr e \<longleftrightarrow> tr = [] \<and> (\<exists>w. e = fst (hs_ctxErr S w))"
  by (auto simp: ctx_check_def possible_world_call)

lemma possible_request:
  "possible (request q) tr e \<longleftrightarrow> (\<exists>r. tr = [(q, r)] \<and> e = (case r of Refused e \<Rightarrow> Some e | _ \<Rightarrow> None))"
  by (auto simp: request_def possible_Host_iff)

definition traced :: "(host_request \<Rightarrow> 's \<Rightarrow> host_reply \<times> 's) \<Rightarrow> host_request
    \<Rightarrow> 's \<times> exchange list \<Rightarrow> host_reply \<times> 's \<times> exchange list" where
  "traced host q = (\<lambda>(s, tr). case host q s of (r, s') \<Rightarrow> (r, s', tr @ [(q, r)]))"

lemma run_prog_possible:
  "run_prog (traced host) (\<lambda>p. get (fst p)) (\<lambda>w (s, tr). (put w s, tr)) p (s, tr0) = (Return a, logs, s', tr)
     \<Longrightarrow> \<exists>tr1. tr = tr0 @ tr1 \<and> possible p tr1 a"
proof (induction p arbitrary: s tr0 logs)
  case (World step k)
  obtain logs0 w where st: "step (get s) = (logs0, w)" by fastforce
  obtain r logs1 s1 tr1 where rest:
    "run_prog (traced host) (\<lambda>p. get (fst p)) (\<lambda>w (s, tr). (put w s, tr)) (k (get s)) (put w s, tr0) = (r, logs1, s1, tr1)"
    by (metis prod_cases4)
  then have "r = Return a" "(s1, tr1) = (s', tr)" using World.prems st by simp_all
  then have "\<exists>tr1. tr = tr0 @ tr1 \<and> possible (k (get s)) tr1 a"
    using rest by (intro World.IH [OF rangeI]) simp
  then show ?case by (auto simp: possible_World_iff)
next
  case (Host q k)
  obtain r s1 where h: "host q s = (r, s1)" by fastforce
  have "\<exists>tr1. tr = (tr0 @ [(q, r)]) @ tr1 \<and> possible (k r) tr1 a"
    using Host.prems h by (intro Host.IH [OF rangeI]) (simp add: traced_def)
  then show ?case by (auto simp: possible_Host_iff)
qed simp_all

section \<open>Retry\<close>

fun attempts_of :: "foreign \<Rightarrow> exchange list \<Rightarrow> retry_attempt_result list" where
  "attempts_of F ((ExecuteChildrenRequest cs, r) # (DepthRequest, d) # tr) =
     (case children_of_reply r of (results, err) \<Rightarrow> inline_attempt F (depth_of_reply d) results err) # attempts_of F tr"
| "attempts_of F ((ExecuteLinkedFlowRequest overlay, r) # (DepthRequest, d) # tr) =
     (case flow_of_reply r of (result, err) \<Rightarrow> linked_attempt F (depth_of_reply d) result err) # attempts_of F tr"
| "attempts_of F (x # tr) = attempts_of F tr"
| "attempts_of F [] = []"

definition resets_of :: "exchange list \<Rightarrow> command_result list" where
  "resets_of tr = List.map_filter (\<lambda>(q, r). case q of ResetCommandRequest previous \<Rightarrow> Some previous | _ \<Rightarrow> None) tr"

lemma resets_simps [simp]:
  "resets_of [] = []"
  "resets_of ((ResetCommandRequest x, r) # tr) = x # resets_of tr"
  "(\<And>x. q \<noteq> ResetCommandRequest x) \<Longrightarrow> resets_of ((q, r) # tr) = resets_of tr"
  "resets_of (tr1 @ tr2) = resets_of tr1 @ resets_of tr2"
  by (auto simp: resets_of_def List.map_filter_def split: host_request.splits)

text \<open>The context contract: an ended context answers \<^verbatim>\<open>Canceled\<close> or \<^verbatim>\<open>DeadlineExceeded\<close>.\<close>

definition context_contract :: "'w handler_services \<Rightarrow> bool" where
  "context_contract S \<longleftrightarrow>
     (\<forall>w. fst (hs_ctxErr S w) \<in> {None, Some Context_Canceled, Some Context_DeadlineExceeded})"

definition retryable_failure :: "foreign \<Rightarrow> retry_attempt_result \<Rightarrow> bool" where
  "retryable_failure F a \<longleftrightarrow> ra_productError a \<noteq> None \<and> \<not> ra_directSkipped a
     \<and> IsRetryable F (fst (attempt_classification a))"

lemma context_not_retryable:
  "\<not> IsRetryable F (Some Context_Canceled)" "\<not> IsRetryable F (Some Context_DeadlineExceeded)"
  by (simp_all add: IsRetryable_def classifyTerminalError_def inspectTerminalError_def
      maxTerminalErrorTraversalDepth_def eval_nat_numeral inspect_node_def inspect_links_def
      classifyDirectTerminalError_def directlyMatches_def caster_of_def Let_def)

lemma ctx_error_final:
  "context_contract S \<Longrightarrow> fst (hs_ctxErr S w) = Some e \<Longrightarrow> \<not> IsRetryable F (Some e)"
proof -
  assume "context_contract S" and e: "fst (hs_ctxErr S w) = Some e"
  then have "fst (hs_ctxErr S w) \<in> {None, Some Context_Canceled, Some Context_DeadlineExceeded}"
    unfolding context_contract_def by blast
  then show ?thesis using e context_not_retryable [of F] by auto
qed

lemma reset_all_trace:
  assumes "possible (reset_all S rs) tr e"
  shows "\<exists>gone rest. rs = gone @ rest \<and> map fst tr = map ResetCommandRequest gone \<and> (e = None \<longrightarrow> rest = [])"
  using assms
proof (induction rs arbitrary: tr)
  case (Cons r rs)
  then obtain reply resetErr c tr1 where
    t: "tr = (ResetCommandRequest r, reply) # tr1"
      "possible (if c \<noteq> None then Done c else if resetErr \<noteq> None then Done resetErr else reset_all S rs) tr1 e"
    by (auto simp: possible_bind possible_ctx_check possible_request)
  show ?case
  proof (cases "c = None \<and> resetErr = None")
    case True
    with t Cons.IH [of tr1] obtain gone rest where "rs = gone @ rest" "map fst tr1 = map ResetCommandRequest gone" "e = None \<longrightarrow> rest = []"
      by auto
    then show ?thesis using t by (intro exI [of _ "r # gone"] exI [of _ rest]) simp
  next
    case False
    then have "tr1 = []" "e \<noteq> None" using t by (auto split: if_splits)
    have "r # rs = [r] @ rs \<and> map fst tr = map ResetCommandRequest [r] \<and> (e = None \<longrightarrow> rs = [])"
      using \<open>tr1 = []\<close> \<open>e \<noteq> None\<close> t(1) by auto
    then show ?thesis by blast
  qed
qed auto

lemma attempts_of_resets: "map fst tr = map ResetCommandRequest rs \<Longrightarrow> attempts_of F (tr @ tr') = attempts_of F tr'"
  by (induction tr arbitrary: rs) (auto simp: map_eq_Cons_conv)

lemma resets_of_resets: "map fst tr = map ResetCommandRequest rs \<Longrightarrow> resets_of tr = rs"
  by (induction tr arbitrary: rs) (auto simp: map_eq_Cons_conv)

text \<open>The shape of one attempt.\<close>

lemma attempt_trace:
  assumes "possible (executeRetryAttempt S c p) tr a" and "validRetrySource (rte_source p) (rte_linked p)"
  shows "attempts_of (hs_foreign S) (tr @ tr') = a # attempts_of (hs_foreign S) tr' \<and> resets_of tr = []"
  using assms
  by (cases "rte_source p")
    (auto simp: executeRetryAttempt_def possible_Host_iff case_prod_unfold)

text \<open>What a turn, and the loop, do to the effect: \<open>turned n\<close> holds of the effect after \<open>n\<close> more attempts.\<close>

definition turned :: "nat \<Rightarrow> command_effect \<Rightarrow> command_effect \<Rightarrow> bool" where
  "turned n effect0 effect \<longleftrightarrow> eff_numberOfRuns effect = eff_numberOfRuns effect0 + int n"

text \<open>How a turn ends the loop after its attempt \<open>a\<close>: \<open>remains\<close> says whether an attempt was left.\<close>

definition last_turn :: "foreign \<Rightarrow> bool \<Rightarrow> bool \<Rightarrow> command_effect \<Rightarrow> retry_attempt_result \<Rightarrow> command_result list
    \<Rightarrow> command_effect \<Rightarrow> go_error option \<Rightarrow> bool" where
  "last_turn F remains first effect0 a gone effect e \<longleftrightarrow>
     turned 1 effect0 effect
   \<and> prefix gone (ra_results a)
   \<and> (exactErrorPropagation effect = exactErrorPropagation effect0
        \<or> \<not> remains \<and> retryable_failure F a \<and> e = None \<and> exactErrorPropagation effect \<noteq> None)
   \<and> (e = None \<longrightarrow> ra_productError a = None \<or> exactErrorPropagation effect \<noteq> None)
   \<and> (eff_insight effect \<noteq> '''' \<longrightarrow> eff_insight effect0 \<noteq> '''' \<or> \<not> first \<and> ra_productError a = None)"

lemma after_attempt_trace:
  assumes "possible (after_attempt S effect1 a err classification propagation metadataErr again) tr (effect, e)"
    and "err = None \<longrightarrow> ra_productError a = None"
    and "err \<noteq> None \<and> \<not> ra_directSkipped a \<and> IsRetryable (hs_foreign S) classification
           \<longrightarrow> retryable_failure (hs_foreign S) a"
    and "turned 1 effect0 effect1" "exactErrorPropagation effect1 = exactErrorPropagation effect0"
    and "eff_insight effect1 \<noteq> '''' \<longrightarrow> eff_insight effect0 \<noteq> '''' \<or> \<not> first \<and> ra_productError a = None"
  shows "map fst tr = map ResetCommandRequest (resets_of tr)
           \<and> last_turn (hs_foreign S) (again \<noteq> None) first effect0 a (resets_of tr) effect e
       \<or> (\<exists>go tr1 tr2. again = Some go \<and> tr = tr1 @ tr2 \<and> map fst tr1 = map ResetCommandRequest (ra_results a)
           \<and> retryable_failure (hs_foreign S) a \<and> possible (go effect1) tr2 (effect, e))"
proof (cases "err = None \<or> metadataErr \<noteq> None \<or> ra_directSkipped a \<or> \<not> IsRetryable (hs_foreign S) classification
    \<or> again = None")
  case True
  then have "tr = []" "last_turn (hs_foreign S) (again \<noteq> None) first effect0 a [] effect e"
    using assms
    by (auto simp: after_attempt_def last_turn_def turned_def split: if_splits option.splits)
  then show ?thesis by simp
next
  case False
  then obtain go where go: "again = Some go" by auto
  have rf: "retryable_failure (hs_foreign S) a" using assms(3) False by auto
  obtain tr1 tr2 r where t: "tr = tr1 @ tr2" "possible (reset_all S (ra_results a)) tr1 r"
      "possible (if r \<noteq> None then Done (effect1, r) else go effect1) tr2 (effect, e)"
    using assms(1) False go by (auto simp: after_attempt_def possible_bind)
  obtain gone remaining where g: "ra_results a = gone @ remaining" "map fst tr1 = map ResetCommandRequest gone"
      "r = None \<longrightarrow> remaining = []"
    using reset_all_trace [OF t(2)] by blast
  show ?thesis
  proof (cases r)
    case None
    then show ?thesis using t g rf go by auto
  next
    case (Some x)
    then have "tr2 = []" "effect = effect1" "e = Some x" using t(3) by simp_all
    then show ?thesis
      using t(1) g assms(4-6) resets_of_resets [OF g(2)] by (auto simp: last_turn_def prefix_def)
  qed
qed

lemma retry_turn_trace:
  assumes "possible (retry_turn S c p first effect0 again) tr (effect, e)"
    and "context_contract S" "validRetrySource (rte_source p) (rte_linked p)"
  shows "attempts_of (hs_foreign S) tr = [] \<and> resets_of tr = [] \<and> effect = effect0 \<and> e \<noteq> None
       \<or> (\<exists>a. attempts_of (hs_foreign S) tr = [a]
            \<and> last_turn (hs_foreign S) (again \<noteq> None) first effect0 a (resets_of tr) effect e)
       \<or> (\<exists>go a tr1 tr2 effect1. again = Some go \<and> tr = tr1 @ tr2
            \<and> (\<forall>x. attempts_of (hs_foreign S) (tr1 @ x) = a # attempts_of (hs_foreign S) x)
            \<and> resets_of tr1 = ra_results a \<and> retryable_failure (hs_foreign S) a \<and> turned 1 effect0 effect1
            \<and> exactErrorPropagation effect1 = exactErrorPropagation effect0
            \<and> (eff_insight effect1 \<noteq> '''' \<longrightarrow> eff_insight effect0 \<noteq> '''')
            \<and> possible (go effect1) tr2 (effect, e))"
proof -
  let ?F = "hs_foreign S"
  obtain w where w: "possible (if fst (hs_ctxErr S w) \<noteq> None then Done (effect0, fst (hs_ctxErr S w))
      else (let effect1 = effect0\<lparr>eff_numberOfRuns := eff_numberOfRuns effect0 + 1\<rparr> in
        prog_bind (executeRetryAttempt S c p) (\<lambda>a.
          prog_bind (ctx_check S) (\<lambda>cancelled.
            (let (classification, propagation) =
                   (if cancelled \<noteq> None then (cancelled, None) else attempt_classification a);
                 err = (if cancelled \<noteq> None then cancelled else ra_productError a);
                 effect2 = (if err = None \<and> \<not> first then effect1\<lparr>eff_insight := retrySuccessInsight\<rparr> else effect1)
             in prog_bind (request (UpdateMetadataRequest (NewCommandMetadata (eff_numberOfRuns effect2)
                    (eff_evaluatedCommand effect2) None (eff_insight effect2) ''''))) (\<lambda>metadataErr.
                  prog_bind (ctx_check S) (\<lambda>cancelled.
                    if cancelled \<noteq> None
                    then after_attempt S (effect2\<lparr>eff_insight := ''''\<rparr>) a cancelled cancelled None metadataErr again
                    else after_attempt S effect2 a err classification propagation metadataErr again)))))))
      tr (effect, e)"
    using assms(1) unfolding retry_turn_def possible_bind possible_ctx_check by auto
  show ?thesis
  proof (cases "fst (hs_ctxErr S w)")
    case (Some x)
    then show ?thesis using w by simp
  next
    case None
    let ?e1 = "effect0\<lparr>eff_numberOfRuns := eff_numberOfRuns effect0 + 1\<rparr>"
    obtain a tr0 reply q tr' w1 w2 where t: "possible (executeRetryAttempt S c p) tr0 a"
        "tr = tr0 @ (UpdateMetadataRequest q, reply) # tr'"
      and after: "possible (let cancelled = fst (hs_ctxErr S w1);
              err = (if cancelled \<noteq> None then cancelled else ra_productError a);
              (classification, propagation) =
                   (if cancelled \<noteq> None then (cancelled, None) else attempt_classification a);
              effect2 = (if err = None \<and> \<not> first then ?e1\<lparr>eff_insight := retrySuccessInsight\<rparr> else ?e1);
              metadataErr = (case reply of Refused e \<Rightarrow> Some e | _ \<Rightarrow> None);
              cancelled = fst (hs_ctxErr S w2)
            in if cancelled \<noteq> None
               then after_attempt S (effect2\<lparr>eff_insight := ''''\<rparr>) a cancelled cancelled None metadataErr again
               else after_attempt S effect2 a err classification propagation metadataErr again) tr' (effect, e)"
      using w None
      by (fastforce simp: possible_bind possible_ctx_check possible_request Let_def case_prod_unfold)
    have attempt: "\<And>x. attempts_of ?F (tr0 @ x) = a # attempts_of ?F x" "resets_of tr0 = []"
      using attempt_trace [OF t(1) assms(3)] by blast+
    obtain effect2 err classification propagation metadataErr where
      p: "possible (after_attempt S effect2 a err classification propagation metadataErr again) tr' (effect, e)"
      and "err = None \<longrightarrow> ra_productError a = None"
        "err \<noteq> None \<and> \<not> ra_directSkipped a \<and> IsRetryable ?F classification \<longrightarrow> retryable_failure ?F a"
        "turned 1 effect0 effect2" "exactErrorPropagation effect2 = exactErrorPropagation effect0"
        "eff_insight effect2 \<noteq> '''' \<longrightarrow> eff_insight effect0 \<noteq> '''' \<or> \<not> first \<and> ra_productError a = None"
      using after ctx_error_final [OF assms(2), of w1 _ ?F] ctx_error_final [OF assms(2), of w2 _ ?F]
      by (cases "fst (hs_ctxErr S w2)"; cases "fst (hs_ctxErr S w1)")
        (fastforce simp: Let_def turned_def retryable_failure_def case_prod_unfold split: if_splits)+
    from after_attempt_trace [OF this] show ?thesis
    proof (elim disjE exE conjE, goal_cases)
      case 1
      then have "attempts_of ?F tr' = []" using attempts_of_resets [of tr' "resets_of tr'" ?F "[]"] by simp
      then show ?case using 1 t attempt by simp
    next
      case (2 go tr1 tr2)
      have "again = Some go \<and> tr = (tr0 @ (UpdateMetadataRequest q, reply) # tr1) @ tr2
          \<and> (\<forall>x. attempts_of ?F ((tr0 @ (UpdateMetadataRequest q, reply) # tr1) @ x) = a # attempts_of ?F x)
          \<and> resets_of (tr0 @ (UpdateMetadataRequest q, reply) # tr1) = ra_results a \<and> retryable_failure ?F a
          \<and> turned 1 effect0 effect2 \<and> exactErrorPropagation effect2 = exactErrorPropagation effect0
          \<and> (eff_insight effect2 \<noteq> '''' \<longrightarrow> eff_insight effect0 \<noteq> '''') \<and> possible (go effect2) tr2 (effect, e)"
        using 2 t(2) attempt attempts_of_resets [OF 2(3), of ?F] resets_of_resets [OF 2(3)]
          \<open>turned 1 effect0 effect2\<close> \<open>exactErrorPropagation effect2 = exactErrorPropagation effect0\<close>
          \<open>eff_insight effect2 \<noteq> '''' \<longrightarrow> eff_insight effect0 \<noteq> '''' \<or> \<not> first \<and> ra_productError a = None\<close>
        by (auto simp: retryable_failure_def)
      then show ?case by blast
    qed
  qed
qed

lemma retry_loop_trace:
  assumes "possible (retry_loop S c p n first effect0) tr (effect, e)"
    and "context_contract S" "validRetrySource (rte_source p) (rte_linked p)"
  shows "let tries = attempts_of (hs_foreign S) tr in
       turned (length tries) effect0 effect \<and> length tries \<le> n + 1
     \<and> list_all (retryable_failure (hs_foreign S)) (butlast tries)
     \<and> prefix (concat (map ra_results (butlast tries))) (resets_of tr)
     \<and> prefix (resets_of tr) (concat (map ra_results tries))
     \<and> (e = None \<longrightarrow> tries \<noteq> [] \<and> (ra_productError (last tries) = None \<or> exactErrorPropagation effect \<noteq> None))
     \<and> (exactErrorPropagation effect = exactErrorPropagation effect0
          \<or> length tries = n + 1 \<and> e = None \<and> list_all (retryable_failure (hs_foreign S)) tries
              \<and> exactErrorPropagation effect \<noteq> None)
     \<and> (eff_insight effect \<noteq> '''' \<longrightarrow> eff_insight effect0 \<noteq> '''' \<or> 
          (if first then 1 else 0) < length tries \<and> ra_productError (last tries) = None)"
  using assms
proof (induction n arbitrary: first effect0 tr)
  case 0
  then have "possible (retry_turn S c p first effect0 None) tr (effect, e)" by simp
  from retry_turn_trace [OF this 0(2,3)] show ?case
    by (auto simp: last_turn_def turned_def Let_def)
next
  case (Suc n)
  let ?F = "hs_foreign S"
  from Suc.prems(1) have "possible (retry_turn S c p first effect0 (Some (retry_loop S c p n False))) tr (effect, e)"
    by simp
  from retry_turn_trace [OF this Suc.prems(2,3)] show ?case
  proof (elim disjE exE conjE, goal_cases)
    case 1
    then show ?case by (simp add: turned_def)
  next
    case (2 a)
    then show ?case by (auto simp: last_turn_def Let_def)
  next
    case (3 go a tr1 tr2 effect1)
    let ?more = "attempts_of ?F tr2"
    have ih: "possible (retry_loop S c p n False effect1) tr2 (effect, e)" using 3 by simp
    have tries: "attempts_of ?F tr = a # ?more" "resets_of tr = ra_results a @ resets_of tr2"
      using 3 by simp_all
    show ?case
    proof (cases "?more = []")
      case True
      then show ?thesis
        using Suc.IH [OF ih Suc.prems(2,3)] 3 tries by (auto simp: Let_def turned_def prefix_def)
    next
      case False
      then show ?thesis
        using Suc.IH [OF ih Suc.prems(2,3)] 3 tries by (auto simp: Let_def turned_def)
    qed
  qed
qed

lemma requests_not_attempts:
  "(\<forall>q \<in> set (map fst tr). q = RuntimeRequest) \<Longrightarrow> attempts_of F (tr @ tr') = attempts_of F tr' \<and> resets_of (tr @ tr') = resets_of tr'"
  by (induction tr) auto

text \<open>Programs that send requests of one class only.\<close>

definition asks_only :: "(host_request \<Rightarrow> bool) \<Rightarrow> ('w, 'a) prog \<Rightarrow> bool" where
  "asks_only Q p \<longleftrightarrow> (\<forall>tr a. possible p tr a \<longrightarrow> (\<forall>q \<in> set (map fst tr). Q q))"

lemma asks_only_D: "asks_only Q p \<Longrightarrow> possible p tr a \<Longrightarrow> \<forall>q \<in> set (map fst tr). Q q"
  unfolding asks_only_def by blast

lemma asks_only_intros:
  "asks_only Q (Done a)" "asks_only Q (Panicking m)"
  "(\<And>w. asks_only Q (k w)) \<Longrightarrow> asks_only Q (World step k)"
  "Q q \<Longrightarrow> (\<And>r. asks_only Q (h r)) \<Longrightarrow> asks_only Q (Host q h)"
  "asks_only Q p \<Longrightarrow> (\<And>x. asks_only Q (f x)) \<Longrightarrow> asks_only Q (prog_bind p f)"
  "Q q \<Longrightarrow> asks_only Q (request q)"
  "(\<And>x. asks_only Q (g x)) \<Longrightarrow> asks_only Q (world_call step' g)"
  by (fastforce simp: asks_only_def possible_World_iff possible_Host_iff possible_bind possible_request
      possible_world_call)+

lemma asks_only_ctx_check: "asks_only Q (ctx_check S)"
  by (simp add: ctx_check_def asks_only_intros)

lemma asks_only_Interpolate: "Q RuntimeRequest \<Longrightarrow> asks_only Q (Interpolate S x)"
  unfolding Interpolate_def js_call_def
  by (intro asks_only_intros) (auto intro!: asks_only_intros split: option.splits)

lemma parsed_retries_valid: "parseRetryMaxRetries e v = Inr n \<Longrightarrow> 0 \<le> n \<and> n \<le> RetryCommandMaxRetries"
  by (auto simp: parseRetryMaxRetries_def Let_def split: if_splits option.splits)

definition retries_of :: "payload option \<Rightarrow> nat" where
  "retries_of v = (case v of Some (RetryEvaluated p) \<Rightarrow> nat (rte_maxRetries p) | _ \<Rightarrow> nat RetryCommandMaxRetries)"

definition retry_contract :: "foreign \<Rightarrow> nat \<Rightarrow> exchange list \<Rightarrow> command_effect \<Rightarrow> go_error option \<Rightarrow> bool" where
  "retry_contract F n tr effect e \<longleftrightarrow>
     (let tries = attempts_of F tr in
       eff_numberOfRuns effect = int (length tries) \<and> length tries \<le> n + 1
     \<and> list_all (retryable_failure F) (butlast tries)
     \<and> prefix (concat (map ra_results (butlast tries))) (resets_of tr)
     \<and> prefix (resets_of tr) (concat (map ra_results tries))
     \<and> (e = None \<longrightarrow> tries \<noteq> [] \<and> (ra_productError (last tries) = None \<or> exactErrorPropagation effect \<noteq> None))
     \<and> (exactErrorPropagation effect \<noteq> None \<longrightarrow>
          e = None \<and> list_all (retryable_failure F) tries \<and> length tries = n + 1)
     \<and> (eff_insight effect \<noteq> '''' \<longrightarrow> 2 \<le> length tries \<and> ra_productError (last tries) = None))"

lemma run_retry_contract:
  assumes "possible (run_retry S evaluated effect0) tr (effect, e)" and "context_contract S"
    and "eff_numberOfRuns effect0 = 0" "exactErrorPropagation effect0 = None" "eff_insight effect0 = ''''"
  shows "retry_contract (hs_foreign S) (retries_of (ed_value evaluated)) tr effect e"
proof (cases "\<exists>p. ed_value evaluated = Some (RetryEvaluated p) \<and> retry_evaluated_valid p")
  case True
  then obtain p where p: "ed_value evaluated = Some (RetryEvaluated p)" "retry_evaluated_valid p" by blast
  then have "possible (retry_loop S (ed_command evaluated) p (nat (rte_maxRetries p)) True effect0) tr (effect, e)"
    using assms(1) by (simp add: run_retry_def)
  from retry_loop_trace [OF this assms(2)] p show ?thesis
    using assms(3-5) by (auto simp: retry_contract_def retries_of_def retry_evaluated_valid_def turned_def Let_def)
next
  case False
  then have "tr = [] \<and> effect = effect0 \<and> e \<noteq> None"
    using assms(1) by (auto simp: run_retry_def failed_def Let_def split: option.splits payload.splits if_splits)
  then show ?thesis using assms(3-5) by (auto simp: retry_contract_def)
qed

lemma fresh_effect:
  "eff_numberOfRuns (composite_effect c) = 0" "exactErrorPropagation (composite_effect c) = None"
  "eff_insight (composite_effect c) = ''''"
  by (simp_all add: composite_effect_def no_effect_def)

lemma resolve_deferred_trace:
  assumes "possible (resolve_deferred evaluate effect0 k) tr (effect, e)"
    and "eff_numberOfRuns effect0 = 0" "exactErrorPropagation effect0 = None" "eff_insight effect0 = ''''"
  shows "\<exists>tr1 tr2 resolved err effect1. tr = tr1 @ tr2 \<and> possible evaluate tr1 (resolved, err)
      \<and> eff_numberOfRuns effect1 = 0 \<and> exactErrorPropagation effect1 = None \<and> eff_insight effect1 = ''''
      \<and> possible (if err \<noteq> None then Done (effect1, err) else k resolved effect1) tr2 (effect, e)"
proof -
  obtain tr1 tr2 a where t: "tr = tr1 @ tr2" "possible evaluate tr1 a"
      "possible ((\<lambda>(resolved, err).
         let effect = (if cmd_kind (ed_command resolved) \<noteq> ''''
                   then effect0\<lparr>eff_evaluatedCommand := Some (cloneCommand (ed_command resolved))\<rparr> else effect0)
         in if err \<noteq> None then Done (effect, err)
            else k resolved (effect\<lparr>eff_evaluatedCommand := Some (cloneCommand (ed_command resolved))\<rparr>)) a) tr2 (effect, e)"
    using assms(1) unfolding resolve_deferred_def possible_bind by blast
  obtain resolved err where a: "a = (resolved, err)" by fastforce
  let ?e0 = "if cmd_kind (ed_command resolved) \<noteq> ''''
                   then effect0\<lparr>eff_evaluatedCommand := Some (cloneCommand (ed_command resolved))\<rparr> else effect0"
  let ?e1 = "if err \<noteq> None then ?e0 else ?e0\<lparr>eff_evaluatedCommand := Some (cloneCommand (ed_command resolved))\<rparr>"
  have "possible (if err \<noteq> None then Done (?e1, err) else k resolved ?e1) tr2 (effect, e)"
    using t(3) a by (cases err) (simp_all add: Let_def)
  moreover have "eff_numberOfRuns ?e1 = 0 \<and> exactErrorPropagation ?e1 = None \<and> eff_insight ?e1 = ''''"
    using assms(2-4) by simp
  ultimately show ?thesis using t(1,2) a by blast
qed

lemma evaluateRetry_asks: "asks_only (\<lambda>q. q = RuntimeRequest) (evaluateRetry S e c v)"
  by (auto simp: evaluateRetry_def Let_def intro!: asks_only_intros asks_only_Interpolate
      split: payload.splits counter_kind.splits sum.splits)

lemma run_retry_bounded:
  assumes "possible (run_retry S evaluated effect0) tr (effect, e)" and "context_contract S"
    and "eff_numberOfRuns effect0 = 0" "exactErrorPropagation effect0 = None" "eff_insight effect0 = ''''"
  shows "\<exists>n \<le> 3. (\<forall>p. ed_value evaluated = Some (RetryEvaluated p) \<longrightarrow> retry_evaluated_valid p \<longrightarrow> n = nat (rte_maxRetries p))
      \<and> retry_contract (hs_foreign S) n tr effect e"
proof (cases "\<exists>p. ed_value evaluated = Some (RetryEvaluated p) \<and> retry_evaluated_valid p")
  case True
  then show ?thesis
    using run_retry_contract [OF assms]
    by (intro exI [of _ "retries_of (ed_value evaluated)"])
      (auto simp: retries_of_def retry_evaluated_valid_def RetryCommandMaxRetries_def)
next
  case False
  then have "tr = [] \<and> effect = effect0 \<and> e \<noteq> None"
    using assms(1) by (auto simp: run_retry_def failed_def Let_def split: option.splits payload.splits if_splits)
  then show ?thesis using False assms(3-5) by (auto simp: retry_contract_def)
qed

lemma retry_contract_prefixed:
  assumes "\<forall>q \<in> set (map fst tr). q = RuntimeRequest"
  shows "retry_contract F n (tr @ tr') effect e = retry_contract F n tr' effect e"
  unfolding retry_contract_def using requests_not_attempts [OF assms] by simp

lemma executeRetry_contract:
  assumes "context_contract S" and "possible (executeRetry S range_error evaluated) tr (effect, e)"
  shows "\<exists>n \<le> 3. (\<forall>p. ed_value evaluated = Some (RetryEvaluated p) \<longrightarrow> retry_evaluated_valid p \<longrightarrow> n = nat (rte_maxRetries p))
      \<and> retry_contract (hs_foreign S) n tr effect e"
proof (cases "\<exists>p. ed_value evaluated = Some (RetryDeferred p)")
  case False
  then have "possible (run_retry S evaluated (composite_effect (ed_command evaluated))) tr (effect, e)"
    using assms(2) by (auto simp: executeRetry_def Let_def split: option.splits payload.splits)
  from run_retry_bounded [OF this assms(1) fresh_effect] show ?thesis .
next
  case True
  then obtain p where p: "ed_value evaluated = Some (RetryDeferred p)" by blast
  let ?c = "ed_command evaluated"
  have "possible (resolve_deferred (evaluateRetry S range_error ?c (RetryCompiled p)) (composite_effect ?c) (run_retry S))
      tr (effect, e)"
    using assms(2) p by (simp add: executeRetry_def)
  then obtain tr1 tr2 resolved err effect1 where ev: "tr = tr1 @ tr2"
      "possible (evaluateRetry S range_error ?c (RetryCompiled p)) tr1 (resolved, err)"
    and "eff_numberOfRuns effect1 = 0" "exactErrorPropagation effect1 = None" "eff_insight effect1 = ''''"
      "possible (if err \<noteq> None then Done (effect1, err) else run_retry S resolved effect1) tr2 (effect, e)"
    using resolve_deferred_trace [OF _ fresh_effect] by metis
  note tr = this(1) asks_only_D [OF evaluateRetry_asks this(2)] this(3-6)
  show ?thesis
  proof (cases err)
    case None
    then have "possible (run_retry S resolved effect1) tr2 (effect, e)" using tr(6) by simp
    from run_retry_bounded [OF this assms(1) tr(3-5)] True show ?thesis
      using retry_contract_prefixed [OF tr(2)] tr(1) by auto
  next
    case (Some x)
    then have "retry_contract (hs_foreign S) 0 tr2 effect e"
      using tr(3-6) by (auto simp: retry_contract_def)
    then show ?thesis using retry_contract_prefixed [OF tr(2)] tr(1) True by auto
  qed
qed


section \<open>Repeat\<close>

text \<open>The runs of the children: the results and the error of each, in order.\<close>

definition child_runs :: "exchange list \<Rightarrow> (command_result list \<times> go_error option) list" where
  "child_runs tr = List.map_filter (\<lambda>(q, r). case q of ExecuteChildrenRequest cs \<Rightarrow> Some (children_of_reply r) | _ \<Rightarrow> None) tr"

lemma child_runs_simps [simp]:
  "child_runs [] = []"
  "child_runs ((ExecuteChildrenRequest cs, r) # tr) = children_of_reply r # child_runs tr"
  "(\<And>x. q \<noteq> ExecuteChildrenRequest x) \<Longrightarrow> child_runs ((q, r) # tr) = child_runs tr"
  "child_runs (tr1 @ tr2) = child_runs tr1 @ child_runs tr2"
  by (auto simp: child_runs_def List.map_filter_def split: host_request.splits)

lemma quiet_trace:
  "(\<forall>q \<in> set (map fst tr). q = RuntimeRequest \<or> q = LookupRequest) \<Longrightarrow> child_runs tr = [] \<and> resets_of tr = []"
  "map fst tr = map ResetCommandRequest rs \<Longrightarrow> child_runs tr = []"
  subgoal by (induction tr) auto
  subgoal by (induction tr arbitrary: rs) (auto simp: map_eq_Cons_conv)
  done

lemma reset_children_trace:
  "possible (reset_children rs :: ('w, go_error option) prog) tr e \<Longrightarrow>
     \<exists>gone remaining. rs = gone @ remaining \<and> map fst tr = map ResetCommandRequest gone \<and> (e = None \<longrightarrow> remaining = [])"
proof (induction rs arbitrary: tr)
  case (Cons r rs)
  then obtain reply tr1 where t0: "tr = (ResetCommandRequest r, reply) # tr1"
      "possible (let c = case reply of Refused e \<Rightarrow> Some e | _ \<Rightarrow> None in
        if c \<noteq> None then Done c else (reset_children rs :: ('w, go_error option) prog)) tr1 e"
    by (auto simp: possible_bind possible_request Let_def)
  define c where "c = (case reply of Refused e \<Rightarrow> Some e | _ \<Rightarrow> None)"
  have t: "tr = (ResetCommandRequest r, reply) # tr1" "possible (if c \<noteq> None then Done c else (reset_children rs :: ('w, go_error option) prog)) tr1 e"
    using t0 unfolding c_def Let_def by blast+
  show ?case
  proof (cases c)
    case None
    with t Cons.IH [of tr1] obtain gone remaining where
      "rs = gone @ remaining" "map fst tr1 = map ResetCommandRequest gone" "e = None \<longrightarrow> remaining = []"
      by auto
    then show ?thesis using t by (intro exI [of _ "r # gone"] exI [of _ remaining]) simp
  next
    case (Some x)
    then have "r # rs = [r] @ rs \<and> map fst tr = map ResetCommandRequest [r] \<and> (e = None \<longrightarrow> rs = [])"
      using t by auto
    then show ?thesis by blast
  qed
qed auto

text \<open>Evaluating a condition only asks for the runtime and for the lookup service.\<close>

abbreviation looks :: "host_request \<Rightarrow> bool" where
  "looks q \<equiv> q = RuntimeRequest \<or> q = LookupRequest"

lemma asks_only_interpolate_fields: "asks_only looks (interpolate_fields S fs attrs)"
  by (induction S fs attrs rule: interpolate_fields.induct)
    (auto simp: interpolateStringPointer_def intro!: asks_only_intros asks_only_Interpolate
      split: option.splits prod.splits)

lemma asks_only_interpolate_all:
  "(\<And>x p. (x, p) \<in> set xs \<Longrightarrow> asks_only looks p) \<Longrightarrow> asks_only looks (interpolate_all xs)"
proof (induction xs rule: interpolate_all.induct)
  case (2 x p rest)
  have "asks_only looks p" "asks_only looks (interpolate_all rest)" if "e = None" for e :: "go_error option"
    using 2 that by auto
  then show ?case
    by (auto intro!: asks_only_intros split: prod.splits)
qed (simp add: asks_only_intros)

lemma asks_only_interpolate_opt:
  "(\<And>q. p = Some q \<Longrightarrow> asks_only looks q) \<Longrightarrow> asks_only looks (snd (interpolate_opt x p))"
  by (auto simp: interpolate_opt_def intro!: asks_only_intros split: option.splits prod.splits)

lemma asks_only_interpolateSelector: "asks_only looks (interpolateSelector S s)"
proof (induction s)
  case (ElementSelector attrs lower upper leftOf rightOf child descs childOf src fsrc)
  have opt: "asks_only looks p"
    if "(x, p) = interpolate_opt n (map_option (interpolateSelector S) n)" "\<And>s. n = Some s \<Longrightarrow> asks_only looks (interpolateSelector S s)"
    for x p and n :: "element_selector option"
    using asks_only_interpolate_opt [of "map_option (interpolateSelector S) n" n] that by (metis (no_types, lifting) map_option_eq_Some snd_conv)
  show ?case
    using ElementSelector
    by (auto intro!: asks_only_intros asks_only_interpolate_fields asks_only_interpolate_all split: prod.splits
        dest!: opt)
      (cases descs; auto dest!: set_zip_rightD)
qed

lemma asks_only_evaluateConditionSelector: "asks_only looks (evaluateConditionSelector S s f)"
  by (auto simp: evaluateConditionSelector_def intro!: asks_only_intros asks_only_interpolateSelector split: prod.splits)

lemma asks_only_evaluateCondition: "asks_only looks (evaluateCondition S source)"
proof -
  have all: "asks_only looks (predicates_hold ps c)" if "\<And>p c. p \<in> set ps \<Longrightarrow> asks_only looks (p c)"
    for ps :: "'a predicate list" and c
    using that by (induction ps arbitrary: c) (auto intro!: asks_only_intros split: prod.splits sum.splits)
  have look: "asks_only looks (lookup_holds f c s)" for f :: "bool \<Rightarrow> element_selector \<Rightarrow> 'a \<Rightarrow> (go_error + bool) \<times> 'a" and c s
    by (auto simp: lookup_holds_def intro!: asks_only_intros split: option.splits)
  have script: "asks_only looks (js_call f)" for f :: "'a \<Rightarrow> (go_error + js_value \<times> string) \<times> string list \<times> 'a"
    unfolding js_call_def by (intro asks_only_intros) (auto intro!: asks_only_intros split: option.splits)
  have "asks_only looks (platform_holds S c)" "asks_only looks (script_holds S c)"
    "asks_only looks (visible_holds S c)" "asks_only looks (notVisible_holds S c)" for c
    by (auto simp: platform_holds_def script_holds_def visible_holds_def notVisible_holds_def Let_def
        intro!: asks_only_intros look script asks_only_Interpolate asks_only_evaluateConditionSelector
        split: option.splits sum.splits prod.splits)
  then have "asks_only looks (predicates_hold [platform_holds S, script_holds S, visible_holds S, notVisible_holds S] c)" for c
    by (intro all) auto
  then show ?thesis
    by (auto simp: evaluateCondition_def simp del: predicates_hold.simps
        intro!: asks_only_intros asks_only_ctx_check split: option.splits prod.splits)
qed

definition repeat_contract :: "bool \<Rightarrow> nat \<Rightarrow> int \<Rightarrow> exchange list \<Rightarrow> command_effect \<Rightarrow> go_error option \<Rightarrow> bool" where
  "repeat_contract unconditional n before tr effect e \<longleftrightarrow>
     (let runs = child_runs tr in
       eff_numberOfRuns effect = before + int (length runs) \<and> length runs \<le> n
     \<and> list_all (\<lambda>r. snd r = None) (butlast runs)
     \<and> prefix (concat (map fst (butlast runs))) (resets_of tr)
     \<and> prefix (resets_of tr) (concat (map fst runs))
     \<and> (e = None \<longrightarrow> list_all (\<lambda>r. snd r = None) runs \<and> (unconditional \<longrightarrow> length runs = n)))"

lemma repeat_guard_trace:
  assumes "possible (repeat_guard S source c effect0 go_on) tr (effect, e)"
  shows "child_runs tr = [] \<and> resets_of tr = [] \<and> eff_numberOfRuns effect = eff_numberOfRuns effect0
           \<and> (e = None \<longrightarrow> source \<noteq> None)
       \<or> (\<exists>tr1 tr2 c1 effect1. tr = tr1 @ tr2 \<and> child_runs tr1 = [] \<and> resets_of tr1 = []
           \<and> eff_numberOfRuns effect1 = eff_numberOfRuns effect0 \<and> possible (go_on c1 effect1) tr2 (effect, e))"
proof -
  obtain tr1 tr2 a where t: "tr = tr1 @ tr2" "possible (evaluateCondition S source) tr1 a"
    "possible ((\<lambda>(evaluated, shouldRun, err).
       let c = set_condition evaluated c;
           effect = effect0\<lparr>eff_evaluatedCommand := Some (cloneCommand c)\<rparr>
       in if err \<noteq> None \<or> \<not> shouldRun then Done (effect, err) else go_on c effect) a) tr2 (effect, e)"
    using assms unfolding repeat_guard_def possible_bind by blast
  obtain evaluated should err where a: "a = (evaluated, should, err)" by (metis prod_cases3)
  have quiet: "child_runs tr1 = []" "resets_of tr1 = []"
    using quiet_trace(1) [OF asks_only_D [OF asks_only_evaluateCondition t(2)]] by blast+
  have none: "err \<noteq> None \<or> should" if "source = None"
    using t(2) that a by (auto simp: evaluateCondition_def cloneCondition_def possible_bind possible_ctx_check split: if_splits)
  show ?thesis
  proof (cases "err \<noteq> None \<or> \<not> should")
    case True
    then show ?thesis using t(1,3) a quiet none by (auto simp: Let_def)
  next
    case False
    then have "possible (go_on (set_condition evaluated c)
        (effect0\<lparr>eff_evaluatedCommand := Some (cloneCommand (set_condition evaluated c))\<rparr>)) tr2 (effect, e)"
      using t(3) a by (simp add: Let_def)
    then show ?thesis using t(1) quiet by fastforce
  qed
qed

lemma possible_wait: "possible (prog_bind (world_call f Done) k) tr a \<longleftrightarrow> (\<exists>w. possible (k (fst (f w))) tr a)"
  by (auto simp: possible_bind possible_world_call)

lemma possible_ctx_bind: "possible (prog_bind (ctx_check S) k) tr a \<longleftrightarrow> (\<exists>w. possible (k (fst (hs_ctxErr S w))) tr a)"
  by (simp add: ctx_check_def possible_wait)

text \<open>What lies between two runs: the wait and the resets, which may fail.\<close>

lemma between_runs_trace:
  assumes "possible (prog_bind (world_call (hs_wait S d) Done) (\<lambda>e.
       if e \<noteq> None then Done (effect1, e)
       else prog_bind (ctx_check S) (\<lambda>e.
         if e \<noteq> None then Done (effect1, e)
         else prog_bind (reset_children results) (\<lambda>e.
           if e \<noteq> None then Done (effect1, e) else k)))) tr (effect, e)"
  shows "effect = effect1 \<and> e \<noteq> None \<and> child_runs tr = [] \<and> prefix (resets_of tr) results
       \<or> (\<exists>tr1 tr2. tr = tr1 @ tr2 \<and> child_runs tr1 = [] \<and> resets_of tr1 = results \<and> possible k tr2 (effect, e))"
proof -
  obtain e1 e2 where p: "possible (if e1 \<noteq> None then Done (effect1, e1) else if e2 \<noteq> None then Done (effect1, e2)
      else prog_bind (reset_children results) (\<lambda>e. if e \<noteq> None then Done (effect1, e) else k)) tr (effect, e)"
  proof -
    obtain w1 where w1: "possible (let e = fst (hs_wait S d w1) in if e \<noteq> None then Done (effect1, e)
       else prog_bind (ctx_check S) (\<lambda>e.
         if e \<noteq> None then Done (effect1, e)
         else prog_bind (reset_children results) (\<lambda>e.
           if e \<noteq> None then Done (effect1, e) else k))) tr (effect, e)"
      using assms unfolding possible_wait Let_def by blast
    show ?thesis
    proof (cases "fst (hs_wait S d w1)")
      case None
      then show ?thesis using w1 that [of None] unfolding Let_def by (auto simp: possible_ctx_bind)
    next
      case (Some x)
      then show ?thesis using w1 that [of "Some x" None] by (simp add: Let_def)
    qed
  qed
  show ?thesis
  proof (cases "e1 \<noteq> None \<or> e2 \<noteq> None")
    case True
    then show ?thesis using p by (auto split: if_splits)
  next
    case False
    then obtain tr1 tr2 e3 where t: "tr = tr1 @ tr2" "possible (reset_children results :: ('a, go_error option) prog) tr1 e3"
        "possible (if e3 \<noteq> None then Done (effect1, e3) else k) tr2 (effect, e)"
      using p by (auto simp: possible_bind)
    obtain gone remaining where g: "results = gone @ remaining" "map fst tr1 = map ResetCommandRequest gone"
        "e3 = None \<longrightarrow> remaining = []"
      using reset_children_trace [OF t(2)] by blast
    then show ?thesis
      using t quiet_trace(2) [OF g(2)] resets_of_resets [OF g(2)] by (cases e3) auto
  qed
qed

lemma repeat_turn_trace:
  assumes "possible (repeat_turn S source c effect0 again) tr (effect, e)"
  shows "\<exists>results err. 
      (child_runs tr = [(results, err)] \<and> eff_numberOfRuns effect = eff_numberOfRuns effect0 + 1
         \<and> prefix (resets_of tr) results \<and> (err \<noteq> None \<longrightarrow> e \<noteq> None)
         \<and> (e = None \<longrightarrow> source \<noteq> None \<or> again = None))
    \<or> (err = None \<and> (\<exists>go tr1 tr2 c1 effect1. again = Some go \<and> tr = tr1 @ tr2 \<and> child_runs tr1 = [(results, None)]
         \<and> resets_of tr1 = results \<and> eff_numberOfRuns effect1 = eff_numberOfRuns effect0 + 1
         \<and> possible (go c1 effect1) tr2 (effect, e)))"
proof -
  let ?e1 = "effect0\<lparr>eff_numberOfRuns := eff_numberOfRuns effect0 + 1\<rparr>"
  obtain cs reply q reply2 tr' where tr: "tr = (ExecuteChildrenRequest cs, reply) # (UpdateMetadataRequest q, reply2) # tr'"
    and p: "possible (let (results, err) = children_of_reply reply; metadataErr = (case reply2 of Refused e \<Rightarrow> Some e | _ \<Rightarrow> None)
      in if err \<noteq> None then Done (?e1, err)
         else if metadataErr \<noteq> None then Done (?e1, metadataErr)
         else case again of
                None \<Rightarrow> Done (?e1, None)
              | Some next_run \<Rightarrow> repeat_guard S source c ?e1 (\<lambda>c effect.
                   prog_bind (world_call (hs_wait S RepeatDelay) Done) (\<lambda>e.
                     if e \<noteq> None then Done (effect, e)
                     else prog_bind (ctx_check S) (\<lambda>e.
                       if e \<noteq> None then Done (effect, e)
                       else prog_bind (reset_children results) (\<lambda>e.
                         if e \<noteq> None then Done (effect, e) else next_run c effect))))) tr' (effect, e)"
    using assms
    by (auto simp: repeat_turn_def possible_Host_iff possible_bind possible_request case_prod_unfold Let_def)
  obtain results err where r: "children_of_reply reply = (results, err)" by fastforce
  have runs: "child_runs tr = (results, err) # child_runs tr'" "resets_of tr = resets_of tr'"
    using tr r by simp_all
  show ?thesis
  proof (cases "err \<noteq> None \<or> (case reply2 of Refused e \<Rightarrow> Some e | _ \<Rightarrow> None) \<noteq> None \<or> again = None")
    case True
    then have "tr' = [] \<and> effect = ?e1 \<and> (err \<noteq> None \<longrightarrow> e \<noteq> None) \<and> (e = None \<longrightarrow> again = None)"
      using p r by (auto simp: Let_def split: if_splits option.splits)
    then show ?thesis using runs by (intro exI [of _ results] exI [of _ err] disjI1) auto
  next
    case False
    then obtain go where go: "again = Some go" "err = None" by auto
    have "possible (repeat_guard S source c ?e1 (\<lambda>c effect.
                   prog_bind (world_call (hs_wait S RepeatDelay) Done) (\<lambda>e.
                     if e \<noteq> None then Done (effect, e)
                     else prog_bind (ctx_check S) (\<lambda>e.
                       if e \<noteq> None then Done (effect, e)
                       else prog_bind (reset_children results) (\<lambda>e.
                         if e \<noteq> None then Done (effect, e) else go c effect))))) tr' (effect, e)"
      using p False go r by (auto simp: Let_def)
    from repeat_guard_trace [OF this] show ?thesis
    proof (elim disjE exE conjE, goal_cases)
      case 1
      then show ?case using runs go by (intro exI [of _ results] exI [of _ err] disjI1) auto
    next
      case (2 tr1 tr2 c1 effect1)
      from between_runs_trace [OF this(5)] show ?case
      proof (elim disjE exE conjE, goal_cases)
        case 1
        then show ?case using runs go 2 by (intro exI [of _ results] exI [of _ err] disjI1) auto
      next
        case (2 tr3 tr4)
        have "tr = ((ExecuteChildrenRequest cs, reply) # (UpdateMetadataRequest q, reply2) # tr1 @ tr3) @ tr4"
          using tr 2 \<open>tr' = tr1 @ tr2\<close> by simp
        moreover have "child_runs ((ExecuteChildrenRequest cs, reply) # (UpdateMetadataRequest q, reply2) # tr1 @ tr3) = [(results, None)]"
          "resets_of ((ExecuteChildrenRequest cs, reply) # (UpdateMetadataRequest q, reply2) # tr1 @ tr3) = results"
          using 2 \<open>child_runs tr1 = []\<close> \<open>resets_of tr1 = []\<close> r go by simp_all
        moreover have "eff_numberOfRuns effect1 = eff_numberOfRuns effect0 + 1"
          using \<open>eff_numberOfRuns effect1 = _\<close> by simp
        ultimately show ?case using go 2 by blast
      qed
    qed
  qed
qed

lemma repeat_loop_trace:
  assumes "possible (repeat_loop S source n c effect0) tr (effect, e)"
  shows "child_runs tr \<noteq> [] \<and> repeat_contract (source = None) (Suc n) (eff_numberOfRuns effect0) tr effect e"
  using assms
proof (induction n arbitrary: c effect0 tr)
  case 0
  then have "possible (repeat_turn S source c effect0 None) tr (effect, e)" by simp
  from repeat_turn_trace [OF this] show ?case by (auto simp: repeat_contract_def)
next
  case (Suc n)
  from Suc.prems have "possible (repeat_turn S source c effect0 (Some (repeat_loop S source n))) tr (effect, e)" by simp
  from repeat_turn_trace [OF this] show ?case
  proof (elim exE disjE conjE, goal_cases)
    case (1 results err)
    then show ?case by (cases err) (auto simp: repeat_contract_def)
  next
    case (2 results err go tr1 tr2 c1 effect1)
    then have "possible (repeat_loop S source n c1 effect1) tr2 (effect, e)" by simp
    from Suc.IH [OF this] show ?case using 2 by (auto simp: repeat_contract_def Let_def)
  qed
qed

lemma repeat_contract_later:
  assumes "child_runs tr1 = []" "resets_of tr1 = []"
  shows "repeat_contract u n before (tr1 @ tr2) effect e = repeat_contract u n before tr2 effect e"
  using assms by (simp add: repeat_contract_def)

lemma run_repeat_contract:
  assumes "possible (run_repeat S evaluated effect0) tr (effect, e)" "eff_numberOfRuns effect0 = 0"
  shows "\<exists>n. int n \<le> MaxInt32 \<and> (\<forall>p. ed_value evaluated = Some (RepeatEvaluated p) \<longrightarrow> 0 \<le> rpe_times p
        \<longrightarrow> rpe_times p \<le> MaxInt32 \<longrightarrow> n = nat (rpe_times p))
      \<and> repeat_contract (\<exists>p. ed_value evaluated = Some (RepeatEvaluated p) \<and> \<not> rpe_hasCondition p) n 0 tr effect e"
proof (cases "\<exists>p. ed_value evaluated = Some (RepeatEvaluated p) \<and> 0 \<le> rpe_times p \<and> rpe_times p \<le> MaxInt32
    \<and> rpe_hasCondition p = (cmd_condition (ed_command evaluated) \<noteq> None)")
  case False
  then have "tr = [] \<and> effect = effect0 \<and> e \<noteq> None"
    using assms(1) by (auto simp: run_repeat_def failed_def Let_def split: option.splits payload.splits if_splits)
  then have "repeat_contract u n 0 tr effect e" for u n using assms(2) by (auto simp: repeat_contract_def)
  moreover have "\<exists>n. int n \<le> MaxInt32 \<and> (\<forall>p. ed_value evaluated = Some (RepeatEvaluated p) \<longrightarrow> 0 \<le> rpe_times p
        \<longrightarrow> rpe_times p \<le> MaxInt32 \<longrightarrow> n = nat (rpe_times p))"
    by (cases "\<exists>p. ed_value evaluated = Some (RepeatEvaluated p) \<and> 0 \<le> rpe_times p \<and> rpe_times p \<le> MaxInt32")
      (auto simp: MaxInt32_def intro: exI [of _ 0])
  ultimately show ?thesis by blast
next
  case True
  then obtain p where p: "ed_value evaluated = Some (RepeatEvaluated p)" "0 \<le> rpe_times p" "rpe_times p \<le> MaxInt32"
    "rpe_hasCondition p = (cmd_condition (ed_command evaluated) \<noteq> None)" by blast
  have u: "(\<exists>p. ed_value evaluated = Some (RepeatEvaluated p) \<and> \<not> rpe_hasCondition p)
      \<longleftrightarrow> cmd_condition (ed_command evaluated) = None" using p by auto
  have "repeat_contract (cmd_condition (ed_command evaluated) = None) (nat (rpe_times p)) 0 tr effect e"
  proof (cases "rpe_times p = 0")
    case True
    then show ?thesis using assms p by (auto simp: run_repeat_def repeat_contract_def Let_def)
  next
    case False
    let ?source = "cloneCondition (cmd_condition (ed_command evaluated))"
    have src: "?source = None \<longleftrightarrow> cmd_condition (ed_command evaluated) = None" by (simp add: cloneCondition_def)
    have n: "Suc (nat (rpe_times p) - 1) = nat (rpe_times p)" using False p(2) by simp
    have "possible (repeat_guard S ?source (ed_command evaluated) effect0
        (repeat_loop S ?source (nat (rpe_times p) - 1))) tr (effect, e)"
      using assms(1) p False by (cases "cmd_condition (ed_command evaluated)") (simp_all add: run_repeat_def Let_def)
    from repeat_guard_trace [OF this] show ?thesis
    proof (elim exE disjE conjE, goal_cases)
      case 1
      then show ?case using assms(2) src by (auto simp: repeat_contract_def)
    next
      case (2 tr1 tr2 c1 effect1)
      from repeat_loop_trace [OF this(5)] show ?case
        using 2 repeat_contract_later [OF 2(2,3)] assms(2) src n by auto
    qed
  qed
  then show ?thesis using p unfolding u by (intro exI [of _ "nat (rpe_times p)"]) auto
qed

lemma evaluateRepeat_asks: "asks_only looks (evaluateRepeat S e c v)"
  by (auto simp: evaluateRepeat_def Let_def intro!: asks_only_intros asks_only_Interpolate
      split: payload.splits counter_kind.splits sum.splits)

lemma executeRepeat_contract:
  assumes "possible (executeRepeat S range_error evaluated) tr (effect, e)"
  shows "\<exists>n. int n \<le> MaxInt32 \<and> (\<forall>p. ed_value evaluated = Some (RepeatEvaluated p) \<longrightarrow> 0 \<le> rpe_times p
        \<longrightarrow> rpe_times p \<le> MaxInt32 \<longrightarrow> n = nat (rpe_times p))
      \<and> repeat_contract (\<exists>p. ed_value evaluated = Some (RepeatEvaluated p) \<and> \<not> rpe_hasCondition p) n 0 tr effect e"
proof (cases "\<exists>p. ed_value evaluated = Some (RepeatDeferred p)")
  case False
  then have "possible (run_repeat S evaluated (composite_effect (ed_command evaluated))) tr (effect, e)"
    using assms by (auto simp: executeRepeat_def Let_def split: option.splits payload.splits)
  from run_repeat_contract [OF this fresh_effect(1)] show ?thesis .
next
  case True
  then obtain p where p: "ed_value evaluated = Some (RepeatDeferred p)" by blast
  let ?c = "ed_command evaluated"
  have "possible (resolve_deferred (evaluateRepeat S range_error ?c (RepeatCompiled p)) (composite_effect ?c) (run_repeat S))
      tr (effect, e)"
    using assms p by (simp add: executeRepeat_def)
  then obtain tr1 tr2 resolved err effect1 where ev: "tr = tr1 @ tr2"
      "possible (evaluateRepeat S range_error ?c (RepeatCompiled p)) tr1 (resolved, err)"
    and e1: "eff_numberOfRuns effect1 = 0"
    and rest: "possible (if err \<noteq> None then Done (effect1, err) else run_repeat S resolved effect1) tr2 (effect, e)"
    using resolve_deferred_trace [OF _ fresh_effect] by metis
  have quiet: "child_runs tr1 = []" "resets_of tr1 = []"
    using quiet_trace(1) [OF asks_only_D [OF evaluateRepeat_asks ev(2)]] by blast+
  have "\<exists>n. int n \<le> MaxInt32 \<and> repeat_contract False n 0 tr2 effect e"
  proof (cases err)
    case None
    then have "possible (run_repeat S resolved effect1) tr2 (effect, e)" using rest by simp
    from run_repeat_contract [OF this e1] show ?thesis by (auto simp: repeat_contract_def Let_def)
  next
    case (Some x)
    then have "repeat_contract False 0 0 tr2 effect e" using rest e1 by (auto simp: repeat_contract_def)
    then show ?thesis by (intro exI [of _ 0]) (simp add: MaxInt32_def)
  qed
  then show ?thesis using repeat_contract_later [OF quiet] ev(1) p by auto
qed


section \<open>runFlow\<close>

text \<open>The flows a program ran: the request and the error each returned.\<close>

definition flow_runs :: "exchange list \<Rightarrow> (host_request \<times> go_error option) list" where
  "flow_runs tr = List.map_filter (\<lambda>(q, r). case q of
       ExecuteLinkedFlowRequest overlay \<Rightarrow> Some (q, snd (flow_of_reply r))
     | ExecuteInlineFlowRequest path config overlay \<Rightarrow> Some (q, snd (flow_of_reply r))
     | _ \<Rightarrow> None) tr"

lemma flow_runs_simps [simp]:
  "flow_runs [] = []"
  "flow_runs ((ExecuteLinkedFlowRequest overlay, r) # tr) = (ExecuteLinkedFlowRequest overlay, snd (flow_of_reply r)) # flow_runs tr"
  "flow_runs ((ExecuteInlineFlowRequest path config overlay, r) # tr) =
     (ExecuteInlineFlowRequest path config overlay, snd (flow_of_reply r)) # flow_runs tr"
  "flow_runs ((ConfigRequest, r) # tr) = flow_runs tr"
  "flow_runs ((CompiledChildrenRequest, r) # tr) = flow_runs tr"
  "flow_runs (tr1 @ tr2) = flow_runs tr1 @ flow_runs tr2"
  by (auto simp: flow_runs_def List.map_filter_def)

lemma looks_runs_no_flow: "(\<forall>q \<in> set (map fst tr). looks q) \<Longrightarrow> flow_runs tr = []"
  by (induction tr) (auto simp: flow_runs_def List.map_filter_def)

lemma asks_only_overlay: "asks_only looks (evaluateEnvironmentOverlay S source)"
proof -
  have "asks_only looks (interpolate_entries S kvs)" for kvs
    by (induction S kvs rule: interpolate_entries.induct) (auto intro!: asks_only_intros split: sum.splits)
  then show ?thesis
    by (auto simp: evaluateEnvironmentOverlay_def intro!: asks_only_intros split: option.splits)
qed

definition no_hooks :: "host_request \<Rightarrow> bool" where
  "no_hooks q = (case q of
     ExecuteInlineFlowRequest path config overlay \<Rightarrow> cfg_onFlowStart config = None \<and> cfg_onFlowComplete config = None
   | _ \<Rightarrow> True)"

definition run_flow_contract :: "exchange list \<Rightarrow> go_error option \<Rightarrow> bool" where
  "run_flow_contract tr e \<longleftrightarrow>
     (flow_runs tr = [] \<and> e \<noteq> None \<or> (\<exists>q. flow_runs tr = [(q, e)] \<and> no_hooks q))"

lemma run_flow_none: "run_flow_contract [] (Some e)"
  by (simp add: run_flow_contract_def)

lemma run_flow_source_trace:
  assumes "possible (run_flow_source p c overlay :: ('w, go_error option) prog) tr e"
  shows "run_flow_contract tr e"
proof (cases "rf_source p")
  case InlineSource
  have hooks: "no_hooks (ExecuteInlineFlowRequest path (inline_config g) overlay)" for path g
    by (cases g) (simp add: no_hooks_def inline_config_def)
  from InlineSource assms obtain r tr1 where "tr = (ConfigRequest, r) # tr1" "possible (case r of
            ConfigReply config \<Rightarrow> Host CompiledChildrenRequest (\<lambda>k.
              case runFlowInlineChildren (elems (cmd_children c)) (case k of CommandsReply cs \<Rightarrow> cs | _ \<Rightarrow> []) of
                Some e \<Rightarrow> Done (Some e)
              | None \<Rightarrow> Host (ExecuteInlineFlowRequest (rf_inlinePath p) (inline_config config) overlay)
                  (\<lambda>r. Done (snd (flow_of_reply r))))
          | Refused e \<Rightarrow> Done (Some e)
          | _ \<Rightarrow> (Done (failed ''active flow configuration is unavailable'') :: ('w, go_error option) prog)) tr1 e"
    by (auto simp: run_flow_source_def possible_Host_iff)
  then show ?thesis
    by (cases r) (auto simp: run_flow_contract_def hooks failed_def possible_Host_iff split: option.splits)
qed (use assms in \<open>auto simp: run_flow_source_def possible_Host_iff run_flow_contract_def no_hooks_def failed_def\<close>)

lemma run_flow_contract_later:
  "(\<forall>q \<in> set (map fst tr1). looks q) \<Longrightarrow> run_flow_contract (tr1 @ tr2) e = run_flow_contract tr2 e"
  by (simp add: run_flow_contract_def looks_runs_no_flow)

lemma executeRunFlow_contract:
  fixes S :: "'w handler_services"
  assumes "possible (executeRunFlow S evaluated) tr (effect, e)"
  shows "run_flow_contract tr e"
proof (cases "\<exists>p. ed_value evaluated = Some (RunFlowEvaluated p) \<and> run_flow_valid p")
  case False
  then show ?thesis
    using assms by (auto simp: executeRunFlow_def failed_def run_flow_contract_def Let_def
        split: option.splits payload.splits if_splits)
next
  case True
  then obtain p where p: "ed_value evaluated = Some (RunFlowEvaluated p)" "run_flow_valid p" by blast
  obtain tr1 tr2 condition holds err where c: "tr = tr1 @ tr2"
      "possible (evaluateCondition S (cmd_condition (ed_command evaluated))) tr1 (condition, holds, err)"
    and rest: "possible (let c = set_condition condition (ed_command evaluated) in
            if err \<noteq> None then Done (evaluated_effect EffectNone c, err)
            else if \<not> holds
            then Done (evaluated_effect EffectComposite c, Some (NewCommandSkippedError ''runFlow condition was false'' None))
            else prog_bind (evaluateEnvironmentOverlay S (rf_environment p)) (\<lambda>r.
              case r of
                Inl e \<Rightarrow> Done (evaluated_effect EffectNone c, Some e)
              | Inr overlay \<Rightarrow>
                  (let c = synchronizeRunFlowEnvironment overlay c
                   in prog_bind (run_flow_source p c overlay :: ('w, go_error option) prog)
                        (\<lambda>err. Done (evaluated_effect EffectComposite c, err))))) tr2 (effect, e)"
  proof -
    obtain tr1 tr2 a where t: "tr = tr1 @ tr2" "possible (evaluateCondition S (cmd_condition (ed_command evaluated))) tr1 a"
      "possible ((\<lambda>(condition, holds, err).
            let c = set_condition condition (ed_command evaluated) in
            if err \<noteq> None then Done (evaluated_effect EffectNone c, err)
            else if \<not> holds
            then Done (evaluated_effect EffectComposite c, Some (NewCommandSkippedError ''runFlow condition was false'' None))
            else prog_bind (evaluateEnvironmentOverlay S (rf_environment p)) (\<lambda>r.
              case r of
                Inl e \<Rightarrow> Done (evaluated_effect EffectNone c, Some e)
              | Inr overlay \<Rightarrow>
                  (let c = synchronizeRunFlowEnvironment overlay c
                   in prog_bind (run_flow_source p c overlay :: ('w, go_error option) prog)
                        (\<lambda>err. Done (evaluated_effect EffectComposite c, err))))) a) tr2 (effect, e)"
    proof -
      have "possible (prog_bind (evaluateCondition S (cmd_condition (ed_command evaluated))) (\<lambda>(condition, holds, err).
            let c = set_condition condition (ed_command evaluated) in
            if err \<noteq> None then Done (evaluated_effect EffectNone c, err)
            else if \<not> holds
            then Done (evaluated_effect EffectComposite c, Some (NewCommandSkippedError ''runFlow condition was false'' None))
            else prog_bind (evaluateEnvironmentOverlay S (rf_environment p)) (\<lambda>r.
              case r of
                Inl e \<Rightarrow> Done (evaluated_effect EffectNone c, Some e)
              | Inr overlay \<Rightarrow>
                  (let c = synchronizeRunFlowEnvironment overlay c
                   in prog_bind (run_flow_source p c overlay :: ('w, go_error option) prog)
                        (\<lambda>err. Done (evaluated_effect EffectComposite c, err)))))) tr (effect, e)"
        using assms p unfolding executeRunFlow_def Let_def by simp
      then show ?thesis by (rule possible_bindE) (rule that)
    qed
    show ?thesis using t that by (cases a) simp
  qed
  note quiet = run_flow_contract_later [OF asks_only_D [OF asks_only_evaluateCondition c(2)]]
  have "run_flow_contract tr2 e"
  proof (cases "err \<noteq> None \<or> \<not> holds")
    case True
    then show ?thesis using rest by (auto simp: Let_def run_flow_contract_def split: if_splits)
  next
    case False
    then obtain tr3 tr4 r where o3: "tr2 = tr3 @ tr4" "possible (evaluateEnvironmentOverlay S (rf_environment p)) tr3 r"
      "possible (case r of
                Inl e \<Rightarrow> Done (evaluated_effect EffectNone (set_condition condition (ed_command evaluated)), Some e)
              | Inr overlay \<Rightarrow>
                  (let c = synchronizeRunFlowEnvironment overlay (set_condition condition (ed_command evaluated))
                   in prog_bind (run_flow_source p c overlay :: ('w, go_error option) prog)
                        (\<lambda>err. Done (evaluated_effect EffectComposite c, err)))) tr4 (effect, e)"
    proof -
      have "possible (prog_bind (evaluateEnvironmentOverlay S (rf_environment p)) (\<lambda>r.
              case r of
                Inl e \<Rightarrow> Done (evaluated_effect EffectNone (set_condition condition (ed_command evaluated)), Some e)
              | Inr overlay \<Rightarrow>
                  (let c = synchronizeRunFlowEnvironment overlay (set_condition condition (ed_command evaluated))
                   in prog_bind (run_flow_source p c overlay :: ('w, go_error option) prog)
                        (\<lambda>err. Done (evaluated_effect EffectComposite c, err))))) tr2 (effect, e)"
        using rest False unfolding Let_def by simp
      then show ?thesis by (rule possible_bindE) (rule that)
    qed
    have "run_flow_contract tr4 e"
      using o3(3) by (cases r) (auto simp: possible_bind Let_def run_flow_none dest: run_flow_source_trace)
    then show ?thesis using o3(1) run_flow_contract_later [OF asks_only_D [OF asks_only_overlay o3(2)]] by simp
  qed
  then show ?thesis using c(1) quiet by simp
qed

text \<open>C25: A runFlow command runs at most one flow, whatever its condition, environment and source come to:
  either it ran none and fails, or it ran exactly one
  and its error is that flow's error. An inline flow never runs the hooks of the flow it is written in.\<close>

theorem run_flow_runs_one_flow:
  assumes "possible (executeRunFlow S evaluated) tr (effect, e)"
  shows "flow_runs tr = [] \<and> e \<noteq> None
       \<or> (\<exists>q. flow_runs tr = [(q, e)]
            \<and> (\<forall>path config overlay. q = ExecuteInlineFlowRequest path config overlay \<longrightarrow>
                 cfg_onFlowStart config = None \<and> cfg_onFlowComplete config = None))"
  using executeRunFlow_contract [OF assms]
  unfolding run_flow_contract_def by (auto simp: no_hooks_def)

section \<open>Witnesses\<close>

definition idle_services :: "unit handler_services" where
  "idle_services = \<lparr>hs_foreign = (\<lambda>_. opaque_node), hs_regexp = (\<lambda>_. None), hs_matchingError = (\<lambda>_. Plain_Error ''''),
     hs_ctxErr = (\<lambda>w. (None, w)), hs_interpolate = (\<lambda>s w. (Inr s, [], w)), hs_evaluate = (\<lambda>_ _ _ w. (Inr (JsNil, ''''), [], w)),
     hs_wait = (\<lambda>_ w. (None, w)), hs_devicePlatform = (\<lambda>w. (Inr ''Android'', w)), hs_findVisible = (\<lambda>_ _ w. (Inr True, w)),
     hs_findAbsent = (\<lambda>_ _ w. (Inr True, w))\<rparr>"

definition plain_dispatch :: "payload \<Rightarrow> payload evaluated_dispatch" where
  "plain_dispatch v = \<lparr>ed_command = plain_command ''x'', ed_value = Some v\<rparr>"

lemma idle_condition: "possible (evaluateCondition idle_services (cmd_condition (plain_command k))) [] (None, True, None)"
  by (simp add: evaluateCondition_def possible_bind possible_ctx_check cloneCondition_def idle_services_def plain_command_def)

lemma run_flow_runs_one_flow_witness:
  "\<exists>tr effect q. possible (executeRunFlow idle_services (plain_dispatch (RunFlowEvaluated
       \<lparr>rf_source = LinkedSource, rf_linked = True, rf_inlinePath = '''', rf_environment = None\<rparr>))) tr (effect, None)
     \<and> flow_runs tr = [(q, None)]"
proof -
  let ?x = "plain_dispatch (RunFlowEvaluated
       \<lparr>rf_source = LinkedSource, rf_linked = True, rf_inlinePath = '''', rf_environment = None\<rparr>)"
  let ?tr = "[(ExecuteLinkedFlowRequest None, FlowReply zero_flow_result None)]"
  let ?c = "set_condition None (plain_command ''x'')"
  have flow: "possible (run_flow_source \<lparr>rf_source = LinkedSource, rf_linked = True, rf_inlinePath = '''', rf_environment = None\<rparr>
      (synchronizeRunFlowEnvironment None ?c) None :: (unit, go_error option) prog) ?tr None"
    by (simp add: run_flow_source_def possible_Host_iff flow_of_reply_def)
  have overlay: "possible (evaluateEnvironmentOverlay idle_services None) [] (Inr None)"
    by (simp add: evaluateEnvironmentOverlay_def)
  have "possible (executeRunFlow idle_services ?x) ?tr
      (evaluated_effect EffectComposite (synchronizeRunFlowEnvironment None ?c), None)"
    unfolding executeRunFlow_def Let_def
    by (simp add: plain_dispatch_def run_flow_valid_def)
      (rule possible_bind_silent [OF idle_condition], simp add: plain_dispatch_def, rule possible_bind_silent [OF overlay], simp add: Let_def,
        rule possible_bind_last [OF flow], simp)
  from run_flow_runs_one_flow [OF this] show ?thesis using \<open>possible (executeRunFlow _ _) _ _\<close> by auto
qed

lemma idle_ctx: "possible (ctx_check idle_services) [] None"
  by (simp add: possible_ctx_check idle_services_def)

lemma idle_contract: "context_contract idle_services"
  by (simp add: context_contract_def idle_services_def)

lemma granted: "possible (f None) tr b \<Longrightarrow> possible (prog_bind (request q) f) ((q, Granted) # tr) b"
  using possible_bindI [of "request q" "[(q, Granted)]" None] by (simp add: possible_request)



end
