(* ===== verification/Wire.thy ===== *)
theory Wire
  imports Prelude "HOL-Library.Word"
begin

unbundle bit_operations_syntax

text \<open>
  The wire format of the Android agent (\<^verbatim>\<open>internal/android/pbwire/wire.go\<close>): varints, tags, the
  scalar appenders and the consumers of one field. Bytes are \<open>8 word\<close>, varints \<open>64 word\<close>; a Go string
  is its bytes and a \<^verbatim>\<open>float64\<close> the 64 bits that \<^verbatim>\<open>math.Float64bits\<close> gives, since the code only moves
  the bits. The loop that every message decoder writes out is \<open>unmarshal_loop\<close>, with the decoder's
  switch over the field numbers as its argument; it consumes at least the tag in every round.
\<close>

type_synonym bytes = "8 word list"
type_synonym float_bits = "64 word"

datatype wire_error =
    Unterminated_Varint | Varint_Too_Long | Length_Overrun | Field_Zero
  | Short_Fixed64 nat | Short_Fixed32 nat | Unassigned_Wire_Type nat | Wrong_Wire_Type nat nat

section \<open>Encoding\<close>

definition wireVarint :: nat where "wireVarint = 0"
definition wireFixed64 :: nat where "wireFixed64 = 1"
definition wireBytes :: nat where "wireBytes = 2"
definition wireFixed32 :: nat where "wireFixed32 = 5"

lemmas wire_types = wireVarint_def wireFixed64_def wireBytes_def wireFixed32_def

lemma shift_smaller:
  fixes v :: "64 word"
  assumes "128 \<le> v" shows "unat (drop_bit 7 v) < unat v"
proof -
  have "128 \<le> unat v" using assms by (simp add: word_le_nat_alt)
  then have "unat v div 2 ^ 7 < unat v" by (intro div_less_dividend) simp_all
  then show ?thesis by (simp only: unat_drop_bit_eq drop_bit_eq_div [of 7 "unat v"])
qed

function appendVarint :: "bytes \<Rightarrow> 64 word \<Rightarrow> bytes" where
  "appendVarint b v =
     (if v \<ge> 0x80 then appendVarint (b @ [ucast v OR 0x80]) (drop_bit 7 v) else b @ [ucast v])"
  by auto
termination by (relation "measure (\<lambda>(b, v). unat v)") (auto simp: shift_smaller)

declare appendVarint.simps [simp del]

definition appendTag :: "bytes \<Rightarrow> nat \<Rightarrow> nat \<Rightarrow> bytes" where
  "appendTag b field wire = appendVarint b (push_bit 3 (word_of_nat field) OR word_of_nat wire)"

definition appendUint32 :: "bytes \<Rightarrow> nat \<Rightarrow> 32 word \<Rightarrow> bytes" where
  "appendUint32 b field v = (if v = 0 then b else appendVarint (appendTag b field wireVarint) (ucast v))"

definition appendBool :: "bytes \<Rightarrow> nat \<Rightarrow> bool \<Rightarrow> bytes" where
  "appendBool b field v = (if \<not> v then b else appendTag b field wireVarint @ [1])"

definition little_endian :: "64 word \<Rightarrow> bytes" where
  "little_endian v = [ucast v, ucast (drop_bit 8 v), ucast (drop_bit 16 v), ucast (drop_bit 24 v),
     ucast (drop_bit 32 v), ucast (drop_bit 40 v), ucast (drop_bit 48 v), ucast (drop_bit 56 v)]"

definition appendDouble :: "bytes \<Rightarrow> nat \<Rightarrow> float_bits \<Rightarrow> bytes" where
  "appendDouble b field v = (if v = 0 then b else appendTag b field wireFixed64 @ little_endian v)"

definition appendMessage :: "bytes \<Rightarrow> nat \<Rightarrow> bytes \<Rightarrow> bytes" where
  "appendMessage b field encoded =
     appendVarint (appendTag b field wireBytes) (word_of_nat (length encoded)) @ encoded"

definition appendString :: "bytes \<Rightarrow> nat \<Rightarrow> bytes \<Rightarrow> bytes" where
  "appendString b field v =
     (if v = [] then b else appendVarint (appendTag b field wireBytes) (word_of_nat (length v)) @ v)"

definition appendBytes :: "bytes \<Rightarrow> nat \<Rightarrow> bytes \<Rightarrow> bytes" where
  "appendBytes b field v =
     (if v = [] then b else appendVarint (appendTag b field wireBytes) (word_of_nat (length v)) @ v)"

section \<open>Decoding\<close>

text \<open>The loop of \<^verbatim>\<open>consumeVarint\<close> from byte \<open>i\<close> on; \<open>None\<close> when it falls through.\<close>

fun varint_from :: "nat \<Rightarrow> 64 word \<Rightarrow> bytes \<Rightarrow> (64 word \<times> nat) option" where
  "varint_from i v [] = None"
| "varint_from i v (b # bs) =
     (if i \<ge> 10 then None
      else let v = v OR push_bit (7 * i) (ucast (b AND 0x7f)) in
        if b < 0x80 then Some (v, i + 1) else varint_from (i + 1) v bs)"

definition consumeVarint :: "bytes \<Rightarrow> wire_error + 64 word \<times> nat" where
  "consumeVarint data =
     (case varint_from 0 0 data of
        Some r \<Rightarrow> Inr r
      | None \<Rightarrow> if length data \<ge> 10 then Inl Varint_Too_Long else Inl Unterminated_Varint)"

definition consumeTag :: "bytes \<Rightarrow> wire_error + nat \<times> nat \<times> nat" where
  "consumeTag data =
     (case consumeVarint data of
        Inl e \<Rightarrow> Inl e
      | Inr (v, n) \<Rightarrow>
          if drop_bit 3 v = 0 then Inl Field_Zero else Inr (unat (drop_bit 3 v), unat (v AND 7), n))"

definition consumeLengthDelimited :: "bytes \<Rightarrow> wire_error + bytes \<times> nat" where
  "consumeLengthDelimited data =
     (case consumeVarint data of
        Inl e \<Rightarrow> Inl e
      | Inr (len, n) \<Rightarrow>
          if len > word_of_nat (length data - n) then Inl Length_Overrun
          else Inr (take (unat len) (drop n data), n + unat len))"

definition skipField :: "bytes \<Rightarrow> nat \<Rightarrow> wire_error + nat" where
  "skipField data wire =
     (if wire = wireVarint then (case consumeVarint data of Inl e \<Rightarrow> Inl e | Inr (_, n) \<Rightarrow> Inr n)
      else if wire = wireFixed64 then if length data < 8 then Inl (Short_Fixed64 (length data)) else Inr 8
      else if wire = wireBytes then (case consumeLengthDelimited data of Inl e \<Rightarrow> Inl e | Inr (_, n) \<Rightarrow> Inr n)
      else if wire = wireFixed32 then if length data < 4 then Inl (Short_Fixed32 (length data)) else Inr 4
      else Inl (Unassigned_Wire_Type wire))"

definition consumeVarintField :: "bytes \<Rightarrow> nat \<Rightarrow> nat \<Rightarrow> wire_error + 64 word \<times> nat" where
  "consumeVarintField data wire field =
     (if wire \<noteq> wireVarint then Inl (Wrong_Wire_Type field wire) else consumeVarint data)"

definition consumeBytesField :: "bytes \<Rightarrow> nat \<Rightarrow> nat \<Rightarrow> wire_error + bytes \<times> nat" where
  "consumeBytesField data wire field =
     (if wire \<noteq> wireBytes then Inl (Wrong_Wire_Type field wire) else consumeLengthDelimited data)"

definition from_little_endian :: "bytes \<Rightarrow> 64 word" where
  "from_little_endian data =
     ucast (data ! 0) OR push_bit 8 (ucast (data ! 1)) OR push_bit 16 (ucast (data ! 2))
     OR push_bit 24 (ucast (data ! 3)) OR push_bit 32 (ucast (data ! 4)) OR push_bit 40 (ucast (data ! 5))
     OR push_bit 48 (ucast (data ! 6)) OR push_bit 56 (ucast (data ! 7))"

definition consumeDoubleField :: "bytes \<Rightarrow> nat \<Rightarrow> nat \<Rightarrow> wire_error + float_bits \<times> nat" where
  "consumeDoubleField data wire field =
     (if wire \<noteq> wireFixed64 then Inl (Wrong_Wire_Type field wire)
      else if length data < 8 then Inl (Short_Fixed64 (length data))
      else Inr (from_little_endian data, 8))"

section \<open>Consumers stay inside the data\<close>

lemma varint_from_bounds: "varint_from i v data = Some (r, n) \<Longrightarrow> i < n \<and> n \<le> i + length data \<and> n \<le> 10"
  by (induction i v data rule: varint_from.induct) (fastforce simp: Let_def split: if_splits)+

lemma consumeVarint_bounds: "consumeVarint data = Inr (v, n) \<Longrightarrow> 0 < n \<and> n \<le> length data \<and> n \<le> 10"
  using varint_from_bounds [of 0 0 data v n] by (auto simp: consumeVarint_def split: option.splits if_splits)

lemma consumeTag_bounds: "consumeTag data = Inr (field, wire, n) \<Longrightarrow> 0 < field \<and> wire < 8 \<and> 0 < n \<and> n \<le> length data"
proof -
  assume "consumeTag data = Inr (field, wire, n)"
  then obtain v where v: "consumeVarint data = Inr (v, n)" "drop_bit 3 v \<noteq> 0" "field = unat (drop_bit 3 v)" "wire = unat (v AND 7)"
    by (auto simp: consumeTag_def split: sum.splits if_splits)
  have "unat (v AND 7) \<le> unat (7 :: 64 word)" by (metis word_and_le1 word_le_nat_alt)
  then show ?thesis using v consumeVarint_bounds [OF v(1)] by (auto simp: unat_gt_0)
qed

text \<open>The loop of a message decoder.\<close>

function unmarshal_loop :: "(nat \<Rightarrow> nat \<Rightarrow> bytes \<Rightarrow> 'm \<Rightarrow> wire_error + 'm \<times> nat) \<Rightarrow> bytes \<Rightarrow> 'm \<Rightarrow> wire_error + 'm" where
  "unmarshal_loop field_step data m =
     (if data = [] then Inr m
      else case consumeTag data of
             Inl e \<Rightarrow> Inl e
           | Inr (field, wire, n) \<Rightarrow>
               (case field_step field wire (drop n data) m of
                  Inl e \<Rightarrow> Inl e
                | Inr (m', n') \<Rightarrow> unmarshal_loop field_step (drop n' (drop n data)) m'))"
  by auto
termination
  by (relation "measure (\<lambda>(s, data, m). length data)") (auto dest!: consumeTag_bounds)

declare unmarshal_loop.simps [simp del]

definition skip_step :: "nat \<Rightarrow> bytes \<Rightarrow> 'm \<Rightarrow> wire_error + 'm \<times> nat" where
  "skip_step wire data m = (case skipField data wire of Inl e \<Rightarrow> Inl e | Inr n \<Rightarrow> Inr (m, n))"

definition discardAll :: "bytes \<Rightarrow> wire_error + unit" where
  "discardAll data = unmarshal_loop (\<lambda>field. skip_step) data ()"

section \<open>Varints\<close>

lemma appendVarint_append: "appendVarint b v = b @ appendVarint [] v"
proof (induction "unat v" arbitrary: b v rule: less_induct)
  case less
  show ?case
  proof (cases "v \<ge> 0x80")
    case True
    note ih = less [OF shift_smaller [OF True]]
    show ?thesis
      using True ih [of "b @ [ucast v OR 0x80]"] ih [of "[ucast v OR 0x80]"]
      by (simp add: appendVarint.simps [of b v] appendVarint.simps [of "[]" v])
  next
    case False
    then show ?thesis by (simp add: appendVarint.simps)
  qed
qed

lemma low_seven: "(0x7f :: 8 word) = mask 7" and high_bit: "(0x80 :: 8 word) = push_bit 7 1"
  by (simp_all add: mask_eq_exp_minus_1)

lemma varint_step:
  fixes v :: "64 word"
  shows "(ucast ((ucast v OR 0x80 :: 8 word) AND 0x7f) :: 64 word) = v AND mask 7"
  unfolding low_seven high_bit by (intro bit_word_eqI) (auto simp: bit_simps simp del: push_bit_numeral push_bit_of_1)

lemma varint_step_continues: "\<not> (ucast v OR 0x80 :: 8 word) < 0x80"
proof -
  have "(0x80 :: 8 word) \<le> 0x80 OR ucast v" by (rule le_word_or2)
  then have "(0x80 :: 8 word) \<le> ucast v OR 0x80" by (simp only: or.commute)
  then show ?thesis by simp
qed

lemma low_bits:
  fixes v :: "64 word"
  shows "(ucast ((ucast v :: 8 word) AND 0x7f) :: 64 word) = v AND mask 7"
  unfolding low_seven by (intro bit_word_eqI) (auto simp: bit_simps)

lemma varint_last:
  fixes v :: "64 word"
  assumes "v < 0x80"
  shows "(ucast ((ucast v :: 8 word) AND 0x7f) :: 64 word) = v" "(ucast v :: 8 word) < 0x80"
proof -
  have u: "unat v < 2 ^ 7" using assms by (simp add: word_less_nat_alt)
  have "v AND mask 7 = v"
    unfolding take_bit_eq_mask [symmetric]
    by (rule word_unat_eq_iff [THEN iffD2]) (simp only: unsigned_take_bit_eq take_bit_nat_eq_self [OF u])
  then show "(ucast ((ucast v :: 8 word) AND 0x7f) :: 64 word) = v" unfolding low_bits .
  have "take_bit 8 (unat v) < 128" using u le_less_trans [OF take_bit_nat_less_eq_self, of "unat v" _ 8] by simp
  then show "(ucast v :: 8 word) < 0x80" by (simp add: word_less_nat_alt unsigned_ucast_eq)
qed

lemma varint_split:
  fixes v :: "64 word"
  shows "push_bit k (v AND mask 7) OR push_bit (7 + k) (drop_bit 7 v) = push_bit k v"
proof (intro bit_word_eqI)
  fix n assume "n < LENGTH(64)"
  moreover have "7 + (n - (7 + k)) = n - k" if "7 + k \<le> n" using that by simp
  ultimately show "bit (push_bit k (v AND mask 7) OR push_bit (7 + k) (drop_bit 7 v)) n = bit (push_bit k v) n"
    by (cases "7 + k \<le> n") (auto simp: bit_simps)
qed

lemma appendVarint_not_empty: "appendVarint [] v \<noteq> []"
  by (simp add: appendVarint.simps [of "[]" v] appendVarint_append [of "[_]"])

lemma varint_from_append:
  assumes "unat v < 2 ^ (64 - 7 * i)" and "i < 10"
  shows "varint_from i acc (appendVarint [] v @ rest)
    = Some (acc OR push_bit (7 * i) v, i + length (appendVarint [] v))"
  using assms
proof (induction "unat v" arbitrary: v i acc rule: less_induct)
  case less
  show ?case
  proof (cases "v \<ge> 0x80")
    case True
    have big: "128 \<le> unat v" using True by (simp add: word_le_nat_alt)
    have i: "i < 9"
    proof (rule ccontr)
      assume "\<not> i < 9"
      then have "i = 9" using less.prems by simp
      then show False using less.prems big by simp
    qed
    have small: "unat (drop_bit 7 v) < 2 ^ (64 - 7 * (i + 1))"
    proof -
      have "(2 :: nat) ^ (64 - 7 * i) = 2 ^ 7 * 2 ^ (64 - 7 * (i + 1))"
        unfolding power_add [symmetric] using i by (intro arg_cong [of _ _ "power 2"]) simp
      then have "unat v div 2 ^ 7 < 2 ^ (64 - 7 * (i + 1))"
        using less.prems(1) by (intro less_mult_imp_div_less) (simp add: mult.commute)
      then show ?thesis by (simp only: unat_drop_bit_eq drop_bit_eq_div [of 7 "unat v"])
    qed
    have e: "appendVarint [] v = (ucast v OR 0x80) # appendVarint [] (drop_bit 7 v)"
      using True appendVarint_append [of "[ucast v OR 0x80]"] by (simp add: appendVarint.simps [of "[]" v])
    have "varint_from i acc (appendVarint [] v @ rest)
      = varint_from (i + 1) (acc OR push_bit (7 * i) (v AND mask 7)) (appendVarint [] (drop_bit 7 v) @ rest)"
      using i varint_step_continues [of v] by (simp add: e varint_step Let_def)
    also have "\<dots> = Some ((acc OR push_bit (7 * i) (v AND mask 7)) OR push_bit (7 * (i + 1)) (drop_bit 7 v),
        i + 1 + length (appendVarint [] (drop_bit 7 v)))"
      using less.hyps [OF shift_smaller [OF True] small] i by simp
    also have "(acc OR push_bit (7 * i) (v AND mask 7)) OR push_bit (7 * (i + 1)) (drop_bit 7 v) = acc OR push_bit (7 * i) v"
      using varint_split [of "7 * i" v] by (simp add: or.assoc)
    finally show ?thesis by (simp add: e)
  next
    case False
    then have "v < 0x80" by simp
    from varint_last [OF this] show ?thesis
      using less.prems by (simp add: appendVarint.simps [of "[]" v] False Let_def)
  qed
qed

lemma consume_appended_varint:
  "consumeVarint (appendVarint [] v @ rest) = Inr (v, length (appendVarint [] v))"
proof -
  have "unat v < 2 ^ (64 - 7 * 0)" using unsigned_less [of v] by simp
  from varint_from_append [OF this, of 0 rest] show ?thesis by (simp add: consumeVarint_def)
qed

section \<open>Fields\<close>

lemma appendTag_append: "appendTag b field wire = b @ appendTag [] field wire"
  by (simp add: appendTag_def appendVarint_append [of b])

lemma small_nat_bit: "m < 2 ^ k \<Longrightarrow> k \<le> n \<Longrightarrow> \<not> bit (m :: nat) n"
  by (metis bit_iff_odd div_less even_zero less_le_trans one_le_numeral power_increasing)

lemma tag_word:
  assumes "field < 2 ^ 61" and "wire < 8"
  shows "drop_bit 3 (push_bit 3 (word_of_nat field) OR word_of_nat wire :: 64 word) = word_of_nat field"
    and "(push_bit 3 (word_of_nat field) OR word_of_nat wire :: 64 word) AND 7 = word_of_nat wire"
proof -
  have f: "\<not> bit field n" if "61 \<le> n" for n using small_nat_bit [OF assms(1) that] .
  have w: "\<not> bit wire n" if "3 \<le> n" for n using small_nat_bit [of wire 3 n] assms(2) that by simp
  have seven: "(7 :: 64 word) = mask 3" by (simp add: mask_eq_exp_minus_1)
  show "drop_bit 3 (push_bit 3 (word_of_nat field) OR word_of_nat wire :: 64 word) = word_of_nat field"
  proof (intro bit_word_eqI)
    fix n assume "n < LENGTH(64)"
    then show "bit (drop_bit 3 (push_bit 3 (word_of_nat field) OR word_of_nat wire :: 64 word)) n = bit (word_of_nat field :: 64 word) n"
      using f [of n] w [of "3 + n"] by (cases "n < 61") (auto simp: bit_simps)
  qed
  show "(push_bit 3 (word_of_nat field) OR word_of_nat wire :: 64 word) AND 7 = word_of_nat wire"
    unfolding seven using w by (intro bit_word_eqI) (auto simp: bit_simps not_le [symmetric])
qed

lemma consume_appended_tag:
  assumes "0 < field" "field < 2 ^ 61" and "wire < 8"
  shows "consumeTag (appendTag [] field wire @ rest) = Inr (field, wire, length (appendTag [] field wire))"
proof -
  let ?v = "push_bit 3 (word_of_nat field) OR word_of_nat wire :: 64 word"
  have u: "unat (word_of_nat field :: 64 word) = field" "unat (word_of_nat wire :: 64 word) = wire"
    using assms by (simp_all add: unsigned_of_nat take_bit_nat_eq_self)
  have "(word_of_nat field :: 64 word) \<noteq> 0" using u(1) assms(1) by (metis less_irrefl unsigned_0)
  then show ?thesis
    using consume_appended_varint [of ?v rest] tag_word [OF assms(2,3)] u by (simp add: consumeTag_def appendTag_def)
qed

lemma consume_appended_bytes:
  assumes "length v < 2 ^ 63" and "length rest < 2 ^ 63"
  shows "consumeLengthDelimited (appendVarint [] (word_of_nat (length v)) @ v @ rest)
    = Inr (v, length (appendVarint [] (word_of_nat (length v))) + length v)"
proof -
  have u: "unat (word_of_nat (length v) :: 64 word) = length v"
    "unat (word_of_nat (length v + length rest) :: 64 word) = length v + length rest"
    using assms by (simp_all add: unsigned_of_nat take_bit_nat_eq_self del: of_nat_add)
  then have "\<not> (word_of_nat (length v) :: 64 word) > word_of_nat (length v + length rest)"
    by (simp add: word_less_nat_alt)
  then show ?thesis
    using u(1) by (simp add: consumeLengthDelimited_def consume_appended_varint)
qed

lemma little_endian_round_trip: "from_little_endian (little_endian v @ rest) = v"
proof (intro bit_word_eqI)
  fix n assume n: "n < LENGTH(64)"
  have byte: "bit (push_bit m (ucast (ucast (drop_bit m v) :: 8 word)) :: 64 word) n \<longleftrightarrow> m \<le> n \<and> n < m + 8 \<and> bit v n" for m
    using n by (cases "m \<le> n") (auto simp: bit_simps)
  have low: "bit (ucast (ucast v :: 8 word) :: 64 word) n \<longleftrightarrow> n < 8 \<and> bit v n"
    using n by (auto simp: bit_simps)
  show "bit (from_little_endian (little_endian v @ rest)) n = bit v n"
    using n by (auto simp: from_little_endian_def little_endian_def bit_or_iff byte low)
qed

section \<open>The loop over encoded fields\<close>

text \<open>The three shapes of a case of a decoder's switch.\<close>

definition varint_field :: "(64 word \<Rightarrow> 'm \<Rightarrow> 'm) \<Rightarrow> nat \<Rightarrow> nat \<Rightarrow> bytes \<Rightarrow> 'm \<Rightarrow> wire_error + 'm \<times> nat" where
  "varint_field put field wire data m =
     (case consumeVarintField data wire field of Inl e \<Rightarrow> Inl e | Inr (v, n) \<Rightarrow> Inr (put v m, n))"

definition bytes_field :: "(bytes \<Rightarrow> 'm \<Rightarrow> wire_error + 'm) \<Rightarrow> nat \<Rightarrow> nat \<Rightarrow> bytes \<Rightarrow> 'm \<Rightarrow> wire_error + 'm \<times> nat" where
  "bytes_field put field wire data m =
     (case consumeBytesField data wire field of
        Inl e \<Rightarrow> Inl e
      | Inr (v, n) \<Rightarrow> (case put v m of Inl e \<Rightarrow> Inl e | Inr m' \<Rightarrow> Inr (m', n)))"

definition double_field :: "(float_bits \<Rightarrow> 'm \<Rightarrow> 'm) \<Rightarrow> nat \<Rightarrow> nat \<Rightarrow> bytes \<Rightarrow> 'm \<Rightarrow> wire_error + 'm \<times> nat" where
  "double_field put field wire data m =
     (case consumeDoubleField data wire field of Inl e \<Rightarrow> Inl e | Inr (v, n) \<Rightarrow> Inr (put v m, n))"

lemma loop_end [simp]: "unmarshal_loop step [] m = Inr m"
  by (simp add: unmarshal_loop.simps)

lemma loop_tag:
  assumes "0 < field" "field < 2 ^ 61" "wire < 8"
  shows "unmarshal_loop step (appendTag [] field wire @ rest) m =
    (case step field wire rest m of Inl e \<Rightarrow> Inl e | Inr (m', n) \<Rightarrow> unmarshal_loop step (drop n rest) m')"
proof -
  have "appendTag [] field wire \<noteq> []" by (simp add: appendTag_def appendVarint_not_empty)
  then show ?thesis
    using consume_appended_tag [OF assms, of rest]
    by (subst unmarshal_loop.simps) (simp split: sum.splits)
qed

lemma loop_uint32:
  assumes "step field = varint_field put field" "0 < field" "field < 2 ^ 61"
  shows "unmarshal_loop step (appendUint32 [] field v @ rest) m
    = unmarshal_loop step rest (if v = 0 then m else put (ucast v) m)"
proof (cases "v = 0")
  case False
  then have "appendUint32 [] field v @ rest = appendTag [] field wireVarint @ appendVarint [] (ucast v) @ rest"
    by (simp add: appendUint32_def appendVarint_append [of "appendTag [] field wireVarint"])
  then show ?thesis
    using loop_tag [OF assms(2,3), of wireVarint step "appendVarint [] (ucast v) @ rest" m] False assms(1)
    by (simp add: varint_field_def consumeVarintField_def consume_appended_varint wireVarint_def)
qed (simp add: appendUint32_def)

lemma consume_one: "consumeVarint (1 # rest) = Inr (1, 1)"
  by (simp add: consumeVarint_def Let_def)

lemma loop_bool:
  assumes "step field = varint_field put field" "0 < field" "field < 2 ^ 61"
  shows "unmarshal_loop step (appendBool [] field v @ rest) m
    = unmarshal_loop step rest (if v then put 1 m else m)"
proof (cases v)
  case True
  then show ?thesis
    using loop_tag [OF assms(2,3), of wireVarint step "1 # rest" m] assms(1)
    by (simp add: varint_field_def consumeVarintField_def consume_one wireVarint_def appendBool_def)
qed (simp add: appendBool_def)

lemma loop_double:
  assumes "step field = double_field put field" "0 < field" "field < 2 ^ 61"
  shows "unmarshal_loop step (appendDouble [] field v @ rest) m
    = unmarshal_loop step rest (if v = 0 then m else put v m)"
proof (cases "v = 0")
  case False
  have "length (little_endian v) = 8" by (simp add: little_endian_def)
  then show ?thesis
    using loop_tag [OF assms(2,3), of wireFixed64 step "little_endian v @ rest" m] assms(1) False
    by (simp add: double_field_def consumeDoubleField_def little_endian_round_trip wireFixed64_def appendDouble_def)
qed (simp add: appendDouble_def)

lemma loop_message:
  assumes "step field = bytes_field put field" "0 < field" "field < 2 ^ 61"
    and "length (appendMessage [] field v @ rest) < 2 ^ 63"
  shows "unmarshal_loop step (appendMessage [] field v @ rest) m
    = (case put v m of Inl e \<Rightarrow> Inl e | Inr m' \<Rightarrow> unmarshal_loop step rest m')"
proof -
  let ?n = "appendVarint [] (word_of_nat (length v))"
  have e: "appendMessage [] field v @ rest = appendTag [] field wireBytes @ ?n @ v @ rest"
    by (simp add: appendMessage_def appendVarint_append [of "appendTag [] field wireBytes"])
  then have "length v < 2 ^ 63" "length rest < 2 ^ 63" using assms(4) by simp_all
  then show ?thesis
    using loop_tag [OF assms(2,3), of wireBytes step "?n @ v @ rest" m] assms(1) consume_appended_bytes [of v rest] e
    by (simp add: bytes_field_def consumeBytesField_def wireBytes_def split: sum.splits)
qed

lemma loop_string:
  assumes "step field = bytes_field put field" "0 < field" "field < 2 ^ 61"
    and "length (appendString [] field v @ rest) < 2 ^ 63"
  shows "unmarshal_loop step (appendString [] field v @ rest) m
    = (if v = [] then unmarshal_loop step rest m
       else case put v m of Inl e \<Rightarrow> Inl e | Inr m' \<Rightarrow> unmarshal_loop step rest m')"
proof (cases "v = []")
  case False
  then have "appendString [] field v = appendMessage [] field v" by (simp add: appendString_def appendMessage_def)
  then show ?thesis using loop_message [of step field put v rest m] assms False by simp
qed (simp add: appendString_def)

lemma loop_bytes:
  assumes "step field = bytes_field put field" "0 < field" "field < 2 ^ 61"
    and "length (appendBytes [] field v @ rest) < 2 ^ 63"
  shows "unmarshal_loop step (appendBytes [] field v @ rest) m
    = (if v = [] then unmarshal_loop step rest m
       else case put v m of Inl e \<Rightarrow> Inl e | Inr m' \<Rightarrow> unmarshal_loop step rest m')"
  using loop_string [of step field put v rest m] assms by (simp add: appendBytes_def appendString_def)

lemma uint32_kept [simp]: "ucast (ucast v :: 64 word) = (v :: 32 word)"
  by (intro bit_word_eqI) (auto simp: bit_simps)

lemma append_fields:
  "appendUint32 b field v = b @ appendUint32 [] field v" "appendBool b field x = b @ appendBool [] field x"
  "appendDouble b field d = b @ appendDouble [] field d" "appendString b field t = b @ appendString [] field t"
  "appendBytes b field t = b @ appendBytes [] field t" "appendMessage b field t = b @ appendMessage [] field t"
  by (simp_all add: appendUint32_def appendBool_def appendDouble_def appendString_def appendBytes_def appendMessage_def
      appendTag_append [of b] appendVarint_append [of "b @ _"] appendVarint_append [of "appendTag [] _ _"])

section \<open>Fields a newer agent may add\<close>

definition skip_unknown :: "nat set \<Rightarrow> nat \<Rightarrow> nat \<Rightarrow> bytes \<Rightarrow> unit \<Rightarrow> wire_error + unit \<times> nat" where
  "skip_unknown known field wire data m = (if field \<in> known then Inl Field_Zero else skip_step wire data m)"

text \<open>Well-formed fields whose numbers the message does not declare.\<close>

definition unknown_fields :: "nat set \<Rightarrow> bytes \<Rightarrow> bool" where
  "unknown_fields known data \<longleftrightarrow> unmarshal_loop (skip_unknown known) data () = Inr ()"

lemma varint_from_local: "varint_from i v a = Some r \<Longrightarrow> varint_from i v (a @ b) = Some r"
  by (induction i v a rule: varint_from.induct) (auto simp: Let_def split: if_splits)

lemma consumeVarint_local: "consumeVarint a = Inr r \<Longrightarrow> consumeVarint (a @ b) = Inr r"
  by (auto simp: consumeVarint_def varint_from_local split: option.splits if_splits)

lemma consumeTag_local: "consumeTag a = Inr r \<Longrightarrow> consumeTag (a @ b) = Inr r"
  by (auto simp: consumeTag_def consumeVarint_local split: sum.splits if_splits)

lemma skipField_local:
  assumes "skipField a wire = Inr n" and "length (a @ b) < 2 ^ 63"
  shows "skipField (a @ b) wire = Inr n" "n \<le> length a"
proof -
  have "consumeLengthDelimited (a @ b) = Inr (v, k) \<and> k \<le> length a" if found: "consumeLengthDelimited a = Inr (v, k)" for v k
  proof -
    obtain len c where c: "consumeVarint a = Inr (len, c)" "\<not> len > word_of_nat (length a - c)" "v = take (unat len) (drop c a)"
      "k = c + unat len"
      using found by (auto simp: consumeLengthDelimited_def split: sum.splits if_splits)
    have ca: "c \<le> length a" using consumeVarint_bounds [OF c(1)] by simp
    have u: "unat (word_of_nat (length a - c) :: 64 word) = length a - c"
      "unat (word_of_nat (length (a @ b) - c) :: 64 word) = length (a @ b) - c"
      using assms(2) ca by (simp_all add: unsigned_of_nat take_bit_nat_eq_self del: of_nat_diff of_nat_add)
    have le: "unat len \<le> length a - c" using c(2) u(1) by (simp add: word_less_nat_alt not_less)
    have "\<not> len > word_of_nat (length (a @ b) - c)"
      using le u(2) ca by (simp add: word_less_nat_alt not_less)
    then show ?thesis
      using c le ca consumeVarint_local [OF c(1), of b] by (auto simp: consumeLengthDelimited_def)
  qed
  then show "skipField (a @ b) wire = Inr n" "n \<le> length a"
    using assms(1) consumeVarint_local [of a _ b] consumeVarint_bounds [of a]
    by (auto simp: skipField_def split: sum.splits if_splits)
qed

lemma loop_unknown:
  assumes "unknown_fields known a" and "length (a @ b) < 2 ^ 63"
    and "\<And>field wire data m. field \<notin> known \<Longrightarrow> step field wire data m = skip_step wire data m"
  shows "unmarshal_loop step (a @ b) m = unmarshal_loop step b m"
  using assms(1,2)
proof (induction "length a" arbitrary: a rule: less_induct)
  case less
  show ?case
  proof (cases "a = []")
    case False
    have "unmarshal_loop (skip_unknown known) a () = Inr ()" using less.prems by (simp add: unknown_fields_def)
    then obtain field wire n k where t: "consumeTag a = Inr (field, wire, n)" "field \<notin> known"
        "skipField (drop n a) wire = Inr k" "unknown_fields known (drop k (drop n a))"
      using False by (subst (asm) unmarshal_loop.simps)
        (auto simp: skip_unknown_def skip_step_def unknown_fields_def split: sum.splits if_splits)
    have n: "0 < n" "n \<le> length a" using consumeTag_bounds [OF t(1)] by auto
    have k: "skipField (drop n a @ b) wire = Inr k" "k \<le> length (drop n a)"
      using skipField_local [OF t(3), of b] less.prems(2) by auto
    have "unmarshal_loop step (a @ b) m = unmarshal_loop step (drop k (drop n a) @ b) m"
      using consumeTag_local [OF t(1), of b] n k assms(3) [OF t(2)] False
      by (subst unmarshal_loop.simps) (simp add: skip_step_def)
    also have "\<dots> = unmarshal_loop step b m"
      using n k less.prems(2) False by (intro less.hyps t(4)) auto
    finally show ?thesis .
  qed simp
qed

text \<open>The contract of a message: what its decoder makes of its own encoding, and of fields it does not declare.\<close>

locale codec =
  fixes marshal :: "'m \<Rightarrow> bytes"
    and field_step :: "nat \<Rightarrow> nat \<Rightarrow> bytes \<Rightarrow> 'm \<Rightarrow> wire_error + 'm \<times> nat"
    and initial :: 'm
    and known :: "nat set"
  assumes decodes: "length (marshal m @ rest) < 2 ^ 63 \<Longrightarrow>
      unmarshal_loop field_step (marshal m @ rest) initial = unmarshal_loop field_step rest m"
    and skips: "field \<notin> known \<Longrightarrow> field_step field wire data m = skip_step wire data m"
begin

lemma round_trip: "length (marshal m) < 2 ^ 63 \<Longrightarrow> unmarshal_loop field_step (marshal m) initial = Inr m"
  using decodes [of m "[]"] by simp

lemma newer_fields:
  assumes "unknown_fields known a" "unknown_fields known b" "length (a @ marshal m @ b) < 2 ^ 63"
  shows "unmarshal_loop field_step (a @ marshal m @ b) initial = Inr m"
  using loop_unknown [OF assms(1,3) skips] decodes [of m b] loop_unknown [OF assms(2) _ skips, of "[]"] assms(3)
  by simp

end

text \<open>Every 64-bit value survives the varint encoding, whatever follows it in the frame: the decoder
  returns the value and exactly the length that was written.\<close>

theorem varint_round_trip: "consumeVarint (appendVarint [] v @ rest) = Inr (v, length (appendVarint [] v))"
  by (rule consume_appended_varint)

lemma length_delimited_bounds:
  assumes "consumeLengthDelimited data = Inr (v, n)" "length data < 2 ^ 63"
  shows "0 < n \<and> n \<le> length data \<and> (\<exists>k. v = take (n - k) (drop k data) \<and> k \<le> n)"
proof -
  obtain len c where c: "consumeVarint data = Inr (len, c)" "\<not> len > word_of_nat (length data - c)"
      "v = take (unat len) (drop c data)" "n = c + unat len"
    using assms(1) by (auto simp: consumeLengthDelimited_def split: sum.splits if_splits)
  have "unat (word_of_nat (length data - c) :: 64 word) = length data - c"
    using assms(2) by (simp add: unsigned_of_nat take_bit_nat_eq_self del: of_nat_diff)
  then have "unat len \<le> length data - c" using c(2) by (simp add: word_less_nat_alt not_less)
  then show ?thesis using c consumeVarint_bounds [OF c(1)] by (auto intro!: exI [of _ c])
qed

text \<open>No consumer of the wire format steps outside its frame: the position it returns lies after what
  it read and not past the end, so the slices that follow it never panic, whatever bytes the agent sent.\<close>

theorem consumers_stay_in_frame:
  assumes "length data < 2 ^ 63"
  shows "(\<forall>v n. consumeVarint data = Inr (v, n) \<longrightarrow> 0 < n \<and> n \<le> length data \<and> n \<le> 10)
    \<and> (\<forall>field wire n. consumeTag data = Inr (field, wire, n) \<longrightarrow> 0 < field \<and> wire < 8 \<and> 0 < n \<and> n \<le> length data)
    \<and> (\<forall>v n. consumeLengthDelimited data = Inr (v, n) \<longrightarrow> length v < n \<and> n \<le> length data)
    \<and> (\<forall>wire n. skipField data wire = Inr n \<longrightarrow> 0 < n \<and> n \<le> length data)"
proof (intro conjI allI impI)
  show "length v < n" if d: "consumeLengthDelimited data = Inr (v, n)" for v n
    using d consumeVarint_bounds by (fastforce simp: consumeLengthDelimited_def split: sum.splits if_splits)
  show "0 < n" if "skipField data wire = Inr n" for wire n
    using that consumeVarint_bounds [of data] length_delimited_bounds [OF _ assms]
    by (auto simp: skipField_def split: sum.splits if_splits)
  show "n \<le> length data" if "skipField data wire = Inr n" for wire n
    using that consumeVarint_bounds [of data] length_delimited_bounds [OF _ assms]
    by (auto simp: skipField_def split: sum.splits if_splits)
qed (use consumeVarint_bounds consumeTag_bounds length_delimited_bounds [OF _ assms] in auto)

lemma consumers_stay_in_frame_witness:
  "consumeLengthDelimited [2, 7, 8, 9] = Inr ([7, 8], 3) \<and> skipField [2, 7, 8, 9] 2 = Inr 3 \<and> (3 :: nat) \<le> 4"
proof -
  have d: "consumeLengthDelimited [2, 7, 8, 9] = Inr ([7, 8], 3)"
    by (simp add: consumeLengthDelimited_def consumeVarint_def Let_def)
  moreover from d have "skipField [2, 7, 8, 9] 2 = Inr 3" by (simp add: skipField_def wire_types)
  ultimately show ?thesis using consumers_stay_in_frame [of "[2, 7, 8, 9]"] by simp
qed

text \<open>A varint of ten bytes whose last byte carries bits above the 64th is accepted, and its high bits are
  dropped: two different encodings of a number that does not fit decode to the same value as one that does.\<close>

theorem overflowing_varint_accepted:
  "consumeVarint (replicate 9 0x80 @ [0x7e]) = Inr (0, 10) \<and> consumeVarint (replicate 9 0x80 @ [0x02]) = Inr (0, 10)"
proof -
  have nine: "replicate 9 (0x80 :: 8 word) = [0x80, 0x80, 0x80, 0x80, 0x80, 0x80, 0x80, 0x80, 0x80]"
    by (simp add: eval_nat_numeral)
  show ?thesis unfolding nine by (simp add: consumeVarint_def Let_def)
qed

end
