(* ===== verification/Messages.thy ===== *)
theory Messages
  imports Wire
begin

unbundle bit_operations_syntax

text \<open>
  The messages of the Android agent (\<^verbatim>\<open>internal/android/pbwire/messages.go\<close>), each with its encoder, the
  switch of its decoder and the decoder itself. Every message with fields is an instance of the \<open>codec\<close>
  contract of theory Wire; the two that embed another message use that message's instance.
\<close>

section \<open>Messages without fields\<close>

definition no_fields_marshal :: "unit \<Rightarrow> bytes" where
  "no_fields_marshal m = []"

definition no_fields_unmarshal :: "bytes \<Rightarrow> wire_error + unit" where
  "no_fields_unmarshal data = discardAll data"

interpretation no_fields: codec no_fields_marshal "\<lambda>field. skip_step" "()" "{}"
  by unfold_locales (simp_all add: no_fields_marshal_def)

section \<open>Messages with scalar fields\<close>

record device_info =
  WidthPixels :: "32 word"
  HeightPixels :: "32 word"

definition device_info_marshal :: "device_info \<Rightarrow> bytes" where
  "device_info_marshal m = appendUint32 (appendUint32 [] 1 (WidthPixels m)) 2 (HeightPixels m)"

definition device_info_step :: "nat \<Rightarrow> nat \<Rightarrow> bytes \<Rightarrow> device_info \<Rightarrow> wire_error + device_info \<times> nat" where
  "device_info_step field =
     (if field = 1 then varint_field (\<lambda>v m. m\<lparr>WidthPixels := ucast v\<rparr>) field else
      if field = 2 then varint_field (\<lambda>v m. m\<lparr>HeightPixels := ucast v\<rparr>) field else skip_step)"

definition no_device_info :: device_info where
  "no_device_info = \<lparr>WidthPixels = 0, HeightPixels = 0\<rparr>"

definition device_info_unmarshal :: "bytes \<Rightarrow> wire_error + device_info" where
  "device_info_unmarshal data = unmarshal_loop device_info_step data no_device_info"

lemma device_info_fields:
  "device_info_step 1 = varint_field (\<lambda>v m. m\<lparr>WidthPixels := ucast v\<rparr>) 1"
  "device_info_step 2 = varint_field (\<lambda>v m. m\<lparr>HeightPixels := ucast v\<rparr>) 2"
  by (simp_all add: device_info_step_def)

lemmas device_info_loops =
  loop_uint32 [where step = device_info_step and field = 1, OF device_info_fields(1)]
  loop_uint32 [where step = device_info_step and field = 2, OF device_info_fields(2)]

interpretation device_info: codec device_info_marshal device_info_step no_device_info "{1, 2}"
proof
  show "length (device_info_marshal m @ rest) < 2 ^ 63 \<Longrightarrow> unmarshal_loop device_info_step (device_info_marshal m @ rest) no_device_info
      = unmarshal_loop device_info_step rest m" for m rest
    by (cases m) (simp add: device_info_marshal_def append_fields [of "appendUint32 _ _ _"] no_device_info_def device_info_loops del: One_nat_def)
qed (simp add: device_info_step_def)

record view_hierarchy_request =
  ExcludeKeyboardElements :: bool

definition view_hierarchy_request_marshal :: "view_hierarchy_request \<Rightarrow> bytes" where
  "view_hierarchy_request_marshal m = appendBool [] 1 (ExcludeKeyboardElements m)"

definition view_hierarchy_request_step :: "nat \<Rightarrow> nat \<Rightarrow> bytes \<Rightarrow> view_hierarchy_request \<Rightarrow> wire_error + view_hierarchy_request \<times> nat" where
  "view_hierarchy_request_step field =
     (if field = 1 then varint_field (\<lambda>v m. m\<lparr>ExcludeKeyboardElements := (v \<noteq> 0)\<rparr>) field else skip_step)"

definition no_view_hierarchy_request :: view_hierarchy_request where
  "no_view_hierarchy_request = \<lparr>ExcludeKeyboardElements = False\<rparr>"

definition view_hierarchy_request_unmarshal :: "bytes \<Rightarrow> wire_error + view_hierarchy_request" where
  "view_hierarchy_request_unmarshal data = unmarshal_loop view_hierarchy_request_step data no_view_hierarchy_request"

lemma view_hierarchy_request_fields:
  "view_hierarchy_request_step 1 = varint_field (\<lambda>v m. m\<lparr>ExcludeKeyboardElements := (v \<noteq> 0)\<rparr>) 1"
  by (simp_all add: view_hierarchy_request_step_def)

lemmas view_hierarchy_request_loops = loop_bool [where step = view_hierarchy_request_step and field = 1, OF view_hierarchy_request_fields]

interpretation view_hierarchy_request: codec view_hierarchy_request_marshal view_hierarchy_request_step no_view_hierarchy_request "{1}"
proof
  show "length (view_hierarchy_request_marshal m @ rest) < 2 ^ 63 \<Longrightarrow> unmarshal_loop view_hierarchy_request_step (view_hierarchy_request_marshal m @ rest) no_view_hierarchy_request
      = unmarshal_loop view_hierarchy_request_step rest m" for m rest
    by (cases m) (simp add: view_hierarchy_request_marshal_def no_view_hierarchy_request_def view_hierarchy_request_loops del: One_nat_def)
qed (simp add: view_hierarchy_request_step_def)

record view_hierarchy_response =
  HierarchyText :: bytes

definition view_hierarchy_response_marshal :: "view_hierarchy_response \<Rightarrow> bytes" where
  "view_hierarchy_response_marshal m = appendString [] 1 (HierarchyText m)"

definition view_hierarchy_response_step :: "nat \<Rightarrow> nat \<Rightarrow> bytes \<Rightarrow> view_hierarchy_response \<Rightarrow> wire_error + view_hierarchy_response \<times> nat" where
  "view_hierarchy_response_step field =
     (if field = 1 then bytes_field (\<lambda>v m. Inr (m\<lparr>HierarchyText := v\<rparr>)) field else skip_step)"

definition no_view_hierarchy_response :: view_hierarchy_response where
  "no_view_hierarchy_response = \<lparr>HierarchyText = []\<rparr>"

definition view_hierarchy_response_unmarshal :: "bytes \<Rightarrow> wire_error + view_hierarchy_response" where
  "view_hierarchy_response_unmarshal data = unmarshal_loop view_hierarchy_response_step data no_view_hierarchy_response"

lemma view_hierarchy_response_fields:
  "view_hierarchy_response_step 1 = bytes_field (\<lambda>v m. Inr (m\<lparr>HierarchyText := v\<rparr>)) 1"
  by (simp_all add: view_hierarchy_response_step_def)

lemmas view_hierarchy_response_loops = loop_string [where step = view_hierarchy_response_step and field = 1, OF view_hierarchy_response_fields]

interpretation view_hierarchy_response: codec view_hierarchy_response_marshal view_hierarchy_response_step no_view_hierarchy_response "{1}"
proof
  show "length (view_hierarchy_response_marshal m @ rest) < 2 ^ 63 \<Longrightarrow> unmarshal_loop view_hierarchy_response_step (view_hierarchy_response_marshal m @ rest) no_view_hierarchy_response
      = unmarshal_loop view_hierarchy_response_step rest m" for m rest
    by (cases m) (simp add: view_hierarchy_response_marshal_def no_view_hierarchy_response_def view_hierarchy_response_loops del: One_nat_def)
qed (simp add: view_hierarchy_response_step_def)

record screenshot_response =
  ScreenshotBytes :: bytes

definition screenshot_response_marshal :: "screenshot_response \<Rightarrow> bytes" where
  "screenshot_response_marshal m = appendBytes [] 1 (ScreenshotBytes m)"

definition screenshot_response_step :: "nat \<Rightarrow> nat \<Rightarrow> bytes \<Rightarrow> screenshot_response \<Rightarrow> wire_error + screenshot_response \<times> nat" where
  "screenshot_response_step field =
     (if field = 1 then bytes_field (\<lambda>v m. Inr (m\<lparr>ScreenshotBytes := v\<rparr>)) field else skip_step)"

definition no_screenshot_response :: screenshot_response where
  "no_screenshot_response = \<lparr>ScreenshotBytes = []\<rparr>"

definition screenshot_response_unmarshal :: "bytes \<Rightarrow> wire_error + screenshot_response" where
  "screenshot_response_unmarshal data = unmarshal_loop screenshot_response_step data no_screenshot_response"

lemma screenshot_response_fields:
  "screenshot_response_step 1 = bytes_field (\<lambda>v m. Inr (m\<lparr>ScreenshotBytes := v\<rparr>)) 1"
  by (simp_all add: screenshot_response_step_def)

lemmas screenshot_response_loops = loop_bytes [where step = screenshot_response_step and field = 1, OF screenshot_response_fields]

interpretation screenshot_response: codec screenshot_response_marshal screenshot_response_step no_screenshot_response "{1}"
proof
  show "length (screenshot_response_marshal m @ rest) < 2 ^ 63 \<Longrightarrow> unmarshal_loop screenshot_response_step (screenshot_response_marshal m @ rest) no_screenshot_response
      = unmarshal_loop screenshot_response_step rest m" for m rest
    by (cases m) (simp add: screenshot_response_marshal_def no_screenshot_response_def screenshot_response_loops del: One_nat_def)
qed (simp add: screenshot_response_step_def)

record tap_request =
  TapX :: "32 word"
  TapY :: "32 word"

definition tap_request_marshal :: "tap_request \<Rightarrow> bytes" where
  "tap_request_marshal m = appendUint32 (appendUint32 [] 1 (TapX m)) 2 (TapY m)"

definition tap_request_step :: "nat \<Rightarrow> nat \<Rightarrow> bytes \<Rightarrow> tap_request \<Rightarrow> wire_error + tap_request \<times> nat" where
  "tap_request_step field =
     (if field = 1 then varint_field (\<lambda>v m. m\<lparr>TapX := ucast v\<rparr>) field else
      if field = 2 then varint_field (\<lambda>v m. m\<lparr>TapY := ucast v\<rparr>) field else skip_step)"

definition no_tap_request :: tap_request where
  "no_tap_request = \<lparr>TapX = 0, TapY = 0\<rparr>"

definition tap_request_unmarshal :: "bytes \<Rightarrow> wire_error + tap_request" where
  "tap_request_unmarshal data = unmarshal_loop tap_request_step data no_tap_request"

lemma tap_request_fields:
  "tap_request_step 1 = varint_field (\<lambda>v m. m\<lparr>TapX := ucast v\<rparr>) 1"
  "tap_request_step 2 = varint_field (\<lambda>v m. m\<lparr>TapY := ucast v\<rparr>) 2"
  by (simp_all add: tap_request_step_def)

lemmas tap_request_loops =
  loop_uint32 [where step = tap_request_step and field = 1, OF tap_request_fields(1)]
  loop_uint32 [where step = tap_request_step and field = 2, OF tap_request_fields(2)]

interpretation tap_request: codec tap_request_marshal tap_request_step no_tap_request "{1, 2}"
proof
  show "length (tap_request_marshal m @ rest) < 2 ^ 63 \<Longrightarrow> unmarshal_loop tap_request_step (tap_request_marshal m @ rest) no_tap_request
      = unmarshal_loop tap_request_step rest m" for m rest
    by (cases m) (simp add: tap_request_marshal_def append_fields [of "appendUint32 _ _ _"] no_tap_request_def tap_request_loops del: One_nat_def)
qed (simp add: tap_request_step_def)

record input_text_request =
  InputText :: bytes

definition input_text_request_marshal :: "input_text_request \<Rightarrow> bytes" where
  "input_text_request_marshal m = appendString [] 1 (InputText m)"

definition input_text_request_step :: "nat \<Rightarrow> nat \<Rightarrow> bytes \<Rightarrow> input_text_request \<Rightarrow> wire_error + input_text_request \<times> nat" where
  "input_text_request_step field =
     (if field = 1 then bytes_field (\<lambda>v m. Inr (m\<lparr>InputText := v\<rparr>)) field else skip_step)"

definition no_input_text_request :: input_text_request where
  "no_input_text_request = \<lparr>InputText = []\<rparr>"

definition input_text_request_unmarshal :: "bytes \<Rightarrow> wire_error + input_text_request" where
  "input_text_request_unmarshal data = unmarshal_loop input_text_request_step data no_input_text_request"

lemma input_text_request_fields:
  "input_text_request_step 1 = bytes_field (\<lambda>v m. Inr (m\<lparr>InputText := v\<rparr>)) 1"
  by (simp_all add: input_text_request_step_def)

lemmas input_text_request_loops = loop_string [where step = input_text_request_step and field = 1, OF input_text_request_fields]

interpretation input_text_request: codec input_text_request_marshal input_text_request_step no_input_text_request "{1}"
proof
  show "length (input_text_request_marshal m @ rest) < 2 ^ 63 \<Longrightarrow> unmarshal_loop input_text_request_step (input_text_request_marshal m @ rest) no_input_text_request
      = unmarshal_loop input_text_request_step rest m" for m rest
    by (cases m) (simp add: input_text_request_marshal_def no_input_text_request_def input_text_request_loops del: One_nat_def)
qed (simp add: input_text_request_step_def)

record erase_all_text_request =
  CharactersToErase :: "32 word"

definition erase_all_text_request_marshal :: "erase_all_text_request \<Rightarrow> bytes" where
  "erase_all_text_request_marshal m = appendUint32 [] 1 (CharactersToErase m)"

definition erase_all_text_request_step :: "nat \<Rightarrow> nat \<Rightarrow> bytes \<Rightarrow> erase_all_text_request \<Rightarrow> wire_error + erase_all_text_request \<times> nat" where
  "erase_all_text_request_step field =
     (if field = 1 then varint_field (\<lambda>v m. m\<lparr>CharactersToErase := ucast v\<rparr>) field else skip_step)"

definition no_erase_all_text_request :: erase_all_text_request where
  "no_erase_all_text_request = \<lparr>CharactersToErase = 0\<rparr>"

definition erase_all_text_request_unmarshal :: "bytes \<Rightarrow> wire_error + erase_all_text_request" where
  "erase_all_text_request_unmarshal data = unmarshal_loop erase_all_text_request_step data no_erase_all_text_request"

lemma erase_all_text_request_fields:
  "erase_all_text_request_step 1 = varint_field (\<lambda>v m. m\<lparr>CharactersToErase := ucast v\<rparr>) 1"
  by (simp_all add: erase_all_text_request_step_def)

lemmas erase_all_text_request_loops = loop_uint32 [where step = erase_all_text_request_step and field = 1, OF erase_all_text_request_fields]

interpretation erase_all_text_request: codec erase_all_text_request_marshal erase_all_text_request_step no_erase_all_text_request "{1}"
proof
  show "length (erase_all_text_request_marshal m @ rest) < 2 ^ 63 \<Longrightarrow> unmarshal_loop erase_all_text_request_step (erase_all_text_request_marshal m @ rest) no_erase_all_text_request
      = unmarshal_loop erase_all_text_request_step rest m" for m rest
    by (cases m) (simp add: erase_all_text_request_marshal_def no_erase_all_text_request_def erase_all_text_request_loops del: One_nat_def)
qed (simp add: erase_all_text_request_step_def)

record set_location_request =
  Latitude :: float_bits
  Longitude :: float_bits

definition set_location_request_marshal :: "set_location_request \<Rightarrow> bytes" where
  "set_location_request_marshal m = appendDouble (appendDouble [] 1 (Latitude m)) 2 (Longitude m)"

definition set_location_request_step :: "nat \<Rightarrow> nat \<Rightarrow> bytes \<Rightarrow> set_location_request \<Rightarrow> wire_error + set_location_request \<times> nat" where
  "set_location_request_step field =
     (if field = 1 then double_field (\<lambda>v m. m\<lparr>Latitude := v\<rparr>) field else
      if field = 2 then double_field (\<lambda>v m. m\<lparr>Longitude := v\<rparr>) field else skip_step)"

definition no_set_location_request :: set_location_request where
  "no_set_location_request = \<lparr>Latitude = 0, Longitude = 0\<rparr>"

definition set_location_request_unmarshal :: "bytes \<Rightarrow> wire_error + set_location_request" where
  "set_location_request_unmarshal data = unmarshal_loop set_location_request_step data no_set_location_request"

lemma set_location_request_fields:
  "set_location_request_step 1 = double_field (\<lambda>v m. m\<lparr>Latitude := v\<rparr>) 1"
  "set_location_request_step 2 = double_field (\<lambda>v m. m\<lparr>Longitude := v\<rparr>) 2"
  by (simp_all add: set_location_request_step_def)

lemmas set_location_request_loops =
  loop_double [where step = set_location_request_step and field = 1, OF set_location_request_fields(1)]
  loop_double [where step = set_location_request_step and field = 2, OF set_location_request_fields(2)]

interpretation set_location_request: codec set_location_request_marshal set_location_request_step no_set_location_request "{1, 2}"
proof
  show "length (set_location_request_marshal m @ rest) < 2 ^ 63 \<Longrightarrow> unmarshal_loop set_location_request_step (set_location_request_marshal m @ rest) no_set_location_request
      = unmarshal_loop set_location_request_step rest m" for m rest
    by (cases m) (simp add: set_location_request_marshal_def append_fields [of "appendDouble _ _ _"] no_set_location_request_def set_location_request_loops del: One_nat_def)
qed (simp add: set_location_request_step_def)

record check_window_updating_request =
  AppID :: bytes

definition check_window_updating_request_marshal :: "check_window_updating_request \<Rightarrow> bytes" where
  "check_window_updating_request_marshal m = appendString [] 1 (AppID m)"

definition check_window_updating_request_step :: "nat \<Rightarrow> nat \<Rightarrow> bytes \<Rightarrow> check_window_updating_request \<Rightarrow> wire_error + check_window_updating_request \<times> nat" where
  "check_window_updating_request_step field =
     (if field = 1 then bytes_field (\<lambda>v m. Inr (m\<lparr>AppID := v\<rparr>)) field else skip_step)"

definition no_check_window_updating_request :: check_window_updating_request where
  "no_check_window_updating_request = \<lparr>AppID = []\<rparr>"

definition check_window_updating_request_unmarshal :: "bytes \<Rightarrow> wire_error + check_window_updating_request" where
  "check_window_updating_request_unmarshal data = unmarshal_loop check_window_updating_request_step data no_check_window_updating_request"

lemma check_window_updating_request_fields:
  "check_window_updating_request_step 1 = bytes_field (\<lambda>v m. Inr (m\<lparr>AppID := v\<rparr>)) 1"
  by (simp_all add: check_window_updating_request_step_def)

lemmas check_window_updating_request_loops = loop_string [where step = check_window_updating_request_step and field = 1, OF check_window_updating_request_fields]

interpretation check_window_updating_request: codec check_window_updating_request_marshal check_window_updating_request_step no_check_window_updating_request "{1}"
proof
  show "length (check_window_updating_request_marshal m @ rest) < 2 ^ 63 \<Longrightarrow> unmarshal_loop check_window_updating_request_step (check_window_updating_request_marshal m @ rest) no_check_window_updating_request
      = unmarshal_loop check_window_updating_request_step rest m" for m rest
    by (cases m) (simp add: check_window_updating_request_marshal_def no_check_window_updating_request_def check_window_updating_request_loops del: One_nat_def)
qed (simp add: check_window_updating_request_step_def)

record check_window_updating_response =
  IsWindowUpdating :: bool

definition check_window_updating_response_marshal :: "check_window_updating_response \<Rightarrow> bytes" where
  "check_window_updating_response_marshal m = appendBool [] 1 (IsWindowUpdating m)"

definition check_window_updating_response_step :: "nat \<Rightarrow> nat \<Rightarrow> bytes \<Rightarrow> check_window_updating_response \<Rightarrow> wire_error + check_window_updating_response \<times> nat" where
  "check_window_updating_response_step field =
     (if field = 1 then varint_field (\<lambda>v m. m\<lparr>IsWindowUpdating := (v \<noteq> 0)\<rparr>) field else skip_step)"

definition no_check_window_updating_response :: check_window_updating_response where
  "no_check_window_updating_response = \<lparr>IsWindowUpdating = False\<rparr>"

definition check_window_updating_response_unmarshal :: "bytes \<Rightarrow> wire_error + check_window_updating_response" where
  "check_window_updating_response_unmarshal data = unmarshal_loop check_window_updating_response_step data no_check_window_updating_response"

lemma check_window_updating_response_fields:
  "check_window_updating_response_step 1 = varint_field (\<lambda>v m. m\<lparr>IsWindowUpdating := (v \<noteq> 0)\<rparr>) 1"
  by (simp_all add: check_window_updating_response_step_def)

lemmas check_window_updating_response_loops = loop_bool [where step = check_window_updating_response_step and field = 1, OF check_window_updating_response_fields]

interpretation check_window_updating_response: codec check_window_updating_response_marshal check_window_updating_response_step no_check_window_updating_response "{1}"
proof
  show "length (check_window_updating_response_marshal m @ rest) < 2 ^ 63 \<Longrightarrow> unmarshal_loop check_window_updating_response_step (check_window_updating_response_marshal m @ rest) no_check_window_updating_response
      = unmarshal_loop check_window_updating_response_step rest m" for m rest
    by (cases m) (simp add: check_window_updating_response_marshal_def no_check_window_updating_response_def check_window_updating_response_loops del: One_nat_def)
qed (simp add: check_window_updating_response_step_def)

record argument_value =
  ArgumentKey :: bytes
  ArgumentText :: bytes
  ArgumentType :: bytes

definition argument_value_marshal :: "argument_value \<Rightarrow> bytes" where
  "argument_value_marshal m = appendString (appendString (appendString [] 1 (ArgumentKey m)) 2 (ArgumentText m)) 3 (ArgumentType m)"

definition argument_value_step :: "nat \<Rightarrow> nat \<Rightarrow> bytes \<Rightarrow> argument_value \<Rightarrow> wire_error + argument_value \<times> nat" where
  "argument_value_step field =
     (if field = 1 then bytes_field (\<lambda>v m. Inr (m\<lparr>ArgumentKey := v\<rparr>)) field else
      if field = 2 then bytes_field (\<lambda>v m. Inr (m\<lparr>ArgumentText := v\<rparr>)) field else
      if field = 3 then bytes_field (\<lambda>v m. Inr (m\<lparr>ArgumentType := v\<rparr>)) field else skip_step)"

definition no_argument_value :: argument_value where
  "no_argument_value = \<lparr>ArgumentKey = [], ArgumentText = [], ArgumentType = []\<rparr>"

definition argument_value_unmarshal :: "bytes \<Rightarrow> wire_error + argument_value" where
  "argument_value_unmarshal data = unmarshal_loop argument_value_step data no_argument_value"

lemma argument_value_fields:
  "argument_value_step 1 = bytes_field (\<lambda>v m. Inr (m\<lparr>ArgumentKey := v\<rparr>)) 1"
  "argument_value_step 2 = bytes_field (\<lambda>v m. Inr (m\<lparr>ArgumentText := v\<rparr>)) 2"
  "argument_value_step 3 = bytes_field (\<lambda>v m. Inr (m\<lparr>ArgumentType := v\<rparr>)) 3"
  by (simp_all add: argument_value_step_def)

lemmas argument_value_loops =
  loop_string [where step = argument_value_step and field = 1, OF argument_value_fields(1)]
  loop_string [where step = argument_value_step and field = 2, OF argument_value_fields(2)]
  loop_string [where step = argument_value_step and field = 3, OF argument_value_fields(3)]

interpretation argument_value: codec argument_value_marshal argument_value_step no_argument_value "{1, 2, 3}"
proof
  show "length (argument_value_marshal m @ rest) < 2 ^ 63 \<Longrightarrow> unmarshal_loop argument_value_step (argument_value_marshal m @ rest) no_argument_value
      = unmarshal_loop argument_value_step rest m" for m rest
    by (cases m) (simp add: argument_value_marshal_def append_fields [of "appendString _ _ _"] append_fields [of "_ @ _"] no_argument_value_def argument_value_loops del: One_nat_def)
qed (simp add: argument_value_step_def)

record media_payload =
  PayloadData :: bytes

definition media_payload_marshal :: "media_payload \<Rightarrow> bytes" where
  "media_payload_marshal m = appendBytes [] 1 (PayloadData m)"

definition media_payload_step :: "nat \<Rightarrow> nat \<Rightarrow> bytes \<Rightarrow> media_payload \<Rightarrow> wire_error + media_payload \<times> nat" where
  "media_payload_step field =
     (if field = 1 then bytes_field (\<lambda>v m. Inr (m\<lparr>PayloadData := v\<rparr>)) field else skip_step)"

definition no_media_payload :: media_payload where
  "no_media_payload = \<lparr>PayloadData = []\<rparr>"

definition media_payload_unmarshal :: "bytes \<Rightarrow> wire_error + media_payload" where
  "media_payload_unmarshal data = unmarshal_loop media_payload_step data no_media_payload"

lemma media_payload_fields:
  "media_payload_step 1 = bytes_field (\<lambda>v m. Inr (m\<lparr>PayloadData := v\<rparr>)) 1"
  by (simp_all add: media_payload_step_def)

lemmas media_payload_loops = loop_bytes [where step = media_payload_step and field = 1, OF media_payload_fields]

interpretation media_payload: codec media_payload_marshal media_payload_step no_media_payload "{1}"
proof
  show "length (media_payload_marshal m @ rest) < 2 ^ 63 \<Longrightarrow> unmarshal_loop media_payload_step (media_payload_marshal m @ rest) no_media_payload
      = unmarshal_loop media_payload_step rest m" for m rest
    by (cases m) (simp add: media_payload_marshal_def no_media_payload_def media_payload_loops del: One_nat_def)
qed (simp add: media_payload_step_def)

section \<open>Messages that embed a message\<close>

record launch_app_request =
  PackageName :: bytes
  LaunchArguments :: "argument_value list"

definition launch_app_request_marshal :: "launch_app_request \<Rightarrow> bytes" where
  "launch_app_request_marshal m =
     foldl (\<lambda>b a. appendMessage b 2 (argument_value_marshal a)) (appendString [] 1 (PackageName m)) (LaunchArguments m)"

definition launch_app_request_step
  :: "nat \<Rightarrow> nat \<Rightarrow> bytes \<Rightarrow> launch_app_request \<Rightarrow> wire_error + launch_app_request \<times> nat" where
  "launch_app_request_step field =
     (if field = 1 then bytes_field (\<lambda>v m. Inr (m\<lparr>PackageName := v\<rparr>)) field else
      if field = 2 then bytes_field (\<lambda>v m. case argument_value_unmarshal v of
          Inl e \<Rightarrow> Inl e | Inr a \<Rightarrow> Inr (m\<lparr>LaunchArguments := LaunchArguments m @ [a]\<rparr>)) field else
      skip_step)"

definition no_launch_app_request :: launch_app_request where
  "no_launch_app_request = \<lparr>PackageName = [], LaunchArguments = []\<rparr>"

definition launch_app_request_unmarshal :: "bytes \<Rightarrow> wire_error + launch_app_request" where
  "launch_app_request_unmarshal data = unmarshal_loop launch_app_request_step data no_launch_app_request"

lemma launch_app_request_fields:
  "launch_app_request_step 1 = bytes_field (\<lambda>v m. Inr (m\<lparr>PackageName := v\<rparr>)) 1"
  "launch_app_request_step 2 = bytes_field (\<lambda>v m. case argument_value_unmarshal v of
          Inl e \<Rightarrow> Inl e | Inr a \<Rightarrow> Inr (m\<lparr>LaunchArguments := LaunchArguments m @ [a]\<rparr>)) 2"
  by (simp_all add: launch_app_request_step_def)

lemmas launch_app_request_loops =
  loop_string [where step = launch_app_request_step and field = 1, OF launch_app_request_fields(1)]
  loop_message [where step = launch_app_request_step and field = 2, OF launch_app_request_fields(2)]

definition arguments_marshal :: "argument_value list \<Rightarrow> bytes" where
  "arguments_marshal as = concat (map (\<lambda>a. appendMessage [] 2 (argument_value_marshal a)) as)"

lemma launch_app_request_marshal_eq:
  "launch_app_request_marshal m = appendString [] 1 (PackageName m) @ arguments_marshal (LaunchArguments m)"
proof -
  have "foldl (\<lambda>b a. appendMessage b 2 (argument_value_marshal a)) b as = b @ arguments_marshal as" for b as
  proof (induction as arbitrary: b)
    case (Cons a as)
    then show ?case by (simp add: arguments_marshal_def append_fields(6) [of b 2 "argument_value_marshal a"])
  qed (simp add: arguments_marshal_def)
  then show ?thesis by (simp add: launch_app_request_marshal_def)
qed

lemma embedded_length: "length v \<le> length (appendMessage [] field v)"
  by (simp add: appendMessage_def)

lemma arguments_decode:
  "length (arguments_marshal as @ rest) < 2 ^ 63 \<Longrightarrow>
     unmarshal_loop launch_app_request_step (arguments_marshal as @ rest) \<lparr>PackageName = p, LaunchArguments = done_args\<rparr>
       = unmarshal_loop launch_app_request_step rest \<lparr>PackageName = p, LaunchArguments = done_args @ as\<rparr>"
proof (induction as arbitrary: done_args)
  case (Cons a as)
  have a: "argument_value_unmarshal (argument_value_marshal a) = Inr a"
    using Cons.prems argument_value.round_trip [of a] embedded_length [of "argument_value_marshal a" 2]
    by (simp add: argument_value_unmarshal_def arguments_marshal_def)
  show ?case
    using Cons by (simp add: arguments_marshal_def launch_app_request_loops a)
qed (simp add: arguments_marshal_def)

interpretation launch_app_request: codec launch_app_request_marshal launch_app_request_step no_launch_app_request "{1, 2}"
proof
  show "length (launch_app_request_marshal m @ rest) < 2 ^ 63 \<Longrightarrow>
      unmarshal_loop launch_app_request_step (launch_app_request_marshal m @ rest) no_launch_app_request
      = unmarshal_loop launch_app_request_step rest m" for m rest
    by (cases m)
      (simp add: launch_app_request_marshal_eq no_launch_app_request_def launch_app_request_loops arguments_decode
        del: One_nat_def)
qed (simp add: launch_app_request_step_def)

record add_media_request =
  MediaPayload :: "media_payload option"
  MediaName :: bytes
  MediaExt :: bytes

definition add_media_request_marshal :: "add_media_request \<Rightarrow> bytes" where
  "add_media_request_marshal m =
     (let b = (case MediaPayload m of None \<Rightarrow> [] | Some p \<Rightarrow> appendMessage [] 1 (media_payload_marshal p))
      in appendString (appendString b 2 (MediaName m)) 3 (MediaExt m))"

definition add_media_request_step
  :: "nat \<Rightarrow> nat \<Rightarrow> bytes \<Rightarrow> add_media_request \<Rightarrow> wire_error + add_media_request \<times> nat" where
  "add_media_request_step field =
     (if field = 1 then bytes_field (\<lambda>v m. case media_payload_unmarshal v of
          Inl e \<Rightarrow> Inl e | Inr p \<Rightarrow> Inr (m\<lparr>MediaPayload := Some p\<rparr>)) field else
      if field = 2 then bytes_field (\<lambda>v m. Inr (m\<lparr>MediaName := v\<rparr>)) field else
      if field = 3 then bytes_field (\<lambda>v m. Inr (m\<lparr>MediaExt := v\<rparr>)) field else
      skip_step)"

definition no_add_media_request :: add_media_request where
  "no_add_media_request = \<lparr>MediaPayload = None, MediaName = [], MediaExt = []\<rparr>"

definition add_media_request_unmarshal :: "bytes \<Rightarrow> wire_error + add_media_request" where
  "add_media_request_unmarshal data = unmarshal_loop add_media_request_step data no_add_media_request"

lemma add_media_request_fields:
  "add_media_request_step 1 = bytes_field (\<lambda>v m. case media_payload_unmarshal v of
          Inl e \<Rightarrow> Inl e | Inr p \<Rightarrow> Inr (m\<lparr>MediaPayload := Some p\<rparr>)) 1"
  "add_media_request_step 2 = bytes_field (\<lambda>v m. Inr (m\<lparr>MediaName := v\<rparr>)) 2"
  "add_media_request_step 3 = bytes_field (\<lambda>v m. Inr (m\<lparr>MediaExt := v\<rparr>)) 3"
  by (simp_all add: add_media_request_step_def)

lemmas add_media_request_loops =
  loop_message [where step = add_media_request_step and field = 1, OF add_media_request_fields(1)]
  loop_string [where step = add_media_request_step and field = 2, OF add_media_request_fields(2)]
  loop_string [where step = add_media_request_step and field = 3, OF add_media_request_fields(3)]

interpretation add_media_request: codec add_media_request_marshal add_media_request_step no_add_media_request "{1, 2, 3}"
proof
  fix m rest
  assume bound: "length (add_media_request_marshal m @ rest) < 2 ^ 63"
  obtain p n x where m: "m = \<lparr>MediaPayload = p, MediaName = n, MediaExt = x\<rparr>" by (cases m)
  let ?b = "case p of None \<Rightarrow> [] | Some p \<Rightarrow> appendMessage [] 1 (media_payload_marshal p)"
  have e: "add_media_request_marshal m = ?b @ appendString [] 2 n @ appendString [] 3 x"
    using append_fields(4) [of "appendString ?b 2 n"] append_fields(4) [of ?b]
    by (simp add: m add_media_request_marshal_def Let_def)
  show "unmarshal_loop add_media_request_step (add_media_request_marshal m @ rest) no_add_media_request
      = unmarshal_loop add_media_request_step rest m"
  proof (cases p)
    case None
    then show ?thesis using bound unfolding e by (simp add: m no_add_media_request_def add_media_request_loops)
  next
    case (Some q)
    then have "media_payload_unmarshal (media_payload_marshal q) = Inr q"
      using bound media_payload.round_trip [of q] embedded_length [of "media_payload_marshal q" 1] unfolding e
      by (simp add: media_payload_unmarshal_def del: One_nat_def)
    then show ?thesis
      using Some bound unfolding e by (simp add: m no_add_media_request_def add_media_request_loops del: One_nat_def)
  qed
qed (simp add: add_media_request_step_def)

section \<open>Round trips\<close>

text \<open>What the other end can rely on: within the sizes Go can hold, a message decodes from its own encoding,
  also when the frame carries well-formed fields that it does not declare, before or after its own.\<close>

definition survives_newer_fields :: "('m \<Rightarrow> bytes) \<Rightarrow> (bytes \<Rightarrow> wire_error + 'm) \<Rightarrow> nat set \<Rightarrow> bool" where
  "survives_newer_fields marshal unmarshal known \<longleftrightarrow>
     (\<forall>m p q. length (p @ marshal m @ q) < 2 ^ 63 \<longrightarrow> unknown_fields known p \<longrightarrow> unknown_fields known q
        \<longrightarrow> unmarshal (p @ marshal m @ q) = Inr m)"

lemmas newer_fields = no_fields.newer_fields device_info.newer_fields view_hierarchy_request.newer_fields
  view_hierarchy_response.newer_fields screenshot_response.newer_fields tap_request.newer_fields
  input_text_request.newer_fields erase_all_text_request.newer_fields set_location_request.newer_fields
  check_window_updating_request.newer_fields check_window_updating_response.newer_fields
  argument_value.newer_fields launch_app_request.newer_fields media_payload.newer_fields add_media_request.newer_fields

lemmas unmarshal_defs = no_fields_unmarshal_def discardAll_def device_info_unmarshal_def view_hierarchy_request_unmarshal_def
  view_hierarchy_response_unmarshal_def screenshot_response_unmarshal_def tap_request_unmarshal_def
  input_text_request_unmarshal_def erase_all_text_request_unmarshal_def set_location_request_unmarshal_def
  check_window_updating_request_unmarshal_def check_window_updating_response_unmarshal_def
  argument_value_unmarshal_def launch_app_request_unmarshal_def media_payload_unmarshal_def add_media_request_unmarshal_def


end
