(* ===== verification/Support.thy ===== *)
theory Support
  imports Text
begin

text \<open>
  What the program declares it supports: the command keywords and press keys of
  \<^verbatim>\<open>internal/model\<close>, the capability documents of the production drivers
  (\<^verbatim>\<open>internal/drivercontract\<close>) and the support registry with its validation
  (\<^verbatim>\<open>internal/capability/registry.go\<close>). The registry's default entries are data and stay an argument.
\<close>

section \<open>Keywords and keys\<close>

definition commandKeywordsV0 :: "string list" where
  "commandKeywordsV0 =
     [''launchApp'', ''stopApp'', ''killApp'', ''clearState'', ''clearKeychain'', ''setPermissions'', ''tapOn'',
      ''doubleTapOn'', ''longPressOn'', ''assertVisible'', ''assertNotVisible'', ''assertTrue'',
      ''assertNoDefectsWithAI'', ''assertScreenshot'', ''assertWithAI'', ''extractTextWithAI'', ''back'',
      ''hideKeyboard'', ''pasteText'', ''scroll'', ''scrollUntilVisible'', ''inputText'', ''inputRandomText'',
      ''inputRandomNumber'', ''inputRandomEmail'', ''inputRandomPersonName'', ''inputRandomCityName'',
      ''inputRandomCountryName'', ''inputRandomColorName'', ''swipe'', ''openLink'', ''openBrowser'', ''pressKey'',
      ''eraseText'', ''action'', ''takeScreenshot'', ''extendedWaitUntil'', ''runFlow'', ''setLocation'',
      ''setOrientation'', ''repeat'', ''retry'', ''copyTextFrom'', ''setClipboard'', ''runScript'', ''evalScript'',
      ''waitForAnimationToEnd'', ''travel'', ''startRecording'', ''stopRecording'', ''addMedia'',
      ''setAirplaneMode'', ''toggleAirplaneMode'', ''startLogCapture'', ''stopLogCapture'']"

definition CommandKeywords :: "string list" where
  "CommandKeywords = commandKeywordsV0"

definition PressKeyCodes :: "string list" where
  "PressKeyCodes =
     [''HOME'', ''LOCK'', ''ENTER'', ''BACKSPACE'', ''BACK'', ''POWER'', ''TAB'', ''VOLUME_UP'', ''VOLUME_DOWN'',
      ''REMOTE_DPAD_UP'', ''REMOTE_DPAD_DOWN'', ''REMOTE_DPAD_LEFT'', ''REMOTE_DPAD_RIGHT'', ''REMOTE_DPAD_CENTER'',
      ''REMOTE_MEDIA_PLAY_PAUSE'', ''REMOTE_MEDIA_STOP'', ''REMOTE_MEDIA_NEXT'', ''REMOTE_MEDIA_PREVIOUS'',
      ''REMOTE_MEDIA_REWIND'', ''REMOTE_MEDIA_FAST_FORWARD'', ''REMOTE_SYSTEM_NAVIGATION_UP'',
      ''REMOTE_SYSTEM_NAVIGATION_DOWN'', ''REMOTE_BUTTON_A'', ''REMOTE_BUTTON_B'', ''REMOTE_MENU'',
      ''TV_INPUT'', ''TV_INPUT_HDMI_1'', ''TV_INPUT_HDMI_2'', ''TV_INPUT_HDMI_3'']"

text \<open>
  \<^verbatim>\<open>strings.ToUpper\<close> and \<^verbatim>\<open>strings.EqualFold\<close> as far as a comparison with an ASCII text can tell: the
  ASCII letters, and the runes outside ASCII whose case mapping is an ASCII letter (the dotless i and the
  long s for upper case, the long s and the Kelvin sign for folding).
\<close>

definition bytes_text :: "nat list \<Rightarrow> string" where
  "bytes_text = map char_of"

definition upper_char :: "char \<Rightarrow> char" where
  "upper_char c = (if 97 \<le> byte c \<and> byte c \<le> 122 then char_of (byte c - 32) else c)"

definition ToUpper :: "string \<Rightarrow> string" where
  "ToUpper s = map upper_char (replace_pairs [(bytes_text [196, 177], ''I''), (bytes_text [197, 191], ''S'')] s)"

definition EqualFold :: "string \<Rightarrow> string \<Rightarrow> bool" where
  "EqualFold s t \<longleftrightarrow>
     (let fold = (\<lambda>x. map upper_char (replace_pairs [(bytes_text [226, 132, 170], ''K''), (bytes_text [197, 191], ''S'')] x))
      in fold s = fold t)"

definition NormalizePressKey :: "string \<Rightarrow> string" where
  "NormalizePressKey authored = replace_pairs [('' '', ''_'')] (ToUpper authored)"

definition PressKeyCanonical :: "string \<Rightarrow> string option" where
  "PressKeyCanonical authored =
     (let canonical = NormalizePressKey authored in if canonical \<in> set PressKeyCodes then Some canonical else None)"

section \<open>Driver documents\<close>

text \<open>A document lists the commands its driver leaves out and the press keys it takes; the further
  features of a document do not concern commands.\<close>

record document =
  doc_platform :: string
  doc_unsupported :: "string list"
  doc_pressKeys :: "string list"

definition SupportsCommand :: "document \<Rightarrow> string \<Rightarrow> bool" where
  "SupportsCommand d c \<longleftrightarrow> c \<in> set CommandKeywords \<and> c \<notin> set (doc_unsupported d)"

definition SupportsCommandValue :: "document \<Rightarrow> string \<Rightarrow> string \<Rightarrow> bool" where
  "SupportsCommandValue d c v \<longleftrightarrow> c = ''pressKey'' \<and> v \<in> set (doc_pressKeys d)"

definition androidDocument :: document where
  "androidDocument = \<lparr>doc_platform = ''android'', doc_unsupported = [],
     doc_pressKeys = [''ENTER'', ''BACK'', ''HOME'', ''LOCK'', ''VOLUME_UP'', ''VOLUME_DOWN'', ''POWER'']\<rparr>"

definition iosSimulatorDocument :: document where
  "iosSimulatorDocument = \<lparr>doc_platform = ''ios-simulator'',
     doc_unsupported = [''openBrowser'', ''setAirplaneMode'', ''toggleAirplaneMode''],
     doc_pressKeys = [''ENTER'', ''BACKSPACE'', ''TAB'', ''HOME'', ''LOCK'']\<rparr>"

definition iosPhysicalDocument :: document where
  "iosPhysicalDocument = \<lparr>doc_platform = ''ios-physical'',
     doc_unsupported = [''openBrowser'', ''setAirplaneMode'', ''toggleAirplaneMode'', ''clearKeychain'', ''addMedia''],
     doc_pressKeys = [''ENTER'', ''BACKSPACE'', ''TAB'', ''HOME'']\<rparr>"

definition webDocument :: document where
  "webDocument = \<lparr>doc_platform = ''web'',
     doc_unsupported = [''killApp'', ''clearState'', ''clearKeychain'', ''setPermissions'', ''setOrientation'',
       ''startRecording'', ''stopRecording'', ''addMedia'', ''setAirplaneMode'', ''toggleAirplaneMode'',
       ''startLogCapture'', ''stopLogCapture''],
     doc_pressKeys = [''ENTER'', ''BACKSPACE'', ''TAB'']\<rparr>"

definition Documents :: "document list" where
  "Documents = [androidDocument, iosSimulatorDocument, iosPhysicalDocument, webDocument]"

definition driverCommandPlatforms :: "string \<Rightarrow> string list" where
  "driverCommandPlatforms keyword = map doc_platform (filter (\<lambda>d. SupportsCommand d keyword) Documents)"

definition driverCommandValuePlatforms :: "string \<Rightarrow> string \<Rightarrow> string list" where
  "driverCommandValuePlatforms keyword v = map doc_platform (filter (\<lambda>d. SupportsCommandValue d keyword v) Documents)"

section \<open>The support registry\<close>

datatype feature_kind =
    FeatureCommand | FeatureSelector | FeatureConfigExtension | FeatureCLISubcommand | FeatureCLIFlag
  | FeatureHostTarget | FeatureDevicePlatform | Other_Feature string
datatype parse_status = ParseStatusParseable | ParseStatusOmitted | Other_Parse string
datatype runtime_status =
    RuntimeStatusPlannedV1 | RuntimeStatusPlatformLimited | RuntimeStatusDeferred | RuntimeStatusExcluded
  | Other_Runtime string

record entry =
  en_kind :: feature_kind
  en_name :: string
  en_parse :: parse_status
  en_runtime :: runtime_status
  en_platforms :: "string list"
  en_reason :: string

record support_registry =
  sr_version :: string
  sr_entries :: "entry list"

datatype registry_error =
    Unsupported_Version string | Duplicate_Entry string | Undeclared_Entry string | Missing_Entry string
  | Invalid_Kind string | Empty_Name | Invalid_Parse string
  | Invalid_Runtime string | Omitted_Not_Excluded string | Excluded_Not_Omitted string | Reason_Required string
  | Platforms_Required string | Unknown_Platform string string | Repeated_Platform string string

definition RegistryVersionV0 :: string where
  "RegistryVersionV0 = ''flowbaton.support/v0''"

definition registry_lookup :: "support_registry \<Rightarrow> feature_kind \<Rightarrow> string \<Rightarrow> entry option" where
  "registry_lookup r kind name = find (\<lambda>e. en_kind e = kind \<and> en_name e = name) (sr_entries r)"

definition validPlatforms :: "string list" where
  "validPlatforms = [''all-hosts'', ''android'', ''ios-simulator'', ''ios-physical'', ''web'']"

fun platforms_error :: "string \<Rightarrow> string list \<Rightarrow> string list \<Rightarrow> registry_error option" where
  "platforms_error name seen [] = None"
| "platforms_error name seen (p # ps) =
     (if p \<notin> set validPlatforms then Some (Unknown_Platform name p)
      else if p \<in> set seen then Some (Repeated_Platform name p)
      else platforms_error name (p # seen) ps)"

definition validateEntry :: "entry \<Rightarrow> registry_error option" where
  "validateEntry e =
     (if (case en_kind e of Other_Feature _ \<Rightarrow> True | _ \<Rightarrow> False) then Some (Invalid_Kind (en_name e))
      else if TrimSpace (en_name e) = '''' then Some Empty_Name
      else if (case en_parse e of Other_Parse _ \<Rightarrow> True | _ \<Rightarrow> False) then Some (Invalid_Parse (en_name e))
      else if (case en_runtime e of Other_Runtime _ \<Rightarrow> True | _ \<Rightarrow> False) then Some (Invalid_Runtime (en_name e))
      else if en_parse e = ParseStatusOmitted \<and> en_runtime e \<noteq> RuntimeStatusExcluded then Some (Omitted_Not_Excluded (en_name e))
      else if en_parse e = ParseStatusParseable \<and> en_runtime e = RuntimeStatusExcluded then Some (Excluded_Not_Omitted (en_name e))
      else if en_runtime e \<in> {RuntimeStatusDeferred, RuntimeStatusExcluded, RuntimeStatusPlatformLimited}
                \<and> TrimSpace (en_reason e) = '''' then Some (Reason_Required (en_name e))
      else if en_runtime e = RuntimeStatusPlatformLimited \<and> en_platforms e = [] then Some (Platforms_Required (en_name e))
      else platforms_error (en_name e) [] (en_platforms e))"

fun feature_text :: "feature_kind \<Rightarrow> string" where
  "feature_text FeatureCommand = ''command''"
| "feature_text FeatureSelector = ''selector-feature''"
| "feature_text FeatureConfigExtension = ''config-extension''"
| "feature_text FeatureCLISubcommand = ''cli-subcommand''"
| "feature_text FeatureCLIFlag = ''cli-flag''"
| "feature_text FeatureHostTarget = ''host-target''"
| "feature_text FeatureDevicePlatform = ''device-platform''"
| "feature_text (Other_Feature s) = s"

definition entryKey :: "feature_kind \<Rightarrow> string \<Rightarrow> string" where
  "entryKey kind name = feature_text kind @ '':'' @ name"

abbreviation key_of :: "entry \<Rightarrow> string" where
  "key_of e \<equiv> entryKey (en_kind e) (en_name e)"

fun entries_error :: "string list \<Rightarrow> string list \<Rightarrow> entry list \<Rightarrow> registry_error option" where
  "entries_error required seen [] = map_option Missing_Entry (find (\<lambda>k. k \<notin> set seen) required)"
| "entries_error required seen (e # es) =
     (if key_of e \<in> set seen then Some (Duplicate_Entry (key_of e))
      else if key_of e \<notin> set required then Some (Undeclared_Entry (key_of e))
      else case validateEntry e of Some err \<Rightarrow> Some err | None \<Rightarrow> entries_error required (key_of e # seen) es)"

text \<open>\<open>required\<close> is the declared catalog; the order in which Go walks that map only decides which of several
  missing entries is named.\<close>

definition registry_Validate :: "string list \<Rightarrow> support_registry \<Rightarrow> registry_error option" where
  "registry_Validate required r =
     (if sr_version r \<noteq> RegistryVersionV0 then Some (Unsupported_Version (sr_version r))
      else entries_error required [] (sr_entries r))"

section \<open>What validation guarantees\<close>

lemma entries_error_None:
  "entries_error required seen es = None \<longleftrightarrow>
     set required \<subseteq> set seen \<union> key_of ` set es \<and> distinct (map key_of es)
   \<and> key_of ` set es \<inter> set seen = {} \<and> key_of ` set es \<subseteq> set required \<and> list_all (\<lambda>e. validateEntry e = None) es"
proof (induction required seen es rule: entries_error.induct)
  case (2 required seen e es)
  then show ?case by (cases "validateEntry e") auto
qed (auto simp: find_None_iff)

text \<open>A registry validates exactly when it has the frozen version, classifies every declared feature
  exactly once and nothing else, and each of its entries is consistent.\<close>

theorem registry_Validate_exact:
  "registry_Validate required r = None \<longleftrightarrow>
     sr_version r = RegistryVersionV0
   \<and> set (map key_of (sr_entries r)) = set required \<and> distinct (map key_of (sr_entries r))
   \<and> list_all (\<lambda>e. validateEntry e = None) (sr_entries r)"
  unfolding registry_Validate_def by (auto simp: entries_error_None)

end
