(* ===== verification/Preflight.thy ===== *)
theory Preflight
  imports Support Dispatch "HOL-Library.While_Combinator"
begin

text \<open>
  The capability preflight (\<^verbatim>\<open>internal/capability/checker.go\<close>): it walks the flows that the selected
  roots reach, depth first with an explicit stack, inspects each against the support registry, and
  records nodes and edges of the graph the engine later compiles. The loader and the context are
  parameters that may change the world at every call; a canonical path is only ever compared.
\<close>

section \<open>Flows, graphs, violations\<close>

record model_flow =
  fl_schema :: string
  fl_config :: config
  fl_commands :: "command list"
  fl_source :: source_info

definition ASTVersionV0 :: string where
  "ASTVersionV0 = ''flowbaton.ast/v0''"

record graph_edge =
  ge_from :: string
  ge_to :: string
  ge_kind :: file_link_kind
  ge_source :: source_info

record report =
  rp_roots :: "string list"
  rp_nodes :: "string list"
  rp_edges :: "graph_edge list"

text \<open>A formatted message is its format with the arguments.\<close>

datatype violation_message =
    Message string | Platform_Message string "string list" | Value_Message string "string list"
  | Self_Link_Message file_link_kind | Unknown_Link_Message file_link_kind | Ast_Version_Message string

text \<open>What the checker asks of a loader's error: its text, the sentinel errors it wraps, and the source of
  the parse diagnostic it holds.\<close>

record loader_error =
  le_error :: go_error
  le_directory :: bool
  le_nonRegular :: bool
  le_notExist :: bool
  le_diagnostic :: "source_info option"

record violation =
  vi_code :: string
  vi_message :: violation_message
  vi_feature :: "(feature_kind \<times> string) option"
  vi_source :: source_info
  vi_chain :: "graph_edge list"
  vi_cause :: "loader_error option"

datatype preflight_error =
    Interrupted go_error | No_Selected_Root | Bad_Registry registry_error | Unknown_Selected_Platform string
  | Missing_Loader | Violated violation

record 'w loader =
  ld_canonical :: "string \<Rightarrow> 'w \<Rightarrow> (string \<times> loader_error option) \<times> 'w"
  ld_load :: "string \<Rightarrow> 'w \<Rightarrow> (loader_error + model_flow) \<times> 'w"

record 'w check_config =
  cc_registry :: support_registry
  cc_required :: "string list"
  cc_loader :: "'w loader option"
  cc_platform :: string
  cc_ctx :: "'w ctx_err"

section \<open>Inspection\<close>

definition sourceForField :: "source_map \<Rightarrow> string \<Rightarrow> source_info \<Rightarrow> source_info" where
  "sourceForField sources field fallback = (case map_of (elems sources) field of Some s \<Rightarrow> s | None \<Rightarrow> fallback)"

definition entrySupportsPlatform :: "entry \<Rightarrow> string \<Rightarrow> bool" where
  "entrySupportsPlatform e platform \<longleftrightarrow> list_ex (\<lambda>p. p = platform \<or> p = ''all-hosts'') (en_platforms e)"

definition feature_violation :: "string \<Rightarrow> violation_message \<Rightarrow> feature_kind \<Rightarrow> string \<Rightarrow> source_info \<Rightarrow> violation" where
  "feature_violation code message kind name source = \<lparr>vi_code = code, vi_message = message,
     vi_feature = Some (kind, name), vi_source = source, vi_chain = [], vi_cause = None\<rparr>"

definition unsupported_feature :: "support_registry \<Rightarrow> feature_kind \<Rightarrow> string \<Rightarrow> source_info \<Rightarrow> string \<Rightarrow> violation option" where
  "unsupported_feature r kind name source platform =
     (case registry_lookup r kind name of
        None \<Rightarrow> Some (feature_violation ''unsupported_capability''
          (Message ''feature is not classified by the v0 support registry'') kind name source)
      | Some e \<Rightarrow>
          if en_parse e = ParseStatusOmitted \<or> en_runtime e = RuntimeStatusDeferred \<or> en_runtime e = RuntimeStatusExcluded
          then Some (feature_violation ''unsupported_capability'' (Message (en_reason e)) kind name source)
          else if platform \<noteq> '''' \<and> \<not> entrySupportsPlatform e platform
          then Some (feature_violation ''unsupported_platform'' (Platform_Message platform (en_platforms e)) kind name source)
          else None)"

text \<open>The selectors nested in a selector, in the order the stack of \<^verbatim>\<open>inspectSelector\<close> yields them.\<close>

definition nested_selectors :: "element_selector \<Rightarrow> element_selector list" where
  "nested_selectors s =
     List.map_filter id [sel_below s, sel_above s, sel_leftOf s, sel_rightOf s, sel_containsChild s, sel_childOf s]
     @ elems (sel_containsDescendants s)"

lemma nested_selectors_smaller: "size_list size (nested_selectors s) < size s"
  by (cases s) (auto simp: nested_selectors_def elems_def List.map_filter_def split: option.splits)

function inspect_selectors :: "support_registry \<Rightarrow> source_info \<Rightarrow> string \<Rightarrow> element_selector list \<Rightarrow> violation option" where
  "inspect_selectors r fallback platform [] = None"
| "inspect_selectors r fallback platform (s # stack) =
     (case (if sel_css (sel_fields s) \<noteq> None
            then unsupported_feature r FeatureSelector ''css'' (sourceForField (sel_fieldSources s) ''css'' fallback) platform
            else None) of
        Some v \<Rightarrow> Some v
      | None \<Rightarrow> inspect_selectors r fallback platform (nested_selectors s @ stack))"
  by pat_completeness auto
termination
  by (relation "measure (\<lambda>(_, _, _, stack). size_list size stack)") (auto simp: size_list_append intro: less_SucI [OF nested_selectors_smaller])

definition inspectSelector :: "element_selector option \<Rightarrow> support_registry \<Rightarrow> source_info \<Rightarrow> string \<Rightarrow> violation option" where
  "inspectSelector s r fallback platform =
     (case s of None \<Rightarrow> None | Some s \<Rightarrow> inspect_selectors r fallback platform [s])"

definition inspectCondition :: "condition option \<Rightarrow> support_registry \<Rightarrow> source_info \<Rightarrow> string \<Rightarrow> violation option" where
  "inspectCondition c r fallback platform =
     (case c of
        None \<Rightarrow> None
      | Some c \<Rightarrow>
          (let field = (\<lambda>f. sourceForField (cond_fieldSources c) f fallback) in
           case (if cond_platform c = Some ''web''
                 then unsupported_feature r FeatureDevicePlatform ''web'' (field ''platform'') platform else None) of
             Some v \<Rightarrow> Some v
           | None \<Rightarrow>
               (case inspectSelector (cond_visible c) r (field ''visible'') platform of
                  Some v \<Rightarrow> Some v
                | None \<Rightarrow> inspectSelector (cond_notVisible c) r (field ''notVisible'') platform)))"

definition conditionExcludesPlatform :: "condition option \<Rightarrow> string \<Rightarrow> bool" where
  "conditionExcludesPlatform c selected \<longleftrightarrow>
     (case c of
        None \<Rightarrow> False
      | Some c \<Rightarrow>
          (case cond_platform c of
             None \<Rightarrow> False
           | Some p \<Rightarrow> selected \<noteq> '''' \<and>
               (p = ''android'' \<and> selected \<noteq> ''android'' \<or> p = ''ios'' \<and> selected \<noteq> ''ios-simulator''
                \<or> p = ''web'' \<and> selected \<noteq> ''web'')))"

text \<open>Whether an interpolation starts somewhere: a dollar and a brace, with a closing brace before the next dollar.\<close>

function hasInterpolationExpression :: "string \<Rightarrow> bool" where
  "hasInterpolationExpression [] = False"
| "hasInterpolationExpression (c # cs) =
     (if c = char_of (92 :: nat) \<and> take 2 cs = ''${'' then hasInterpolationExpression (drop 2 cs)
      else if c = CHR ''$'' \<and> take 1 cs = ''{'' \<and> CHR ''}'' \<in> set (takeWhile (\<lambda>d. d \<noteq> CHR ''$'') (drop 1 cs)) then True
      else hasInterpolationExpression cs)"
  by pat_completeness auto
termination by (relation "measure length") auto

definition authoredCommandPlatforms :: "command \<Rightarrow> string list \<times> bool \<times> string" where
  "authoredCommandPlatforms c =
     (if cmd_kind c = ''pressKey'' then
        (case cmd_arguments c of
           DynString authored \<Rightarrow>
             if hasInterpolationExpression authored
             then ([], True, ''dynamic pressKey values cannot be proven safe for a selected platform before device startup'')
             else (case PressKeyCanonical authored of
                     None \<Rightarrow> ([], False, '''')
                   | Some canonical \<Rightarrow> (driverCommandValuePlatforms ''pressKey'' canonical, True, ''''))
         | _ \<Rightarrow> ([], False, ''''))
      else if cmd_kind c = ''action'' then
        (case cmd_arguments c of
           DynString authored \<Rightarrow>
             if EqualFold authored ''back'' then (driverCommandPlatforms ''back'', True, '''') else ([], False, '''')
         | _ \<Rightarrow> ([], False, ''''))
      else if cmd_kind c = ''openLink'' then
        (case cmd_arguments c of
           DynMap m \<Rightarrow>
             if map_of (elems m) ''browser'' = Some (DynBool True) then (driverCommandPlatforms ''openBrowser'', True, '''')
             else ([], False, '''')
         | _ \<Rightarrow> ([], False, ''''))
      else ([], False, ''''))"

definition inspectCommand :: "command \<Rightarrow> support_registry \<Rightarrow> string \<Rightarrow> violation option" where
  "inspectCommand c r platform =
     (case unsupported_feature r FeatureCommand (cmd_kind c) (cmd_source c) platform of
        Some v \<Rightarrow> Some v
      | None \<Rightarrow>
          if platform = '''' then None
          else (case authoredCommandPlatforms c of (platforms, constrained, reason) \<Rightarrow>
            if \<not> constrained \<or> platform \<in> set platforms then None
            else Some (feature_violation ''unsupported_platform''
              (if reason \<noteq> '''' then Message reason else Value_Message platform platforms)
              FeatureCommand (cmd_kind c) (cmd_source c))))"

function inspect_commands :: "support_registry \<Rightarrow> string \<Rightarrow> command list \<Rightarrow> violation option" where
  "inspect_commands r platform [] = None"
| "inspect_commands r platform (c # stack) =
     (if conditionExcludesPlatform (cmd_condition c) platform
      then (case inspectCondition (cmd_condition c) r (cmd_source c) '''' of
              Some v \<Rightarrow> Some v | None \<Rightarrow> inspect_commands r platform stack)
      else case inspectCommand c r platform of
        Some v \<Rightarrow> Some v
      | None \<Rightarrow>
          (case inspectCondition (cmd_condition c) r (cmd_source c) platform of
             Some v \<Rightarrow> Some v
           | None \<Rightarrow>
               (case inspectSelector (cmd_selector c) r (cmd_source c) platform of
                  Some v \<Rightarrow> Some v
                | None \<Rightarrow> inspect_commands r platform (elems (cmd_children c) @ stack))))"
  by pat_completeness auto
termination
  by (relation "measure (\<lambda>(_, _, stack). size_list size stack)") (auto simp: size_list_append intro: less_SucI [OF size_children])

definition flow_commands :: "model_flow \<Rightarrow> command list" where
  "flow_commands f = elems (cfg_onFlowStart (fl_config f)) @ fl_commands f @ elems (cfg_onFlowComplete (fl_config f))"

fun inspect_extensions :: "support_registry \<Rightarrow> string \<Rightarrow> config \<Rightarrow> (string \<times> dyn) list \<Rightarrow> violation option" where
  "inspect_extensions r platform g [] = None"
| "inspect_extensions r platform g ((key, v) # rest) =
     (let name = (if key = ''androidWebViewHierarchy'' \<or> key = ''jsEngine''
                  then key @ (case v of DynString t \<Rightarrow> ''='' @ t | _ \<Rightarrow> ''=<invalid>'') else key)
      in case unsupported_feature r FeatureConfigExtension name
             (sourceForField (cfg_fieldSources g) key (cfg_source g)) platform of
           Some w \<Rightarrow> Some w
         | None \<Rightarrow> inspect_extensions r platform g rest)"

text \<open>A map value lists its keys in order, as the code sorts them.\<close>

definition inspectFlow :: "model_flow \<Rightarrow> support_registry \<Rightarrow> string \<Rightarrow> violation option" where
  "inspectFlow f r platform =
     (let g = fl_config f in
      if cfg_url g \<noteq> ''''
      then unsupported_feature r FeatureConfigExtension ''url'' (sourceForField (cfg_fieldSources g) ''url'' (cfg_source g)) platform
      else case inspect_extensions r platform g (elems (cfg_ext g)) of
        Some v \<Rightarrow> Some v
      | None \<Rightarrow> inspect_commands r platform (flow_commands f))"

section \<open>Links\<close>

function collect_links :: "command list \<Rightarrow> file_link list" where
  "collect_links [] = []"
| "collect_links (c # stack) = elems (cmd_links c) @ collect_links (elems (cmd_children c) @ stack)"
  by pat_completeness auto
termination by (relation "measure (size_list size)") (auto simp: size_list_append intro: less_SucI [OF size_children])

definition collectLinks :: "model_flow \<Rightarrow> file_link list" where
  "collectLinks f = collect_links (flow_commands f)"

definition linkTarget :: "string \<Rightarrow> file_link \<Rightarrow> string" where
  "linkTarget containing l =
     (if link_resolved l \<noteq> '''' then link_resolved l
      else if IsAbs (link_path l) then Clean (link_path l)
      else path_Join (path_Dir containing) (link_path l))"

section \<open>The traversal\<close>

datatype visit_color = visitWhite | visitGray | visitBlack

record frame =
  fr_path :: string
  fr_incoming :: "graph_edge option"
  fr_entered :: bool
  fr_links :: "file_link list"

text \<open>The state of \<^verbatim>\<open>Check\<close>; the top of the stack is the head of the list, and a frame keeps the links
  it has not followed yet.\<close>

record 'w check_state =
  ck_stack :: "frame list"
  ck_colors :: "string \<Rightarrow> visit_color"
  ck_loaded :: "string \<rightharpoonup> model_flow"
  ck_report :: report
  ck_error :: "preflight_error option"
  ck_world :: 'w

definition chainForStack :: "frame list \<Rightarrow> graph_edge list" where
  "chainForStack stack = rev (List.map_filter fr_incoming (butlast stack))"

definition pathViolation :: "string \<Rightarrow> source_info option \<Rightarrow> loader_error \<Rightarrow> graph_edge list \<Rightarrow> violation" where
  "pathViolation path source e chain =
     (let location = (case source of
            Some s \<Rightarrow> s
          | None \<Rightarrow> no_source\<lparr>src_path := path, src_start := \<lparr>pos_line = 1, pos_column = 1, pos_offset = 0\<rparr>\<rparr>);
          (code, message) =
            (if le_directory e then (''directory_link'', ''linked path is a directory'')
             else if le_nonRegular e then (''non_regular_link'', ''linked path is not a regular file'')
             else if le_notExist e then (''missing_link'', ''linked path does not exist'')
             else (''link_error'', ''cannot resolve linked path''))
      in \<lparr>vi_code = code, vi_message = Message message, vi_feature = None, vi_source = location, vi_chain = chain,
          vi_cause = Some e\<rparr>)"

definition loadViolation :: "string \<Rightarrow> loader_error \<Rightarrow> graph_edge list \<Rightarrow> violation" where
  "loadViolation path e chain =
     (case le_diagnostic e of
        Some s \<Rightarrow> \<lparr>vi_code = ''flow_parse_error'', vi_message = Message ''linked flow failed syntax parsing'',
          vi_feature = None, vi_source = s, vi_chain = chain, vi_cause = Some e\<rparr>
      | None \<Rightarrow>
          (let location = no_source\<lparr>src_path := path, src_start := \<lparr>pos_line = 1, pos_column = 1, pos_offset = 0\<rparr>\<rparr>;
               v = pathViolation path (Some location) e chain
           in if vi_code v = ''link_error''
              then v\<lparr>vi_code := ''flow_load_error'', vi_message := Message ''cannot load linked flow''\<rparr> else v))"

definition astVersionViolation :: "string \<Rightarrow> model_flow \<Rightarrow> graph_edge list \<Rightarrow> violation" where
  "astVersionViolation path f chain =
     (let location = (if src_path (fl_source f) \<noteq> '''' then fl_source f
            else if src_path (cfg_source (fl_config f)) \<noteq> '''' then cfg_source (fl_config f)
            else no_source\<lparr>src_path := path, src_start := \<lparr>pos_line = 1, pos_column = 1, pos_offset = 0\<rparr>\<rparr>)
      in \<lparr>vi_code = ''unsupported_ast_version'', vi_message = Ast_Version_Message (fl_schema f), vi_feature = None,
          vi_source = location, vi_chain = chain, vi_cause = None\<rparr>)"

definition violated :: "violation \<Rightarrow> 'w check_state \<Rightarrow> 'w check_state" where
  "violated v s = s\<lparr>ck_error := Some (Violated v)\<rparr>"

text \<open>Loading the flow of the top frame, unless a frame before it did.\<close>

definition load_flow :: "'w loader \<Rightarrow> string \<Rightarrow> 'w check_state \<Rightarrow> (violation + model_flow) \<times> 'w check_state" where
  "load_flow L path s =
     (case ck_loaded s path of
        Some f \<Rightarrow> (Inr f, s)
      | None \<Rightarrow>
          (case ld_load L path (ck_world s) of
             (Inl e, w) \<Rightarrow> (Inl (loadViolation path e (chainForStack (ck_stack s))), s\<lparr>ck_world := w\<rparr>)
           | (Inr f, w) \<Rightarrow>
               if fl_schema f \<noteq> ASTVersionV0
               then (Inl (astVersionViolation path f (chainForStack (ck_stack s))), s\<lparr>ck_world := w\<rparr>)
               else (Inr f, s\<lparr>ck_world := w, ck_loaded := (ck_loaded s)(path \<mapsto> f),
                      ck_report := (ck_report s)\<lparr>rp_nodes := rp_nodes (ck_report s) @ [path]\<rparr>\<rparr>)))"

definition enter_frame :: "'w check_config \<Rightarrow> 'w loader \<Rightarrow> frame \<Rightarrow> 'w check_state \<Rightarrow> 'w check_state" where
  "enter_frame C L f s =
     (case load_flow L (fr_path f) s of
        (Inl v, s) \<Rightarrow> violated v s
      | (Inr flow, s) \<Rightarrow>
          (let s = s\<lparr>ck_colors := (ck_colors s)(fr_path f := visitGray),
                     ck_stack := f\<lparr>fr_entered := True, fr_links := collectLinks flow\<rparr> # tl (ck_stack s)\<rparr>
           in case inspectFlow flow (cc_registry C) (cc_platform C) of
                Some v \<Rightarrow> violated (v\<lparr>vi_chain := chainForStack (ck_stack s)\<rparr>) s
              | None \<Rightarrow> s))"

definition follow_link :: "'w loader \<Rightarrow> frame \<Rightarrow> file_link \<Rightarrow> file_link list \<Rightarrow> 'w check_state \<Rightarrow> 'w check_state" where
  "follow_link L f link rest s =
     (let stack = f\<lparr>fr_links := rest\<rparr> # tl (ck_stack s);
          target = linkTarget (fr_path f) link in
      case ld_canonical L target (ck_world s) of ((canonical, err), w) \<Rightarrow>
        (let edge = \<lparr>ge_from = fr_path f, ge_to = (if canonical = '''' then Clean target else canonical),
                     ge_kind = link_kind link, ge_source = link_source link\<rparr>;
             s = s\<lparr>ck_world := w, ck_stack := stack,
                   ck_report := (ck_report s)\<lparr>rp_edges := rp_edges (ck_report s) @ [edge]\<rparr>\<rparr>;
             chain = chainForStack stack @ [edge];
             refuse = (\<lambda>code message. violated \<lparr>vi_code = code, vi_message = message, vi_feature = None,
                vi_source = link_source link, vi_chain = chain, vi_cause = None\<rparr> s)
         in case err of
              Some e \<Rightarrow> violated (pathViolation target (Some (link_source link)) e chain) s
            | None \<Rightarrow>
                if link_kind link \<noteq> FileLinkFlow
                then if canonical = fr_path f then refuse ''self_link'' (Self_Link_Message (link_kind link))
                     else if link_kind link \<noteq> FileLinkScript \<and> link_kind link \<noteq> FileLinkMedia
                     then refuse ''unknown_link_kind'' (Unknown_Link_Message (link_kind link))
                     else s
                else (case ck_colors s canonical of
                        visitGray \<Rightarrow> refuse ''active_cycle'' (Message ''flow link creates an active-path cycle'')
                      | visitBlack \<Rightarrow> s
                      | visitWhite \<Rightarrow> s\<lparr>ck_stack := \<lparr>fr_path = canonical, fr_incoming = Some edge, fr_entered = False,
                           fr_links = []\<rparr> # stack\<rparr>)))"

text \<open>One turn of the inner loop.\<close>

definition visit_step :: "'w check_config \<Rightarrow> 'w loader \<Rightarrow> 'w check_state \<Rightarrow> 'w check_state" where
  "visit_step C L s0 =
     (case cc_ctx C (ck_world s0) of
        (Some e, w) \<Rightarrow> s0\<lparr>ck_world := w, ck_error := Some (Interrupted e)\<rparr>
      | (None, w) \<Rightarrow>
          (let s0 = s0\<lparr>ck_world := w\<rparr>;
               top = hd (ck_stack s0);
               s = (if fr_entered top then s0 else enter_frame C L top s0)
           in if ck_error s \<noteq> None then s
              else let top = hd (ck_stack s) in
                case fr_links top of
                  [] \<Rightarrow> s\<lparr>ck_colors := (ck_colors s)(fr_path top := visitBlack), ck_stack := tl (ck_stack s)\<rparr>
                | link # rest \<Rightarrow> follow_link L top link rest s))"

definition visit :: "'w check_config \<Rightarrow> 'w loader \<Rightarrow> 'w check_state \<Rightarrow> 'w check_state option" where
  "visit C L = while_option (\<lambda>s. ck_error s = None \<and> ck_stack s \<noteq> []) (visit_step C L)"

text \<open>The selected roots, one after the other; \<open>None\<close> if a traversal does not end.\<close>

fun check_roots :: "'w check_config \<Rightarrow> 'w loader \<Rightarrow> string list \<Rightarrow> 'w check_state \<Rightarrow> 'w check_state option" where
  "check_roots C L [] s = Some s"
| "check_roots C L (selected # rest) s =
     (case cc_ctx C (ck_world s) of
        (Some e, w) \<Rightarrow> Some (s\<lparr>ck_world := w, ck_error := Some (Interrupted e)\<rparr>)
      | (None, w) \<Rightarrow>
          (case ld_canonical L selected w of
             ((_, Some e), w) \<Rightarrow> Some (violated (pathViolation selected None e []) (s\<lparr>ck_world := w\<rparr>))
           | ((canonical, None), w) \<Rightarrow>
               (let s = s\<lparr>ck_world := w, ck_report := (ck_report s)\<lparr>rp_roots := rp_roots (ck_report s) @ [canonical]\<rparr>\<rparr>
                in if ck_colors s canonical = visitBlack then check_roots C L rest s
                   else case visit C L (s\<lparr>ck_stack := [\<lparr>fr_path = canonical, fr_incoming = None, fr_entered = False,
                            fr_links = []\<rparr>]\<rparr>) of
                          None \<Rightarrow> None
                        | Some s' \<Rightarrow> if ck_error s' \<noteq> None then Some s' else check_roots C L rest s')))"

definition initial_check :: "'w \<Rightarrow> 'w check_state" where
  "initial_check w = \<lparr>ck_stack = [], ck_colors = (\<lambda>_. visitWhite), ck_loaded = Map.empty,
     ck_report = \<lparr>rp_roots = [], rp_nodes = [], rp_edges = []\<rparr>, ck_error = None, ck_world = w\<rparr>"

definition validExecutionPlatforms :: "string list" where
  "validExecutionPlatforms = [''android'', ''ios-simulator'', ''web'']"

definition failed_check :: "preflight_error \<Rightarrow> 'w \<Rightarrow> 'w check_state option" where
  "failed_check e w = Some ((initial_check w)\<lparr>ck_error := Some e\<rparr>)"

definition Check :: "'w check_config \<Rightarrow> string list \<Rightarrow> 'w \<Rightarrow> 'w check_state option" where
  "Check C selectedRoots w =
     (case cc_ctx C w of
        (Some e, w) \<Rightarrow> failed_check (Interrupted e) w
      | (None, w) \<Rightarrow>
          if selectedRoots = [] then failed_check No_Selected_Root w
          else (case registry_Validate (cc_required C) (cc_registry C) of
            Some e \<Rightarrow> failed_check (Bad_Registry e) w
          | None \<Rightarrow>
              if cc_platform C \<noteq> '''' \<and> cc_platform C \<notin> set validExecutionPlatforms
              then failed_check (Unknown_Selected_Platform (cc_platform C)) w
              else case cc_loader C of
                None \<Rightarrow> failed_check Missing_Loader w
              | Some L \<Rightarrow> check_roots C L selectedRoots (initial_check w)))"

section \<open>The file loader\<close>

text \<open>\<^verbatim>\<open>internal/capability/file_loader.go\<close>. The file system is a parameter: \<^verbatim>\<open>filepath.Abs\<close>, \<^verbatim>\<open>os.Stat\<close>,
  \<^verbatim>\<open>filepath.EvalSymlinks\<close>, and opening a file with the flow parser's run over it. \<open>fs_errorf\<close> is the error
  \<^verbatim>\<open>fmt.Errorf\<close> wraps around another.\<close>

datatype file_mode = ModeRegular | ModeDir | ModeIrregular

record 'w file_system =
  fs_abs :: "string \<Rightarrow> 'w \<Rightarrow> (loader_error + string) \<times> 'w"
  fs_stat :: "string \<Rightarrow> 'w \<Rightarrow> (loader_error + file_mode) \<times> 'w"
  fs_evalSymlinks :: "string \<Rightarrow> 'w \<Rightarrow> (loader_error + string) \<times> 'w"
  fs_open :: "string \<Rightarrow> 'w \<Rightarrow> loader_error option \<times> 'w"
  fs_parse :: "string \<Rightarrow> 'w \<Rightarrow> (loader_error + model_flow) \<times> 'w"
  fs_errorf :: "string \<Rightarrow> go_error \<Rightarrow> go_error"

definition plain_loader_error :: "go_error \<Rightarrow> loader_error" where
  "plain_loader_error e = \<lparr>le_error = e, le_directory = False, le_nonRegular = False, le_notExist = False, le_diagnostic = None\<rparr>"

definition ErrFlowDirectory :: loader_error where
  "ErrFlowDirectory = (plain_loader_error (Plain_Error ''flow link is a directory''))\<lparr>le_directory := True\<rparr>"

definition ErrFlowNonRegular :: loader_error where
  "ErrFlowNonRegular = (plain_loader_error (Plain_Error ''flow link is not a regular file''))\<lparr>le_nonRegular := True\<rparr>"

definition FileLoader_Canonical :: "'w ctx_err \<Rightarrow> 'w file_system \<Rightarrow> string \<Rightarrow> 'w \<Rightarrow> (string \<times> loader_error option) \<times> 'w" where
  "FileLoader_Canonical ctx F path w =
     (case ctx w of
        (Some e, w) \<Rightarrow> (('''', Some (plain_loader_error e)), w)
      | (None, w) \<Rightarrow>
          (case fs_abs F path w of
             (Inl e, w) \<Rightarrow> (('''', Some (e\<lparr>le_error := fs_errorf F ''absolute path'' (le_error e)\<rparr>)), w)
           | (Inr absolute, w) \<Rightarrow>
               (case fs_stat F absolute w of
                  (Inl e, w) \<Rightarrow> (('''', Some e), w)
                | (Inr mode, w) \<Rightarrow>
                    if mode = ModeDir then (('''', Some ErrFlowDirectory), w)
                    else if mode \<noteq> ModeRegular then (('''', Some ErrFlowNonRegular), w)
                    else (case fs_evalSymlinks F absolute w of
                            (Inl e, w) \<Rightarrow> (('''', Some e), w)
                          | (Inr canonical, w) \<Rightarrow> ((Clean canonical, None), w)))))"

definition FileLoader_Load :: "'w ctx_err \<Rightarrow> 'w file_system \<Rightarrow> string \<Rightarrow> 'w \<Rightarrow> (loader_error + model_flow) \<times> 'w" where
  "FileLoader_Load ctx F canonicalPath w =
     (case ctx w of
        (Some e, w) \<Rightarrow> (Inl (plain_loader_error e), w)
      | (None, w) \<Rightarrow>
          (case fs_open F canonicalPath w of
             (Some e, w) \<Rightarrow> (Inl e, w)
           | (None, w) \<Rightarrow> fs_parse F canonicalPath w))"

definition FileLoader :: "'w ctx_err \<Rightarrow> 'w file_system \<Rightarrow> 'w loader" where
  "FileLoader ctx F = \<lparr>ld_canonical = FileLoader_Canonical ctx F, ld_load = FileLoader_Load ctx F\<rparr>"

end
