(* ===== verification/Preflight_Graph.thy ===== *)
theory Preflight_Graph
  imports Preflight
begin

text \<open>
  What a preflight that reports no error proves of the flow graph: the flows it recorded are inspected
  and closed under their links, every call site is an edge, and the graph has no cycle, because the
  finished flows followed by the stack always list a link's target before its source. With finitely
  many canonical paths the traversal ends.
\<close>

section \<open>Order in a list\<close>

definition precedes :: "'a list \<Rightarrow> 'a \<Rightarrow> 'a \<Rightarrow> bool" where
  "precedes xs b a \<longleftrightarrow> (\<exists>us vs. xs = us @ b # vs \<and> a \<in> set vs)"

lemma precedes_insert: "precedes (xs @ ys) b a \<Longrightarrow> precedes (xs @ z # ys) b a"
proof -
  assume "precedes (xs @ ys) b a"
  then obtain us vs where eq: "xs @ ys = us @ b # vs" and a: "a \<in> set vs" by (auto simp: precedes_def)
  from eq consider (left) ws where "xs = us @ b # ws" "vs = ws @ ys" | (right) ws where "us = xs @ ws" "ys = ws @ b # vs"
    by (auto simp: append_eq_append_conv2 append_eq_Cons_conv)
  then show ?thesis
  proof cases
    case left
    then have "xs @ z # ys = us @ b # (ws @ z # ys)" "a \<in> set (ws @ z # ys)" using a by auto
    then show ?thesis unfolding precedes_def by blast
  next
    case right
    then have "xs @ z # ys = (xs @ z # ws) @ b # vs" by simp
    then show ?thesis using a unfolding precedes_def by blast
  qed
qed

lemma precedes_middle: "b \<in> set xs \<Longrightarrow> precedes (xs @ a # ys) b a"
  by (fastforce simp: precedes_def dest: split_list)

lemma precedes_next: "precedes (xs @ b # a # ys) b a"
  by (fastforce simp: precedes_def)

lemma precedes_mem: "precedes xs b a \<Longrightarrow> b \<in> set xs \<and> a \<in> set xs"
  by (auto simp: precedes_def)

section \<open>The invariant\<close>

definition flow_edges :: "'w check_state \<Rightarrow> graph_edge set" where
  "flow_edges s = {e \<in> set (rp_edges (ck_report s)). ge_kind e = FileLinkFlow}"

definition sites :: "graph_edge list \<Rightarrow> string \<Rightarrow> (file_link_kind \<times> source_info) list" where
  "sites edges p = map (\<lambda>e. (ge_kind e, ge_source e)) (filter (\<lambda>e. ge_from e = p) edges)"

definition link_sites :: "file_link list \<Rightarrow> (file_link_kind \<times> source_info) list" where
  "link_sites ls = map (\<lambda>l. (link_kind l, link_source l)) ls"

definition reached :: "report \<Rightarrow> string set" where
  "reached r = {(ge_from e, ge_to e) | e. e \<in> set (rp_edges r) \<and> ge_kind e = FileLinkFlow}\<^sup>* `` set (rp_roots r)"

text \<open>The flows recorded as nodes are the ones loaded, all of the supported schema.\<close>

definition loads_ok :: "'w check_state \<Rightarrow> bool" where
  "loads_ok s \<longleftrightarrow> distinct (rp_nodes (ck_report s)) \<and> set (rp_nodes (ck_report s)) = dom (ck_loaded s)
     \<and> (\<forall>p f. ck_loaded s p = Some f \<longrightarrow> fl_schema f = ASTVersionV0)
     \<and> dom (ck_loaded s) = {p. ck_colors s p \<noteq> visitWhite}"

text \<open>The finished flows, then the stack: distinct, and every flow edge goes back in this order.\<close>

definition order_ok :: "string list \<Rightarrow> 'w check_state \<Rightarrow> bool" where
  "order_ok fin s \<longleftrightarrow> distinct (fin @ map fr_path (ck_stack s))
     \<and> set fin = {p. ck_colors s p = visitBlack}
     \<and> (\<forall>f \<in> set (ck_stack s). ck_colors s (fr_path f) = (if fr_entered f then visitGray else visitWhite))
     \<and> {p. ck_colors s p = visitGray} \<subseteq> fr_path ` set (ck_stack s)
     \<and> (\<forall>e \<in> flow_edges s. precedes (fin @ map fr_path (ck_stack s)) (ge_to e) (ge_from e))"

text \<open>The edges out of a flow are the call sites followed so far.\<close>

definition sites_ok :: "'w check_state \<Rightarrow> bool" where
  "sites_ok s \<longleftrightarrow>
     (\<forall>p. ck_colors s p = visitWhite \<longrightarrow> sites (rp_edges (ck_report s)) p = [])
     \<and> (\<forall>p f. ck_loaded s p = Some f \<and> ck_colors s p = visitBlack
          \<longrightarrow> sites (rp_edges (ck_report s)) p = link_sites (collectLinks f))
     \<and> (\<forall>f \<in> set (ck_stack s). \<forall>flow. ck_loaded s (fr_path f) = Some flow \<and> fr_entered f
          \<longrightarrow> sites (rp_edges (ck_report s)) (fr_path f) @ link_sites (fr_links f) = link_sites (collectLinks flow))"

definition inspected :: "'w check_config \<Rightarrow> 'w check_state \<Rightarrow> bool" where
  "inspected C s \<longleftrightarrow> (\<forall>p f. ck_loaded s p = Some f \<longrightarrow> inspectFlow f (cc_registry C) (cc_platform C) = None)"

definition reach_ok :: "'w check_state \<Rightarrow> bool" where
  "reach_ok s \<longleftrightarrow> fr_path ` set (ck_stack s) \<subseteq> reached (ck_report s) \<and> set (rp_nodes (ck_report s)) \<subseteq> reached (ck_report s)"

text \<open>Only the top frame may not be entered yet; the roots reported are finished or below it.\<close>

definition stack_ok :: "'w check_state \<Rightarrow> bool" where
  "stack_ok s \<longleftrightarrow> (\<forall>f \<in> set (tl (ck_stack s)). fr_entered f)
     \<and> set (rp_roots (ck_report s)) \<subseteq> {p. ck_colors s p = visitBlack} \<union> fr_path ` set (ck_stack s)"

definition graph_ok :: "'w check_config \<Rightarrow> 'w check_state \<Rightarrow> bool" where
  "graph_ok C s \<longleftrightarrow> loads_ok s \<and> (\<exists>fin. order_ok fin s) \<and> sites_ok s \<and> inspected C s \<and> reach_ok s \<and> stack_ok s"

lemmas graph_parts = loads_ok_def order_ok_def sites_ok_def inspected_def reach_ok_def stack_ok_def flow_edges_def

lemma graph_ok_world: "graph_ok C (s\<lparr>ck_world := w\<rparr>) = graph_ok C s"
  by (simp add: graph_ok_def graph_parts)

lemma sites_snoc: "sites (edges @ [e]) p = sites edges p @ (if ge_from e = p then [(ge_kind e, ge_source e)] else [])"
  by (simp add: sites_def)

lemma link_sites_simps [simp]: "link_sites [] = []" "link_sites (l # ls) = (link_kind l, link_source l) # link_sites ls"
  by (simp_all add: link_sites_def)

lemma reached_mono: "reached r \<subseteq> reached (r\<lparr>rp_edges := rp_edges r @ es\<rparr>)"
proof -
  have "{(ge_from e, ge_to e) | e. e \<in> set (rp_edges r) \<and> ge_kind e = FileLinkFlow}
      \<subseteq> {(ge_from e, ge_to e) | e. e \<in> set (rp_edges r @ es) \<and> ge_kind e = FileLinkFlow}" by fastforce
  from rtrancl_mono [OF this] show ?thesis unfolding reached_def by auto
qed

lemma reached_edge:
  assumes "p \<in> reached r" "e \<in> set (rp_edges r)" "ge_kind e = FileLinkFlow" "ge_from e = p"
  shows "ge_to e \<in> reached r"
proof -
  have "(ge_from e, ge_to e) \<in> {(ge_from e, ge_to e) | e. e \<in> set (rp_edges r) \<and> ge_kind e = FileLinkFlow}"
    using assms by blast
  then show ?thesis using assms unfolding reached_def by (auto intro: rtrancl_into_rtrancl)
qed

lemma reached_nodes: "reached (r\<lparr>rp_nodes := ns\<rparr>) = reached r"
  by (simp add: reached_def)

section \<open>The phases of a turn\<close>

definition entered_state :: "frame \<Rightarrow> model_flow \<Rightarrow> 'w \<Rightarrow> 'w check_state \<Rightarrow> 'w check_state" where
  "entered_state f flow w s = s\<lparr>ck_world := w, ck_loaded := (ck_loaded s)(fr_path f \<mapsto> flow),
     ck_report := (ck_report s)\<lparr>rp_nodes := rp_nodes (ck_report s) @ [fr_path f]\<rparr>,
     ck_colors := (ck_colors s)(fr_path f := visitGray),
     ck_stack := f\<lparr>fr_entered := True, fr_links := collectLinks flow\<rparr> # tl (ck_stack s)\<rparr>"

lemma enter_frame_cases:
  assumes "ck_loaded s (fr_path f) = None" "ck_error (enter_frame C L f s) = None"
  obtains flow w where "ld_load L (fr_path f) (ck_world s) = (Inr flow, w)" "fl_schema flow = ASTVersionV0"
    "inspectFlow flow (cc_registry C) (cc_platform C) = None" "enter_frame C L f s = entered_state f flow w s"
  using assms
  by (auto simp: enter_frame_def load_flow_def violated_def entered_state_def Let_def
      split: sum.splits prod.splits option.splits if_splits)

lemma enter_keeps:
  assumes ok: "graph_ok C s" and stack: "ck_stack s = f # rest" and fresh: "\<not> fr_entered f"
    and schema: "fl_schema flow = ASTVersionV0" and clean: "inspectFlow flow (cc_registry C) (cc_platform C) = None"
  shows "graph_ok C (entered_state f flow w s)"
proof -
  let ?s = "entered_state f flow w s"
  obtain fin where order: "order_ok fin s" using ok by (auto simp: graph_ok_def)
  have parts: "loads_ok s" "sites_ok s" "inspected C s" "reach_ok s" "stack_ok s" using ok by (simp_all add: graph_ok_def)
  have white: "ck_colors s (fr_path f) = visitWhite" using order stack fresh by (simp add: order_ok_def)
  have new: "ck_loaded s (fr_path f) = None" using parts(1) white by (auto simp: loads_ok_def)
  have "fr_path f \<notin> fr_path ` set rest" using order stack by (simp add: order_ok_def)
  moreover have "\<forall>g \<in> set rest. fr_entered g" using parts(5) stack by (simp add: stack_ok_def)
  ultimately have others: "\<forall>g \<in> set rest. fr_path g \<noteq> fr_path f \<and> fr_entered g" by (metis image_eqI)
  have loads: "loads_ok ?s" using parts(1) schema white by (auto simp: loads_ok_def entered_state_def split: if_splits)
  have "order_ok fin ?s"
    using order stack white others by (auto simp: order_ok_def entered_state_def flow_edges_def)
  moreover have "sites_ok ?s" using parts(2) white others stack
    by (auto simp: sites_ok_def entered_state_def split: if_splits)
  moreover have "inspected C ?s" using parts(3) clean by (auto simp: inspected_def entered_state_def)
  moreover have "reach_ok ?s" using parts(4) stack by (auto simp: reach_ok_def entered_state_def reached_nodes)
  moreover have "stack_ok ?s" using parts(5) stack white by (auto simp: stack_ok_def entered_state_def)
  ultimately show ?thesis using loads by (auto simp: graph_ok_def)
qed

definition finished_state :: "frame \<Rightarrow> 'w check_state \<Rightarrow> 'w check_state" where
  "finished_state f s = s\<lparr>ck_colors := (ck_colors s)(fr_path f := visitBlack), ck_stack := tl (ck_stack s)\<rparr>"

lemma finish_keeps:
  assumes ok: "graph_ok C s" and stack: "ck_stack s = f # rest" and entered: "fr_entered f" and spent: "fr_links f = []"
  shows "graph_ok C (finished_state f s)"
proof -
  let ?s = "finished_state f s"
  obtain fin where order: "order_ok fin s" using ok by (auto simp: graph_ok_def)
  have parts: "loads_ok s" "sites_ok s" "inspected C s" "reach_ok s" "stack_ok s" using ok by (simp_all add: graph_ok_def)
  have gray: "ck_colors s (fr_path f) = visitGray" using order stack entered by (simp add: order_ok_def)
  have "fr_path f \<notin> fr_path ` set rest" using order stack by (simp add: order_ok_def)
  moreover have "\<forall>g \<in> set rest. fr_entered g" using parts(5) stack by (simp add: stack_ok_def)
  ultimately have others: "\<forall>g \<in> set rest. fr_path g \<noteq> fr_path f \<and> fr_entered g" by (metis image_eqI)
  have "loads_ok ?s" using parts(1) gray by (auto simp: loads_ok_def finished_state_def split: if_splits)
  moreover have "order_ok (fin @ [fr_path f]) ?s"
    using order stack gray others by (auto simp: order_ok_def finished_state_def flow_edges_def)
  moreover have "sites_ok ?s" using parts(2) gray others stack entered spent
    by (auto simp: sites_ok_def finished_state_def split: if_splits)
  moreover have "inspected C ?s" using parts(3) by (simp add: inspected_def finished_state_def)
  moreover have "reach_ok ?s" using parts(4) stack by (auto simp: reach_ok_def finished_state_def)
  moreover have "stack_ok ?s" using parts(5) stack
    by (cases rest) (auto simp: stack_ok_def finished_state_def)
  ultimately show ?thesis by (auto simp: graph_ok_def)
qed

text \<open>A link followed adds its edge, and a frame when its target is a new flow.\<close>

definition followed_state :: "graph_edge \<Rightarrow> frame \<Rightarrow> file_link list \<Rightarrow> frame list \<Rightarrow> 'w \<Rightarrow> 'w check_state \<Rightarrow> 'w check_state" where
  "followed_state edge f rest pushed w s = s\<lparr>ck_world := w, ck_stack := pushed @ f\<lparr>fr_links := rest\<rparr> # tl (ck_stack s),
     ck_report := (ck_report s)\<lparr>rp_edges := rp_edges (ck_report s) @ [edge]\<rparr>\<rparr>"

lemma follow_keeps:
  assumes ok: "graph_ok C s" and stack: "ck_stack s = f # lower" and entered: "fr_entered f"
    and links: "fr_links f = link # rest"
    and edge: "ge_from edge = fr_path f" "ge_kind edge = link_kind link" "ge_source edge = link_source link"
    and target: "pushed = [] \<and> (link_kind link \<noteq> FileLinkFlow \<or> ck_colors s (ge_to edge) = visitBlack)
      \<or> pushed = [g] \<and> fr_path g = ge_to edge \<and> \<not> fr_entered g \<and> link_kind link = FileLinkFlow
        \<and> ck_colors s (ge_to edge) = visitWhite"
  shows "graph_ok C (followed_state edge f rest pushed w s)"
proof -
  let ?s = "followed_state edge f rest pushed w s"
  obtain fin where order: "order_ok fin s" using ok by (auto simp: graph_ok_def)
  have parts: "loads_ok s" "sites_ok s" "inspected C s" "reach_ok s" "stack_ok s" using ok by (simp_all add: graph_ok_def)
  have gray: "ck_colors s (fr_path f) = visitGray" using order stack entered by (simp add: order_ok_def)
  have "fr_path f \<notin> fr_path ` set lower" using order stack by (simp add: order_ok_def)
  moreover have "\<forall>g \<in> set lower. fr_entered g" using parts(5) stack by (simp add: stack_ok_def)
  ultimately have others: "\<forall>g \<in> set lower. fr_path g \<noteq> fr_path f \<and> fr_entered g" by (metis image_eqI)
  have edges: "flow_edges ?s = flow_edges s \<union> (if link_kind link = FileLinkFlow then {edge} else {})"
    using edge by (auto simp: flow_edges_def followed_state_def)
  have "order_ok fin ?s"
  proof (cases "pushed = []")
    case True
    have "precedes (fin @ map fr_path (ck_stack s)) (ge_to edge) (ge_from edge)" if "link_kind link = FileLinkFlow"
      using that target order stack edge True by (auto simp: order_ok_def intro: precedes_middle)
    then have backward: "\<forall>e \<in> flow_edges ?s. precedes (fin @ map fr_path (ck_stack s)) (ge_to e) (ge_from e)"
      using order edges by (auto simp: order_ok_def split: if_splits)
    then show ?thesis using order stack True entered
      by (auto simp: order_ok_def followed_state_def)
  next
    case False
    then have push: "pushed = [g]" "fr_path g = ge_to edge" "\<not> fr_entered g" "link_kind link = FileLinkFlow"
      "ck_colors s (ge_to edge) = visitWhite" using target by auto
    have "ge_to edge \<notin> set fin \<union> fr_path ` set (ck_stack s)"
      using order push(5) stack entered others by (force simp: order_ok_def)
    moreover have "precedes (fin @ fr_path g # fr_path f # map fr_path lower) (ge_to edge) (ge_from edge)"
      using edge push by (metis precedes_next)
    moreover have "precedes (fin @ fr_path g # map fr_path (ck_stack s)) (ge_to e) (ge_from e)" if "e \<in> flow_edges s" for e
      using that order by (auto simp: order_ok_def intro: precedes_insert)
    ultimately show ?thesis using order stack push entered edges
      by (auto simp: order_ok_def followed_state_def)
  qed
  moreover have "sites_ok ?s" using parts(2) gray others stack entered links edge target
    by (auto simp: sites_ok_def followed_state_def sites_snoc split: if_splits)
  moreover have "reach_ok ?s"
  proof -
    let ?r = "(ck_report s)\<lparr>rp_edges := rp_edges (ck_report s) @ [edge]\<rparr>"
    have "fr_path ` set (ck_stack s) \<union> set (rp_nodes (ck_report s)) \<subseteq> reached ?r"
      using parts(4) reached_mono [of "ck_report s" "[edge]"] by (auto simp: reach_ok_def)
    moreover have "ge_to edge \<in> reached ?r" if "link_kind link = FileLinkFlow"
      using that calculation stack edge by (intro reached_edge [of "fr_path f"]) auto
    ultimately show ?thesis using target stack by (auto simp: reach_ok_def followed_state_def)
  qed
  moreover have "loads_ok ?s" "inspected C ?s" using parts(1,3) by (simp_all add: loads_ok_def inspected_def followed_state_def)
  moreover have "stack_ok ?s" using parts(5) stack entered target by (auto simp: stack_ok_def followed_state_def)
  ultimately show ?thesis by (auto simp: graph_ok_def)
qed

section \<open>The traversal as a step relation\<close>

text \<open>What a turn of the loop may do while there is no error: read the context, enter the top frame with a flow that
  loads and inspects clean, finish it, follow its next link, or, between two traversals, start at a selected root.\<close>

inductive moves :: "'w check_config \<Rightarrow> 'w loader \<Rightarrow> 'w check_state \<Rightarrow> 'w check_state \<Rightarrow> bool" for C L where
  look: "cc_ctx C (ck_world s) = (None, w) \<Longrightarrow> moves C L s (s\<lparr>ck_world := w\<rparr>)"
| enter: "ck_stack s = f # rest \<Longrightarrow> \<not> fr_entered f \<Longrightarrow> ld_load L (fr_path f) (ck_world s) = (Inr flow, w)
    \<Longrightarrow> fl_schema flow = ASTVersionV0 \<Longrightarrow> inspectFlow flow (cc_registry C) (cc_platform C) = None
    \<Longrightarrow> moves C L s (entered_state f flow w s)"
| finish: "ck_stack s = f # rest \<Longrightarrow> fr_entered f \<Longrightarrow> fr_links f = [] \<Longrightarrow> moves C L s (finished_state f s)"
| follow: "ck_stack s = f # rest \<Longrightarrow> fr_entered f \<Longrightarrow> fr_links f = link # links
    \<Longrightarrow> ld_canonical L (linkTarget (fr_path f) link) (ck_world s) = ((c, None), w)
    \<Longrightarrow> edge = \<lparr>ge_from = fr_path f, ge_to = c, ge_kind = link_kind link, ge_source = link_source link\<rparr>
    \<Longrightarrow> pushed = (if link_kind link = FileLinkFlow \<and> ck_colors s c = visitWhite
          then [\<lparr>fr_path = c, fr_incoming = Some edge, fr_entered = False, fr_links = []\<rparr>] else [])
    \<Longrightarrow> link_kind link = FileLinkFlow \<Longrightarrow> ck_colors s c \<noteq> visitGray
    \<Longrightarrow> moves C L s (followed_state edge f links pushed w s)"
| resource: "ck_stack s = f # rest \<Longrightarrow> fr_entered f \<Longrightarrow> fr_links f = link # links
    \<Longrightarrow> ld_canonical L (linkTarget (fr_path f) link) (ck_world s) = ((c, None), w)
    \<Longrightarrow> edge = \<lparr>ge_from = fr_path f, ge_to = c, ge_kind = link_kind link, ge_source = link_source link\<rparr>
    \<Longrightarrow> link_kind link \<in> {FileLinkScript, FileLinkMedia} \<Longrightarrow> c \<noteq> fr_path f
    \<Longrightarrow> moves C L s (followed_state edge f links [] w s)"
| root: "ck_stack s = [] \<Longrightarrow> ld_canonical L p (ck_world s) = ((c, None), w)
    \<Longrightarrow> moves C L s (s\<lparr>ck_world := w, ck_report := (ck_report s)\<lparr>rp_roots := rp_roots (ck_report s) @ [c]\<rparr>,
          ck_stack := (if ck_colors s c = visitBlack then []
            else [\<lparr>fr_path = c, fr_incoming = None, fr_entered = False, fr_links = []\<rparr>])\<rparr>)"

inductive_cases movesE: "moves C L s t"

lemma root_keeps:
  assumes ok: "graph_ok C s" and bare: "ck_stack s = []"
  shows "graph_ok C (s\<lparr>ck_world := w, ck_report := (ck_report s)\<lparr>rp_roots := rp_roots (ck_report s) @ [p]\<rparr>,
      ck_stack := (if ck_colors s p = visitBlack then []
        else [\<lparr>fr_path = p, fr_incoming = None, fr_entered = False, fr_links = []\<rparr>])\<rparr>)" (is "graph_ok C ?t")
proof -
  obtain fin where order: "order_ok fin s" using ok by (auto simp: graph_ok_def)
  have parts: "loads_ok s" "sites_ok s" "inspected C s" "reach_ok s" "stack_ok s" using ok by (simp_all add: graph_ok_def)
  have grow: "reached (ck_report s) \<subseteq> reached ((ck_report s)\<lparr>rp_roots := rp_roots (ck_report s) @ [p]\<rparr>)"
    and root: "p \<in> reached ((ck_report s)\<lparr>rp_roots := rp_roots (ck_report s) @ [p]\<rparr>)"
    by (auto simp: reached_def)
  have gray: "ck_colors s q \<noteq> visitGray" for q using order bare by (auto simp: order_ok_def)
  have "order_ok fin ?t"
  proof (cases "ck_colors s p = visitBlack")
    case True
    then show ?thesis using order bare unfolding order_ok_def flow_edges_def by simp
  next
    case False
    then have "ck_colors s p = visitWhite" using gray visit_color.exhaust by metis
    then show ?thesis using order bare gray precedes_insert [of fin "[]" _ _ p] False
      by (auto simp: order_ok_def flow_edges_def)
  qed
  moreover have "loads_ok ?t" "inspected C ?t" using parts by (simp_all add: loads_ok_def inspected_def)
  moreover have "sites_ok ?t" "reach_ok ?t" "stack_ok ?t" using parts grow root bare
    by (auto simp: sites_ok_def reach_ok_def stack_ok_def)
  ultimately show ?thesis by (auto simp: graph_ok_def)
qed

lemma moves_graph:
  assumes "moves C L s t" "graph_ok C s" shows "graph_ok C t"
  using assms(1)
proof cases
  case (look w)
  then show ?thesis using assms(2) by (simp add: graph_ok_world)
next
  case (enter f rest flow w)
  then show ?thesis using enter_keeps [OF assms(2)] by simp
next
  case (finish f rest)
  then show ?thesis using finish_keeps [OF assms(2)] by simp
next
  case (follow f rest link links c w edge pushed)
  have "pushed = [] \<and> (link_kind link \<noteq> FileLinkFlow \<or> ck_colors s (ge_to edge) = visitBlack)
      \<or> pushed = [hd pushed] \<and> fr_path (hd pushed) = ge_to edge \<and> \<not> fr_entered (hd pushed) \<and> link_kind link = FileLinkFlow
        \<and> ck_colors s (ge_to edge) = visitWhite"
    using follow by (cases "ck_colors s c") auto
  then show ?thesis unfolding follow(1) by (intro follow_keeps [OF assms(2) follow(2-4), where g = "hd pushed"]) (simp_all add: follow(6))
next
  case (resource f rest link links c w edge)
  show ?thesis unfolding resource(1)
    by (rule follow_keeps [OF assms(2) resource(2-4)]) (use resource(6,7) in auto)
next
  case (root p c w)
  then show ?thesis using root_keeps [OF assms(2)] by simp
qed

lemma moves_error: "moves C L s t \<Longrightarrow> ck_error t = ck_error s"
  by (erule movesE) (simp_all add: entered_state_def finished_state_def followed_state_def)

lemma moves_star_graph: "(moves C L)\<^sup>*\<^sup>* s t \<Longrightarrow> graph_ok C s \<Longrightarrow> graph_ok C t"
  by (induction rule: rtranclp_induct) (auto intro: moves_graph)

section \<open>A turn and a traversal\<close>

definition turn :: "'w check_config \<Rightarrow> 'w loader \<Rightarrow> 'w check_state \<Rightarrow> 'w check_state" where
  "turn C L s = (case fr_links (hd (ck_stack s)) of
      [] \<Rightarrow> finished_state (hd (ck_stack s)) s | link # rest \<Rightarrow> follow_link L (hd (ck_stack s)) link rest s)"

text \<open>A turn of the loop that records no error: the context is read, the top frame entered if it was not, and then it is
  finished or its next link followed.\<close>

lemma visit_step_cases:
  assumes "ck_error s = None" "ck_error (visit_step C L s) = None"
  obtains w s1 where "cc_ctx C (ck_world s) = (None, w)" "ck_error s1 = None" "visit_step C L s = turn C L s1"
    "s1 = (if fr_entered (hd (ck_stack s)) then s\<lparr>ck_world := w\<rparr>
     else enter_frame C L (hd (ck_stack s)) (s\<lparr>ck_world := w\<rparr>))"
proof -
  obtain err w where ctx: "cc_ctx C (ck_world s) = (err, w)" by fastforce
  then have none: "err = None" using assms(2) by (auto simp: visit_step_def split: option.splits)
  let ?s1 = "if fr_entered (hd (ck_stack s)) then s\<lparr>ck_world := w\<rparr>
     else enter_frame C L (hd (ck_stack s)) (s\<lparr>ck_world := w\<rparr>)"
  have step: "visit_step C L s = (if ck_error ?s1 \<noteq> None then ?s1 else turn C L ?s1)"
    using ctx none by (auto simp: visit_step_def turn_def finished_state_def Let_def cong: list.case_cong)
  then have "ck_error ?s1 = None" using assms(2) by metis
  with step ctx none show thesis by (intro that [of w ?s1]) simp_all
qed
lemma unentered_white:
  assumes "graph_ok C s" "ck_stack s = f # rest" "\<not> fr_entered f"
  shows "ck_colors s (fr_path f) = visitWhite" "ck_loaded s (fr_path f) = None"
proof -
  from assms show white: "ck_colors s (fr_path f) = visitWhite" by (auto simp: graph_ok_def order_ok_def)
  from assms(1) have "dom (ck_loaded s) = {p. ck_colors s p \<noteq> visitWhite}" by (simp add: graph_ok_def loads_ok_def)
  then show "ck_loaded s (fr_path f) = None" using white by blast
qed

section \<open>What the check asks of a loader\<close>

text \<open>A loader, with a property of the world every call keeps, under which a canonical path is never empty.\<close>

locale flow_loader =
  fixes C :: "'w check_config" and L :: "'w loader" and J :: "'w \<Rightarrow> bool"
  assumes ctx_keeps: "J w \<Longrightarrow> cc_ctx C w = (None, w') \<Longrightarrow> J w'"
    and canonical_keeps: "J w \<Longrightarrow> ld_canonical L p w = ((c, None), w') \<Longrightarrow> J w'"
    and canonical_named: "J w \<Longrightarrow> ld_canonical L p w = ((c, None), w') \<Longrightarrow> c \<noteq> ''''"
    and load_keeps: "J w \<Longrightarrow> ld_load L p w = (Inr f, w') \<Longrightarrow> J w'"
begin

lemma moves_keeps: "moves C L s t \<Longrightarrow> J (ck_world s) \<Longrightarrow> J (ck_world t)"
  by (erule movesE)
    (auto simp: entered_state_def finished_state_def followed_state_def intro: ctx_keeps canonical_keeps load_keeps)

lemma moves_star_keeps: "(moves C L)\<^sup>*\<^sup>* s t \<Longrightarrow> J (ck_world s) \<Longrightarrow> J (ck_world t)"
  by (induction rule: rtranclp_induct) (auto intro: moves_keeps)

text \<open>The refinement: a turn without an error is a run of moves.\<close>

lemma follow_link_moves:
  assumes J: "J (ck_world s)" and none: "ck_error s = None" and stack: "ck_stack s = f # rest" and entered: "fr_entered f"
    and links: "fr_links f = link # links" and fine: "ck_error (follow_link L f link links s) = None"
  shows "moves C L s (follow_link L f link links s)"
proof -
  obtain canonical err w where canon: "ld_canonical L (linkTarget (fr_path f) link) (ck_world s) = ((canonical, err), w)"
    by (metis prod.exhaust)
  have err: "err = None" using none fine canon by (auto simp: follow_link_def violated_def Let_def split: option.splits)
  have named: "canonical \<noteq> ''''" using canonical_named [OF J] canon err by simp
  let ?edge = "\<lparr>ge_from = fr_path f, ge_to = canonical, ge_kind = link_kind link, ge_source = link_source link\<rparr>"
  let ?frame = "\<lparr>fr_path = canonical, fr_incoming = Some ?edge, fr_entered = False, fr_links = []\<rparr>"
  show ?thesis
  proof (cases "link_kind link = FileLinkFlow")
    case True
    then have gray: "ck_colors s canonical \<noteq> visitGray"
      using canon err fine by (auto simp: follow_link_def violated_def Let_def)
    have "follow_link L f link links s = followed_state ?edge f links
        (if link_kind link = FileLinkFlow \<and> ck_colors s canonical = visitWhite then [?frame] else []) w s"
      using canon err named True gray
      by (cases "ck_colors s canonical") (simp_all add: follow_link_def followed_state_def Let_def)
    then show ?thesis using moves.follow [OF stack entered links _ refl refl True gray] canon err by metis
  next
    case False
    then have kind: "link_kind link \<in> {FileLinkScript, FileLinkMedia}" "canonical \<noteq> fr_path f"
      using canon err fine by (auto simp: follow_link_def violated_def Let_def split: if_splits)
    have "follow_link L f link links s = followed_state ?edge f links [] w s"
      using canon err named kind False by (auto simp: follow_link_def followed_state_def Let_def)
    then show ?thesis using moves.resource [OF stack entered links _ refl kind] canon err by metis
  qed
qed

lemma turn_moves:
  assumes J: "J (ck_world s)" and none: "ck_error s = None" and stack: "ck_stack s = f # rest" and entered: "fr_entered f"
    and fine: "ck_error (turn C L s) = None"
  shows "moves C L s (turn C L s)"
proof (cases "fr_links f")
  case Nil
  then show ?thesis using moves.finish [OF stack entered] stack by (simp add: turn_def)
next
  case (Cons link links)
  then show ?thesis using follow_link_moves [OF J none stack entered Cons] fine stack by (simp add: turn_def)
qed

lemma visit_step_moves:
  assumes J: "J (ck_world s)" and ok: "graph_ok C s" and none: "ck_error s = None" and nonempty: "ck_stack s \<noteq> []"
    and fine: "ck_error (visit_step C L s) = None"
  shows "\<exists>s1. (moves C L)\<^sup>*\<^sup>* s s1 \<and> fr_entered (hd (ck_stack s1)) \<and> ck_stack s1 \<noteq> [] \<and> visit_step C L s = turn C L s1
    \<and> moves C L s1 (turn C L s1)
    \<and> (if fr_entered (hd (ck_stack s)) then \<exists>w. s1 = s\<lparr>ck_world := w\<rparr>
       else \<exists>flow w w'. s1 = entered_state (hd (ck_stack s)) flow w' (s\<lparr>ck_world := w\<rparr>))"
proof -
  obtain f rest where stack: "ck_stack s = f # rest" using nonempty by (cases "ck_stack s") auto
  obtain w s1 where step: "cc_ctx C (ck_world s) = (None, w)" "ck_error s1 = None" "visit_step C L s = turn C L s1"
    and s1: "s1 = (if fr_entered f then s\<lparr>ck_world := w\<rparr> else enter_frame C L f (s\<lparr>ck_world := w\<rparr>))"
    using visit_step_cases [OF none fine] stack by (metis list.sel(1))
  have look: "moves C L s (s\<lparr>ck_world := w\<rparr>)" using step(1) by (rule moves.look)
  have J': "J w" using ctx_keeps [OF J step(1)] .
  show ?thesis
  proof (cases "fr_entered f")
    case True
    then have "moves C L s1 (turn C L s1)" using turn_moves [of s1 f rest] J' s1 stack none fine step by simp
    then show ?thesis using look True s1 stack step(3) by (intro exI [of _ s1]) auto
  next
    case False
    have fresh: "ck_loaded (s\<lparr>ck_world := w\<rparr>) (fr_path f) = None" using unentered_white [OF ok stack False] by simp
    have "ck_error (enter_frame C L f (s\<lparr>ck_world := w\<rparr>)) = None" using step s1 False by simp
    then obtain flow w' where flow: "ld_load L (fr_path f) (ck_world (s\<lparr>ck_world := w\<rparr>)) = (Inr flow, w')" "fl_schema flow = ASTVersionV0"
        "inspectFlow flow (cc_registry C) (cc_platform C) = None" and s1': "s1 = entered_state f flow w' (s\<lparr>ck_world := w\<rparr>)"
      using enter_frame_cases [OF fresh] s1 False by metis
    have enter: "moves C L (s\<lparr>ck_world := w\<rparr>) s1"
      unfolding s1' by (rule moves.enter [OF _ False flow]) (simp add: stack)
    have stack1: "ck_stack s1 = f\<lparr>fr_entered := True, fr_links := collectLinks flow\<rparr> # rest"
      by (simp add: s1' entered_state_def stack)
    have "J (ck_world s1)" using moves_keeps [OF enter] J' by simp
    then have "moves C L s1 (turn C L s1)" using turn_moves [OF _ step(2) stack1] fine step by simp
    then show ?thesis using look enter stack1 step(3) stack False s1'
      by (intro exI [of _ s1]) (auto intro: rtranclp.rtrancl_into_rtrancl)
  qed
qed

lemma visit_step_run:
  assumes "J (ck_world s)" "graph_ok C s" "ck_error s = None" "ck_stack s \<noteq> []" "ck_error (visit_step C L s) = None"
  shows "(moves C L)\<^sup>*\<^sup>* s (visit_step C L s)"
  using visit_step_moves [OF assms] by (auto intro: rtranclp.rtrancl_into_rtrancl)

lemma visit_run:
  assumes "J (ck_world s)" "graph_ok C s" "ck_error s = None" "visit C L s = Some s'" "ck_error s' = None"
  shows "(moves C L)\<^sup>*\<^sup>* s s' \<and> ck_stack s' = []"
proof
  have "ck_error s' = None \<longrightarrow> (moves C L)\<^sup>*\<^sup>* s s'"
  proof (rule while_option_rule [OF _ assms(4) [unfolded visit_def], of "\<lambda>t. ck_error t = None \<longrightarrow> (moves C L)\<^sup>*\<^sup>* s t"])
    fix t assume *: "ck_error t = None \<longrightarrow> (moves C L)\<^sup>*\<^sup>* s t" "ck_error t = None \<and> ck_stack t \<noteq> []"
    then have run: "(moves C L)\<^sup>*\<^sup>* s t" by simp
    then have "J (ck_world t)" "graph_ok C t" using moves_star_keeps assms(1) moves_star_graph assms(2) by blast+
    then show "ck_error (visit_step C L t) = None \<longrightarrow> (moves C L)\<^sup>*\<^sup>* s (visit_step C L t)"
      using visit_step_run [of t] * run by (auto intro: rtranclp_trans)
  qed simp
  then show "(moves C L)\<^sup>*\<^sup>* s s'" using assms(5) by simp
  show "ck_stack s' = []" using while_option_stop [OF assms(4) [unfolded visit_def]] assms(5) by blast
qed

end

end
