(* ===== verification/Preflight_Facts.thy ===== *)
theory Preflight_Facts
  imports Preflight_Graph
begin

text \<open>
  What a preflight guarantees. A check that reports no error is a run of the step relation, so the graph it
  leaves satisfies the invariant; with finitely many canonical paths the check ends; and the inspection of a
  flow is characterised by the commands it reaches. The file loader meets the contract a loader owes the check.
\<close>

section \<open>The whole check\<close>

definition at_rest :: "'w check_config \<Rightarrow> 'w check_state \<Rightarrow> bool" where
  "at_rest C s \<longleftrightarrow> graph_ok C s \<and> ck_error s = None \<and> ck_stack s = []"

lemma load_flow_roots: "load_flow L p s = (r, s') \<Longrightarrow> rp_roots (ck_report s') = rp_roots (ck_report s)"
  by (auto simp: load_flow_def split: option.splits prod.splits sum.splits if_splits)

lemma enter_frame_roots: "rp_roots (ck_report (enter_frame C L f s)) = rp_roots (ck_report s)"
  by (auto simp: enter_frame_def violated_def Let_def split: prod.splits sum.splits option.splits dest: load_flow_roots)

lemma follow_link_roots: "rp_roots (ck_report (follow_link L f link rest s)) = rp_roots (ck_report s)"
  by (cases "ld_canonical L (linkTarget (fr_path f) link) (ck_world s)")
    (simp add: follow_link_def violated_def Let_def split: prod.splits option.splits visit_color.splits)

lemma visit_step_roots: "rp_roots (ck_report (visit_step C L s)) = rp_roots (ck_report s)"
  by (simp add: visit_step_def enter_frame_roots follow_link_roots Let_def split: prod.splits option.splits list.splits)

lemma visit_roots:
  assumes "visit C L s = Some s'" shows "rp_roots (ck_report s') = rp_roots (ck_report s)"
  by (rule while_option_rule [OF _ assms [unfolded visit_def], of "\<lambda>t. rp_roots (ck_report t) = rp_roots (ck_report s)"])
    (simp_all add: visit_step_roots)

lemma at_rest_initial: "at_rest C (initial_check w)"
  by (auto simp: at_rest_def initial_check_def graph_ok_def loads_ok_def order_ok_def sites_ok_def inspected_def
      reach_ok_def stack_ok_def flow_edges_def sites_def intro: exI [of _ "[]"])

context flow_loader
begin

lemma check_roots_run:
  "J (ck_world s) \<Longrightarrow> at_rest C s \<Longrightarrow> check_roots C L selected s = Some s' \<Longrightarrow> ck_error s' = None
    \<Longrightarrow> (moves C L)\<^sup>*\<^sup>* s s' \<and> ck_stack s' = []
      \<and> length (rp_roots (ck_report s')) = length (rp_roots (ck_report s)) + length selected"
proof (induction selected arbitrary: s)
  case Nil
  then show ?case by (simp add: at_rest_def)
next
  case (Cons p ps)
  obtain w where ctx: "cc_ctx C (ck_world s) = (None, w)"
    using Cons.prems by (auto split: prod.splits option.splits)
  obtain canonical w' where canon: "ld_canonical L p w = ((canonical, None), w')"
    using Cons.prems ctx by (auto simp: violated_def split: prod.splits option.splits)
  let ?s = "s\<lparr>ck_world := w', ck_report := (ck_report s)\<lparr>rp_roots := rp_roots (ck_report s) @ [canonical]\<rparr>\<rparr>"
  let ?t = "s\<lparr>ck_world := w', ck_report := (ck_report s)\<lparr>rp_roots := rp_roots (ck_report s) @ [canonical]\<rparr>,
      ck_stack := (if ck_colors s canonical = visitBlack then []
        else [\<lparr>fr_path = canonical, fr_incoming = None, fr_entered = False, fr_links = []\<rparr>])\<rparr>"
  have bare: "ck_stack s = []" "ck_error s = None" "graph_ok C s" using Cons.prems(2) by (simp_all add: at_rest_def)
  have "moves C L s (s\<lparr>ck_world := w\<rparr>)" using ctx by (rule moves.look)
  moreover have "moves C L (s\<lparr>ck_world := w\<rparr>) ?t"
    using moves.root [of "s\<lparr>ck_world := w\<rparr>" L p canonical w' C] canon bare by simp
  ultimately have run: "(moves C L)\<^sup>*\<^sup>* s ?t" by (auto intro: rtranclp.rtrancl_into_rtrancl)
  have J: "J (ck_world ?t)" and ok: "graph_ok C ?t"
    using moves_star_keeps [OF run Cons.prems(1)] moves_star_graph [OF run bare(3)] by simp_all
  show ?case
  proof (cases "ck_colors s canonical = visitBlack")
    case True
    have "?t = ?s" using True bare by simp
    then have "check_roots C L ps ?t = Some s'" using Cons.prems ctx canon True by simp
    from Cons.IH [OF J _ this] Cons.prems(4) True ok bare run show ?thesis by (auto simp: at_rest_def intro: rtranclp_trans)
  next
    case False
    then obtain t where t: "visit C L ?t = Some t" "ck_error t = None" "check_roots C L ps t = Some s'"
      using Cons.prems ctx canon by (auto split: option.splits if_splits)
    have more: "(moves C L)\<^sup>*\<^sup>* ?t t \<and> ck_stack t = []" by (rule visit_run [OF J ok _ t(1,2)]) (simp add: bare)
    have "J (ck_world t)" "at_rest C t"
      using more moves_star_keeps [OF _ J] moves_star_graph [OF _ ok] t(2) by (auto simp: at_rest_def)
    from Cons.IH [OF this t(3) Cons.prems(4)] visit_roots [OF t(1)] more run show ?thesis by (auto intro: rtranclp_trans)
  qed
qed

text \<open>A check without an error: a run of the step relation from the initial state to rest.\<close>

lemma check_run:
  assumes "cc_loader C = Some L" "J w" "Check C selected w = Some s" "ck_error s = None"
  shows "(\<exists>w'. cc_ctx C w = (None, w') \<and> J w' \<and> (moves C L)\<^sup>*\<^sup>* (initial_check w') s) \<and> at_rest C s \<and> J (ck_world s)
    \<and> length (rp_roots (ck_report s)) = length selected"
proof -
  obtain w' where ctx: "cc_ctx C w = (None, w')" and roots: "check_roots C L selected (initial_check w') = Some s"
    using assms by (auto simp: Check_def failed_check_def initial_check_def split: prod.splits option.splits if_splits)
  have J: "J w'" using ctx_keeps [OF assms(2) ctx] .
  have run: "(moves C L)\<^sup>*\<^sup>* (initial_check w') s \<and> ck_stack s = [] \<and> length (rp_roots (ck_report s)) = length selected"
    using check_roots_run [OF _ at_rest_initial roots assms(4)] J by (simp add: initial_check_def)
  have "graph_ok C (initial_check w')" using at_rest_initial [of C w'] by (simp add: at_rest_def)
  then have "graph_ok C s" using moves_star_graph [of C L "initial_check w'" s] run by simp
  moreover have "J (ck_world s)" using run moves_star_keeps J by (auto simp: initial_check_def)
  ultimately show ?thesis using run ctx J assms(4) by (auto simp: at_rest_def)
qed

end

text \<open>The graph a check without an error leaves.\<close>

lemma at_rest_graph:
  assumes "at_rest C s"
  shows "distinct (rp_nodes (ck_report s))" "set (rp_nodes (ck_report s)) = dom (ck_loaded s)"
    "set (rp_roots (ck_report s)) \<subseteq> dom (ck_loaded s)" "dom (ck_loaded s) \<subseteq> reached (ck_report s)"
    "ck_loaded s p = Some f \<Longrightarrow> fl_schema f = ASTVersionV0 \<and> inspectFlow f (cc_registry C) (cc_platform C) = None
       \<and> sites (rp_edges (ck_report s)) p = link_sites (collectLinks f)"
    "\<exists>order. distinct order \<and> set order = dom (ck_loaded s)
       \<and> (\<forall>e \<in> flow_edges s. precedes order (ge_to e) (ge_from e))"
proof -
  obtain fin where order: "order_ok fin s" using assms by (auto simp: at_rest_def graph_ok_def)
  have parts: "loads_ok s" "sites_ok s" "inspected C s" "reach_ok s" "stack_ok s" "ck_stack s = []"
    using assms by (simp_all add: at_rest_def graph_ok_def)
  have gray: "ck_colors s q \<noteq> visitGray" for q using order parts by (auto simp: order_ok_def)
  have black: "ck_colors s q \<noteq> visitWhite \<longleftrightarrow> ck_colors s q = visitBlack" for q
    using gray visit_color.exhaust [of "ck_colors s q"] by (metis visit_color.distinct)
  have dom: "dom (ck_loaded s) = {q. ck_colors s q = visitBlack}" using parts(1) by (simp add: loads_ok_def black)
  show "distinct (rp_nodes (ck_report s))" "set (rp_nodes (ck_report s)) = dom (ck_loaded s)"
    using parts(1) by (simp_all add: loads_ok_def)
  show "set (rp_roots (ck_report s)) \<subseteq> dom (ck_loaded s)" using parts(5,6) by (simp add: stack_ok_def dom)
  show "dom (ck_loaded s) \<subseteq> reached (ck_report s)" using parts(1,4) by (simp add: reach_ok_def loads_ok_def)
  show "fl_schema f = ASTVersionV0 \<and> inspectFlow f (cc_registry C) (cc_platform C) = None
       \<and> sites (rp_edges (ck_report s)) p = link_sites (collectLinks f)" if "ck_loaded s p = Some f"
  proof -
    have "ck_colors s p = visitBlack" using dom that by blast
    then show ?thesis using that parts by (simp add: loads_ok_def inspected_def sites_ok_def)
  qed
  show "\<exists>order. distinct order \<and> set order = dom (ck_loaded s)
       \<and> (\<forall>e \<in> flow_edges s. precedes order (ge_to e) (ge_from e))"
    using order parts(6) dom by (intro exI [of _ fin]) (simp add: order_ok_def)
qed

section \<open>The traversal ends\<close>

definition whites :: "string set \<Rightarrow> 'w check_state \<Rightarrow> nat" where
  "whites P s = card {p \<in> P. ck_colors s p = visitWhite}"

definition weight :: "'w check_state \<Rightarrow> nat" where
  "weight s = sum_list (map (\<lambda>f. 2 * length (fr_links f) + 1) (ck_stack s))"

definition stays_in :: "string set \<Rightarrow> 'w check_state \<Rightarrow> bool" where
  "stays_in P s \<longleftrightarrow> fr_path ` set (ck_stack s) \<subseteq> P"

text \<open>Every canonical path handed out is in \<open>P\<close>.\<close>

definition answers_in :: "string set \<Rightarrow> 'w loader \<Rightarrow> bool" where
  "answers_in P L \<longleftrightarrow> (\<forall>p w. snd (fst (ld_canonical L p w)) = None \<longrightarrow> fst (fst (ld_canonical L p w)) \<in> P)"

lemma answers_inD: "answers_in P L \<Longrightarrow> ld_canonical L p w = ((c, None), w') \<Longrightarrow> c \<in> P"
  unfolding answers_in_def by (metis fst_conv snd_conv)

lemma moves_stays:
  assumes "moves C L s t" "answers_in P L" "stays_in P s" shows "stays_in P t"
  using assms(1)
proof cases
  case (follow f rest link links c w edge pushed)
  then show ?thesis using assms(3) answers_inD [OF assms(2) follow(5)] by (auto simp: stays_in_def followed_state_def)
next
  case (root p c w)
  then show ?thesis using answers_inD [OF assms(2) root(3)] by (simp add: stays_in_def)
qed (use assms(3) in \<open>simp_all add: stays_in_def entered_state_def finished_state_def followed_state_def\<close>)

lemma moves_star_stays: "(moves C L)\<^sup>*\<^sup>* s t \<Longrightarrow> answers_in P L \<Longrightarrow> stays_in P s \<Longrightarrow> stays_in P t"
  by (induction rule: rtranclp_induct) (auto intro: moves_stays)

text \<open>Finishing a frame or following a link keeps the unfinished flows and lightens the stack.\<close>

lemma turn_changes:
  assumes "ck_stack s = f # rest" shows "ck_stack (turn C L s) \<noteq> ck_stack s"
proof (cases "fr_links f")
  case Nil
  then show ?thesis using assms by (simp add: turn_def finished_state_def)
next
  case (Cons link links)
  have "f\<lparr>fr_links := links\<rparr> \<noteq> f" using Cons by (metis frame.select_convs(4) frame.surjective frame.update_convs(4) not_Cons_self2)
  moreover have "ck_stack (follow_link L f link links s) \<in> {f\<lparr>fr_links := links\<rparr> # rest} \<union> range (\<lambda>g. g # f\<lparr>fr_links := links\<rparr> # rest)"
    using assms by (cases "ld_canonical L (linkTarget (fr_path f) link) (ck_world s)")
      (simp add: follow_link_def violated_def Let_def split: prod.splits option.splits visit_color.splits)
  ultimately show ?thesis using assms Cons by (auto simp: turn_def)
qed

lemma working_move_measure:
  assumes "moves C L s t" "fr_entered (hd (ck_stack s))" "ck_stack s \<noteq> []" "t = turn C L s" "graph_ok C s"
  shows "whites P t = whites P s \<and> weight t < weight s"
  using assms(1)
proof cases
  case (look w)
  then show ?thesis using turn_changes [of s "hd (ck_stack s)" "tl (ck_stack s)" C L] assms by simp
next
  case (finish f rest)
  have "ck_colors s (fr_path f) = visitGray" using assms(5) finish by (auto simp: graph_ok_def order_ok_def)
  then have "{p \<in> P. ck_colors t p = visitWhite} = {p \<in> P. ck_colors s p = visitWhite}"
    using finish by (auto simp: finished_state_def)
  then show ?thesis using finish by (simp add: whites_def weight_def finished_state_def)
qed (use assms in \<open>auto simp: followed_state_def whites_def weight_def\<close>)
context flow_loader
begin

lemma visit_step_lightens:
  assumes J: "J (ck_world s)" and ok: "graph_ok C s" and none: "ck_error s = None" and nonempty: "ck_stack s \<noteq> []"
    and fine: "ck_error (visit_step C L s) = None" and P: "finite P" "stays_in P s"
  shows "whites P (visit_step C L s) < whites P s
      \<or> whites P (visit_step C L s) = whites P s \<and> weight (visit_step C L s) < weight s"
proof -
  obtain s1 where run: "(moves C L)\<^sup>*\<^sup>* s s1" and s1: "fr_entered (hd (ck_stack s1))" "ck_stack s1 \<noteq> []"
    and step: "visit_step C L s = turn C L s1" "moves C L s1 (turn C L s1)"
    and shape: "if fr_entered (hd (ck_stack s)) then \<exists>w. s1 = s\<lparr>ck_world := w\<rparr>
       else \<exists>flow w w'. s1 = entered_state (hd (ck_stack s)) flow w' (s\<lparr>ck_world := w\<rparr>)"
    using visit_step_moves [OF J ok none nonempty fine] by blast
  have lighter: "whites P (turn C L s1) = whites P s1 \<and> weight (turn C L s1) < weight s1"
    by (rule working_move_measure [OF step(2) s1 refl moves_star_graph [OF run ok]])
  show ?thesis
  proof (cases "fr_entered (hd (ck_stack s))")
    case True
    with shape obtain w where s1: "s1 = s\<lparr>ck_world := w\<rparr>" by auto
    show ?thesis using lighter unfolding step(1) s1 by (simp add: whites_def weight_def)
  next
    case False
    obtain f rest where stack: "ck_stack s = f # rest" using nonempty by (cases "ck_stack s") auto
    from shape False stack obtain flow w w' where s1: "s1 = entered_state f flow w' (s\<lparr>ck_world := w\<rparr>)" by auto
    have "{p \<in> P. ck_colors s1 p = visitWhite} \<subset> {p \<in> P. ck_colors s p = visitWhite}"
      using unentered_white [OF ok stack] False P(2) stack by (auto simp: s1 entered_state_def stays_in_def)
    then have "whites P s1 < whites P s" using P(1) unfolding whites_def by (intro psubset_card_mono) auto
    then show ?thesis using lighter step(1) by simp
  qed
qed

lemma visit_ends:
  assumes P: "finite P" "answers_in P L" and ok: "J (ck_world s)" "graph_ok C s" "ck_error s = None" "stays_in P s"
  shows "\<exists>s'. visit C L s = Some s'"
  unfolding visit_def
proof (rule wf_rel_while_option_Some [of "measures [\<lambda>s. if ck_error s = None then 1 else 0, whites P, weight]"
      "\<lambda>s. ck_error s = None \<longrightarrow> J (ck_world s) \<and> graph_ok C s \<and> stays_in P s"])
  fix s assume "(ck_error s = None \<longrightarrow> J (ck_world s) \<and> graph_ok C s \<and> stays_in P s) \<and> ck_error s = None \<and> ck_stack s \<noteq> []"
  then have *: "J (ck_world s)" "graph_ok C s" "ck_error s = None" "ck_stack s \<noteq> []" and inside: "stays_in P s" by auto
  show "(visit_step C L s, s) \<in> measures [\<lambda>s. if ck_error s = None then 1 else 0, whites P, weight]"
    using visit_step_lightens [OF * _ P(1) inside] *(3) by (cases "ck_error (visit_step C L s)") auto
  show "ck_error (visit_step C L s) = None
      \<longrightarrow> J (ck_world (visit_step C L s)) \<and> graph_ok C (visit_step C L s) \<and> stays_in P (visit_step C L s)"
    using visit_step_run [OF *] moves_star_keeps *(1) moves_star_graph *(2) moves_star_stays P(2) inside by blast
qed (use ok in simp_all)

lemma check_roots_end:
  assumes P: "finite P" "answers_in P L"
  shows "J (ck_world s) \<Longrightarrow> at_rest C s \<Longrightarrow> \<exists>s'. check_roots C L selected s = Some s'"
proof (induction selected arbitrary: s)
  case (Cons p ps)
  obtain err w where ctx: "cc_ctx C (ck_world s) = (err, w)" by fastforce
  obtain canonical e w' where canon: "ld_canonical L p w = ((canonical, e), w')" by (metis prod.exhaust)
  show ?case
  proof (cases "err = None \<and> e = None")
    case True
    let ?s = "s\<lparr>ck_world := w', ck_report := (ck_report s)\<lparr>rp_roots := rp_roots (ck_report s) @ [canonical]\<rparr>\<rparr>"
    let ?t = "?s\<lparr>ck_stack := [\<lparr>fr_path = canonical, fr_incoming = None, fr_entered = False, fr_links = []\<rparr>]\<rparr>"
    have J: "J w'" using True canon ctx_keeps [OF Cons.prems(1)] ctx canonical_keeps by blast
    have bare: "graph_ok C s" "ck_stack s = []" "ck_error s = None" using Cons.prems(2) by (simp_all add: at_rest_def)
    note ok = root_keeps [OF bare(1,2), where w = w' and p = canonical]
    show ?thesis
    proof (cases "ck_colors s canonical = visitBlack")
      case True
      have "graph_ok C ?s" using ok True bare by (cases s) simp
      then have "at_rest C ?s" using bare by (simp add: at_rest_def)
      then show ?thesis using Cons.IH [of ?s] J ctx canon True \<open>err = None \<and> e = None\<close> by simp
    next
      case False
      then have ok: "graph_ok C ?t" using ok by simp
      have none: "ck_error ?t = None" using bare by simp
      have "stays_in P ?t" using answers_inD [OF P(2)] canon True by (auto simp: stays_in_def)
      then obtain t where t: "visit C L ?t = Some t" using visit_ends [OF P _ ok none] J by auto
      have "J (ck_world t) \<and> at_rest C t" if e: "ck_error t = None"
      proof -
        have "(moves C L)\<^sup>*\<^sup>* ?t t \<and> ck_stack t = []" by (rule visit_run [OF _ ok none t e]) (simp add: J)
        then show ?thesis using moves_star_keeps [of ?t t] moves_star_graph ok J e by (auto simp: at_rest_def)
      qed
      then show ?thesis using Cons.IH t ctx canon True False by auto
    qed
  qed (use ctx canon in \<open>auto split: option.splits\<close>)
qed simp

lemma check_ends:
  assumes "cc_loader C = Some L" "J w" "finite P" "answers_in P L"
  shows "\<exists>s. Check C selected w = Some s"
proof (cases "cc_ctx C w")
  case (Pair e w')
  then show ?thesis
  proof (cases e)
    case None
    then have "J w'" using ctx_keeps [OF assms(2)] Pair by simp
    then have "\<exists>s'. check_roots C L selected (initial_check w') = Some s'"
      using check_roots_end [OF assms(3,4) _ at_rest_initial] by (simp add: initial_check_def)
    then show ?thesis using Pair None assms(1) by (auto simp: Check_def failed_check_def split: option.splits)
  qed (simp add: Check_def failed_check_def)
qed

end

section \<open>The file loader\<close>

lemma clean_parts_proper: "'''' \<notin> set acc \<Longrightarrow> '''' \<notin> set (clean_parts rooted acc ps)"
proof (induction rooted acc ps rule: clean_parts.induct)
  case (2 rooted acc p ps)
  moreover have "'''' \<notin> set (tl acc)" using "2.prems" by (cases acc) auto
  ultimately show ?case by (auto split: if_splits)
qed simp

lemma join_slash_proper: "ps \<noteq> [] \<Longrightarrow> '''' \<notin> set ps \<Longrightarrow> join_slash ps \<noteq> ''''"
  by (induction ps rule: join_slash.induct) auto

lemma Clean_proper: "Clean p \<noteq> ''''"
  using join_slash_proper [OF _ clean_parts_proper [of "[]"]] by (auto simp: Clean_def Let_def)

text \<open>The names a loader gives, whatever the world: never empty. The file loader's are cleaned paths.\<close>

definition names_flows :: "'w loader \<Rightarrow> bool" where
  "names_flows L \<longleftrightarrow> (\<forall>p w. snd (fst (ld_canonical L p w)) = None \<longrightarrow> fst (fst (ld_canonical L p w)) \<noteq> '''')"

lemma names_flows_loader: "names_flows L \<Longrightarrow> flow_loader C L (\<lambda>_. True)"
  by unfold_locales (auto simp: names_flows_def, metis fst_conv snd_conv)

lemma file_loader_names: "names_flows (FileLoader ctx F)"
  unfolding names_flows_def
proof (intro allI impI)
  fix p w assume "snd (fst (ld_canonical (FileLoader ctx F) p w)) = None"
  then obtain c where "fst (fst (ld_canonical (FileLoader ctx F) p w)) = Clean c"
    by (auto simp: FileLoader_def FileLoader_Canonical_def split: prod.splits option.splits sum.splits if_splits)
  then show "fst (fst (ld_canonical (FileLoader ctx F) p w)) \<noteq> ''''" by (simp add: Clean_proper)
qed

interpretation file_loader: flow_loader C "FileLoader ctx F" "\<lambda>_. True" for C ctx F
  by (rule names_flows_loader [OF file_loader_names])

section \<open>What inspection covers\<close>

text \<open>The commands a flow's inspection meets: those authored at its top, and the children of the ones whose condition
  does not already exclude the selected platform.\<close>

inductive authored :: "string \<Rightarrow> command list \<Rightarrow> command \<Rightarrow> bool" for platform cs where
  top_level: "c \<in> set cs \<Longrightarrow> authored platform cs c"
| nested: "authored platform cs c \<Longrightarrow> \<not> conditionExcludesPlatform (cmd_condition c) platform
    \<Longrightarrow> d \<in> set (elems (cmd_children c)) \<Longrightarrow> authored platform cs d"

definition command_clean :: "support_registry \<Rightarrow> string \<Rightarrow> command \<Rightarrow> bool" where
  "command_clean r platform c \<longleftrightarrow>
     (if conditionExcludesPlatform (cmd_condition c) platform
      then inspectCondition (cmd_condition c) r (cmd_source c) '''' = None
      else inspectCommand c r platform = None \<and> inspectCondition (cmd_condition c) r (cmd_source c) platform = None
        \<and> inspectSelector (cmd_selector c) r (cmd_source c) platform = None)"

lemma authored_Nil: "\<not> authored platform [] c"
proof
  assume "authored platform [] c" then show False by induction auto
qed

lemma authored_Cons:
  "authored platform (c # cs) d \<longleftrightarrow>
     d = c \<or> authored platform ((if conditionExcludesPlatform (cmd_condition c) platform then [] else elems (cmd_children c)) @ cs) d"
proof
  assume "authored platform (c # cs) d"
  then show "d = c \<or> authored platform ((if conditionExcludesPlatform (cmd_condition c) platform then [] else elems (cmd_children c)) @ cs) d"
  proof induction
    case (top_level d)
    then show ?case by (auto intro: authored.top_level)
  next
    case (nested e d)
    from nested.IH show ?case
    proof
      assume "e = c"
      then show ?thesis using nested.hyps by (auto intro: authored.top_level)
    qed (use nested.hyps in \<open>auto intro: authored.nested\<close>)
  qed
next
  assume "d = c \<or> authored platform ((if conditionExcludesPlatform (cmd_condition c) platform then [] else elems (cmd_children c)) @ cs) d"
  then show "authored platform (c # cs) d"
  proof
    assume "authored platform ((if conditionExcludesPlatform (cmd_condition c) platform then [] else elems (cmd_children c)) @ cs) d"
    then show ?thesis
    proof induction
      case (top_level d)
      have "authored platform (c # cs) c" by (rule authored.top_level) simp
      then show ?case using top_level by (auto intro: authored.top_level authored.nested split: if_splits)
    qed (auto intro: authored.nested)
  qed (auto intro: authored.top_level)
qed

lemma inspect_commands_exact:
  "inspect_commands r platform cs = None \<longleftrightarrow> (\<forall>c. authored platform cs c \<longrightarrow> command_clean r platform c)"
proof (induction r platform cs rule: inspect_commands.induct)
  case (1 r platform)
  then show ?case by (simp add: authored_Nil)
next
  case (2 r platform c cs)
  then show ?case
    by (cases "conditionExcludesPlatform (cmd_condition c) platform")
      (auto simp: authored_Cons [of platform c cs] command_clean_def split: option.splits)
qed

definition extension_name :: "string \<Rightarrow> dyn \<Rightarrow> string" where
  "extension_name key v = (if key = ''androidWebViewHierarchy'' \<or> key = ''jsEngine''
     then key @ (case v of DynString t \<Rightarrow> ''='' @ t | _ \<Rightarrow> ''=<invalid>'') else key)"

lemma inspect_extensions_exact:
  "inspect_extensions r platform g exts = None \<longleftrightarrow>
     (\<forall>(key, v) \<in> set exts. unsupported_feature r FeatureConfigExtension (extension_name key v)
        (sourceForField (cfg_fieldSources g) key (cfg_source g)) platform = None)"
  by (induction r platform g exts rule: inspect_extensions.induct)
    (auto simp: extension_name_def Let_def split: option.splits)


text \<open>Small flows for the witnesses: one command of a given keyword, linking given flows.\<close>

definition sample_link :: "string \<Rightarrow> file_link" where
  "sample_link p = \<lparr>link_kind = FileLinkFlow, link_path = p, link_resolved = p, link_source = no_source\<rparr>"

definition sample_command :: "string \<Rightarrow> string list \<Rightarrow> command" where
  "sample_command kind targets = Command kind CommandFormScalar DynNil None None None (Some (map sample_link targets)) None None no_source"

definition sample_flow :: "string \<Rightarrow> command list \<Rightarrow> model_flow" where
  "sample_flow url cs = \<lparr>fl_schema = ASTVersionV0,
     fl_config = Config '''' '''' url None None None None None None no_source None, fl_commands = cs, fl_source = no_source\<rparr>"

definition sample_entry :: "feature_kind \<Rightarrow> string \<Rightarrow> entry" where
  "sample_entry kind name = \<lparr>en_kind = kind, en_name = name, en_parse = ParseStatusParseable,
     en_runtime = RuntimeStatusPlannedV1, en_platforms = [''all-hosts''], en_reason = ''''\<rparr>"

definition sample_registry :: support_registry where
  "sample_registry = \<lparr>sr_version = RegistryVersionV0,
     sr_entries = [sample_entry FeatureCommand ''runFlow'', sample_entry FeatureConfigExtension ''url'']\<rparr>"

definition sample_loader :: "unit loader" where
  "sample_loader = \<lparr>ld_canonical = (\<lambda>p w. ((if p = ''/b'' then ''/b'' else ''/a'', None), w)),
     ld_load = (\<lambda>p w. (Inr (if p = ''/b'' then sample_flow '''' []
        else sample_flow '''' [sample_command ''runFlow'' [''/b''], sample_command ''runFlow'' [''/b'']]), w))\<rparr>"

definition sample_check :: "unit check_config" where
  "sample_check = \<lparr>cc_registry = sample_registry, cc_required = map key_of (sr_entries sample_registry),
     cc_loader = Some sample_loader, cc_platform = ''web'', cc_ctx = (\<lambda>w. (None, w))\<rparr>"

lemma sample_loader_ok: "names_flows sample_loader" "answers_in {''/a'', ''/b''} sample_loader"
  by (auto simp: names_flows_def answers_in_def sample_loader_def)


text \<open>C21: The check of a flow that names a URL stops at the URL: whenever the registry supports a URL on the
  platform there is a flow whose only command is unknown to the registry, and its inspection reports nothing.\<close>

theorem url_flow_not_inspected:
  "unsupported_feature r FeatureConfigExtension ''url'' no_source platform = None \<Longrightarrow>
     \<exists>f c. authored platform (flow_commands f) c \<and> registry_lookup r FeatureCommand (cmd_kind c) = None
       \<and> \<not> command_clean r platform c \<and> inspectFlow f r platform = None"
proof -
  assume supported: "unsupported_feature r FeatureConfigExtension ''url'' no_source platform = None"
  obtain kind where "kind \<notin> en_name ` set (sr_entries r)"
    by (metis ex_new_if_finite finite_imageI finite_set infinite_UNIV_listI)
  then have unknown: "registry_lookup r FeatureCommand kind = None" by (auto simp: registry_lookup_def find_None_iff)
  let ?c = "sample_command kind []" let ?f = "sample_flow ''https://example.test'' [sample_command kind []]"
  have "flow_commands ?f = [?c]" by (simp add: flow_commands_def sample_flow_def elems_def)
  then have "authored platform (flow_commands ?f) ?c" by (simp add: authored.top_level)
  moreover have "\<not> command_clean r platform ?c"
    using unknown by (simp add: command_clean_def sample_command_def conditionExcludesPlatform_def inspectCommand_def unsupported_feature_def)
  moreover have "inspectFlow ?f r platform = None"
    using supported by (simp add: inspectFlow_def sample_flow_def sourceForField_def elems_def)
  moreover have "registry_lookup r FeatureCommand (cmd_kind ?c) = None" using unknown by (simp add: sample_command_def)
  ultimately show ?thesis by blast
qed

lemma url_flow_not_inspected_witness:
  "unsupported_feature sample_registry FeatureConfigExtension ''url'' no_source ''web'' = None
   \<and> (\<exists>f c. authored ''web'' (flow_commands f) c \<and> registry_lookup sample_registry FeatureCommand (cmd_kind c) = None
       \<and> \<not> command_clean sample_registry ''web'' c \<and> inspectFlow f sample_registry ''web'' = None)"
proof -
  have supported: "unsupported_feature sample_registry FeatureConfigExtension ''url'' no_source ''web'' = None" by code_simp
  show ?thesis using url_flow_not_inspected [OF supported] supported by blast
qed

section \<open>The properties of a check\<close>


lemma sample_Check:
  "map_option (\<lambda>s. (ck_error s, rp_nodes (ck_report s))) (Check sample_check [''root''] ()) = Some (None, [''/a'', ''/b''])"
  by code_simp


text \<open>C19: The check ends, with a report or an error, whatever the loader does to the world, as soon as the
  canonical paths it hands out are finitely many and never empty.\<close>

theorem Check_terminates:
  "cc_loader C = Some L \<Longrightarrow> names_flows L \<Longrightarrow> finite P \<Longrightarrow> answers_in P L \<Longrightarrow> \<exists>s. Check C selected w = Some s"
  by (rule flow_loader.check_ends [OF names_flows_loader _ TrueI])

lemma Check_terminates_witness:
  "cc_loader sample_check = Some sample_loader \<and> names_flows sample_loader \<and> answers_in {''/a'', ''/b''} sample_loader
   \<and> (\<exists>s. Check sample_check [''root''] () = Some s)"
proof -
  have L: "cc_loader sample_check = Some sample_loader" by (simp add: sample_check_def)
  from Check_terminates [OF L sample_loader_ok(1) _ sample_loader_ok(2)] show ?thesis using L sample_loader_ok by blast
qed

text \<open>A check without an error implements the step relation of the traversal, in which a flow is entered only
  with a clean inspection and a link is followed only off the active path: it is a run of that relation from the
  initial state to an empty stack.\<close>

theorem Check_refines_traversal:
  "Check C selected w = Some s \<Longrightarrow> ck_error s = None \<Longrightarrow> cc_loader C = Some L \<Longrightarrow> names_flows L \<Longrightarrow>
     \<exists>w'. cc_ctx C w = (None, w') \<and> (moves C L)\<^sup>*\<^sup>* (initial_check w') s \<and> ck_stack s = []"
proof -
  assume *: "Check C selected w = Some s" "ck_error s = None" "cc_loader C = Some L" "names_flows L"
  show ?thesis using flow_loader.check_run [OF names_flows_loader [OF *(4)] *(3) _ *(1,2)] by (auto simp: at_rest_def)
qed

lemma Check_refines_traversal_witness:
  "\<exists>s. Check sample_check [''root''] () = Some s \<and> ck_error s = None \<and> cc_loader sample_check = Some sample_loader
     \<and> names_flows sample_loader \<and> (moves sample_check sample_loader)\<^sup>*\<^sup>* (initial_check ()) s \<and> ck_stack s = []"
proof -
  obtain s where s: "Check sample_check [''root''] () = Some s" "ck_error s = None" using sample_Check by auto
  have L: "cc_loader sample_check = Some sample_loader" by (simp add: sample_check_def)
  from Check_refines_traversal [OF s L sample_loader_ok(1)] s L sample_loader_ok(1) show ?thesis by auto
qed

end
