(* ===== verification/Program_Order.thy ===== *)
theory Program_Order
  imports Preflight_Facts "HOL-Library.AList"
begin

text \<open>
  Preparation and compilation of a program (\<^verbatim>\<open>internal/engine/program.go\<close>,
  \<^verbatim>\<open>internal/engine/compiled_program.go\<close>): the preflight runs over a loader that remembers its answers, the
  remembered flows and names become the immutable program, and its flows are compiled children first, in the
  order Kahn's algorithm finds. A Go map that is only read by key is an association list or a map.
\<close>

section \<open>The recording loader\<close>

record recorder =
  rc_canonical :: "string \<rightharpoonup> string \<times> loader_error option"
  rc_flows :: "string \<rightharpoonup> loader_error + model_flow"

definition newRecordingLoader :: recorder where
  "newRecordingLoader = \<lparr>rc_canonical = Map.empty, rc_flows = Map.empty\<rparr>"

definition cloneFlow :: "model_flow \<Rightarrow> model_flow" where
  "cloneFlow f = f\<lparr>fl_config := cloneConfig (fl_config f), fl_commands := map cloneCommand (fl_commands f)\<rparr>"

definition recording_Canonical :: "'w ctx_err \<Rightarrow> 'w loader \<Rightarrow> string \<Rightarrow> 'w \<times> recorder
    \<Rightarrow> (string \<times> loader_error option) \<times> 'w \<times> recorder" where
  "recording_Canonical ctx base path = (\<lambda>(w, r).
     (case ctx w of
        (Some e, w) \<Rightarrow> (('''', Some (plain_loader_error e)), w, r)
      | (None, w) \<Rightarrow>
          (case rc_canonical r path of
             Some result \<Rightarrow> (result, w, r)
           | None \<Rightarrow>
               (case ld_canonical base path w of
                  (result, w) \<Rightarrow> (result, w, r\<lparr>rc_canonical := (rc_canonical r)(path \<mapsto> result)\<rparr>)))))"

definition recording_Load :: "'w ctx_err \<Rightarrow> 'w loader \<Rightarrow> string \<Rightarrow> 'w \<times> recorder
    \<Rightarrow> (loader_error + model_flow) \<times> 'w \<times> recorder" where
  "recording_Load ctx base canonicalPath = (\<lambda>(w, r).
     (case ctx w of
        (Some e, w) \<Rightarrow> (Inl (plain_loader_error e), w, r)
      | (None, w) \<Rightarrow>
          (case rc_flows r canonicalPath of
             Some result \<Rightarrow> (result, w, r)
           | None \<Rightarrow>
               (case ld_load base canonicalPath w of
                  (Inl e, w) \<Rightarrow> (Inl e, w, r\<lparr>rc_flows := (rc_flows r)(canonicalPath \<mapsto> Inl e)\<rparr>)
                | (Inr f, w) \<Rightarrow> (Inr (cloneFlow (cloneFlow f)), w,
                    r\<lparr>rc_flows := (rc_flows r)(canonicalPath \<mapsto> Inr (cloneFlow f))\<rparr>)))))"

definition recordingLoader :: "'w ctx_err \<Rightarrow> 'w loader \<Rightarrow> ('w \<times> recorder) loader" where
  "recordingLoader ctx base = \<lparr>ld_canonical = recording_Canonical ctx base, ld_load = recording_Load ctx base\<rparr>"

definition recorder_flow :: "recorder \<Rightarrow> string \<Rightarrow> model_flow option" where
  "recorder_flow r p = (case rc_flows r p of Some (Inr f) \<Rightarrow> Some (cloneFlow f) | _ \<Rightarrow> None)"

definition recorder_aliases :: "recorder \<Rightarrow> string \<rightharpoonup> string" where
  "recorder_aliases r = (\<lambda>raw. case rc_canonical r raw of
     Some (path, None) \<Rightarrow> if TrimSpace path \<noteq> '''' then Some path else None | _ \<Rightarrow> None)"

section \<open>Preparation\<close>

record program =
  pg_roots :: "string list"
  pg_paths :: "string list"
  pg_flows :: "(string \<times> model_flow) list"
  pg_aliases :: "string \<rightharpoonup> string"
  pg_graph :: report

datatype prepare_error = Refused go_error | Preflight_Refused preflight_error | Node_Not_Recorded string

definition program_Flow :: "program \<Rightarrow> string \<Rightarrow> model_flow option" where
  "program_Flow p path = map_option cloneFlow (map_of (pg_flows p) path)"

fun retain_nodes :: "recorder \<Rightarrow> string list \<Rightarrow> program \<Rightarrow> prepare_error + program" where
  "retain_nodes r [] p = Inr p"
| "retain_nodes r (node # nodes) p =
     (case recorder_flow r node of
        None \<Rightarrow> Inl (Node_Not_Recorded node)
      | Some f \<Rightarrow> retain_nodes r nodes (p\<lparr>pg_paths := pg_paths p @ [node], pg_flows := AList.update node (cloneFlow f) (pg_flows p)\<rparr>))"

text \<open>\<open>None\<close> when the preflight does not end. The context of the checker is the engine's.\<close>

definition recording_config :: "'w check_config \<Rightarrow> 'w loader \<Rightarrow> ('w \<times> recorder) check_config" where
  "recording_config C base = \<lparr>cc_registry = cc_registry C, cc_required = cc_required C,
     cc_loader = Some (recordingLoader (cc_ctx C) base), cc_platform = cc_platform C,
     cc_ctx = (\<lambda>(w, r). case cc_ctx C w of (e, w) \<Rightarrow> (e, w, r))\<rparr>"

definition prepare :: "'w check_config \<Rightarrow> string list \<Rightarrow> 'w \<Rightarrow> ((prepare_error + program) \<times> 'w) option" where
  "prepare C selected w =
     (case cc_loader C of
        None \<Rightarrow> Some (Inl (Refused (NewConfigurationError ''engine Prepare requires a flow loader'' None)), w)
      | Some base \<Rightarrow>
          (case Check (recording_config C base) selected (w, newRecordingLoader) of
             None \<Rightarrow> None
           | Some s \<Rightarrow>
               (let (w, r) = ck_world s; report = ck_report s in
                case ck_error s of
                  Some e \<Rightarrow> Some (Inl (Preflight_Refused e), w)
                | None \<Rightarrow> Some (retain_nodes r (rp_nodes report)
                    \<lparr>pg_roots = rp_roots report, pg_paths = [], pg_flows = [], pg_aliases = recorder_aliases r,
                     pg_graph = report\<rparr>, w))))"

section \<open>Links of a prepared program\<close>

definition canonicalAlias :: "program \<Rightarrow> string \<Rightarrow> string option" where
  "canonicalAlias p target =
     (case pg_aliases p target of
        Some c \<Rightarrow> Some c
      | None \<Rightarrow>
          (case pg_aliases p (Clean target) of
             Some c \<Rightarrow> Some c
           | None \<Rightarrow>
               if map_of (pg_flows p) target \<noteq> None then Some target
               else if map_of (pg_flows p) (Clean target) \<noteq> None then Some (Clean target)
               else None))"

fun resolve_targets :: "program \<Rightarrow> string \<Rightarrow> string list \<Rightarrow> go_error + string" where
  "resolve_targets p resolved [] =
     (if resolved = '''' then Inl (NewConfigurationError ''flow link was not proven by the prepared Program'' None)
      else Inr resolved)"
| "resolve_targets p resolved (target # targets) =
     (case canonicalAlias p target of
        None \<Rightarrow> resolve_targets p resolved targets
      | Some canonical \<Rightarrow>
          if map_of (pg_flows p) canonical = None
          then Inl (NewConfigurationError ''flow link resolved outside the prepared Program'' None)
          else if resolved \<noteq> '''' \<and> resolved \<noteq> canonical
          then Inl (NewConfigurationError ''flow link resolves ambiguously'' None)
          else resolve_targets p canonical targets)"

definition lexical_target :: "string \<Rightarrow> file_link \<Rightarrow> string" where
  "lexical_target containing l =
     (if \<not> IsAbs (link_path l) then path_Join (path_Dir containing) (link_path l) else Clean (link_path l))"

definition resolveFlowLink :: "program \<Rightarrow> string \<Rightarrow> file_link \<Rightarrow> go_error + string" where
  "resolveFlowLink p containing l =
     (if link_kind l \<noteq> FileLinkFlow then Inl (NewConfigurationError ''prepared link is not a flow'' None)
      else if TrimSpace containing = '''' then Inl (NewConfigurationError ''containing flow path must not be blank'' None)
      else
        (let targets = (if TrimSpace (link_resolved l) \<noteq> '''' then [link_resolved l] else [])
               @ (if TrimSpace (link_path l) \<noteq> '''' then [lexical_target containing l] else [])
         in if targets = [] then Inl (NewConfigurationError ''flow link path must not be blank'' None)
            else resolve_targets p '''' targets))"

section \<open>The order of compilation\<close>

fun node_index :: "string list \<Rightarrow> string \<Rightarrow> nat" where
  "node_index [] p = 0"
| "node_index (n # ns) p = (if n = p then 0 else Suc (node_index ns p))"

text \<open>The first complaint of the loop over the nodes, whose program paths are checked by position.\<close>

fun nodes_error :: "(string \<times> model_flow) list \<Rightarrow> string list \<Rightarrow> string list \<Rightarrow> string list \<Rightarrow> string option" where
  "nodes_error flows seen paths [] = None"
| "nodes_error flows seen paths (node # nodes) =
     (if TrimSpace node = '''' then Some ''capability graph flow path must not be blank''
      else if node \<in> set seen then Some ''capability graph flow paths must be unique''
      else if paths = [] \<or> hd paths \<noteq> node then Some ''prepared Program flow order disagrees with capability graph''
      else if map_of flows node = None then Some ''capability graph flow is missing from the prepared Program''
      else nodes_error flows (node # seen) (tl paths) nodes)"

type_synonym adjacency = "string \<Rightarrow> string list"

fun add_edges :: "string list \<Rightarrow> graph_edge list \<Rightarrow> adjacency \<Rightarrow> adjacency \<Rightarrow> string + adjacency \<times> adjacency" where
  "add_edges nodes [] children parents = Inr (children, parents)"
| "add_edges nodes (e # es) children parents =
     (if ge_kind e \<noteq> FileLinkFlow then add_edges nodes es children parents
      else if ge_from e \<notin> set nodes then Inl ''flow edge source is absent from the capability graph''
      else if ge_to e \<notin> set nodes then Inl ''flow edge target is absent from the capability graph''
      else if ge_to e \<in> set (children (ge_from e)) then add_edges nodes es children parents
      else add_edges nodes es (children(ge_from e := children (ge_from e) @ [ge_to e]))
             (parents(ge_to e := parents (ge_to e) @ [ge_from e])))"

record kahn =
  kn_ready :: "string list"
  kn_remaining :: "string \<Rightarrow> int"
  kn_order :: "string list"

fun release :: "string list \<Rightarrow> kahn \<Rightarrow> kahn" where
  "release [] k = k"
| "release (parent # ps) k =
     (let remaining = (kn_remaining k)(parent := kn_remaining k parent - 1)
      in release ps (k\<lparr>kn_remaining := remaining,
           kn_ready := kn_ready k @ (if remaining parent = 0 then [parent] else [])\<rparr>))"

definition kahn_step :: "adjacency \<Rightarrow> kahn \<Rightarrow> kahn" where
  "kahn_step parents k =
     (let path = hd (kn_ready k)
      in release (parents path) (k\<lparr>kn_ready := tl (kn_ready k), kn_order := kn_order k @ [path]\<rparr>))"

definition kahn_start :: "string list \<Rightarrow> adjacency \<Rightarrow> kahn" where
  "kahn_start nodes children = \<lparr>kn_ready = filter (\<lambda>n. children n = []) nodes,
     kn_remaining = (\<lambda>n. int (length (children n))), kn_order = []\<rparr>"

definition kahn :: "string list \<Rightarrow> adjacency \<Rightarrow> adjacency \<Rightarrow> string list option" where
  "kahn nodes children parents =
     map_option kn_order (while_option (\<lambda>k. kn_ready k \<noteq> []) (kahn_step parents) (kahn_start nodes children))"

definition refuse :: "string \<Rightarrow> go_error + 'a" where
  "refuse message = Inl (NewConfigurationError message None)"

text \<open>The nodes in compilation order and the children of each; \<open>None\<close> if the loop does not end.\<close>

definition preparedFlowOrder :: "program \<Rightarrow> (go_error + string list \<times> adjacency) option" where
  "preparedFlowOrder p =
     (let r = pg_graph p; nodes = rp_nodes r in
      if nodes = [] then Some (refuse ''prepared capability graph has no flows'')
      else if length (pg_paths p) \<noteq> length nodes \<or> length (pg_flows p) \<noteq> length nodes
      then Some (refuse ''prepared Program and capability graph disagree'')
      else case nodes_error (pg_flows p) [] (pg_paths p) nodes of
        Some m \<Rightarrow> Some (refuse m)
      | None \<Rightarrow>
          if pg_roots p \<noteq> rp_roots r then Some (refuse ''prepared Program roots disagree with capability graph'')
          else case add_edges nodes (rp_edges r) (\<lambda>_. []) (\<lambda>_. []) of
            Inl m \<Rightarrow> Some (refuse m)
          | Inr (children, parents) \<Rightarrow>
              map_option (\<lambda>order. if length order \<noteq> length nodes then refuse ''prepared flow graph contains a cycle''
                  else Inr (order, children))
                (kahn nodes children (\<lambda>c. sort_key (node_index nodes) (parents c))))"

section \<open>Compilation\<close>

record ('w, 'v) compiled_program =
  cp_roots :: "string list"
  cp_flows :: "(string \<times> ('w, 'v) compiled_flow) list"

definition program_context :: "program \<Rightarrow> adjacency \<Rightarrow> (string \<times> ('w, 'v) compiled_flow) list \<Rightarrow> string \<Rightarrow> compile_context" where
  "program_context p children compiled path = \<lparr>containingFlow = path, requireFlow = Some (\<lambda>link.
     case resolveFlowLink p path link of
       Inl e \<Rightarrow> Inl e
     | Inr canonical \<Rightarrow>
         if canonical \<notin> set (children path) then refuse ''flow link is absent from the prepared capability graph''
         else if map_of compiled canonical = None then refuse ''linked flow was not compiled before its parent''
         else Inr canonical)\<rparr>"

definition compile_flow :: "'w ctx_err \<Rightarrow> ('w, 'v) handler_registry \<Rightarrow> compile_context
    \<Rightarrow> (string \<times> ('w, 'v) compiled_flow) list \<Rightarrow> model_flow \<Rightarrow> 'w \<Rightarrow> (go_error + ('w, 'v) compiled_flow) \<times> 'w" where
  "compile_flow ctx reg cc compiled f w =
     (case compileSequence ctx reg cc compiled (elems (cfg_onFlowStart (fl_config f))) w of
        (Inl e, w) \<Rightarrow> (Inl e, w)
      | (Inr start, w) \<Rightarrow>
          (case compileSequence ctx reg cc compiled (fl_commands f) w of
             (Inl e, w) \<Rightarrow> (Inl e, w)
           | (Inr body, w) \<Rightarrow>
               (case compileSequence ctx reg cc compiled (elems (cfg_onFlowComplete (fl_config f))) w of
                  (Inl e, w) \<Rightarrow> (Inl e, w)
                | (Inr finish, w) \<Rightarrow>
                    (Inr (CompiledFlow (containingFlow cc) (cloneConfig (fl_config f)) start body finish), w))))"

fun compile_order :: "'w ctx_err \<Rightarrow> ('w, 'v) handler_registry \<Rightarrow> program \<Rightarrow> adjacency \<Rightarrow> string list
    \<Rightarrow> (string \<times> ('w, 'v) compiled_flow) list \<Rightarrow> 'w \<Rightarrow> (go_error + (string \<times> ('w, 'v) compiled_flow) list) \<times> 'w" where
  "compile_order ctx reg p children [] compiled w = (Inr compiled, w)"
| "compile_order ctx reg p children (path # paths) compiled w =
     (case ctx w of
        (Some e, w) \<Rightarrow> (Inl e, w)
      | (None, w) \<Rightarrow>
          (case program_Flow p path of
             None \<Rightarrow> (refuse ''capability graph flow is missing from the prepared Program'', w)
           | Some f \<Rightarrow>
               (case compile_flow ctx reg (program_context p children compiled path) compiled f w of
                  (Inl e, w) \<Rightarrow> (Inl e, w)
                | (Inr c, w) \<Rightarrow> compile_order ctx reg p children paths (AList.update path c compiled) w)))"

definition compileProgram :: "'w ctx_err option \<Rightarrow> program option \<Rightarrow> ('w, 'v) handler_registry option \<Rightarrow> 'w
    \<Rightarrow> ((go_error + ('w, 'v) compiled_program) \<times> 'w) option" where
  "compileProgram ctx prog reg w =
     (case ctx of
        None \<Rightarrow> Some (refuse ''program compilation context must not be nil'', w)
      | Some ctx \<Rightarrow>
     (case prog of
        None \<Rightarrow> Some (refuse ''prepared Program must not be nil'', w)
      | Some p \<Rightarrow>
     (case reg of
        None \<Rightarrow> Some (refuse ''handler registry must be initialized'', w)
      | Some reg \<Rightarrow>
     (case ctx w of
        (Some e, w) \<Rightarrow> Some (Inl e, w)
      | (None, w) \<Rightarrow>
     (case preparedFlowOrder p of
        None \<Rightarrow> None
      | Some (Inl e) \<Rightarrow> Some (Inl e, w)
      | Some (Inr (order, children)) \<Rightarrow>
          Some (case compile_order ctx reg p children order [] w of
             (Inl e, w) \<Rightarrow> (Inl e, w)
           | (Inr flows, w) \<Rightarrow>
               if \<exists>r \<in> set (pg_roots p). map_of flows r = None
               then (refuse ''prepared root is missing from the compiled Program'', w)
               else (Inr \<lparr>cp_roots = pg_roots p, cp_flows = flows\<rparr>, w)))))))"

end
