(* ===== verification/Program_Facts.thy ===== *)
theory Program_Facts
  imports Program_Order
begin

text \<open>
  What preparation and the order of compilation guarantee. Kahn's loop ends and lists every node after its
  children exactly when the graph has a topological order; the recording loader still meets the contract of the
  check, and a prepared program remembers every flow and every name the check asked for, so each flow link of a
  prepared program resolves to a flow compiled before it.
\<close>

section \<open>The adjacency of the flow edges\<close>

definition adjacency_ok :: "string list \<Rightarrow> adjacency \<Rightarrow> adjacency \<Rightarrow> bool" where
  "adjacency_ok nodes children parents \<longleftrightarrow>
     (\<forall>n. distinct (children n) \<and> set (children n) \<subseteq> set nodes \<and> (children n \<noteq> [] \<longrightarrow> n \<in> set nodes))
     \<and> (\<forall>c. distinct (parents c) \<and> set (parents c) = {n. c \<in> set (children n)})"

lemma add_edges_adjacency:
  "add_edges nodes es children parents = Inr (children', parents') \<Longrightarrow> adjacency_ok nodes children parents
    \<Longrightarrow> adjacency_ok nodes children' parents'"
proof (induction es arbitrary: children parents)
  case (Cons e es)
  show ?case
  proof (cases "ge_kind e = FileLinkFlow \<and> ge_to e \<notin> set (children (ge_from e))")
    case True
    then have ends: "ge_from e \<in> set nodes" "ge_to e \<in> set nodes" using Cons.prems(1) by (auto split: if_splits)
    have "adjacency_ok nodes (children(ge_from e := children (ge_from e) @ [ge_to e]))
        (parents(ge_to e := parents (ge_to e) @ [ge_from e]))"
      using Cons.prems(2) True ends unfolding adjacency_ok_def by auto
    then show ?thesis using Cons True ends by simp
  qed (use Cons in \<open>auto split: if_splits\<close>)
qed simp

lemma add_edges_children:
  "add_edges nodes es children parents = Inr (children', parents')
    \<Longrightarrow> set (children' n) = set (children n) \<union> {ge_to e | e. e \<in> set es \<and> ge_kind e = FileLinkFlow \<and> ge_from e = n}"
proof (induction es arbitrary: children parents)
  case (Cons e es)
  have more: "{ge_to x | x. x \<in> set (e # es) \<and> ge_kind x = FileLinkFlow \<and> ge_from x = n}
      = (if ge_kind e = FileLinkFlow \<and> ge_from e = n then {ge_to e} else {})
        \<union> {ge_to x | x. x \<in> set es \<and> ge_kind x = FileLinkFlow \<and> ge_from x = n}" by auto
  show ?case unfolding more using Cons.prems Cons.IH by (auto split: if_splits)
qed simp

lemma add_edges_ok:
  "\<forall>e \<in> set es. ge_kind e = FileLinkFlow \<longrightarrow> ge_from e \<in> set nodes \<and> ge_to e \<in> set nodes
    \<Longrightarrow> \<exists>c p. add_edges nodes es children parents = Inr (c, p)"
  by (induction es arbitrary: children parents) auto

section \<open>Kahn's loop\<close>

lemma release_simp:
  "distinct ps \<Longrightarrow> release ps k = k\<lparr>kn_remaining := (\<lambda>p. kn_remaining k p - (if p \<in> set ps then 1 else 0)),
     kn_ready := kn_ready k @ filter (\<lambda>p. kn_remaining k p = 1) ps\<rparr>"
proof (induction ps arbitrary: k)
  case (Cons p ps)
  have "filter (\<lambda>q. (if q = p then kn_remaining k p - 1 else kn_remaining k q) = 1) ps
      = filter (\<lambda>q. kn_remaining k q = 1) ps"
    using Cons.prems by (intro filter_cong) auto
  then show ?case using Cons by (auto simp: Let_def fun_eq_iff)
qed simp

text \<open>Every element comes after its children.\<close>

definition children_first :: "adjacency \<Rightarrow> string list \<Rightarrow> bool" where
  "children_first children xs \<longleftrightarrow> (\<forall>i < length xs. set (children (xs ! i)) \<subseteq> set (take i xs))"

lemma children_first_snoc:
  "children_first children (xs @ [x]) \<longleftrightarrow> children_first children xs \<and> set (children x) \<subseteq> set xs"
  by (auto simp: children_first_def nth_append less_Suc_eq)

lemma children_first_precedes:
  assumes "children_first children xs" "n \<in> set xs" "c \<in> set (children n)" shows "precedes xs c n"
proof -
  obtain i where i: "i < length xs" "xs ! i = n" using assms(2) by (metis in_set_conv_nth)
  then have "c \<in> set (take i xs)" using assms by (auto simp: children_first_def)
  then obtain us vs where c: "take i xs = us @ c # vs" by (meson split_list)
  have "xs = take i xs @ n # drop (Suc i) xs" using i by (metis id_take_nth_drop)
  then have "xs = us @ c # (vs @ n # drop (Suc i) xs)" using c by simp
  then show ?thesis unfolding precedes_def by fastforce
qed

definition kahn_ok :: "string list \<Rightarrow> adjacency \<Rightarrow> kahn \<Rightarrow> bool" where
  "kahn_ok nodes children k \<longleftrightarrow>
     distinct (kn_order k @ kn_ready k)
     \<and> set (kn_order k @ kn_ready k) = {n \<in> set nodes. set (children n) \<subseteq> set (kn_order k)}
     \<and> (\<forall>n \<in> set nodes. kn_remaining k n = int (card (set (children n) - set (kn_order k))))
     \<and> children_first children (kn_order k)"

lemma last_missing:
  assumes "p \<in> set xs" "p \<notin> A" shows "card (set xs - A) = 1 \<longleftrightarrow> set xs \<subseteq> insert p A"
proof
  assume "card (set xs - A) = 1"
  then obtain x where "set xs - A = {x}" by (rule card_1_singletonE)
  moreover have "p \<in> set xs - A" using assms by simp
  ultimately have "set xs - A = {p}" by (metis singletonD)
  then show "set xs \<subseteq> insert p A" by blast
next
  assume "set xs \<subseteq> insert p A"
  then have "set xs - A = {p}" using assms by blast
  then show "card (set xs - A) = 1" by simp
qed

lemma kahn_ok_start: "distinct nodes \<Longrightarrow> adjacency_ok nodes children parents \<Longrightarrow> kahn_ok nodes children (kahn_start nodes children)"
  by (auto simp: kahn_ok_def kahn_start_def children_first_def distinct_card adjacency_ok_def)

lemma kahn_step_ok:
  assumes graph: "adjacency_ok nodes children parents" and ok: "kahn_ok nodes children k" and ready: "kn_ready k = path # ready"
  shows "kahn_ok nodes children (kahn_step parents k) \<and> kn_order (kahn_step parents k) = kn_order k @ [path]"
proof -
  have dist: "distinct (parents path)" and par: "n \<in> set (parents path) \<longleftrightarrow> path \<in> set (children n)" for n
    using graph by (auto simp: adjacency_ok_def)
  have node: "n \<in> set (parents path) \<Longrightarrow> n \<in> set nodes" for n using graph par by (fastforce simp: adjacency_ok_def)
  let ?new = "filter (\<lambda>p. kn_remaining k p = 1) (parents path)"
  have step: "kahn_step parents k = k\<lparr>kn_order := kn_order k @ [path],
      kn_remaining := (\<lambda>p. kn_remaining k p - (if p \<in> set (parents path) then 1 else 0)), kn_ready := ready @ ?new\<rparr>"
    using ready dist by (simp add: kahn_step_def release_simp)
  have new: "n \<in> set ?new \<longleftrightarrow> n \<in> set nodes \<and> path \<in> set (children n) \<and> set (children n) \<subseteq> insert path (set (kn_order k))" for n
  proof -
    have fresh: "path \<notin> set (kn_order k)" using ok ready by (auto simp: kahn_ok_def)
    have remaining: "n \<in> set nodes \<Longrightarrow> kn_remaining k n = int (card (set (children n) - set (kn_order k)))"
      using ok by (simp add: kahn_ok_def)
    show ?thesis
    proof (cases "path \<in> set (children n)")
      case True
      then show ?thesis using remaining par node last_missing [OF True fresh] by auto
    qed (use par in simp)
  qed
  have disjoint: "set ?new \<inter> set (kn_order k @ kn_ready k) = {}"
  proof -
    have "path \<notin> set (kn_order k)" using ok ready by (simp add: kahn_ok_def)
    moreover have "set (kn_order k @ kn_ready k) = {n \<in> set nodes. set (children n) \<subseteq> set (kn_order k)}"
      using ok by (simp add: kahn_ok_def)
    ultimately show ?thesis using new by blast
  qed
  have "distinct (kn_order k @ kn_ready k)" using ok by (simp add: kahn_ok_def)
  then have "distinct (kn_order k @ path # ready @ ?new)" using ready dist disjoint by auto
  moreover have "set (kn_order k @ path # ready @ ?new)
      = {n \<in> set nodes. set (children n) \<subseteq> insert path (set (kn_order k))}"
  proof -
    have old: "set (kn_order k @ path # ready) = {n \<in> set nodes. set (children n) \<subseteq> set (kn_order k)}"
      using ok ready by (simp add: kahn_ok_def)
    have "set (kn_order k @ path # ready @ ?new) = set (kn_order k @ path # ready) \<union> set ?new" by auto
    then show ?thesis unfolding old using new by auto
  qed
  moreover have "kn_remaining k n - (if n \<in> set (parents path) then 1 else 0)
      = int (card (set (children n) - set (kn_order k @ [path])))" if "n \<in> set nodes" for n
  proof -
    have fresh: "path \<notin> set (kn_order k)" using ok ready by (auto simp: kahn_ok_def)
    have "set (children n) - set (kn_order k @ [path]) = (set (children n) - set (kn_order k)) - {path}" by auto
    moreover have "path \<in> set (children n) - set (kn_order k) \<Longrightarrow> 0 < card (set (children n) - set (kn_order k))"
      using card_gt_0_iff by blast
    ultimately show ?thesis using ok that par fresh by (auto simp: kahn_ok_def card_Diff_singleton_if of_nat_diff)
  qed
  moreover have "children_first children (kn_order k @ [path])"
    using ok ready by (auto simp: kahn_ok_def children_first_snoc)
  ultimately show ?thesis unfolding step by (auto simp: kahn_ok_def)
qed

lemma kahn_ok_order: "kahn_ok nodes children k \<Longrightarrow> distinct (kn_order k) \<and> set (kn_order k) \<subseteq> set nodes"
  by (auto simp: kahn_ok_def)

lemma kahn_ends:
  assumes "distinct nodes" "adjacency_ok nodes children parents" shows "\<exists>order. kahn nodes children parents = Some order"
proof -
  have "\<exists>k. while_option (\<lambda>k. kn_ready k \<noteq> []) (kahn_step parents) (kahn_start nodes children) = Some k"
  proof (rule measure_while_option_Some [of "kahn_ok nodes children" _ _ "\<lambda>k. length nodes - length (kn_order k)"])
    fix k assume ok: "kahn_ok nodes children k" and "kn_ready k \<noteq> []"
    then obtain path ready where "kn_ready k = path # ready" by (cases "kn_ready k") auto
    from kahn_step_ok [OF assms(2) ok this]
    have step: "kahn_ok nodes children (kahn_step parents k)" "length (kn_order (kahn_step parents k)) = Suc (length (kn_order k))"
      by simp_all
    have "length (kn_order (kahn_step parents k)) \<le> length nodes"
      using kahn_ok_order [OF step(1)] by (metis card_length card_mono distinct_card finite_set le_trans)
    then show "kahn_ok nodes children (kahn_step parents k)
        \<and> length nodes - length (kn_order (kahn_step parents k)) < length nodes - length (kn_order k)"
      using step by simp
  qed (rule kahn_ok_start [OF assms])
  then show ?thesis by (auto simp: kahn_def)
qed

lemma kahn_result:
  assumes "distinct nodes" "adjacency_ok nodes children parents" "kahn nodes children parents = Some order"
  shows "distinct order" "set order = {n \<in> set nodes. set (children n) \<subseteq> set order}" "children_first children order"
proof -
  obtain k where k: "while_option (\<lambda>k. kn_ready k \<noteq> []) (kahn_step parents) (kahn_start nodes children) = Some k"
    and order: "order = kn_order k" using assms(3) by (auto simp: kahn_def)
  have "kahn_ok nodes children k"
  proof (rule while_option_rule [OF _ k, of "kahn_ok nodes children"])
    fix s assume "kahn_ok nodes children s" "kn_ready s \<noteq> []"
    then show "kahn_ok nodes children (kahn_step parents s)"
      using kahn_step_ok [OF assms(2)] by (cases "kn_ready s") auto
  qed (rule kahn_ok_start [OF assms(1,2)])
  moreover have "kn_ready k = []" using while_option_stop [OF k] by simp
  ultimately show "distinct order" "set order = {n \<in> set nodes. set (children n) \<subseteq> set order}" "children_first children order"
    unfolding order by (auto simp: kahn_ok_def)
qed

text \<open>A graph with any topological order has all its nodes in the result.\<close>

lemma kahn_complete:
  assumes "set order = {n \<in> set nodes. set (children n) \<subseteq> set order}" "set topo = set nodes"
    and earlier: "\<And>n c. c \<in> set (children n) \<Longrightarrow> n \<in> set nodes \<Longrightarrow> precedes topo c n" and dist: "distinct topo"
  shows "set order = set nodes"
proof -
  have "set (take i topo) \<subseteq> set order" for i
  proof (induction i)
    case (Suc i)
    show ?case
    proof (cases "i < length topo")
      case True
      let ?n = "topo ! i"
      have n: "?n \<in> set nodes" using True assms(2) nth_mem by blast
      have "c \<in> set (take i topo)" if c: "c \<in> set (children ?n)" for c
      proof -
        obtain us vs where topo: "topo = us @ c # vs" "?n \<in> set vs" using earlier [OF c n] by (auto simp: precedes_def)
        have "length us < i"
        proof (rule ccontr)
          assume "\<not> length us < i"
          then have "?n \<in> set (us @ [c])" using topo(1) by (cases "i = length us") (auto simp: nth_append)
          then show False using topo dist by auto
        qed
        then obtain k where "i - length us = Suc k" by (metis Suc_diff_Suc)
        then show ?thesis using topo(1) by simp
      qed
      then have "set (children ?n) \<subseteq> set order" using Suc by blast
      then show ?thesis using Suc n assms(1) True by (auto simp: take_Suc_conv_app_nth)
    qed (use Suc in simp)
  qed simp
  from this [of "length topo"] have "set nodes \<subseteq> set order" using assms(2) by simp
  then show ?thesis using assms(1) by auto
qed

section \<open>The prepared order\<close>

lemma nodes_error_None:
  "nodes_error flows seen paths nodes = None \<Longrightarrow> distinct nodes \<and> set nodes \<inter> set seen = {}
     \<and> (\<forall>n \<in> set nodes. map_of flows n \<noteq> None)"
  by (induction flows seen paths nodes rule: nodes_error.induct) (auto split: if_splits)

lemma nodes_error_agrees:
  "distinct nodes \<Longrightarrow> set nodes \<inter> set seen = {} \<Longrightarrow> \<forall>n \<in> set nodes. TrimSpace n \<noteq> '''' \<and> map_of flows n \<noteq> None
     \<Longrightarrow> nodes_error flows seen nodes nodes = None"
  by (induction nodes arbitrary: seen) auto

lemma adjacency_ok_empty: "adjacency_ok nodes (\<lambda>_. []) (\<lambda>_. [])"
  by (simp add: adjacency_ok_def)

lemma adjacency_ok_sort:
  "adjacency_ok nodes children parents \<Longrightarrow> adjacency_ok nodes children (\<lambda>c. sort_key f (parents c))"
  by (simp add: adjacency_ok_def)

definition topological :: "report \<Rightarrow> string list \<Rightarrow> bool" where
  "topological r order \<longleftrightarrow> distinct order \<and> set order = set (rp_nodes r)
     \<and> (\<forall>e \<in> set (rp_edges r). ge_kind e = FileLinkFlow \<longrightarrow> precedes order (ge_to e) (ge_from e))"

text \<open>The loop is reached only with a graph the agreement checks accepted.\<close>

lemma preparedFlowOrder_cases:
  obtains (refused) m where "preparedFlowOrder p = Some (refuse m)" "m \<noteq> ''prepared flow graph contains a cycle''"
  | (looped) children parents order where "distinct (rp_nodes (pg_graph p))" "adjacency_ok (rp_nodes (pg_graph p)) children parents"
      "\<And>n. set (children n) = {ge_to e | e. e \<in> set (rp_edges (pg_graph p)) \<and> ge_kind e = FileLinkFlow \<and> ge_from e = n}"
      "kahn (rp_nodes (pg_graph p)) children parents = Some order"
      "preparedFlowOrder p = Some (if length order \<noteq> length (rp_nodes (pg_graph p)) then refuse ''prepared flow graph contains a cycle''
          else Inr (order, children))"
proof -
  let ?r = "pg_graph p" let ?nodes = "rp_nodes (pg_graph p)"
  have messages: "nodes_error flows seen paths nodes \<noteq> Some ''prepared flow graph contains a cycle''" for flows seen paths nodes
    by (induction flows seen paths nodes rule: nodes_error.induct) simp_all
  have edge_messages: "add_edges nodes es c q \<noteq> Inl ''prepared flow graph contains a cycle''" for nodes es c q
    by (induction es arbitrary: c q) auto
  show thesis
  proof (cases "?nodes = [] \<or> length (pg_paths p) \<noteq> length ?nodes \<or> length (pg_flows p) \<noteq> length ?nodes
      \<or> nodes_error (pg_flows p) [] (pg_paths p) ?nodes \<noteq> None \<or> pg_roots p \<noteq> rp_roots ?r
      \<or> (\<exists>m. add_edges ?nodes (rp_edges ?r) (\<lambda>_. []) (\<lambda>_. []) = Inl m)")
    case True
    then have "\<exists>m. preparedFlowOrder p = Some (refuse m) \<and> m \<noteq> ''prepared flow graph contains a cycle''"
      using messages [of "pg_flows p" "[]" "pg_paths p" ?nodes] edge_messages [of ?nodes "rp_edges ?r"]
      by (auto simp: preparedFlowOrder_def Let_def split: option.splits)
    then show thesis using refused by blast
  next
    case False
    then obtain children parents where edges: "add_edges ?nodes (rp_edges ?r) (\<lambda>_. []) (\<lambda>_. []) = Inr (children, parents)"
      by (metis sum.exhaust surj_pair)
    have dist: "distinct ?nodes" using False nodes_error_None [of "pg_flows p" "[]" "pg_paths p" ?nodes] by simp
    let ?parents = "\<lambda>c. sort_key (node_index ?nodes) (parents c)"
    have adj: "adjacency_ok ?nodes children ?parents"
      using add_edges_adjacency [OF edges adjacency_ok_empty] by (rule adjacency_ok_sort)
    obtain order where order: "kahn ?nodes children ?parents = Some order" using kahn_ends [OF dist adj] by blast
    show thesis
    proof (rule looped [OF dist adj _ order])
      show "set (children n) = {ge_to e | e. e \<in> set (rp_edges ?r) \<and> ge_kind e = FileLinkFlow \<and> ge_from e = n}" for n
        using add_edges_children [OF edges, of n] by simp
      show "preparedFlowOrder p = Some (if length order \<noteq> length ?nodes then refuse ''prepared flow graph contains a cycle''
          else Inr (order, children))"
        using False edges order by (simp add: preparedFlowOrder_def Let_def)
    qed
  qed
qed

lemma looped_topological:
  assumes "distinct (rp_nodes r)" "adjacency_ok (rp_nodes r) children parents"
    "\<And>n. set (children n) = {ge_to e | e. e \<in> set (rp_edges r) \<and> ge_kind e = FileLinkFlow \<and> ge_from e = n}"
    "kahn (rp_nodes r) children parents = Some order"
  shows "length order = length (rp_nodes r) \<longleftrightarrow> set order = set (rp_nodes r)"
    and "length order = length (rp_nodes r) \<Longrightarrow> topological r order"
    and "topological r topo \<Longrightarrow> length order = length (rp_nodes r)"
proof -
  note result = kahn_result [OF assms(1,2,4)]
  have subset: "set order \<subseteq> set (rp_nodes r)" using result(2) by blast
  show same: "length order = length (rp_nodes r) \<longleftrightarrow> set order = set (rp_nodes r)"
    using result(1) assms(1) subset by (metis card_subset_eq distinct_card finite_set)
  show "topological r order" if "length order = length (rp_nodes r)"
  proof -
    have all: "set order = set (rp_nodes r)" using that same by simp
    have "precedes order (ge_to e) (ge_from e)" if "e \<in> set (rp_edges r)" "ge_kind e = FileLinkFlow" for e
    proof (rule children_first_precedes [OF result(3)])
      show child: "ge_to e \<in> set (children (ge_from e))" using that assms(3) by auto
      then have "children (ge_from e) \<noteq> []" by auto
      then have "ge_from e \<in> set (rp_nodes r)" using assms(2) by (simp add: adjacency_ok_def)
      then show "ge_from e \<in> set order" using all by simp
    qed
    then show ?thesis using result(1) all by (simp add: topological_def)
  qed
  show "length order = length (rp_nodes r)" if topo: "topological r topo"
  proof -
    have "precedes topo c n" if "c \<in> set (children n)" for c n
      using that topo assms(3) by (auto simp: topological_def)
    then have "set order = set (rp_nodes r)"
      using kahn_complete [OF result(2)] topo by (auto simp: topological_def)
    then show ?thesis using same by simp
  qed
qed

text \<open>C18: The order of compilation is found or refused, never awaited: it always ends; an order it returns lists every
  flow of the graph once, each after all the flows it links; and it reports a cycle only for a graph that has no
  such order at all.\<close>

theorem preparedFlowOrder_exact:
  "(\<exists>outcome. preparedFlowOrder p = Some outcome)
   \<and> (\<forall>order children. preparedFlowOrder p = Some (Inr (order, children)) \<longrightarrow> topological (pg_graph p) order)
   \<and> (preparedFlowOrder p = Some (refuse ''prepared flow graph contains a cycle'') \<longrightarrow> (\<nexists>order. topological (pg_graph p) order))"
proof (cases p rule: preparedFlowOrder_cases)
  case (refused m)
  then show ?thesis by (simp add: refuse_def NewConfigurationError_def)
next
  case (looped children parents order)
  show ?thesis using looped_topological [OF looped(1-4)] looped(5) by (auto simp: refuse_def split: if_splits)
qed

definition sample_program :: "string list \<Rightarrow> (string \<times> string) list \<Rightarrow> program" where
  "sample_program nodes edges = \<lparr>pg_roots = [], pg_paths = nodes, pg_flows = map (\<lambda>n. (n, sample_flow '''' [])) nodes,
     pg_aliases = (\<lambda>_. None), pg_graph = \<lparr>rp_roots = [], rp_nodes = nodes,
       rp_edges = map (\<lambda>(a, b). \<lparr>ge_from = a, ge_to = b, ge_kind = FileLinkFlow, ge_source = no_source\<rparr>) edges\<rparr>\<rparr>"

lemma map_sum_fst:
  "map_option (map_sum id fst) x = Some (Inr a) \<Longrightarrow> \<exists>b. x = Some (Inr (a, b))"
  "map_option (map_sum id fst) x = Some (Inl e) \<Longrightarrow> x = Some (Inl e)"
  by (cases x; cases "the x"; auto)+

lemma preparedFlowOrder_exact_witness:
  "topological (pg_graph (sample_program [''a''] [])) [''a'']
   \<and> (\<nexists>order. topological (pg_graph (sample_program [''a''] [(''a'', ''a'')])) order)"
proof -
  have acyclic: "\<exists>children. preparedFlowOrder (sample_program [''a''] []) = Some (Inr ([''a''], children))"
  proof -
    have "map_option (map_sum id fst) (preparedFlowOrder (sample_program [''a''] [])) = Some (Inr [''a''])"
      by code_simp
    then show ?thesis by (rule map_sum_fst)
  qed
  have "map_option (map_sum id fst) (preparedFlowOrder (sample_program [''a''] [(''a'', ''a'')]))
      = Some (refuse ''prepared flow graph contains a cycle'')" by code_simp
  then have cyclic: "preparedFlowOrder (sample_program [''a''] [(''a'', ''a'')])
      = Some (refuse ''prepared flow graph contains a cycle'')" unfolding refuse_def by (rule map_sum_fst)
  show ?thesis using preparedFlowOrder_exact acyclic cyclic by blast
qed

section \<open>What the recorder remembers\<close>

definition named_cache :: "'w \<times> recorder \<Rightarrow> bool" where
  "named_cache wr \<longleftrightarrow> (\<forall>authoredPath c. rc_canonical (snd wr) authoredPath = Some (c, None) \<longrightarrow> TrimSpace c \<noteq> '''')"

text \<open>A loader whose canonical paths are never blank.\<close>

definition names_visibly :: "'w loader \<Rightarrow> bool" where
  "names_visibly L \<longleftrightarrow> (\<forall>p w. snd (fst (ld_canonical L p w)) = None \<longrightarrow> TrimSpace (fst (fst (ld_canonical L p w))) \<noteq> '''')"

lemma names_visiblyD: "names_visibly L \<Longrightarrow> ld_canonical L p w = ((c, None), w') \<Longrightarrow> TrimSpace c \<noteq> ''''"
  unfolding names_visibly_def by (metis fst_conv snd_conv)

lemma TrimSpace_Nil [simp]: "TrimSpace '''' = ''''"
  by (simp add: TrimSpace_def)

lemma recording_Canonical_ok:
  assumes "recording_Canonical ctx base p wr = ((c, None), wr')"
  shows "rc_canonical (snd wr') p = Some (c, None)" "rc_canonical (snd wr) \<subseteq>\<^sub>m rc_canonical (snd wr')" "rc_flows (snd wr') = rc_flows (snd wr)"
    "rc_canonical (snd wr') authoredPath = Some (d, None) \<Longrightarrow> rc_canonical (snd wr) authoredPath \<noteq> Some (d, None) \<Longrightarrow>
       \<exists>w w'. ld_canonical base authoredPath w = ((d, None), w')"
  using assms
  by (auto simp: recording_Canonical_def map_le_def split: prod.splits option.splits if_splits) blast

lemma recording_Load_ok:
  assumes "recording_Load ctx base p wr = (Inr f, wr')"
  shows "\<exists>g. rc_flows (snd wr') p = Some (Inr g) \<and> f \<in> {g, cloneFlow g}" "rc_flows (snd wr) \<subseteq>\<^sub>m rc_flows (snd wr')"
    "rc_canonical (snd wr') = rc_canonical (snd wr)"
  using assms
  by (auto simp: recording_Load_def map_le_def split: prod.splits option.splits sum.splits)

lemma recording_loader:
  assumes "names_visibly base" shows "flow_loader (recording_config C base) (recordingLoader (cc_ctx C) base) named_cache"
proof
  fix wr :: "'a \<times> recorder" and wr' and p c f
  assume J: "named_cache wr"
  show "named_cache wr'" if "cc_ctx (recording_config C base) wr = (None, wr')"
    using J that by (auto simp: recording_config_def named_cache_def split: prod.splits)
  show keeps: "named_cache wr'" if "ld_canonical (recordingLoader (cc_ctx C) base) p wr = ((c, None), wr')"
  proof -
    have canon: "recording_Canonical (cc_ctx C) base p wr = ((c, None), wr')" using that by (simp add: recordingLoader_def)
    have "TrimSpace d \<noteq> ''''" if "rc_canonical (snd wr') authoredPath = Some (d, None)" for authoredPath d
    proof (cases "rc_canonical (snd wr) authoredPath = Some (d, None)")
      case True
      then show ?thesis using J by (auto simp: named_cache_def)
    next
      case False
      then show ?thesis using recording_Canonical_ok(4) [OF canon that] names_visiblyD [OF assms] by blast
    qed
    then show ?thesis by (simp add: named_cache_def)
  qed
  show "c \<noteq> ''''" if "ld_canonical (recordingLoader (cc_ctx C) base) p wr = ((c, None), wr')"
  proof -
    have "rc_canonical (snd wr') p = Some (c, None)"
      using that by (intro recording_Canonical_ok(1)) (simp add: recordingLoader_def)
    then have "TrimSpace c \<noteq> ''''" using keeps [OF that] by (auto simp: named_cache_def)
    then show ?thesis by auto
  qed
  show "named_cache wr'" if "ld_load (recordingLoader (cc_ctx C) base) p wr = (Inr f, wr')"
    using that recording_Load_ok(3) [of "cc_ctx C" base p wr f wr'] J by (simp add: recordingLoader_def named_cache_def)
qed

lemma cmd_parts_clone: "elems (cmd_links (cloneCommand c)) = elems (cmd_links c)"
  "elems (cmd_children (cloneCommand c)) = map cloneCommand (elems (cmd_children c))"
  by (cases c; simp add: append_nil_def; cases "cmd_children c"; simp)+

lemma collect_links_clone: "collect_links (map cloneCommand cs) = collect_links cs"
  by (induction cs rule: collect_links.induct) (simp_all add: cmd_parts_clone)

lemma flow_commands_clone: "flow_commands (cloneFlow f) = map cloneCommand (flow_commands f)"
proof -
  have "elems (cfg_onFlowStart (cloneConfig g)) = map cloneCommand (elems (cfg_onFlowStart g))"
    and "elems (cfg_onFlowComplete (cloneConfig g)) = map cloneCommand (elems (cfg_onFlowComplete g))" for g
    by (cases g; simp add: elems_def split: option.splits)+
  then show ?thesis by (simp add: flow_commands_def cloneFlow_def)
qed

lemma collectLinks_clone [simp]: "collectLinks (cloneFlow f) = collectLinks f"
  by (simp add: collectLinks_def flow_commands_clone collect_links_clone)

text \<open>The recorder answers for every loaded flow, and for every link of one that no frame still has to follow.\<close>

definition answered :: "recorder \<Rightarrow> graph_edge list \<Rightarrow> string \<Rightarrow> file_link \<Rightarrow> bool" where
  "answered r edges p l \<longleftrightarrow> (\<exists>c. rc_canonical r (linkTarget p l) = Some (c, None)
     \<and> (\<exists>e \<in> set edges. ge_from e = p \<and> ge_to e = c \<and> ge_kind e = link_kind l))"

definition remembers :: "('w \<times> recorder) check_state \<Rightarrow> bool" where
  "remembers s \<longleftrightarrow> (let r = snd (ck_world s) in
     (\<forall>p f. ck_loaded s p = Some f \<longrightarrow> (\<exists>g. rc_flows r p = Some (Inr g) \<and> f \<in> {g, cloneFlow g}))
     \<and> (\<forall>p f l. ck_loaded s p = Some f \<and> l \<in> set (collectLinks f) \<longrightarrow>
          answered r (rp_edges (ck_report s)) p l
          \<or> (\<exists>fr \<in> set (ck_stack s). fr_path fr = p \<and> fr_entered fr \<and> l \<in> set (fr_links fr)))
     \<and> (\<forall>p \<in> fr_path ` set (ck_stack s) \<union> set (rp_nodes (ck_report s)). TrimSpace p \<noteq> ''''))"

lemma answered_mono: "answered r edges p l \<Longrightarrow> rc_canonical r \<subseteq>\<^sub>m rc_canonical r' \<Longrightarrow> answered r' (edges @ more_edges) p l"
  unfolding answered_def by (fastforce simp: map_le_def dom_def)

lemma answered_grow: "answered r edges p l \<Longrightarrow> rc_canonical r \<subseteq>\<^sub>m rc_canonical r' \<Longrightarrow> answered r' edges p l"
  using answered_mono [of r edges p l r' "[]"] by simp

lemma remembersD:
  assumes "remembers s"
  shows "ck_loaded s p = Some f \<Longrightarrow> \<exists>g. rc_flows (snd (ck_world s)) p = Some (Inr g) \<and> f \<in> {g, cloneFlow g}"
    and "ck_loaded s p = Some f \<Longrightarrow> l \<in> set (collectLinks f) \<Longrightarrow>
        answered (snd (ck_world s)) (rp_edges (ck_report s)) p l
        \<or> (\<exists>fr \<in> set (ck_stack s). fr_path fr = p \<and> fr_entered fr \<and> l \<in> set (fr_links fr))"
    and "p \<in> fr_path ` set (ck_stack s) \<union> set (rp_nodes (ck_report s)) \<Longrightarrow> TrimSpace p \<noteq> ''''"
  using assms unfolding remembers_def Let_def by blast+

lemma remembers_look: "remembers s \<Longrightarrow> snd w = snd (ck_world s) \<Longrightarrow> remembers (s\<lparr>ck_world := w\<rparr>)"
  by (simp add: remembers_def)

lemma remembers_enter:
  assumes ok: "remembers s" and stack: "ck_stack s = f # rest" and fresh: "\<not> fr_entered f"
    and load: "recording_Load ctx base (fr_path f) (ck_world s) = (Inr flow, w)"
  shows "remembers (entered_state f flow w s)"
proof -
  note new = recording_Load_ok [OF load]
  have flows: "\<exists>g. rc_flows (snd w) p = Some (Inr g) \<and> h \<in> {g, cloneFlow g}"
    if loaded: "((ck_loaded s)(fr_path f \<mapsto> flow)) p = Some h" for p h
  proof (cases "p = fr_path f")
    case True
    then show ?thesis using loaded new(1) by simp
  next
    case False
    then obtain g where "rc_flows (snd (ck_world s)) p = Some (Inr g)" "h \<in> {g, cloneFlow g}"
      using remembersD(1) [OF ok, of p h] loaded by auto
    then show ?thesis using new(2) by (metis domI map_le_def)
  qed
  have links: "answered (snd w) (rp_edges (ck_report s)) p l
      \<or> (\<exists>fr \<in> set (f\<lparr>fr_entered := True, fr_links := collectLinks flow\<rparr> # rest). fr_path fr = p \<and> fr_entered fr \<and> l \<in> set (fr_links fr))"
    if "((ck_loaded s)(fr_path f \<mapsto> flow)) p = Some h" "l \<in> set (collectLinks h)" for p h l
  proof (cases "p = fr_path f")
    case False
    then show ?thesis using that remembersD(2) [OF ok, of p h l] new(3) stack fresh by (auto simp: answered_def)
  qed (use that in simp)
  show ?thesis unfolding remembers_def Let_def entered_state_def
    using flows links remembersD(3) [OF ok] stack by simp
qed

lemma remembers_finish:
  assumes "remembers s" "ck_stack s = f # rest" "fr_links f = []" shows "remembers (finished_state f s)"
  using assms unfolding remembers_def finished_state_def Let_def by simp blast

lemma remembers_follow:
  assumes ok: "remembers s" and stack: "ck_stack s = f # rest" and todo: "fr_links f = link # links"
    and canon: "recording_Canonical ctx base (linkTarget (fr_path f) link) (ck_world s) = ((c, None), w)"
    and edge: "ge_from edge = fr_path f" "ge_to edge = c" "ge_kind edge = link_kind link"
    and pushed: "pushed = [] \<or> pushed = [g] \<and> fr_path g = c" and visible: "TrimSpace c \<noteq> ''''"
  shows "remembers (followed_state edge f links pushed w s)"
proof -
  note new = recording_Canonical_ok [OF canon]
  have "answered (snd w) (rp_edges (ck_report s) @ [edge]) p l
      \<or> (\<exists>fr \<in> set (pushed @ f\<lparr>fr_links := links\<rparr> # rest). fr_path fr = p \<and> fr_entered fr \<and> l \<in> set (fr_links fr))"
    if linked: "ck_loaded s p = Some h" "l \<in> set (collectLinks h)" for p h l
  proof -
    consider "answered (snd (ck_world s)) (rp_edges (ck_report s)) p l"
      | fr where "fr \<in> set rest" "fr_path fr = p" "fr_entered fr" "l \<in> set (fr_links fr)"
      | "fr_path f = p" "fr_entered f" "l \<in> set (link # links)"
      using remembersD(2) [OF ok linked] stack todo by auto
    then show ?thesis
    proof cases
      case 1
      then show ?thesis using answered_mono new(2) by blast
    next
      case 3
      then show ?thesis using new(1) edge by (auto simp: answered_def)
    qed auto
  qed
  then show ?thesis using ok pushed visible new(3) stack unfolding remembers_def Let_def followed_state_def by auto
qed

lemma remembers_root:
  assumes ok: "remembers s" and canon: "recording_Canonical ctx base p (ck_world s) = ((c, None), w)"
    and bare: "ck_stack s = []" and visible: "TrimSpace c \<noteq> ''''"
  shows "remembers (s\<lparr>ck_world := w, ck_report := (ck_report s)\<lparr>rp_roots := rp_roots (ck_report s) @ [c]\<rparr>,
      ck_stack := (if b then [] else [\<lparr>fr_path = c, fr_incoming = None, fr_entered = False, fr_links = []\<rparr>])\<rparr>)"
  using ok recording_Canonical_ok(2,3) [OF canon] bare visible answered_grow
  unfolding remembers_def Let_def by simp blast

lemma moves_remembers:
  assumes "names_visibly base" "moves (recording_config C base) (recordingLoader (cc_ctx C) base) s t"
    and J: "named_cache (ck_world s)" and ok: "remembers s"
  shows "remembers t"
proof -
  have visible: "TrimSpace c \<noteq> ''''" if "recording_Canonical (cc_ctx C) base p wr = ((c, None), wr')" "named_cache wr" for p wr wr' c
  proof -
    have "named_cache wr'"
      using flow_loader.canonical_keeps [OF recording_loader [OF assms(1), of C] that(2)] that(1) by (simp add: recordingLoader_def)
    then show ?thesis using recording_Canonical_ok(1) [OF that(1)] by (auto simp: named_cache_def)
  qed
  from assms(2) show ?thesis
  proof cases
    case (look w)
    then show ?thesis using remembers_look [OF ok] by (auto simp: recording_config_def split: prod.splits)
  next
    case (enter f rest flow w)
    then show ?thesis using remembers_enter [OF ok enter(2,3)] by (simp add: recordingLoader_def)
  next
    case (finish f rest)
    then show ?thesis using remembers_finish [OF ok] by simp
  next
    case (follow f rest link links c w edge pushed)
    have canon: "recording_Canonical (cc_ctx C) base (linkTarget (fr_path f) link) (ck_world s) = ((c, None), w)"
      using follow(5) by (simp add: recordingLoader_def)
    show ?thesis unfolding follow(1)
      by (rule remembers_follow [OF ok follow(2,4) canon _ _ _ _ visible [OF canon J], where g = "hd pushed"]) (use follow(6,7) in auto)
  next
    case (resource f rest link links c w edge)
    have canon: "recording_Canonical (cc_ctx C) base (linkTarget (fr_path f) link) (ck_world s) = ((c, None), w)"
      using resource(5) by (simp add: recordingLoader_def)
    show ?thesis unfolding resource(1)
      by (rule remembers_follow [OF ok resource(2,4) canon _ _ _ _ visible [OF canon J]]) (use resource(6) in auto)
  next
    case (root p c w)
    have canon: "recording_Canonical (cc_ctx C) base p (ck_world s) = ((c, None), w)"
      using root(3) by (simp add: recordingLoader_def)
    show ?thesis unfolding root(1) by (rule remembers_root [OF ok canon root(2) visible [OF canon J]])
  qed
qed

section \<open>The prepared program\<close>

lemma update_new: "k \<notin> fst ` set al \<Longrightarrow> AList.update k v al = al @ [(k, v)]"
  by (induction al) auto

lemma retain_nodes_all:
  "distinct nodes \<Longrightarrow> fst ` set (pg_flows p) \<inter> set nodes = {} \<Longrightarrow> \<forall>n \<in> set nodes. recorder_flow r n \<noteq> None \<Longrightarrow>
     retain_nodes r nodes p = Inr (p\<lparr>pg_paths := pg_paths p @ nodes,
       pg_flows := pg_flows p @ map (\<lambda>n. (n, cloneFlow (the (recorder_flow r n)))) nodes\<rparr>)"
proof (induction nodes arbitrary: p)
  case (Cons n ns)
  obtain f where f: "recorder_flow r n = Some f" using Cons.prems(3) by auto
  have "n \<notin> fst ` set (pg_flows p)" using Cons.prems(2) by auto
  then show ?case using Cons f by (simp add: update_new)
qed simp

lemma check_remembers:
  assumes base: "names_visibly base"
    and check: "Check (recording_config C base) selected (w, newRecordingLoader) = Some s" "ck_error s = None"
  shows "at_rest (recording_config C base) s \<and> remembers s \<and> named_cache (ck_world s)
    \<and> length (rp_roots (ck_report s)) = length selected"
proof -
  let ?C = "recording_config C base" let ?L = "recordingLoader (cc_ctx C) base"
  note L = recording_loader [OF base, of C]
  have loader: "cc_loader ?C = Some ?L" by (simp add: recording_config_def)
  have "named_cache (w, newRecordingLoader)" by (simp add: named_cache_def newRecordingLoader_def)
  from flow_loader.check_run [OF L loader this check]
  obtain wr where wr: "cc_ctx ?C (w, newRecordingLoader) = (None, wr)" "named_cache wr" "(moves ?C ?L)\<^sup>*\<^sup>* (initial_check wr) s"
    and rest: "at_rest ?C s" "named_cache (ck_world s)" "length (rp_roots (ck_report s)) = length selected" by blast
  have "snd wr = newRecordingLoader" using wr(1) by (auto simp: recording_config_def split: prod.splits)
  then have "remembers (initial_check wr)" by (simp add: remembers_def initial_check_def Let_def)
  with wr(3) have "remembers s \<and> named_cache (ck_world s)"
  proof (induction rule: rtranclp_induct)
    case base
    then show ?case using wr(2) by (simp add: initial_check_def)
  next
    case (step t u)
    then show ?case using moves_remembers [OF base step.hyps(2)] flow_loader.moves_keeps [OF L step.hyps(2)] by blast
  qed
  then show ?thesis using rest by blast
qed

text \<open>Everything a successful preparation leaves.\<close>

lemma prepare_cases:
  assumes base: "cc_loader C = Some base" "names_visibly base" and prep: "prepare C selected w = Some (outcome, w')"
  obtains (refused) e where "outcome = Inl (Preflight_Refused e)"
  | (prepared) s r p where "ck_world s = (w', r)" "at_rest (recording_config C base) s" "remembers s" "named_cache (ck_world s)"
      "rp_roots (ck_report s) \<noteq> []" "outcome = Inr p" "pg_roots p = rp_roots (ck_report s)"
      "pg_paths p = rp_nodes (ck_report s)" "pg_graph p = ck_report s" "pg_aliases p = recorder_aliases r"
      "pg_flows p = map (\<lambda>n. (n, cloneFlow (the (recorder_flow r n)))) (rp_nodes (ck_report s))"
      "\<forall>n \<in> set (rp_nodes (ck_report s)). recorder_flow r n \<noteq> None"
proof -
  obtain s where s: "Check (recording_config C base) selected (w, newRecordingLoader) = Some s"
    using base prep by (auto simp: prepare_def split: option.splits)
  obtain w1 r where world: "ck_world s = (w1, r)" by fastforce
  show thesis
  proof (cases "ck_error s")
    case None
    note left = check_remembers [OF base(2) s None]
    have "selected \<noteq> []" using s None by (auto simp: Check_def failed_check_def split: prod.splits option.splits)
    then have roots: "rp_roots (ck_report s) \<noteq> []" using left by auto
    have recorded: "\<forall>n \<in> set (rp_nodes (ck_report s)). recorder_flow r n \<noteq> None"
    proof
      fix n assume "n \<in> set (rp_nodes (ck_report s))"
      then obtain f where "ck_loaded s n = Some f" using at_rest_graph(2) left by blast
      then obtain g where "rc_flows r n = Some (Inr g)" using remembersD(1) [of s n f] left world by auto
      then show "recorder_flow r n \<noteq> None" by (simp add: recorder_flow_def)
    qed
    have "distinct (rp_nodes (ck_report s))" using at_rest_graph(1) left by blast
    note retained = retain_nodes_all [OF this _ recorded]
    have out: "outcome = retain_nodes r (rp_nodes (ck_report s)) \<lparr>pg_roots = rp_roots (ck_report s), pg_paths = [], pg_flows = [],
        pg_aliases = recorder_aliases r, pg_graph = ck_report s\<rparr>" and w: "w1 = w'"
      using base prep s None world by (simp_all add: prepare_def Let_def)
    show thesis
      by (rule prepared [of s r "\<lparr>pg_roots = rp_roots (ck_report s), pg_paths = rp_nodes (ck_report s),
          pg_flows = map (\<lambda>n. (n, cloneFlow (the (recorder_flow r n)))) (rp_nodes (ck_report s)),
          pg_aliases = recorder_aliases r, pg_graph = ck_report s\<rparr>"])
        (use left world w roots recorded out retained in simp_all)
  next
    case (Some e)
    then show thesis using refused base prep s world by (auto simp: prepare_def)
  qed
qed

definition well_linked :: "string \<Rightarrow> file_link \<Rightarrow> bool" where
  "well_linked path l \<longleftrightarrow> TrimSpace (link_path l) \<noteq> '''' \<and> link_resolved l \<in> {'''', lexical_target path l}"

lemma well_linked_target: "well_linked path l \<Longrightarrow> linkTarget path l = lexical_target path l"
  by (auto simp: well_linked_def linkTarget_def lexical_target_def)

lemma resolves:
  assumes "link_kind l = FileLinkFlow" "TrimSpace path \<noteq> ''''" "well_linked path l"
    and known: "canonicalAlias p (lexical_target path l) = Some c" "map_of (pg_flows p) c \<noteq> None" "c \<noteq> ''''"
  shows "resolveFlowLink p path l = Inr c"
proof -
  have "\<exists>n. (if TrimSpace (link_resolved l) \<noteq> '''' then [link_resolved l] else [])
      @ (if TrimSpace (link_path l) \<noteq> '''' then [lexical_target path l] else []) = replicate (Suc n) (lexical_target path l)"
    using assms(3) by (auto simp: well_linked_def intro: exI [of _ 0] exI [of _ 1])
  then obtain n where targets: "(if TrimSpace (link_resolved l) \<noteq> '''' then [link_resolved l] else [])
      @ (if TrimSpace (link_path l) \<noteq> '''' then [lexical_target path l] else []) = replicate (Suc n) (lexical_target path l)" ..
  have "resolve_targets p c (replicate m (lexical_target path l)) = Inr c" for m
    by (induction m) (use known in auto)
  then have "resolve_targets p '''' (replicate (Suc n) (lexical_target path l)) = Inr c" using known by auto
  then show ?thesis using assms(1,2) targets unfolding resolveFlowLink_def Let_def by auto
qed

text \<open>What the compilation of a prepared program finds: an order, and every flow link resolved and declared.\<close>

lemma prepared_order:
  assumes base: "cc_loader C = Some base" "names_visibly base" and prep: "prepare C selected w = Some (Inr p, w')"
  shows "\<exists>order children. preparedFlowOrder p = Some (Inr (order, children)) \<and> topological (pg_graph p) order
    \<and> (\<forall>n. set (children n) = {ge_to e | e. e \<in> set (rp_edges (pg_graph p)) \<and> ge_kind e = FileLinkFlow \<and> ge_from e = n})"
    (is ?order)
    and "program_Flow p path = Some f \<Longrightarrow> l \<in> set (collectLinks f) \<Longrightarrow> link_kind l = FileLinkFlow \<Longrightarrow> well_linked path l \<Longrightarrow>
      \<exists>e \<in> set (rp_edges (pg_graph p)). resolveFlowLink p path l = Inr (ge_to e) \<and> ge_from e = path \<and> ge_kind e = FileLinkFlow"
proof -
  obtain s r where world: "ck_world s = (w', r)" and rest: "at_rest (recording_config C base) s" and rem: "remembers s" "named_cache (ck_world s)"
    and parts: "rp_roots (ck_report s) \<noteq> []" "pg_roots p = rp_roots (ck_report s)"
      "pg_paths p = rp_nodes (ck_report s)" "pg_graph p = ck_report s" "pg_aliases p = recorder_aliases r"
      "pg_flows p = map (\<lambda>n. (n, cloneFlow (the (recorder_flow r n)))) (rp_nodes (ck_report s))"
    by (rule prepare_cases [OF base prep]) auto
  note graph = at_rest_graph [OF rest]
  let ?nodes = "rp_nodes (ck_report s)"
  have nonempty: "?nodes \<noteq> []" using parts(1) graph(2,3) by auto
  have flows: "map_of (pg_flows p) n = (if n \<in> set ?nodes then Some (cloneFlow (the (recorder_flow r n))) else None)" for n
    unfolding parts(6) by (simp add: map_of_map_restrict restrict_map_def)
  have visible: "TrimSpace n \<noteq> ''''" if "n \<in> set ?nodes" for n using remembersD(3) [OF rem(1)] that by blast
  obtain topo where "distinct topo" "set topo = dom (ck_loaded s)" "\<forall>e \<in> flow_edges s. precedes topo (ge_to e) (ge_from e)"
    using graph(6) by blast
  then have topo: "topological (ck_report s) topo" using graph(2) by (simp add: topological_def flow_edges_def)
  have ends: "ge_from e \<in> set ?nodes \<and> ge_to e \<in> set ?nodes" if "e \<in> set (rp_edges (ck_report s))" "ge_kind e = FileLinkFlow" for e
    using topo that by (auto simp: topological_def dest!: precedes_mem)
  have agrees: "nodes_error (pg_flows p) [] (pg_paths p) ?nodes = None"
    unfolding parts(3) by (rule nodes_error_agrees) (use graph(1) visible flows in auto)
  show ?order
  proof (cases p rule: preparedFlowOrder_cases)
    case (refused m)
    obtain children parents where "add_edges ?nodes (rp_edges (ck_report s)) (\<lambda>_. []) (\<lambda>_. []) = Inr (children, parents)"
      using add_edges_ok [of "rp_edges (ck_report s)" ?nodes "\<lambda>_. []" "\<lambda>_. []"] ends by blast
    then have "preparedFlowOrder p = map_option (\<lambda>order. if length order \<noteq> length ?nodes
        then refuse ''prepared flow graph contains a cycle'' else Inr (order, children))
        (kahn ?nodes children (\<lambda>c. sort_key (node_index ?nodes) (parents c)))"
      using nonempty agrees parts by (simp add: preparedFlowOrder_def Let_def)
    then have False using refused
      by (cases "kahn ?nodes children (\<lambda>c. sort_key (node_index ?nodes) (parents c))")
        (auto simp: refuse_def NewConfigurationError_def split: if_splits)
    then show ?thesis ..
  next
    case (looped children parents order)
    have "length order = length (rp_nodes (pg_graph p))"
      using looped_topological(3) [OF looped(1-4)] topo parts(4) by simp
    then show ?thesis using looped_topological(2) [OF looped(1-4)] looped(3,5) by simp
  qed
  show "\<exists>e \<in> set (rp_edges (pg_graph p)). resolveFlowLink p path l = Inr (ge_to e) \<and> ge_from e = path \<and> ge_kind e = FileLinkFlow"
    if f: "program_Flow p path = Some f" and l: "l \<in> set (collectLinks f)" "link_kind l = FileLinkFlow" "well_linked path l"
  proof -
    have node: "path \<in> set ?nodes" using f flows by (auto simp: program_Flow_def split: if_splits)
    then obtain h where h: "ck_loaded s path = Some h" using graph(2) by blast
    then obtain g where g: "rc_flows r path = Some (Inr g)" "h \<in> {g, cloneFlow g}" using remembersD(1) [OF rem(1), of path h] world by auto
    then have "collectLinks f = collectLinks h" using f flows node by (auto simp: program_Flow_def recorder_flow_def)
    moreover have "ck_stack s = []" using rest by (simp add: at_rest_def)
    ultimately have "answered r (rp_edges (ck_report s)) path l" using remembersD(2) [OF rem(1) h, of l] l(1) world by simp
    then obtain e where e: "rc_canonical r (linkTarget path l) = Some (ge_to e, None)" "e \<in> set (rp_edges (ck_report s))"
      "ge_from e = path" "ge_kind e = FileLinkFlow" using l(2) by (auto simp: answered_def)
    have "TrimSpace (ge_to e) \<noteq> ''''" using rem(2) e(1) world by (simp add: named_cache_def)
    moreover from this have "canonicalAlias p (lexical_target path l) = Some (ge_to e)"
      using e(1) parts(5) well_linked_target [OF l(3)] by (simp add: canonicalAlias_def recorder_aliases_def)
    moreover have "map_of (pg_flows p) (ge_to e) \<noteq> None" using flows ends [OF e(2,4)] by simp
    ultimately have "resolveFlowLink p path l = Inr (ge_to e)"
      using visible [OF node] by (intro resolves [OF l(2) _ l(3)]) auto
    then show ?thesis using e parts(4) by auto
  qed
qed

text \<open>C7: A prepared program compiles in order: preparation never misses a flow the check loaded, and for each flow link of a
  prepared program, written as the parser writes it, the compile context of its flow resolves it to a declared child
  that stands earlier in the order, so its compiled flow is there once the flows before it are.\<close>

theorem prepared_links_are_ready:
  "cc_loader C = Some base \<Longrightarrow> names_visibly base \<Longrightarrow> prepare C selected w = Some (outcome, w') \<Longrightarrow>
     (\<forall>n. outcome \<noteq> Inl (Node_Not_Recorded n))
   \<and> (\<forall>p. outcome = Inr p \<longrightarrow> (\<exists>order children. preparedFlowOrder p = Some (Inr (order, children))
        \<and> topological (pg_graph p) order
        \<and> (\<forall>path f l compiled. program_Flow p path = Some f \<and> l \<in> set (collectLinks f) \<and> link_kind l = FileLinkFlow
             \<and> well_linked path l \<and> (\<forall>n. precedes order n path \<longrightarrow> map_of compiled n \<noteq> None)
           \<longrightarrow> (\<exists>c. RequireFlow (program_context p children compiled path) l = Inr c \<and> precedes order c path))))"
proof -
  assume base: "cc_loader C = Some base" "names_visibly base" and prep: "prepare C selected w = Some (outcome, w')"
  show ?thesis
  proof (cases outcome)
    case (Inl e)
    have "outcome \<noteq> Inl (Node_Not_Recorded n)" for n by (rule prepare_cases [OF base prep]) auto
    then show ?thesis using Inl by simp
  next
    case (Inr p)
    then have prep: "prepare C selected w = Some (Inr p, w')" using prep by simp
    obtain order children where order: "preparedFlowOrder p = Some (Inr (order, children))" "topological (pg_graph p) order"
      and kids: "\<And>n. set (children n) = {ge_to e | e. e \<in> set (rp_edges (pg_graph p)) \<and> ge_kind e = FileLinkFlow \<and> ge_from e = n}"
      using prepared_order(1) [OF base prep] by blast
    have "\<exists>c. RequireFlow (program_context p children compiled path) l = Inr c \<and> precedes order c path"
      if l: "program_Flow p path = Some f" "l \<in> set (collectLinks f)" "link_kind l = FileLinkFlow" "well_linked path l"
        and ready: "\<forall>n. precedes order n path \<longrightarrow> map_of compiled n \<noteq> None"
      for path f l and compiled :: "(string \<times> ('b, 'c) compiled_flow) list"
    proof -
      obtain e where e: "e \<in> set (rp_edges (pg_graph p))" "resolveFlowLink p path l = Inr (ge_to e)" "ge_from e = path"
        "ge_kind e = FileLinkFlow" using prepared_order(2) [OF base prep l] by blast
      then have "precedes order (ge_to e) path" using order(2) by (auto simp: topological_def)
      moreover have "ge_to e \<in> set (children path)" using e kids by blast
      moreover have "map_of compiled (ge_to e) \<noteq> None" using ready \<open>precedes order (ge_to e) path\<close> by blast
      ultimately have "RequireFlow (program_context p children compiled path) l = Inr (ge_to e)"
        using e(2) by (auto simp: RequireFlow_def program_context_def)
      then show ?thesis using \<open>precedes order (ge_to e) path\<close> by blast
    qed
    then show ?thesis using Inr order by blast
  qed
qed

lemma sample_loader_visible: "names_visibly sample_loader"
proof -
  have "TrimSpace ''/a'' \<noteq> ''''" "TrimSpace ''/b'' \<noteq> ''''" by code_simp+
  then show ?thesis by (auto simp: names_visibly_def sample_loader_def)
qed

lemma prepared_links_are_ready_witness:
  "\<exists>p order children. prepare sample_check [''root''] () = Some (Inr p, ()) \<and> names_visibly sample_loader
     \<and> preparedFlowOrder p = Some (Inr (order, children)) \<and> topological (pg_graph p) order"
proof -
  have "map_option (\<lambda>x. isl (fst x)) (prepare sample_check [''root''] ()) = Some False" by code_simp
  then obtain p where p: "prepare sample_check [''root''] () = Some (Inr p, ())"
    by (cases "prepare sample_check [''root''] ()") (auto split: sum.splits, metis isl_def sum.exhaust)
  have base: "cc_loader sample_check = Some sample_loader" by (simp add: sample_check_def)
  from prepared_links_are_ready [OF base sample_loader_visible p] p sample_loader_visible show ?thesis by blast
qed

end
