(* ===== verification/Device_Session.thy ===== *)
theory Device_Session
  imports Prelude
begin

text \<open>
  The device-session contract (\<^verbatim>\<open>contracts/device-session/v1/semantics.go\<close> with
  \<^verbatim>\<open>internal/strictjson\<close>): the checks of a session transcript that a JSON schema cannot express. The input
  is the decoded transcript, whose request and event data are still raw JSON: the compact text and the
  value it denotes. \<open>foldKey\<close> is Unicode's simple fold of a key and \<open>parse\<close> is \<^verbatim>\<open>time.Parse(RFC3339Nano, _)\<close>,
  both parameters. An instant is counted in nanoseconds from Go's zero time; a location is \<^verbatim>\<open>nil\<close> for UTC
  or a pointer, which \<^verbatim>\<open>==\<close> on times compares and the methods of \<^verbatim>\<open>time.Time\<close> do not.
\<close>

section \<open>Times\<close>

record go_time =
  tm_at :: int
  tm_location :: "nat option"

definition zero_time :: go_time where
  "zero_time = \<lparr>tm_at = 0, tm_location = None\<rparr>"

definition IsZero :: "go_time \<Rightarrow> bool" where
  "IsZero t \<longleftrightarrow> tm_at t = 0"

definition Before :: "go_time \<Rightarrow> go_time \<Rightarrow> bool" where
  "Before t u \<longleftrightarrow> tm_at t < tm_at u"

definition After :: "go_time \<Rightarrow> go_time \<Rightarrow> bool" where
  "After t u \<longleftrightarrow> tm_at u < tm_at t"

definition Equal :: "go_time \<Rightarrow> go_time \<Rightarrow> bool" where
  "Equal t u \<longleftrightarrow> tm_at t = tm_at u"

definition wrap_int64 :: "int \<Rightarrow> int" where
  "wrap_int64 i = (i + 2 ^ 63) mod 2 ^ 64 - 2 ^ 63"

text \<open>\<^verbatim>\<open>time.Duration(ms) * time.Millisecond\<close>, a 64-bit count of nanoseconds.\<close>

definition milliseconds :: "int \<Rightarrow> int" where
  "milliseconds ms = wrap_int64 (ms * 1000000)"

definition add_time :: "go_time \<Rightarrow> int \<Rightarrow> go_time" where
  "add_time t d = t\<lparr>tm_at := tm_at t + d\<rparr>"

definition within_time :: "go_time \<Rightarrow> go_time \<Rightarrow> go_time \<Rightarrow> bool" where
  "within_time v a b \<longleftrightarrow> \<not> Before v a \<and> \<not> After v b"

definition minTime :: "go_time \<Rightarrow> go_time \<Rightarrow> go_time" where
  "minTime t u = (if Before t u then t else u)"

section \<open>Strict JSON\<close>

text \<open>A number in integer syntax, or another number by its text.\<close>

datatype json =
    JNull | JBool bool | JInt int | JNumber string | JString string
  | JArray "json list" | JObject "(string \<times> json) list"

fun unique_keys :: "(string \<Rightarrow> string) \<Rightarrow> json \<Rightarrow> bool" where
  "unique_keys foldKey (JArray xs) = list_all (unique_keys foldKey) xs"
| "unique_keys foldKey (JObject kvs) =
     (distinct (map (\<lambda>kv. foldKey (fst kv)) kvs) \<and> list_all (\<lambda>kv. unique_keys foldKey (snd kv)) kvs)"
| "unique_keys foldKey v = True"

text \<open>A field of a target struct: its name and what its value does to the target, with the verdict on the type.\<close>

type_synonym 'p field = "string \<times> (json \<Rightarrow> 'p \<Rightarrow> 'p \<times> bool)"

definition string_field :: "string \<Rightarrow> (string \<Rightarrow> 'p \<Rightarrow> 'p) \<Rightarrow> 'p field" where
  "string_field name put = (name, \<lambda>v p. case v of JString s \<Rightarrow> (put s p, True) | _ \<Rightarrow> (p, False))"

definition int_field :: "string \<Rightarrow> (int \<Rightarrow> 'p \<Rightarrow> 'p) \<Rightarrow> 'p field" where
  "int_field name put = (name, \<lambda>v p. case v of
     JInt i \<Rightarrow> if - (2 ^ 63) \<le> i \<and> i < 2 ^ 63 then (put i p, True) else (p, False) | _ \<Rightarrow> (p, False))"

definition bool_field :: "string \<Rightarrow> (bool \<Rightarrow> 'p \<Rightarrow> 'p) \<Rightarrow> 'p field" where
  "bool_field name put = (name, \<lambda>v p. case v of JBool b \<Rightarrow> (put b p, True) | _ \<Rightarrow> (p, False))"

definition strings_field :: "string \<Rightarrow> (string list \<Rightarrow> 'p \<Rightarrow> 'p) \<Rightarrow> 'p field" where
  "strings_field name put = (name, \<lambda>v p. case v of
     JArray xs \<Rightarrow> (put (map (\<lambda>x. case x of JString s \<Rightarrow> s | _ \<Rightarrow> '''') xs) p,
       list_all (\<lambda>x. case x of JNull \<Rightarrow> True | JString _ \<Rightarrow> True | _ \<Rightarrow> False) xs)
   | _ \<Rightarrow> (p, False))"

fun decode_entries :: "(string \<Rightarrow> string) \<Rightarrow> 'p field list \<Rightarrow> (string \<times> json) list \<Rightarrow> 'p \<Rightarrow> bool \<Rightarrow> 'p \<times> bool" where
  "decode_entries foldKey flds [] p ok = (p, ok)"
| "decode_entries foldKey flds ((k, v) # kvs) p ok =
     (case find (\<lambda>f. foldKey (fst f) = foldKey k) flds of
        None \<Rightarrow> decode_entries foldKey flds kvs p False
      | Some f \<Rightarrow>
          if v = JNull then decode_entries foldKey flds kvs p ok
          else (case snd f v p of (p', fits) \<Rightarrow> decode_entries foldKey flds kvs p' (ok \<and> fits)))"

text \<open>What the decoder leaves in a zero target, and whether it reported no error.\<close>

definition decodeStrict :: "(string \<Rightarrow> string) \<Rightarrow> 'p field list \<Rightarrow> 'p \<Rightarrow> json \<Rightarrow> 'p \<times> bool" where
  "decodeStrict foldKey flds zero v =
     (if \<not> unique_keys foldKey v then (zero, False)
      else case v of
        JObject kvs \<Rightarrow> decode_entries foldKey flds kvs zero True
      | JNull \<Rightarrow> (zero, True)
      | _ \<Rightarrow> (zero, False))"

section \<open>Transcripts\<close>

record raw_message =
  rm_text :: string
  rm_value :: json

record auth_context =
  ac_tenant :: string
  ac_principal :: string
  ac_profile :: string
  ac_channel :: string
  ac_nonce :: string
  ac_expiry :: go_time

record auth_profile =
  ap_id :: string
  ap_transport :: string
  ap_authentication :: string
  ap_channelBinding :: string
  ap_principalScope :: string
  ap_tenantScope :: string
  ap_replay :: string

definition LocalCoreV1 :: auth_profile where
  "LocalCoreV1 = \<lparr>ap_id = ''local-core-v1'', ap_transport = ''authenticated-local-ipc'',
     ap_authentication = ''peer-credentials+launch-token'', ap_channelBinding = ''os-peer-identity+endpoint'',
     ap_principalScope = ''local-user+process'', ap_tenantScope = ''single-host'', ap_replay = ''per-launch-nonce+expiry''\<rparr>"

definition RemoteCloudMacV1 :: auth_profile where
  "RemoteCloudMacV1 = \<lparr>ap_id = ''remote-cloud-mac-v1'', ap_transport = ''authenticated-remote-ipc'',
     ap_authentication = ''mutual-tls+signed-session-token'', ap_channelBinding = ''tls-exporter'',
     ap_principalScope = ''account+host+process'', ap_tenantScope = ''tenant-id'', ap_replay = ''nonce+expiry+lease-generation''\<rparr>"

record session_binding =
  sb_tenant :: string
  sb_principal :: string
  sb_profile :: string
  sb_channel :: string
  sb_nonce :: string
  sb_issued :: string
  sb_expires :: string

record lease =
  ls_id :: string
  ls_resource :: string
  ls_tenant :: string
  ls_owner :: string
  ls_generation :: int
  ls_fence :: string
  ls_releaseKey :: string
  ls_acquired :: string
  ls_expires :: string
  ls_heartbeat :: int

record session_request =
  rq_sequence :: int
  rq_id :: string
  rq_type :: string
  rq_timestamp :: string
  rq_key :: string
  rq_tenant :: string
  rq_principal :: string
  rq_channel :: string
  rq_data :: raw_message

record session_event =
  ev_sequence :: int
  ev_id :: string
  ev_type :: string
  ev_timestamp :: string
  ev_generation :: int
  ev_fence :: string
  ev_data :: raw_message

record session_document =
  sd_schema :: int
  sd_contract :: string
  sd_session :: string
  sd_binding :: session_binding
  sd_lease :: lease
  sd_capabilities :: "string list"
  sd_requests :: "session_request list"
  sd_events :: "session_event list"

section \<open>Payloads\<close>

record lease_fence =
  lf_id :: string
  lf_generation :: int
  lf_fence :: string

definition no_fence :: lease_fence where
  "no_fence = \<lparr>lf_id = '''', lf_generation = 0, lf_fence = ''''\<rparr>"

definition fence_fields :: "((lease_fence \<Rightarrow> lease_fence) \<Rightarrow> 'p \<Rightarrow> 'p) \<Rightarrow> 'p field list" where
  "fence_fields on = [string_field ''lease_id'' (\<lambda>s. on (lf_id_update (\<lambda>_. s))),
     int_field ''generation'' (\<lambda>i. on (lf_generation_update (\<lambda>_. i))),
     string_field ''fencing_token_sha256'' (\<lambda>s. on (lf_fence_update (\<lambda>_. s)))]"

record acquire_data =
  aq_resource :: string
  aq_capabilities :: "string list"

definition acquire_fields :: "acquire_data field list" where
  "acquire_fields = [string_field ''resource_selector'' (\<lambda>s p. p\<lparr>aq_resource := s\<rparr>),
     strings_field ''requested_capabilities'' (\<lambda>xs p. p\<lparr>aq_capabilities := xs\<rparr>)]"

record input_data =
  in_lease :: lease_fence
  in_epoch :: int
  in_frame :: int
  in_command :: string
  in_payload :: string

definition input_fields :: "input_data field list" where
  "input_fields = fence_fields in_lease_update
     @ [int_field ''based_on_stream_epoch'' (\<lambda>i p. p\<lparr>in_epoch := i\<rparr>), int_field ''based_on_frame_sequence'' (\<lambda>i p. p\<lparr>in_frame := i\<rparr>),
        string_field ''command'' (\<lambda>s p. p\<lparr>in_command := s\<rparr>), string_field ''payload_sha256'' (\<lambda>s p. p\<lparr>in_payload := s\<rparr>)]"

record heartbeat_data =
  hb_lease :: lease_fence
  hb_extension :: int

definition heartbeat_fields :: "heartbeat_data field list" where
  "heartbeat_fields = fence_fields hb_lease_update @ [int_field ''requested_extension_ms'' (\<lambda>i p. p\<lparr>hb_extension := i\<rparr>)]"

record reconnect_data =
  rc_lease :: lease_fence
  rc_session :: string
  rc_lastAck :: int
  rc_nonce :: string
  rc_expires :: string

definition reconnect_fields :: "reconnect_data field list" where
  "reconnect_fields = fence_fields rc_lease_update
     @ [string_field ''session_id'' (\<lambda>s p. p\<lparr>rc_session := s\<rparr>), int_field ''last_acknowledged_sequence'' (\<lambda>i p. p\<lparr>rc_lastAck := i\<rparr>),
        string_field ''request_nonce'' (\<lambda>s p. p\<lparr>rc_nonce := s\<rparr>), string_field ''binding_expires_at'' (\<lambda>s p. p\<lparr>rc_expires := s\<rparr>)]"

text \<open>A lease fence with one more text: the payloads of cancel and release.\<close>

record fenced_text =
  ft_lease :: lease_fence
  ft_text :: string

definition fenced_text_fields :: "string \<Rightarrow> fenced_text field list" where
  "fenced_text_fields name = fence_fields ft_lease_update @ [string_field name (\<lambda>s p. p\<lparr>ft_text := s\<rparr>)]"

definition no_fenced_text :: fenced_text where
  "no_fenced_text = \<lparr>ft_lease = no_fence, ft_text = ''''\<rparr>"

section \<open>Facts about the requests\<close>

record frame_ref =
  fr_epoch :: int
  fr_sequence :: int

record binding_epoch =
  be_channel :: string
  be_nonce :: string
  be_from :: go_time
  be_until :: go_time

definition no_epoch :: binding_epoch where
  "no_epoch = \<lparr>be_channel = '''', be_nonce = '''', be_from = zero_time, be_until = zero_time\<rparr>"

record request_fact =
  rf_id :: string
  rf_type :: string
  rf_key :: string
  rf_at :: go_time
  rf_frame :: frame_ref
  rf_extension :: int
  rf_lastAck :: int
  rf_binding :: binding_epoch
  rf_reason :: string

definition no_fact :: request_fact where
  "no_fact = \<lparr>rf_id = '''', rf_type = '''', rf_key = '''', rf_at = zero_time, rf_frame = \<lparr>fr_epoch = 0, fr_sequence = 0\<rparr>,
     rf_extension = 0, rf_lastAck = 0, rf_binding = no_epoch, rf_reason = ''''\<rparr>"

datatype session_phase = NewSession | ActiveSession | DisconnectedSession | CancelledSession | ReleasedSession

text \<open>The first fact under each idempotency key is the map of the code.\<close>

record request_state =
  rs_errors :: "string list"
  rs_binding :: binding_epoch
  rs_ids :: "string list"
  rs_identities :: "string \<rightharpoonup> string"
  rs_phase :: session_phase
  rs_last :: go_time
  rs_acquired :: bool
  rs_released :: bool
  rs_byKey :: "string \<rightharpoonup> request_fact"
  rs_ordered :: "request_fact list"

definition complain :: "bool \<Rightarrow> string \<Rightarrow> string list" where
  "complain wrong message = (if wrong then [message] else [])"

text \<open>A timestamp and the error for a bad one; a payload and the error for a bad one, whose text the model leaves out.\<close>

definition read_time :: "(string \<Rightarrow> go_time option) \<Rightarrow> string \<Rightarrow> string \<Rightarrow> go_time \<times> string list" where
  "read_time parse label t =
     (case parse t of None \<Rightarrow> (zero_time, [label @ '' is invalid'']) | Some x \<Rightarrow> (x, []))"

definition read_payload :: "(string \<Rightarrow> string) \<Rightarrow> 'p field list \<Rightarrow> 'p \<Rightarrow> raw_message \<Rightarrow> 'p \<times> string list" where
  "read_payload foldKey flds zero m =
     (case decodeStrict foldKey flds zero (rm_value m) of (p, ok) \<Rightarrow> (p, complain (\<not> ok) ''invalid typed payload: ''))"

definition fence_errors :: "lease_fence \<Rightarrow> lease \<Rightarrow> string list" where
  "fence_errors v l = complain (lf_id v \<noteq> ls_id l \<or> lf_generation v \<noteq> ls_generation l \<or> lf_fence v \<noteq> ls_fence l)
     ''request carries stale lease generation or fence''"

definition included :: "string list \<Rightarrow> string list \<Rightarrow> bool" where
  "included values allowed = list_all (\<lambda>v. v \<in> set allowed) values"

record check_context =
  cx_fold :: "string \<Rightarrow> string"
  cx_parse :: "string \<Rightarrow> go_time option"
  cx_document :: session_document

type_synonym request_step = "check_context \<Rightarrow> int \<Rightarrow> session_request \<Rightarrow> bool \<Rightarrow> go_time \<Rightarrow> request_fact \<Rightarrow> request_state
  \<Rightarrow> string list \<times> request_fact \<times> request_state"

text \<open>One case of the switch over the request types each: its errors, the fact and the state it leaves.\<close>

definition acquire_request :: request_step where
  "acquire_request X index r retry moment known s =
     (let d = cx_document X;
          (p, bad) = read_payload (cx_fold X) acquire_fields \<lparr>aq_resource = '''', aq_capabilities = []\<rparr> (rq_data r)
      in (bad @ complain (index \<noteq> 0 \<or> rs_phase s \<noteq> NewSession \<or> aq_resource p \<noteq> ls_resource (sd_lease d)
              \<or> \<not> included (aq_capabilities p) (sd_capabilities d)) ''invalid acquire request'',
          known, s\<lparr>rs_phase := ActiveSession, rs_acquired := True\<rparr>))"

definition input_request :: request_step where
  "input_request X index r retry moment known s =
     (let d = cx_document X;
          (p, bad) = read_payload (cx_fold X) input_fields
            \<lparr>in_lease = no_fence, in_epoch = 0, in_frame = 0, in_command = '''', in_payload = ''''\<rparr> (rq_data r)
      in (bad @ fence_errors (in_lease p) (sd_lease d)
            @ complain (rs_phase s \<noteq> ActiveSession) ''input request outside active lifecycle''
            @ complain (\<not> included [in_command p] (sd_capabilities d)) ''input command lacks negotiated capability'',
          known\<lparr>rf_frame := \<lparr>fr_epoch = in_epoch p, fr_sequence = in_frame p\<rparr>\<rparr>, s))"

definition heartbeat_request :: request_step where
  "heartbeat_request X index r retry moment known s =
     (let d = cx_document X;
          (p, bad) = read_payload (cx_fold X) heartbeat_fields \<lparr>hb_lease = no_fence, hb_extension = 0\<rparr> (rq_data r)
      in (bad @ fence_errors (hb_lease p) (sd_lease d)
            @ complain (rs_phase s \<noteq> ActiveSession \<or> hb_extension p \<le> 0)
                ''heartbeat request outside active lifecycle or invalid extension'',
          known\<lparr>rf_extension := hb_extension p\<rparr>, s))"

definition reconnect_request :: request_step where
  "reconnect_request X index r retry moment known s =
     (let d = cx_document X;
          (p, bad) = read_payload (cx_fold X) reconnect_fields
            \<lparr>rc_lease = no_fence, rc_session = '''', rc_lastAck = 0, rc_nonce = '''', rc_expires = ''''\<rparr> (rq_data r);
          (newExpiry, unreadable) = read_time (cx_parse X) ''reconnect binding_expires_at'' (rc_expires p);
          current = rs_binding s;
          fresh = \<lparr>be_channel = rq_channel r, be_nonce = rc_nonce p, be_from = moment, be_until = newExpiry\<rparr>
      in (bad @ fence_errors (rc_lease p) (sd_lease d) @ unreadable
            @ complain (rs_phase s \<noteq> ActiveSession \<or> rc_session p \<noteq> sd_session d \<or> rc_lastAck p \<ge> int (length (sd_events d))
                \<or> rq_channel r = be_channel current \<or> rc_nonce p = be_nonce current \<or> Equal newExpiry (be_until current)
                \<or> length (rc_nonce p) < 16 \<or> length (rc_nonce p) > 128 \<or> IsZero moment \<or> \<not> Before moment newExpiry)
                ''invalid reconnect cursor or session''
            @ complain (\<not> IsZero moment \<and> \<not> within_time moment (be_from current) (be_until current))
                ''reconnect lies outside prior authenticated binding'',
          known\<lparr>rf_binding := fresh, rf_lastAck := rc_lastAck p\<rparr>, s\<lparr>rs_binding := fresh\<rparr>))"

definition cancel_request :: request_step where
  "cancel_request X index r retry moment known s =
     (let d = cx_document X;
          (p, bad) = read_payload (cx_fold X) (fenced_text_fields ''reason'') no_fenced_text (rq_data r)
      in (bad @ fence_errors (ft_lease p) (sd_lease d)
            @ complain (rs_phase s \<noteq> ActiveSession \<and> \<not> (rs_phase s = CancelledSession \<and> retry))
                ''cancel request outside active lifecycle'',
          known, s\<lparr>rs_phase := (if rs_phase s = ActiveSession then CancelledSession else rs_phase s)\<rparr>))"

definition release_request :: request_step where
  "release_request X index r retry moment known s =
     (let d = cx_document X;
          (p, bad) = read_payload (cx_fold X) (fenced_text_fields ''server_reason'') no_fenced_text (rq_data r);
          firstRelease = (rs_phase s = ActiveSession \<or> rs_phase s = CancelledSession);
          releaseRetry = (rs_phase s = ReleasedSession \<and> retry)
      in (bad @ fence_errors (ft_lease p) (sd_lease d)
            @ complain ((\<not> firstRelease \<and> \<not> releaseRetry) \<or> rq_key r \<noteq> ls_releaseKey (sd_lease d)) ''release idempotency key mismatch''
            @ complain (ft_text p \<noteq> '''' \<and> ft_text p \<noteq> ''lease_expired'') ''invalid server release reason'',
          known\<lparr>rf_reason := ft_text p\<rparr>,
          s\<lparr>rs_phase := (if firstRelease then ReleasedSession else rs_phase s), rs_released := True\<rparr>))"

definition request_case :: request_step where
  "request_case X index r retry moment known s =
     (if rq_type r = ''acquire'' then acquire_request X index r retry moment known s
      else if rq_type r = ''input'' then input_request X index r retry moment known s
      else if rq_type r = ''heartbeat'' then heartbeat_request X index r retry moment known s
      else if rq_type r = ''reconnect'' then reconnect_request X index r retry moment known s
      else if rq_type r = ''cancel'' then cancel_request X index r retry moment known s
      else if rq_type r = ''release'' then release_request X index r retry moment known s
      else ([''unknown request type''], known, s))"

definition request_identity :: "session_request \<Rightarrow> string" where
  "request_identity r = rq_type r @ '':'' @ rm_text (rq_data r)"

definition validate_request :: "check_context \<Rightarrow> auth_context \<Rightarrow> int \<Rightarrow> session_request \<Rightarrow> request_state \<Rightarrow> request_state" where
  "validate_request X A index r s =
     (let identity = request_identity r;
          previous = rs_identities s (rq_key r);
          retry = (previous = Some identity);
          (moment, unreadable) = read_time (cx_parse X) ''request timestamp'' (rq_timestamp r);
          before_switch = complain (rq_sequence r \<noteq> index + 1 \<or> rq_id r \<in> set (rs_ids s)) ''request sequence gap or replayed request_id''
            @ complain (rq_tenant r \<noteq> ac_tenant A \<or> rq_principal r \<noteq> ac_principal A) ''request authentication binding mismatch''
            @ complain (previous \<noteq> None \<and> \<not> retry) ''idempotency key reused for a different request''
            @ unreadable
            @ complain (\<not> IsZero moment \<and> \<not> IsZero (rs_last s) \<and> Before moment (rs_last s)) ''request timestamps are not monotonic'';
          s1 = s\<lparr>rs_ids := rq_id r # rs_ids s, rs_identities := (rs_identities s)(rq_key r \<mapsto> identity),
                 rs_last := (if IsZero moment then rs_last s else moment)\<rparr>;
          (in_switch, known, s2) = request_case X index r retry moment
            (no_fact\<lparr>rf_id := rq_id r, rf_type := rq_type r, rf_key := rq_key r, rf_at := moment\<rparr>) s1;
          current = rs_binding s2;
          known = (if rq_type r \<noteq> ''reconnect'' then known\<lparr>rf_binding := current\<rparr> else known);
          after_switch = (if rq_type r \<noteq> ''reconnect''
             then complain (rq_channel r \<noteq> be_channel current) ''request authentication binding mismatch''
               @ complain (\<not> IsZero moment \<and> rf_reason known = '''' \<and> \<not> within_time moment (be_from current) (be_until current))
                   ''request lies outside authenticated binding''
             else [])
      in s2\<lparr>rs_errors := rs_errors s2 @ before_switch @ in_switch @ after_switch,
            rs_ordered := rs_ordered s2 @ [known],
            rs_byKey := (if rs_byKey s2 (rq_key r) = None then (rs_byKey s2)(rq_key r \<mapsto> known) else rs_byKey s2)\<rparr>)"

fun validate_requests :: "check_context \<Rightarrow> auth_context \<Rightarrow> int \<Rightarrow> session_request list \<Rightarrow> request_state \<Rightarrow> request_state" where
  "validate_requests X A index [] s = s"
| "validate_requests X A index (r # rs) s = validate_requests X A (index + 1) rs (validate_request X A index r s)"

definition request_start :: "session_document \<Rightarrow> go_time \<Rightarrow> go_time \<Rightarrow> request_state" where
  "request_start d issued expires = \<lparr>rs_errors = [],
     rs_binding = \<lparr>be_channel = sb_channel (sd_binding d), be_nonce = sb_nonce (sd_binding d), be_from = issued, be_until = expires\<rparr>,
     rs_ids = [], rs_identities = Map.empty, rs_phase = NewSession, rs_last = zero_time, rs_acquired = False,
     rs_released = False, rs_byKey = Map.empty, rs_ordered = []\<rparr>"

definition validateRequests :: "check_context \<Rightarrow> auth_context \<Rightarrow> go_time \<Rightarrow> go_time \<Rightarrow> request_state" where
  "validateRequests X A issued expires =
     (let d = cx_document X;
          s = validate_requests X A 0 (sd_requests d) (request_start d issued expires)
      in s\<lparr>rs_errors := rs_errors s @ complain (\<not> rs_acquired s \<or> rs_released s \<and> rs_phase s \<noteq> ReleasedSession)
             ''session requires one acquire and a valid release lifecycle''\<rparr>)"

end
