(* ===== verification/Session_Events.thy ===== *)
theory Session_Events
  imports Device_Session
begin

text \<open>
  The second half of \<^verbatim>\<open>contracts/device-session/v1/semantics.go\<close>: the events of a transcript against the
  facts of its requests, the lease lifetime its heartbeats renew, the cross checks and the verdict.
\<close>

section \<open>Payloads\<close>

record acquired_data =
  aa_lease :: string
  aa_resource :: string
  aa_tenant :: string
  aa_owner :: string
  aa_generation :: int

definition acquired_fields :: "acquired_data field list" where
  "acquired_fields = [string_field ''lease_id'' (\<lambda>s p. p\<lparr>aa_lease := s\<rparr>), string_field ''resource_id'' (\<lambda>s p. p\<lparr>aa_resource := s\<rparr>),
     string_field ''tenant_id'' (\<lambda>s p. p\<lparr>aa_tenant := s\<rparr>), string_field ''owner_principal_id'' (\<lambda>s p. p\<lparr>aa_owner := s\<rparr>),
     int_field ''generation'' (\<lambda>i p. p\<lparr>aa_generation := i\<rparr>)]"

record frame_data =
  fd_epoch :: int
  fd_frame :: int

definition other_fields :: "string list \<Rightarrow> string list \<Rightarrow> 'p field list" where
  "other_fields strings ints = map (\<lambda>n. string_field n (\<lambda>_ p. p)) strings @ map (\<lambda>n. int_field n (\<lambda>_ p. p)) ints"

definition frame_fields :: "frame_data field list" where
  "frame_fields = [int_field ''stream_epoch'' (\<lambda>i p. p\<lparr>fd_epoch := i\<rparr>), int_field ''frame_sequence'' (\<lambda>i p. p\<lparr>fd_frame := i\<rparr>)]
     @ other_fields [''orientation'', ''content_sha256''] [''width'', ''height'', ''queue_depth'', ''dropped_since_previous'']"

record input_ack_data =
  ia_key :: string
  ia_epoch :: int
  ia_frame :: int

definition input_ack_fields :: "input_ack_data field list" where
  "input_ack_fields = [string_field ''idempotency_key'' (\<lambda>s p. p\<lparr>ia_key := s\<rparr>), int_field ''based_on_stream_epoch'' (\<lambda>i p. p\<lparr>ia_epoch := i\<rparr>),
     int_field ''based_on_frame_sequence'' (\<lambda>i p. p\<lparr>ia_frame := i\<rparr>)] @ other_fields [''input_id'', ''result''] [''latency_ms'']"

record renewal_data =
  rn_request :: string
  rn_key :: string
  rn_expires :: string
  rn_generation :: int

definition renewal_fields :: "renewal_data field list" where
  "renewal_fields = [string_field ''request_id'' (\<lambda>s p. p\<lparr>rn_request := s\<rparr>), string_field ''idempotency_key'' (\<lambda>s p. p\<lparr>rn_key := s\<rparr>),
     string_field ''lease_expires_at'' (\<lambda>s p. p\<lparr>rn_expires := s\<rparr>), int_field ''generation'' (\<lambda>i p. p\<lparr>rn_generation := i\<rparr>)]"

record disconnected_data =
  dd_last :: int

definition disconnected_fields :: "disconnected_data field list" where
  "disconnected_fields = int_field ''last_server_sequence'' (\<lambda>i p. p\<lparr>dd_last := i\<rparr>) # other_fields [''reason''] []"

record reconnected_data =
  rd_request :: string
  rd_key :: string
  rd_resume :: int
  rd_epoch :: int
  rd_generation :: int

definition reconnected_fields :: "reconnected_data field list" where
  "reconnected_fields = [string_field ''request_id'' (\<lambda>s p. p\<lparr>rd_request := s\<rparr>), string_field ''idempotency_key'' (\<lambda>s p. p\<lparr>rd_key := s\<rparr>),
     int_field ''resume_from_sequence'' (\<lambda>i p. p\<lparr>rd_resume := i\<rparr>), int_field ''stream_epoch'' (\<lambda>i p. p\<lparr>rd_epoch := i\<rparr>),
     int_field ''generation'' (\<lambda>i p. p\<lparr>rd_generation := i\<rparr>)]"

record cancelled_data =
  cd_request :: string
  cd_key :: string
  cd_outcome :: string

definition cancelled_fields :: "cancelled_data field list" where
  "cancelled_fields = [string_field ''request_id'' (\<lambda>s p. p\<lparr>cd_request := s\<rparr>), string_field ''idempotency_key'' (\<lambda>s p. p\<lparr>cd_key := s\<rparr>),
     string_field ''terminal_outcome'' (\<lambda>s p. p\<lparr>cd_outcome := s\<rparr>)] @ other_fields [''reason''] []"

record released_data =
  rl_key :: string
  rl_outcome :: string
  rl_generation :: int

definition released_fields :: "released_data field list" where
  "released_fields = [string_field ''release_idempotency_key'' (\<lambda>s p. p\<lparr>rl_key := s\<rparr>), string_field ''outcome'' (\<lambda>s p. p\<lparr>rl_outcome := s\<rparr>),
     int_field ''generation'' (\<lambda>i p. p\<lparr>rl_generation := i\<rparr>)]"

record error_data =
  ee_retryable :: bool

definition error_fields :: "error_data field list" where
  "error_fields = bool_field ''retryable'' (\<lambda>b p. p\<lparr>ee_retryable := b\<rparr>) # other_fields [''code'', ''safe_message''] []"

definition no_reconnected :: reconnected_data where
  "no_reconnected = \<lparr>rd_request = '''', rd_key = '''', rd_resume = 0, rd_epoch = 0, rd_generation = 0\<rparr>"

section \<open>The state of the event loop\<close>

record renewal =
  re_from :: go_time
  re_until :: go_time

record event_state =
  es_errors :: "string list"
  es_binding :: binding_epoch
  es_ids :: "string list"
  es_consumed :: "string list"
  es_phase :: session_phase
  es_frame :: int
  es_epoch :: int
  es_disconnected :: int
  es_last :: go_time
  es_expiry :: go_time
  es_frames :: "(frame_ref \<times> go_time) list"
  es_renewals :: "renewal list"
  es_released :: bool
  es_releasedAt :: go_time

record event_context =
  ec_base :: check_context
  ec_byKey :: "string \<rightharpoonup> request_fact"
  ec_acquired :: go_time

definition ec_lease :: "event_context \<Rightarrow> lease" where
  "ec_lease E = sd_lease (cx_document (ec_base E))"

definition request_at :: "event_context \<Rightarrow> string \<Rightarrow> request_fact" where
  "request_at E key = (case ec_byKey E key of None \<Rightarrow> no_fact | Some f \<Rightarrow> f)"

definition release_fact :: "event_context \<Rightarrow> request_fact" where
  "release_fact E = request_at E (ls_releaseKey (ec_lease E))"

definition autonomousExpiry :: "event_context \<Rightarrow> bool" where
  "autonomousExpiry E \<longleftrightarrow> rf_type (release_fact E) = ''release'' \<and> rf_reason (release_fact E) = ''lease_expired''"

text \<open>Whether the event comes before the request it answers.\<close>

definition precedes_request :: "go_time \<Rightarrow> request_fact \<Rightarrow> bool" where
  "precedes_request moment f \<longleftrightarrow> \<not> IsZero moment \<and> Before moment (rf_at f)"

type_synonym event_step = "event_context \<Rightarrow> int \<Rightarrow> session_event \<Rightarrow> go_time \<Rightarrow> event_state \<Rightarrow> string list \<times> event_state"

definition acquired_event :: event_step where
  "acquired_event E index e moment s =
     (let l = ec_lease E;
          (p, bad) = read_payload (cx_fold (ec_base E)) acquired_fields
            \<lparr>aa_lease = '''', aa_resource = '''', aa_tenant = '''', aa_owner = '''', aa_generation = 0\<rparr> (ev_data e)
      in (bad @ complain (es_phase s \<noteq> NewSession \<or> aa_lease p \<noteq> ls_id l \<or> aa_resource p \<noteq> ls_resource l
              \<or> aa_tenant p \<noteq> ls_tenant l \<or> aa_owner p \<noteq> ls_owner l \<or> aa_generation p \<noteq> ls_generation l)
              ''acquired event does not match lease'',
          s\<lparr>es_phase := ActiveSession\<rparr>))"

definition frame_event :: event_step where
  "frame_event E index e moment s =
     (let (p, bad) = read_payload (cx_fold (ec_base E)) frame_fields \<lparr>fd_epoch = 0, fd_frame = 0\<rparr> (ev_data e);
          ref = \<lparr>fr_epoch = fd_epoch p, fr_sequence = fd_frame p\<rparr>
      in (bad @ complain (es_phase s \<noteq> ActiveSession \<or> fd_epoch p < es_epoch s
                \<or> fd_epoch p = es_epoch s \<and> fd_frame p \<le> es_frame s) ''non-monotonic frame or frame outside active state''
            @ complain (map_of (es_frames s) ref \<noteq> None) ''duplicate frame identity'',
          s\<lparr>es_epoch := max (es_epoch s) (fd_epoch p), es_frame := fd_frame p, es_frames := (ref, moment) # es_frames s\<rparr>))"

definition input_ack_event :: event_step where
  "input_ack_event E index e moment s =
     (let (p, bad) = read_payload (cx_fold (ec_base E)) input_ack_fields \<lparr>ia_key = '''', ia_epoch = 0, ia_frame = 0\<rparr> (ev_data e);
          request = request_at E (ia_key p);
          ref = \<lparr>fr_epoch = ia_epoch p, fr_sequence = ia_frame p\<rparr>;
          frameTime = (case map_of (es_frames s) ref of None \<Rightarrow> zero_time | Some t \<Rightarrow> t)
      in (bad @ complain (es_phase s \<noteq> ActiveSession \<or> ec_byKey E (ia_key p) = None \<or> rf_type request \<noteq> ''input''
              \<or> rf_frame request \<noteq> ref \<or> map_of (es_frames s) ref = None \<or> precedes_request moment request
              \<or> \<not> IsZero (rf_at request) \<and> Before (rf_at request) frameTime)
              ''input acknowledgement is not bound to request/frame'', s))"

definition heartbeat_event :: event_step where
  "heartbeat_event E index e moment s =
     (let (p, bad) = read_payload (cx_fold (ec_base E)) renewal_fields
            \<lparr>rn_request = '''', rn_key = '''', rn_expires = '''', rn_generation = 0\<rparr> (ev_data e);
          request = request_at E (rn_key p);
          (newExpiry, unreadable) = read_time (cx_parse (ec_base E)) ''heartbeat lease_expires_at'' (rn_expires p);
          expected = add_time (es_expiry s) (milliseconds (rf_extension request));
          renews = (\<not> IsZero newExpiry \<and> newExpiry = expected \<and> \<not> After newExpiry (be_until (es_binding s)))
      in (bad @ unreadable
            @ complain (es_phase s \<noteq> ActiveSession \<or> rn_generation p \<noteq> ls_generation (ec_lease E) \<or> ec_byKey E (rn_key p) = None
                \<or> rf_type request \<noteq> ''heartbeat'' \<or> rf_id request \<noteq> rn_request p \<or> rn_key p \<in> set (es_consumed s)
                \<or> precedes_request moment request \<or> After (rf_at request) (es_expiry s) \<or> newExpiry \<noteq> expected
                \<or> After newExpiry (be_until (es_binding s))) ''heartbeat outside active lease or generation mismatch'',
          s\<lparr>es_expiry := (if renews then newExpiry else es_expiry s),
            es_renewals := es_renewals s @ (if renews then [\<lparr>re_from = moment, re_until = newExpiry\<rparr>] else []),
            es_consumed := rn_key p # es_consumed s\<rparr>))"

definition disconnected_event :: event_step where
  "disconnected_event E index e moment s =
     (let (p, bad) = read_payload (cx_fold (ec_base E)) disconnected_fields \<lparr>dd_last = 0\<rparr> (ev_data e)
      in (bad @ complain (es_phase s \<noteq> ActiveSession \<or> dd_last p > index) ''invalid disconnect cursor/state'',
          s\<lparr>es_disconnected := dd_last p, es_phase := DisconnectedSession\<rparr>))"

definition reconnected_event :: event_step where
  "reconnected_event E index e moment s =
     (let (p, bad) = read_payload (cx_fold (ec_base E)) reconnected_fields no_reconnected (ev_data e);
          request = request_at E (rd_key p);
          fresh = rf_binding request
      in (bad @ complain (es_phase s \<noteq> DisconnectedSession \<or> ec_byKey E (rd_key p) = None \<or> rf_type request \<noteq> ''reconnect''
              \<or> rf_id request \<noteq> rd_request p \<or> rf_lastAck request \<noteq> rd_resume p \<or> rd_resume p > es_disconnected s
              \<or> rd_epoch p \<le> es_epoch s \<or> rd_generation p \<noteq> ls_generation (ec_lease E) \<or> rd_key p \<in> set (es_consumed s)
              \<or> precedes_request moment request \<or> IsZero (be_until fresh)
              \<or> \<not> within_time moment (be_from fresh) (be_until fresh)) ''invalid reconnect state/cursor/epoch'',
          s\<lparr>es_consumed := rd_key p # es_consumed s, es_binding := fresh,
            es_expiry := (if After (es_expiry s) (be_until fresh) then be_until fresh else es_expiry s),
            es_epoch := rd_epoch p, es_frame := 0, es_phase := ActiveSession\<rparr>))"

definition cancelled_event :: event_step where
  "cancelled_event E index e moment s =
     (let (p, bad) = read_payload (cx_fold (ec_base E)) cancelled_fields \<lparr>cd_request = '''', cd_key = '''', cd_outcome = ''''\<rparr> (ev_data e);
          request = request_at E (cd_key p)
      in (bad @ complain (es_phase s \<noteq> ActiveSession \<and> es_phase s \<noteq> DisconnectedSession \<or> ec_byKey E (cd_key p) = None
              \<or> rf_type request \<noteq> ''cancel'' \<or> rf_id request \<noteq> cd_request p \<or> cd_key p \<in> set (es_consumed s)
              \<or> precedes_request moment request) ''cancellation is not bound to a live request''
            @ complain (cd_outcome p \<noteq> ''cancelled'') ''cancelled event has contradictory terminal outcome'',
          s\<lparr>es_consumed := cd_key p # es_consumed s, es_phase := CancelledSession\<rparr>))"

definition released_event :: event_step where
  "released_event E index e moment s =
     (let l = ec_lease E;
          (p, bad) = read_payload (cx_fold (ec_base E)) released_fields \<lparr>rl_key = '''', rl_outcome = '''', rl_generation = 0\<rparr> (ev_data e);
          request = request_at E (rl_key p)
      in (bad @ complain (es_phase s \<notin> {ActiveSession, DisconnectedSession, CancelledSession} \<or> ec_byKey E (rl_key p) = None
              \<or> rf_type request \<noteq> ''release'' \<or> rl_key p \<noteq> ls_releaseKey l \<or> rl_generation p \<noteq> ls_generation l
              \<or> rl_key p \<in> set (es_consumed s) \<or> precedes_request moment request) ''invalid terminal release''
            @ (if autonomousExpiry E
               then complain (rl_outcome p \<noteq> ''error'' \<or> \<not> Equal moment (rf_at request)) ''expired lease requires canonical error release''
               else complain ((es_phase s = CancelledSession) \<noteq> (rl_outcome p = ''cancelled'')) ''released outcome contradicts lifecycle state''),
          s\<lparr>es_consumed := rl_key p # es_consumed s, es_phase := ReleasedSession, es_released := True, es_releasedAt := moment\<rparr>))"

definition error_event :: event_step where
  "error_event E index e moment s =
     (let (p, bad) = read_payload (cx_fold (ec_base E)) error_fields \<lparr>ee_retryable = False\<rparr> (ev_data e);
          expiresAt = minTime (es_expiry s) (be_until (es_binding s));
          canonical = (autonomousExpiry E \<and> Equal moment (rf_at (release_fact E)))
      in (bad @ complain (es_phase s = NewSession) ''error before acquisition''
            @ complain (\<not> IsZero moment \<and> (canonical \<and> ee_retryable p \<or> After moment expiresAt \<and> \<not> canonical))
                ''late error is not part of canonical lease expiry'', s))"

definition event_case :: event_step where
  "event_case E index e moment s =
     (if ev_type e = ''acquired'' then acquired_event E index e moment s
      else if ev_type e = ''frame'' then frame_event E index e moment s
      else if ev_type e = ''input_ack'' then input_ack_event E index e moment s
      else if ev_type e = ''heartbeat'' then heartbeat_event E index e moment s
      else if ev_type e = ''disconnected'' then disconnected_event E index e moment s
      else if ev_type e = ''reconnected'' then reconnected_event E index e moment s
      else if ev_type e = ''cancelled'' then cancelled_event E index e moment s
      else if ev_type e = ''released'' then released_event E index e moment s
      else if ev_type e = ''error'' then error_event E index e moment s
      else ([''unknown event type''], s))"

text \<open>The binding an event is checked against: the one of its own request when it reconnects.\<close>

definition event_binding :: "event_context \<Rightarrow> session_event \<Rightarrow> event_state \<Rightarrow> binding_epoch \<times> string list" where
  "event_binding E e s =
     (if ev_type e = ''reconnected''
      then (case read_payload (cx_fold (ec_base E)) reconnected_fields no_reconnected (ev_data e) of (p, bad) \<Rightarrow>
        (if ec_byKey E (rd_key p) \<noteq> None \<and> rf_type (request_at E (rd_key p)) = ''reconnect''
         then rf_binding (request_at E (rd_key p)) else es_binding s, bad))
      else (es_binding s, []))"

definition lifetime_errors :: "event_context \<Rightarrow> session_event \<Rightarrow> go_time \<Rightarrow> event_state \<Rightarrow> string list" where
  "lifetime_errors E e moment s =
     (if IsZero moment then []
      else
        (let (binding, bad) = event_binding E e s;
             late = (autonomousExpiry E \<and> (ev_type e = ''error'' \<or> ev_type e = ''released'') \<and> Equal moment (rf_at (release_fact E)))
         in bad @ complain (\<not> late \<and> \<not> within_time moment (be_from binding) (be_until binding)) ''event lies outside authenticated binding''
              @ complain (\<not> late \<and> \<not> within_time moment (ec_acquired E) (es_expiry s)) ''event lies outside effective lease lifetime''))"

definition validate_event :: "event_context \<Rightarrow> int \<Rightarrow> session_event \<Rightarrow> event_state \<Rightarrow> event_state" where
  "validate_event E index e s =
     (let l = ec_lease E;
          (moment, unreadable) = read_time (cx_parse (ec_base E)) ''event timestamp'' (ev_timestamp e);
          before_switch = complain (ev_sequence e \<noteq> index + 1 \<or> ev_id e \<in> set (es_ids s)) ''event sequence gap or replayed event_id''
            @ unreadable
            @ complain (\<not> IsZero moment \<and> \<not> IsZero (es_last s) \<and> Before moment (es_last s)) ''event timestamps are not monotonic''
            @ lifetime_errors E e moment s
            @ complain (ev_generation e \<noteq> ls_generation l \<or> ev_fence e \<noteq> ls_fence l) ''event carries stale lease generation or fence'';
          s = s\<lparr>es_ids := ev_id e # es_ids s, es_last := (if IsZero moment then es_last s else moment)\<rparr>
      in if es_phase s = ReleasedSession
         then s\<lparr>es_errors := es_errors s @ before_switch @ [''event appears after terminal release'']\<rparr>
         else (case event_case E index e moment s of (in_switch, s') \<Rightarrow> s'\<lparr>es_errors := es_errors s @ before_switch @ in_switch\<rparr>))"

fun validate_events :: "event_context \<Rightarrow> int \<Rightarrow> session_event list \<Rightarrow> event_state \<Rightarrow> event_state" where
  "validate_events E index [] s = s"
| "validate_events E index (e # es) s = validate_events E (index + 1) es (validate_event E index e s)"

definition event_start :: "session_document \<Rightarrow> go_time \<Rightarrow> go_time \<Rightarrow> go_time \<Rightarrow> event_state" where
  "event_start d issued expires leaseExpires = \<lparr>es_errors = [],
     es_binding = \<lparr>be_channel = sb_channel (sd_binding d), be_nonce = sb_nonce (sd_binding d), be_from = issued, be_until = expires\<rparr>,
     es_ids = [], es_consumed = [], es_phase = NewSession, es_frame = 0, es_epoch = 0, es_disconnected = 0, es_last = zero_time,
     es_expiry = minTime leaseExpires expires, es_frames = [], es_renewals = [], es_released = False, es_releasedAt = zero_time\<rparr>"

definition expiry_errors :: "event_context \<Rightarrow> event_state \<Rightarrow> string list" where
  "expiry_errors E s =
     (if autonomousExpiry E
      then (let expiresAt = minTime (es_expiry s) (be_until (es_binding s));
                latest = add_time expiresAt (milliseconds (ls_heartbeat (ec_lease E)))
            in complain (Before (rf_at (release_fact E)) expiresAt \<or> After (rf_at (release_fact E)) latest
                 \<or> \<not> Equal (es_releasedAt s) (rf_at (release_fact E))) ''autonomous lease expiry is outside the terminalization window'')
      else [])"

definition validateEvents :: "event_context \<Rightarrow> go_time \<Rightarrow> go_time \<Rightarrow> go_time \<Rightarrow> event_state" where
  "validateEvents E issued expires leaseExpires =
     (let d = cx_document (ec_base E);
          s = validate_events E 0 (sd_events d) (event_start d issued expires leaseExpires)
      in s\<lparr>es_errors := es_errors s @ complain (es_phase s = NewSession) ''session lacks acquisition event'' @ expiry_errors E s\<rparr>)"

section \<open>The verdict\<close>

fun renewed_expiry :: "renewal list \<Rightarrow> go_time \<Rightarrow> go_time \<Rightarrow> go_time" where
  "renewed_expiry [] moment expiry = expiry"
| "renewed_expiry (r # rs) moment expiry = (if After (re_from r) moment then expiry else renewed_expiry rs moment (re_until r))"

definition request_time_errors :: "event_state \<Rightarrow> go_time \<Rightarrow> go_time \<Rightarrow> request_fact \<Rightarrow> string list" where
  "request_time_errors s leaseAcquired initialExpiry f =
     (if rf_type f = ''acquire'' \<or> IsZero (rf_at f) \<or> rf_type f = ''release'' \<and> rf_reason f = ''lease_expired'' then []
      else complain (\<not> within_time (rf_at f) leaseAcquired (renewed_expiry (es_renewals s) (rf_at f) initialExpiry))
             ''fenced request lies outside effective lease lifetime''
         @ (if rf_type f = ''input''
            then complain (case map_of (es_frames s) (rf_frame f) of None \<Rightarrow> True | Some t \<Rightarrow> Before (rf_at f) t)
                   ''input names unknown or future frame identity''
            else []))"

definition validateRequestLeaseAndFrameTimes :: "request_state \<Rightarrow> event_state \<Rightarrow> go_time \<Rightarrow> go_time \<Rightarrow> string list" where
  "validateRequestLeaseAndFrameTimes q s leaseAcquired initialExpiry =
     concat (map (request_time_errors s leaseAcquired initialExpiry) (rs_ordered q))"

text \<open>The errors of a transcript; the code sorts and joins them.\<close>

definition transcript_errors :: "check_context \<Rightarrow> auth_context \<Rightarrow> auth_profile \<Rightarrow> go_time \<Rightarrow> string list" where
  "transcript_errors X A profile now =
     (let d = cx_document X; b = sd_binding d; l = sd_lease d;
          (issued, e1) = read_time (cx_parse X) ''binding issued_at'' (sb_issued b);
          (expires, e2) = read_time (cx_parse X) ''binding expires_at'' (sb_expires b);
          (acquired, e3) = read_time (cx_parse X) ''lease acquired_at'' (ls_acquired l);
          (leaseExpires, e4) = read_time (cx_parse X) ''lease expires_at'' (ls_expires l);
          q = validateRequests X A issued expires;
          final = rs_binding q;
          E = \<lparr>ec_base = X, ec_byKey = rs_byKey q, ec_acquired = acquired\<rparr>;
          s = validateEvents E issued expires leaseExpires
      in complain (sd_schema d \<noteq> 1 \<or> sd_contract d \<noteq> ''v1'') ''unsupported contract version''
       @ complain (profile \<noteq> LocalCoreV1 \<and> profile \<noteq> RemoteCloudMacV1) ''authentication profile is not a valid discriminated v1 profile''
       @ complain (sb_profile b \<noteq> ap_id profile \<or> ac_profile A \<noteq> ap_id profile) ''authentication profile does not match negotiated binding''
       @ complain (sb_tenant b \<noteq> ac_tenant A \<or> ls_tenant l \<noteq> ac_tenant A) ''tenant differs from authenticated context''
       @ complain (sb_principal b \<noteq> ac_principal A \<or> ls_owner l \<noteq> ac_principal A) ''principal differs from authenticated context''
       @ complain (length (sb_nonce b) > 128) ''binding request nonce exceeds maximum length''
       @ e1 @ e2 @ e3 @ e4
       @ complain (\<not> IsZero issued \<and> \<not> IsZero expires \<and> \<not> Before issued expires) ''binding validity interval is empty''
       @ complain (\<not> IsZero acquired \<and> \<not> IsZero leaseExpires \<and> \<not> Before acquired leaseExpires) ''lease validity interval is empty''
       @ rs_errors q
       @ complain (be_channel final \<noteq> ac_channel A) ''channel binding differs from authenticated transport''
       @ complain (be_nonce final \<noteq> ac_nonce A) ''request nonce differs from authenticated token''
       @ complain (\<not> Equal (be_until final) (ac_expiry A)) ''binding expiry differs from authenticated token''
       @ es_errors s
       @ complain (rs_released q \<noteq> es_released s) ''request and event lifecycles disagree on release''
       @ validateRequestLeaseAndFrameTimes q s acquired leaseExpires
       @ complain (\<not> IsZero now \<and> \<not> es_released s \<and> (\<not> within_time now (be_from final) (be_until final)
            \<or> \<not> within_time now acquired (es_expiry s))) ''authenticated binding or lease is not live at verification time'')"

definition ValidateJSON :: "(string \<Rightarrow> string) \<Rightarrow> (string \<Rightarrow> go_time option) \<Rightarrow> session_document option \<Rightarrow> auth_context
    \<Rightarrow> auth_profile \<Rightarrow> go_time \<Rightarrow> string list option" where
  "ValidateJSON foldKey parse document A profile now =
     (case document of
        None \<Rightarrow> Some [''decode DeviceSession v1'']
      | Some d \<Rightarrow>
          (let errors = transcript_errors \<lparr>cx_fold = foldKey, cx_parse = parse, cx_document = d\<rparr> A profile now
           in if errors = [] then None else Some errors))"

end
