(* ===== verification/Session_Facts.thy ===== *)
theory Session_Facts
  imports Session_Events
begin

text \<open>
  What an accepted transcript is. Its requests and its events are runs of two lifecycle relations, every
  one of them carries the identity it must, and the release is the last event.
\<close>

section \<open>Lifecycles\<close>

inductive lifecycle :: "session_phase \<Rightarrow> string \<Rightarrow> session_phase \<Rightarrow> bool" where
  "lifecycle NewSession ''acquired'' ActiveSession"
| "kind \<in> {''frame'', ''input_ack'', ''heartbeat''} \<Longrightarrow> lifecycle ActiveSession kind ActiveSession"
| "lifecycle ActiveSession ''disconnected'' DisconnectedSession"
| "lifecycle DisconnectedSession ''reconnected'' ActiveSession"
| "p \<in> {ActiveSession, DisconnectedSession} \<Longrightarrow> lifecycle p ''cancelled'' CancelledSession"
| "p \<in> {ActiveSession, DisconnectedSession, CancelledSession} \<Longrightarrow> lifecycle p ''released'' ReleasedSession"
| "p \<in> {ActiveSession, DisconnectedSession, CancelledSession} \<Longrightarrow> lifecycle p ''error'' p"

inductive_simps lifecycle_simps: "lifecycle p kind q"

fun lifecycle_run :: "session_phase \<Rightarrow> string list \<Rightarrow> session_phase \<Rightarrow> bool" where
  "lifecycle_run p [] q \<longleftrightarrow> p = q"
| "lifecycle_run p (k # ks) q \<longleftrightarrow> (\<exists>r. lifecycle p k r \<and> lifecycle_run r ks q)"

text \<open>The request side; the flag says whether the request repeats an earlier one exactly.\<close>

inductive request_lifecycle :: "session_phase \<Rightarrow> string \<times> bool \<Rightarrow> session_phase \<Rightarrow> bool" where
  "request_lifecycle NewSession (''acquire'', retry) ActiveSession"
| "kind \<in> {''input'', ''heartbeat'', ''reconnect''} \<Longrightarrow> request_lifecycle ActiveSession (kind, retry) ActiveSession"
| "request_lifecycle ActiveSession (''cancel'', retry) CancelledSession"
| "request_lifecycle CancelledSession (''cancel'', True) CancelledSession"
| "p \<in> {ActiveSession, CancelledSession} \<Longrightarrow> request_lifecycle p (''release'', retry) ReleasedSession"
| "request_lifecycle ReleasedSession (''release'', True) ReleasedSession"

lemma complain_Nil [simp]: "complain b m = [] \<longleftrightarrow> \<not> b"
  by (simp add: complain_def)

named_theorems event_defs \<open>the cases of the event loop\<close>

declare acquired_event_def [event_defs] frame_event_def [event_defs] input_ack_event_def [event_defs]
  heartbeat_event_def [event_defs] disconnected_event_def [event_defs] reconnected_event_def [event_defs]
  cancelled_event_def [event_defs] released_event_def [event_defs] error_event_def [event_defs]

lemma event_case_lifecycle:
  assumes "event_case E index e moment s = ([], s')" "es_phase s \<noteq> ReleasedSession"
  shows "lifecycle (es_phase s) (ev_type e) (es_phase s')"
  using assms
  by (cases "es_phase s") (auto simp: event_case_def event_defs Let_def lifecycle_simps split: prod.splits if_splits)

section \<open>One accepted event\<close>

text \<open>What an event has passed when no error is recorded: the moment it names and the state the switch starts in.\<close>

definition event_seen :: "session_event \<Rightarrow> go_time \<Rightarrow> event_state \<Rightarrow> event_state" where
  "event_seen e moment s = s\<lparr>es_ids := ev_id e # es_ids s, es_last := (if IsZero moment then es_last s else moment)\<rparr>"

lemma read_time_ok: "read_time parse label t = (m, []) \<longleftrightarrow> parse t = Some m"
  by (auto simp: read_time_def split: option.splits)

lemma validate_event_ok:
  assumes "es_errors (validate_event E i e s) = []"
  obtains moment s1 where "es_errors s = []" "es_phase s \<noteq> ReleasedSession" "cx_parse (ec_base E) (ev_timestamp e) = Some moment"
    "ev_sequence e = i + 1" "ev_id e \<notin> set (es_ids s)" "IsZero moment \<or> IsZero (es_last s) \<or> \<not> Before moment (es_last s)"
    "lifetime_errors E e moment s = []" "ev_generation e = ls_generation (ec_lease E)" "ev_fence e = ls_fence (ec_lease E)"
    "event_case E i e moment (event_seen e moment s) = ([], s1)" "validate_event E i e s = s1\<lparr>es_errors := []\<rparr>"
proof -
  obtain moment unreadable where time: "read_time (cx_parse (ec_base E)) ''event timestamp'' (ev_timestamp e) = (moment, unreadable)"
    by fastforce
  obtain inside s1 where step: "event_case E i e moment (event_seen e moment s) = (inside, s1)" by fastforce
  have "es_phase s \<noteq> ReleasedSession" using assms time by (auto simp: validate_event_def Let_def)
  moreover from this have "es_errors s = [] \<and> unreadable = [] \<and> inside = []" "validate_event E i e s = s1\<lparr>es_errors := []\<rparr>"
    and "ev_sequence e = i + 1" "ev_id e \<notin> set (es_ids s)" "IsZero moment \<or> IsZero (es_last s) \<or> \<not> Before moment (es_last s)"
    "lifetime_errors E e moment s = []" "ev_generation e = ls_generation (ec_lease E)" "ev_fence e = ls_fence (ec_lease E)"
    using assms time step by (simp_all add: validate_event_def Let_def event_seen_def)
  ultimately show thesis using that [of moment s1] time step by (simp add: read_time_ok)
qed

lemma event_case_keeps:
  assumes "event_case E i e moment s = (errors, s')"
  shows "es_errors s' = es_errors s" "es_ids s' = es_ids s" "es_last s' = es_last s"
  using assms by (auto simp: event_case_def event_defs Let_def split: prod.splits if_splits)

lemma validate_events_errors: "es_errors (validate_events E i es s) = [] \<Longrightarrow> es_errors s = []"
proof (induction es arbitrary: i s)
  case (Cons e es)
  then have "es_errors (validate_event E i e s) = []" by simp
  then show ?case by (rule validate_event_ok)
qed simp

lemma validate_events_append:
  "validate_events E i (es @ fs) s = validate_events E (i + int (length es)) fs (validate_events E i es s)"
  by (induction es arbitrary: i s) (simp_all add: algebra_simps)

text \<open>An invariant of the accepted prefixes: it holds at the start and every accepted event keeps it.\<close>

lemma events_invariant:
  assumes ok: "es_errors (validate_events E 0 es s0) = []" and start: "P 0 s0"
    and step: "\<And>n e s moment s1. n < length es \<Longrightarrow> e = es ! n \<Longrightarrow> P n s \<Longrightarrow> es_errors s = [] \<Longrightarrow> es_phase s \<noteq> ReleasedSession
       \<Longrightarrow> s = validate_events E 0 (take n es) s0
       \<Longrightarrow> cx_parse (ec_base E) (ev_timestamp e) = Some moment \<Longrightarrow> ev_sequence e = int n + 1 \<Longrightarrow> ev_id e \<notin> set (es_ids s)
       \<Longrightarrow> IsZero moment \<or> IsZero (es_last s) \<or> \<not> Before moment (es_last s) \<Longrightarrow> lifetime_errors E e moment s = []
       \<Longrightarrow> ev_generation e = ls_generation (ec_lease E) \<Longrightarrow> ev_fence e = ls_fence (ec_lease E)
       \<Longrightarrow> event_case E (int n) e moment (event_seen e moment s) = ([], s1) \<Longrightarrow> P (Suc n) (s1\<lparr>es_errors := []\<rparr>)"
  shows "n \<le> length es \<Longrightarrow> P n (validate_events E 0 (take n es) s0)"
proof (induction n)
  case (Suc n)
  let ?s = "validate_events E 0 (take n es) s0" and ?e = "es ! n"
  have n: "n < length es" using Suc.prems by simp
  have take: "take (Suc n) es = take n es @ [?e]" using n by (simp add: take_Suc_conv_app_nth)
  have next_state: "validate_events E 0 (take (Suc n) es) s0 = validate_event E (int n) ?e ?s"
    using n by (simp add: take validate_events_append)
  have "es = take (Suc n) es @ drop (Suc n) es" by simp
  then have "es_errors (validate_events E 0 (take (Suc n) es) s0) = []"
    using ok validate_events_errors by (metis validate_events_append)
  then have "es_errors (validate_event E (int n) ?e ?s) = []" using next_state by simp
  then show ?case
  proof (rule validate_event_ok)
    fix moment s1
    assume "es_errors ?s = []" "es_phase ?s \<noteq> ReleasedSession" "cx_parse (ec_base E) (ev_timestamp ?e) = Some moment"
      "ev_sequence ?e = int n + 1" "ev_id ?e \<notin> set (es_ids ?s)" "IsZero moment \<or> IsZero (es_last ?s) \<or> \<not> Before moment (es_last ?s)"
      "lifetime_errors E ?e moment ?s = []" "ev_generation ?e = ls_generation (ec_lease E)" "ev_fence ?e = ls_fence (ec_lease E)"
      "event_case E (int n) ?e moment (event_seen ?e moment ?s) = ([], s1)" "validate_event E (int n) ?e ?s = s1\<lparr>es_errors := []\<rparr>"
    with step [OF n refl Suc.IH _ _ refl, of moment s1] Suc.prems next_state show ?thesis by simp
  qed
qed (use start in simp)

section \<open>The lifecycle of an accepted transcript\<close>

lemma event_case_seen_lifecycle:
  "event_case E i e moment (event_seen e moment s) = ([], s1) \<Longrightarrow> es_phase s \<noteq> ReleasedSession \<Longrightarrow> lifecycle (es_phase s) (ev_type e) (es_phase s1)"
  using event_case_lifecycle [of E i e moment "event_seen e moment s" s1] by (simp add: event_seen_def)

lemma lifecycle_run_append: "lifecycle_run p (ks @ ls) q \<longleftrightarrow> (\<exists>r. lifecycle_run p ks r \<and> lifecycle_run r ls q)"
  by (induction ks arbitrary: p) auto

lemma events_lifecycle:
  assumes ok: "es_errors (validate_events E 0 es s0) = []" "es_phase s0 = NewSession"
  shows "lifecycle_run NewSession (map ev_type es) (es_phase (validate_events E 0 es s0))"
proof -
  have "lifecycle_run NewSession (map ev_type (take n es)) (es_phase (validate_events E 0 (take n es) s0))" if "n \<le> length es" for n
  proof (rule events_invariant [OF ok(1) _ _ that, where P = "\<lambda>n s. lifecycle_run NewSession (map ev_type (take n es)) (es_phase s)"])
    fix n e s moment s1
    assume "n < length es" "e = es ! n" "lifecycle_run NewSession (map ev_type (take n es)) (es_phase s)"
      "es_phase s \<noteq> ReleasedSession" "event_case E (int n) e moment (event_seen e moment s) = ([], s1)"
    then show "lifecycle_run NewSession (map ev_type (take (Suc n) es)) (es_phase (s1\<lparr>es_errors := []\<rparr>))"
      using event_case_seen_lifecycle by (auto simp: take_Suc_conv_app_nth lifecycle_run_append)
  qed (simp add: ok)
  from this [of "length es"] show ?thesis by simp
qed

lemma released_stays: "lifecycle_run ReleasedSession ks q \<Longrightarrow> ks = [] \<and> q = ReleasedSession"
  by (cases ks) (auto simp: lifecycle_simps)

lemma lifecycle_to_released:
  assumes "lifecycle_run p ks q" shows "count_list ks ''released'' = (if q = ReleasedSession \<and> p \<noteq> ReleasedSession then 1 else 0)
    \<and> (''released'' \<in> set ks \<longrightarrow> last ks = ''released'')"
  using assms
proof (induction ks arbitrary: p)
  case (Cons k ks)
  then obtain r where r: "lifecycle p k r" "lifecycle_run r ks q" by auto
  have "r = ReleasedSession \<longleftrightarrow> k = ''released''" "p \<noteq> ReleasedSession" using r(1) by (auto simp: lifecycle_simps)
  then show ?case using Cons.IH [OF r(2)] released_stays [of ks q] r(2) by (cases "ks = []") auto
qed simp

section \<open>One accepted request\<close>

named_theorems request_defs \<open>the cases of the request loop\<close>

declare acquire_request_def [request_defs] input_request_def [request_defs] heartbeat_request_def [request_defs]
  reconnect_request_def [request_defs] cancel_request_def [request_defs] release_request_def [request_defs]

definition is_retry :: "session_request \<Rightarrow> request_state \<Rightarrow> bool" where
  "is_retry r s \<longleftrightarrow> rs_identities s (rq_key r) = Some (request_identity r)"

definition request_seen :: "session_request \<Rightarrow> go_time \<Rightarrow> request_state \<Rightarrow> request_state" where
  "request_seen r moment s = s\<lparr>rs_ids := rq_id r # rs_ids s, rs_identities := (rs_identities s)(rq_key r \<mapsto> request_identity r),
     rs_last := (if IsZero moment then rs_last s else moment)\<rparr>"

definition bare_fact :: "session_request \<Rightarrow> go_time \<Rightarrow> request_fact" where
  "bare_fact r moment = no_fact\<lparr>rf_id := rq_id r, rf_type := rq_type r, rf_key := rq_key r, rf_at := moment\<rparr>"

definition request_done :: "session_request \<Rightarrow> request_fact \<Rightarrow> request_state \<Rightarrow> request_state" where
  "request_done r f s = s\<lparr>rs_ordered := rs_ordered s @ [f],
     rs_byKey := (if rs_byKey s (rq_key r) = None then (rs_byKey s)(rq_key r \<mapsto> f) else rs_byKey s)\<rparr>"

lemma request_case_keeps:
  assumes "request_case X i r retry moment f s = (errors, f', s')"
  shows "rs_errors s' = rs_errors s" "rs_ids s' = rs_ids s" "rs_identities s' = rs_identities s" "rs_last s' = rs_last s"
    "rs_ordered s' = rs_ordered s" "rs_byKey s' = rs_byKey s"
    "rf_id f' = rf_id f" "rf_type f' = rf_type f" "rf_key f' = rf_key f" "rf_at f' = rf_at f"
  using assms by (auto simp: request_case_def request_defs Let_def split: prod.splits if_splits)

definition errors_before :: "auth_context \<Rightarrow> int \<Rightarrow> session_request \<Rightarrow> request_state \<Rightarrow> go_time \<Rightarrow> string list \<Rightarrow> string list" where
  "errors_before A i r s moment unreadable =
     complain (rq_sequence r \<noteq> i + 1 \<or> rq_id r \<in> set (rs_ids s)) ''request sequence gap or replayed request_id''
     @ complain (rq_tenant r \<noteq> ac_tenant A \<or> rq_principal r \<noteq> ac_principal A) ''request authentication binding mismatch''
     @ complain (rs_identities s (rq_key r) \<noteq> None \<and> \<not> is_retry r s) ''idempotency key reused for a different request''
     @ unreadable
     @ complain (\<not> IsZero moment \<and> \<not> IsZero (rs_last s) \<and> Before moment (rs_last s)) ''request timestamps are not monotonic''"

definition errors_after :: "session_request \<Rightarrow> go_time \<Rightarrow> request_fact \<Rightarrow> binding_epoch \<Rightarrow> string list" where
  "errors_after r moment f current =
     (if rq_type r \<noteq> ''reconnect''
      then complain (rq_channel r \<noteq> be_channel current) ''request authentication binding mismatch''
        @ complain (\<not> IsZero moment \<and> rf_reason f = '''' \<and> \<not> within_time moment (be_from current) (be_until current))
            ''request lies outside authenticated binding''
      else [])"

lemma validate_request_eq:
  assumes "read_time (cx_parse X) ''request timestamp'' (rq_timestamp r) = (moment, unreadable)"
    "request_case X i r (is_retry r s) moment (bare_fact r moment) (request_seen r moment s) = (inside, f, s1)"
  shows "validate_request X A i r s = (request_done r (if rq_type r \<noteq> ''reconnect'' then f\<lparr>rf_binding := rs_binding s1\<rparr> else f) s1)
    \<lparr>rs_errors := rs_errors s1 @ errors_before A i r s moment unreadable @ inside @ errors_after r moment f (rs_binding s1)\<rparr>"
  using assms
  by (simp add: validate_request_def Let_def is_retry_def request_seen_def bare_fact_def request_done_def errors_before_def errors_after_def)

lemma validate_request_ok:
  assumes "rs_errors (validate_request X A i r s) = []"
  obtains moment f s1 where "rs_errors s = []" "cx_parse X (rq_timestamp r) = Some moment"
    "rq_sequence r = i + 1" "rq_id r \<notin> set (rs_ids s)" "rq_tenant r = ac_tenant A" "rq_principal r = ac_principal A"
    "rs_identities s (rq_key r) = None \<or> is_retry r s"
    "IsZero moment \<or> IsZero (rs_last s) \<or> \<not> Before moment (rs_last s)"
    "request_case X i r (is_retry r s) moment (bare_fact r moment) (request_seen r moment s) = ([], f, s1)"
    "rq_type r = ''reconnect'' \<or> rq_channel r = be_channel (rs_binding s1)"
    "validate_request X A i r s = request_done r (if rq_type r \<noteq> ''reconnect'' then f\<lparr>rf_binding := rs_binding s1\<rparr> else f) (s1\<lparr>rs_errors := []\<rparr>)"
proof -
  obtain moment unreadable where time: "read_time (cx_parse X) ''request timestamp'' (rq_timestamp r) = (moment, unreadable)" by fastforce
  obtain inside f s1 where step: "request_case X i r (is_retry r s) moment (bare_fact r moment) (request_seen r moment s) = (inside, f, s1)"
    by (metis prod.exhaust)
  note eq = validate_request_eq [OF time step, of A]
  have none: "rs_errors s1 = []" "unreadable = []" "inside = []" "errors_before A i r s moment unreadable = []"
    "errors_after r moment f (rs_binding s1) = []" using assms unfolding eq by (simp_all add: errors_before_def)
  have "rs_errors s = []" using none(1) request_case_keeps(1) [OF step] by (simp add: request_seen_def)
  moreover have "validate_request X A i r s
      = request_done r (if rq_type r \<noteq> ''reconnect'' then f\<lparr>rf_binding := rs_binding s1\<rparr> else f) (s1\<lparr>rs_errors := []\<rparr>)"
    using none unfolding eq by (simp add: request_done_def)
  ultimately show thesis
    using that [of moment f s1] none time step
    by (auto simp: errors_before_def errors_after_def read_time_ok split: if_splits)
qed

lemma validate_requests_errors: "rs_errors (validate_requests X A i rs s) = [] \<Longrightarrow> rs_errors s = []"
proof (induction rs arbitrary: i s)
  case (Cons r rs)
  then have "rs_errors (validate_request X A i r s) = []" by simp
  then show ?case by (rule validate_request_ok)
qed simp

lemma validate_requests_append:
  "validate_requests X A i (rs @ qs) s = validate_requests X A (i + int (length rs)) qs (validate_requests X A i rs s)"
  by (induction rs arbitrary: i s) (simp_all add: algebra_simps)

lemma requests_invariant:
  assumes ok: "rs_errors (validate_requests X A 0 rs s0) = []" and start: "P 0 s0"
    and step: "\<And>n r s moment f s1. n < length rs \<Longrightarrow> r = rs ! n \<Longrightarrow> P n s \<Longrightarrow> rs_errors s = []
       \<Longrightarrow> s = validate_requests X A 0 (take n rs) s0
       \<Longrightarrow> cx_parse X (rq_timestamp r) = Some moment \<Longrightarrow> rq_sequence r = int n + 1 \<Longrightarrow> rq_id r \<notin> set (rs_ids s)
       \<Longrightarrow> rq_tenant r = ac_tenant A \<Longrightarrow> rq_principal r = ac_principal A
       \<Longrightarrow> rs_identities s (rq_key r) = None \<or> is_retry r s
       \<Longrightarrow> request_case X (int n) r (is_retry r s) moment (bare_fact r moment) (request_seen r moment s) = ([], f, s1)
       \<Longrightarrow> rq_type r = ''reconnect'' \<or> rq_channel r = be_channel (rs_binding s1)
       \<Longrightarrow> P (Suc n) (request_done r (if rq_type r \<noteq> ''reconnect'' then f\<lparr>rf_binding := rs_binding s1\<rparr> else f) (s1\<lparr>rs_errors := []\<rparr>))"
  shows "n \<le> length rs \<Longrightarrow> P n (validate_requests X A 0 (take n rs) s0)"
proof (induction n)
  case (Suc n)
  let ?s = "validate_requests X A 0 (take n rs) s0" and ?r = "rs ! n"
  have n: "n < length rs" using Suc.prems by simp
  have take: "take (Suc n) rs = take n rs @ [?r]" using n by (simp add: take_Suc_conv_app_nth)
  have next_state: "validate_requests X A 0 (take (Suc n) rs) s0 = validate_request X A (int n) ?r ?s"
    using n by (simp add: take validate_requests_append)
  have "rs = take (Suc n) rs @ drop (Suc n) rs" by simp
  then have "rs_errors (validate_requests X A 0 (take (Suc n) rs) s0) = []"
    using ok validate_requests_errors by (metis validate_requests_append)
  then have "rs_errors (validate_request X A (int n) ?r ?s) = []" using next_state by simp
  then show ?case
    by (rule validate_request_ok) (use step [OF n refl Suc.IH _ refl] Suc.prems next_state in simp)
qed (use start in simp)

text \<open>The lease fence a request carries, if its type has one.\<close>

definition request_fence :: "check_context \<Rightarrow> session_request \<Rightarrow> lease_fence option" where
  "request_fence X r =
     (if rq_type r = ''input'' then Some (in_lease (fst (read_payload (cx_fold X) input_fields
        \<lparr>in_lease = no_fence, in_epoch = 0, in_frame = 0, in_command = '''', in_payload = ''''\<rparr> (rq_data r))))
      else if rq_type r = ''heartbeat'' then Some (hb_lease (fst (read_payload (cx_fold X) heartbeat_fields
        \<lparr>hb_lease = no_fence, hb_extension = 0\<rparr> (rq_data r))))
      else if rq_type r = ''reconnect'' then Some (rc_lease (fst (read_payload (cx_fold X) reconnect_fields
        \<lparr>rc_lease = no_fence, rc_session = '''', rc_lastAck = 0, rc_nonce = '''', rc_expires = ''''\<rparr> (rq_data r))))
      else if rq_type r = ''cancel'' then Some (ft_lease (fst (read_payload (cx_fold X) (fenced_text_fields ''reason'') no_fenced_text (rq_data r))))
      else if rq_type r = ''release'' then Some (ft_lease (fst (read_payload (cx_fold X) (fenced_text_fields ''server_reason'') no_fenced_text (rq_data r))))
      else None)"

definition lease_fence_of :: "lease \<Rightarrow> lease_fence" where
  "lease_fence_of l = \<lparr>lf_id = ls_id l, lf_generation = ls_generation l, lf_fence = ls_fence l\<rparr>"

lemma fence_errors_Nil [simp]: "fence_errors v l = [] \<longleftrightarrow> v = lease_fence_of l"
  by (cases v) (auto simp: fence_errors_def lease_fence_of_def)

lemma request_case_ok:
  assumes "request_case X i r retry moment f s = ([], f', s')"
  shows "request_lifecycle (rs_phase s) (rq_type r, retry) (rs_phase s')"
    and "rq_type r \<noteq> ''acquire'' \<Longrightarrow> request_fence X r = Some (lease_fence_of (sd_lease (cx_document X)))"
    and "rq_type r = ''acquire'' \<Longrightarrow> i = 0"
    and "rq_type r = ''release'' \<Longrightarrow> rq_key r = ls_releaseKey (sd_lease (cx_document X)) \<and> rs_released s'"
    and "rq_type r \<noteq> ''release'' \<Longrightarrow> rs_released s' = rs_released s"
  using assms
  by (auto simp: request_case_def request_defs Let_def request_fence_def split: prod.splits if_splits intro: request_lifecycle.intros)

section \<open>Accepted transcripts\<close>

definition context_of :: "(string \<Rightarrow> string) \<Rightarrow> (string \<Rightarrow> go_time option) \<Rightarrow> session_document \<Rightarrow> check_context" where
  "context_of foldKey parse d = \<lparr>cx_fold = foldKey, cx_parse = parse, cx_document = d\<rparr>"

lemma context_of_simps [simp]:
  "cx_fold (context_of foldKey parse d) = foldKey" "cx_parse (context_of foldKey parse d) = parse"
  "cx_document (context_of foldKey parse d) = d"
  by (simp_all add: context_of_def)

text \<open>The two loops at work: their states after the first requests and the first events.\<close>

definition requests_upto :: "(string \<Rightarrow> string) \<Rightarrow> (string \<Rightarrow> go_time option) \<Rightarrow> session_document \<Rightarrow> auth_context \<Rightarrow> nat \<Rightarrow> request_state" where
  "requests_upto foldKey parse d A n =
     validate_requests (context_of foldKey parse d) A 0 (take n (sd_requests d))
       (request_start d (fst (read_time parse '''' (sb_issued (sd_binding d)))) (fst (read_time parse '''' (sb_expires (sd_binding d)))))"

definition all_requests :: "(string \<Rightarrow> string) \<Rightarrow> (string \<Rightarrow> go_time option) \<Rightarrow> session_document \<Rightarrow> auth_context \<Rightarrow> request_state" where
  "all_requests foldKey parse d A = requests_upto foldKey parse d A (length (sd_requests d))"

definition event_context_of :: "(string \<Rightarrow> string) \<Rightarrow> (string \<Rightarrow> go_time option) \<Rightarrow> session_document \<Rightarrow> auth_context \<Rightarrow> event_context" where
  "event_context_of foldKey parse d A = \<lparr>ec_base = context_of foldKey parse d, ec_byKey = rs_byKey (all_requests foldKey parse d A),
     ec_acquired = fst (read_time parse '''' (ls_acquired (sd_lease d)))\<rparr>"

definition events_upto :: "(string \<Rightarrow> string) \<Rightarrow> (string \<Rightarrow> go_time option) \<Rightarrow> session_document \<Rightarrow> auth_context \<Rightarrow> nat \<Rightarrow> event_state" where
  "events_upto foldKey parse d A n =
     validate_events (event_context_of foldKey parse d A) 0 (take n (sd_events d))
       (event_start d (fst (read_time parse '''' (sb_issued (sd_binding d)))) (fst (read_time parse '''' (sb_expires (sd_binding d))))
         (fst (read_time parse '''' (ls_expires (sd_lease d)))))"

definition all_events :: "(string \<Rightarrow> string) \<Rightarrow> (string \<Rightarrow> go_time option) \<Rightarrow> session_document \<Rightarrow> auth_context \<Rightarrow> event_state" where
  "all_events foldKey parse d A = events_upto foldKey parse d A (length (sd_events d))"

lemma read_time_label: "fst (read_time parse label t) = fst (read_time parse '''' t)"
  by (simp add: read_time_def split: option.split)

lemma read_time_pair: "read_time parse label t = (m, e) \<Longrightarrow> m = fst (read_time parse '''' t)"
  by (metis fst_conv read_time_label)

lemma event_context_of_simps [simp]:
  "ec_base (event_context_of foldKey parse d A) = context_of foldKey parse d"
  "ec_lease (event_context_of foldKey parse d A) = sd_lease d"
  "ec_byKey (event_context_of foldKey parse d A) = rs_byKey (all_requests foldKey parse d A)"
  by (simp_all add: event_context_of_def ec_lease_def)

lemma accepted_parts:
  assumes "ValidateJSON foldKey parse (Some d) A profile now = None"
  shows "rs_errors (all_requests foldKey parse d A) = []" "rs_acquired (all_requests foldKey parse d A)"
    and "rs_released (all_requests foldKey parse d A) \<Longrightarrow> rs_phase (all_requests foldKey parse d A) = ReleasedSession"
    and "es_errors (all_events foldKey parse d A) = []" "es_phase (all_events foldKey parse d A) \<noteq> NewSession"
    and "rs_released (all_requests foldKey parse d A) = es_released (all_events foldKey parse d A)"
    and "ls_tenant (sd_lease d) = ac_tenant A" "ls_owner (sd_lease d) = ac_principal A"
    and "be_channel (rs_binding (all_requests foldKey parse d A)) = ac_channel A"
    and "be_nonce (rs_binding (all_requests foldKey parse d A)) = ac_nonce A"
proof -
  obtain e1 where e1: "read_time parse ''binding issued_at'' (sb_issued (sd_binding d)) = (fst (read_time parse '''' (sb_issued (sd_binding d))), e1)"
    by (metis prod.collapse read_time_label)
  obtain e2 where e2: "read_time parse ''binding expires_at'' (sb_expires (sd_binding d)) = (fst (read_time parse '''' (sb_expires (sd_binding d))), e2)"
    by (metis prod.collapse read_time_label)
  obtain e3 where e3: "read_time parse ''lease acquired_at'' (ls_acquired (sd_lease d)) = (fst (read_time parse '''' (ls_acquired (sd_lease d))), e3)"
    by (metis prod.collapse read_time_label)
  obtain e4 where e4: "read_time parse ''lease expires_at'' (ls_expires (sd_lease d)) = (fst (read_time parse '''' (ls_expires (sd_lease d))), e4)"
    by (metis prod.collapse read_time_label)
  have "transcript_errors (context_of foldKey parse d) A profile now = []"
    using assms by (simp add: ValidateJSON_def context_of_def Let_def split: if_splits)
  then show "rs_errors (all_requests foldKey parse d A) = []" "rs_acquired (all_requests foldKey parse d A)"
    "rs_released (all_requests foldKey parse d A) \<Longrightarrow> rs_phase (all_requests foldKey parse d A) = ReleasedSession"
    "es_errors (all_events foldKey parse d A) = []" "es_phase (all_events foldKey parse d A) \<noteq> NewSession"
    "rs_released (all_requests foldKey parse d A) = es_released (all_events foldKey parse d A)"
    "ls_tenant (sd_lease d) = ac_tenant A" "ls_owner (sd_lease d) = ac_principal A"
    "be_channel (rs_binding (all_requests foldKey parse d A)) = ac_channel A"
    "be_nonce (rs_binding (all_requests foldKey parse d A)) = ac_nonce A"
    by (simp_all add: transcript_errors_def e1 e2 e3 e4 Let_def validateRequests_def validateEvents_def
        all_requests_def requests_upto_def all_events_def events_upto_def event_context_of_def)
qed

lemmas accepted_requests_invariant = requests_invariant [OF accepted_parts(1) [unfolded all_requests_def requests_upto_def, simplified]]
lemmas accepted_events_invariant = events_invariant [OF accepted_parts(4) [unfolded all_events_def events_upto_def, simplified]]


section \<open>What the facts of the requests say\<close>

definition input_payload :: "(string \<Rightarrow> string) \<Rightarrow> raw_message \<Rightarrow> input_data" where
  "input_payload foldKey m = fst (read_payload foldKey input_fields
     \<lparr>in_lease = no_fence, in_epoch = 0, in_frame = 0, in_command = '''', in_payload = ''''\<rparr> m)"

definition heartbeat_payload :: "(string \<Rightarrow> string) \<Rightarrow> raw_message \<Rightarrow> heartbeat_data" where
  "heartbeat_payload foldKey m = fst (read_payload foldKey heartbeat_fields \<lparr>hb_lease = no_fence, hb_extension = 0\<rparr> m)"

text \<open>A fact is the record of a request, and a fact under a key is the record of a request with this key.\<close>

definition records_request :: "(string \<Rightarrow> string) \<Rightarrow> (string \<Rightarrow> go_time option) \<Rightarrow> session_request \<Rightarrow> request_fact \<Rightarrow> bool" where
  "records_request foldKey parse r f \<longleftrightarrow>
     rf_key f = rq_key r \<and> rf_type f = rq_type r \<and> rf_id f = rq_id r \<and> parse (rq_timestamp r) = Some (rf_at f)
     \<and> (rq_type r = ''input'' \<longrightarrow> rf_frame f = \<lparr>fr_epoch = in_epoch (input_payload foldKey (rq_data r)),
          fr_sequence = in_frame (input_payload foldKey (rq_data r))\<rparr>)
     \<and> (rq_type r = ''heartbeat'' \<longrightarrow> rf_extension f = hb_extension (heartbeat_payload foldKey (rq_data r)) \<and> 0 < rf_extension f)"

lemma request_case_records:
  assumes "request_case X i r retry moment (bare_fact r moment) s = ([], f, s')" "cx_parse X (rq_timestamp r) = Some moment"
  shows "records_request (cx_fold X) (cx_parse X) r f"
proof -
  have "rq_type r = ''input'' \<Longrightarrow> rf_frame f = \<lparr>fr_epoch = in_epoch (input_payload (cx_fold X) (rq_data r)),
      fr_sequence = in_frame (input_payload (cx_fold X) (rq_data r))\<rparr>"
    using assms(1) by (auto simp: request_case_def request_defs Let_def input_payload_def split: prod.splits)
  moreover have "rq_type r = ''heartbeat'' \<Longrightarrow> rf_extension f = hb_extension (heartbeat_payload (cx_fold X) (rq_data r)) \<and> 0 < rf_extension f"
    using assms(1) by (auto simp: request_case_def request_defs Let_def heartbeat_payload_def split: prod.splits)
  ultimately show ?thesis
    using request_case_keeps [OF assms(1)] assms(2) by (auto simp: records_request_def bare_fact_def)
qed

lemma records_request_binding [simp]: "records_request foldKey parse r (f\<lparr>rf_binding := b\<rparr>) = records_request foldKey parse r f"
  by (simp add: records_request_def)

lemma accepted_facts:
  assumes "ValidateJSON foldKey parse (Some d) A profile now = None" "rs_byKey (all_requests foldKey parse d A) key = Some f"
  obtains k where "k < length (sd_requests d)" "rq_key (sd_requests d ! k) = key" "records_request foldKey parse (sd_requests d ! k) f"
proof -
  let ?X = "context_of foldKey parse d"
  have "\<forall>key f. rs_byKey (requests_upto foldKey parse d A n) key = Some f
      \<longrightarrow> (\<exists>k<n. rq_key (sd_requests d ! k) = key \<and> records_request foldKey parse (sd_requests d ! k) f)" if "n \<le> length (sd_requests d)" for n
    unfolding requests_upto_def
  proof (rule accepted_requests_invariant [OF assms(1) _ _ that, where P = "\<lambda>n s. \<forall>key f. rs_byKey s key = Some f
      \<longrightarrow> (\<exists>k<n. rq_key (sd_requests d ! k) = key \<and> records_request foldKey parse (sd_requests d ! k) f)"])
    fix n r s moment g s1
    assume r: "r = sd_requests d ! n" and old: "\<forall>key f. rs_byKey s key = Some f
        \<longrightarrow> (\<exists>k<n. rq_key (sd_requests d ! k) = key \<and> records_request foldKey parse (sd_requests d ! k) f)"
      and time: "cx_parse ?X (rq_timestamp r) = Some moment"
      and step: "request_case ?X (int n) r (is_retry r s) moment (bare_fact r moment) (request_seen r moment s) = ([], g, s1)"
    have recorded: "records_request foldKey parse r g" using request_case_records [OF step time] by simp
    have "rs_byKey s1 = rs_byKey s" using request_case_keeps [OF step] by (simp add: request_seen_def)
    then show "\<forall>key f. rs_byKey (request_done r (if rq_type r \<noteq> ''reconnect'' then g\<lparr>rf_binding := rs_binding s1\<rparr> else g)
          (s1\<lparr>rs_errors := []\<rparr>)) key = Some f
        \<longrightarrow> (\<exists>k<Suc n. rq_key (sd_requests d ! k) = key \<and> records_request foldKey parse (sd_requests d ! k) f)"
      using recorded old r by (auto simp: request_done_def less_Suc_eq split: if_splits)
  qed (simp add: request_start_def)
  then show thesis using assms(2) that unfolding all_requests_def by blast
qed

text \<open>The state an accepted event is met in, and what the event passed.\<close>

lemma accepted_event:
  assumes "ValidateJSON foldKey parse (Some d) A profile now = None" "n < length (sd_events d)"
  obtains moment s1 where "parse (ev_timestamp (sd_events d ! n)) = Some moment" "ev_sequence (sd_events d ! n) = int n + 1"
    "ev_id (sd_events d ! n) \<notin> set (es_ids (events_upto foldKey parse d A n))"
    "ev_generation (sd_events d ! n) = ls_generation (sd_lease d)" "ev_fence (sd_events d ! n) = ls_fence (sd_lease d)"
    "es_phase (events_upto foldKey parse d A n) \<noteq> ReleasedSession"
    "IsZero moment \<or> IsZero (es_last (events_upto foldKey parse d A n)) \<or> \<not> Before moment (es_last (events_upto foldKey parse d A n))"
    "lifetime_errors (event_context_of foldKey parse d A) (sd_events d ! n) moment (events_upto foldKey parse d A n) = []"
    "event_case (event_context_of foldKey parse d A) (int n) (sd_events d ! n) moment
       (event_seen (sd_events d ! n) moment (events_upto foldKey parse d A n)) = ([], s1)"
    "events_upto foldKey parse d A (Suc n) = s1\<lparr>es_errors := []\<rparr>"
proof -
  let ?E = "event_context_of foldKey parse d A" and ?e = "sd_events d ! n" and ?s = "events_upto foldKey parse d A n"
  have step: "events_upto foldKey parse d A (Suc n) = validate_event ?E (int n) ?e ?s"
    using assms(2) by (simp add: events_upto_def take_Suc_conv_app_nth validate_events_append)
  have "sd_events d = take (Suc n) (sd_events d) @ drop (Suc n) (sd_events d)" by simp
  then have "es_errors (events_upto foldKey parse d A (Suc n)) = []"
    using accepted_parts(4) [OF assms(1)] validate_events_errors unfolding all_events_def events_upto_def
    by (metis take_all_iff order_refl validate_events_append)
  then have "es_errors (validate_event ?E (int n) ?e ?s) = []" using step by simp
  then show thesis by (rule validate_event_ok) (rule that, simp_all add: step)
qed


lemma accepted_request:
  assumes "ValidateJSON foldKey parse (Some d) A profile now = None" "n < length (sd_requests d)"
  obtains moment f s1 where "parse (rq_timestamp (sd_requests d ! n)) = Some moment" "rq_sequence (sd_requests d ! n) = int n + 1"
    "rq_id (sd_requests d ! n) \<notin> set (rs_ids (requests_upto foldKey parse d A n))"
    "rq_tenant (sd_requests d ! n) = ac_tenant A" "rq_principal (sd_requests d ! n) = ac_principal A"
    "rs_identities (requests_upto foldKey parse d A n) (rq_key (sd_requests d ! n)) = None
      \<or> is_retry (sd_requests d ! n) (requests_upto foldKey parse d A n)"
    "request_case (context_of foldKey parse d) (int n) (sd_requests d ! n) (is_retry (sd_requests d ! n) (requests_upto foldKey parse d A n))
       moment (bare_fact (sd_requests d ! n) moment) (request_seen (sd_requests d ! n) moment (requests_upto foldKey parse d A n)) = ([], f, s1)"
    "requests_upto foldKey parse d A (Suc n) = request_done (sd_requests d ! n)
       (if rq_type (sd_requests d ! n) \<noteq> ''reconnect'' then f\<lparr>rf_binding := rs_binding s1\<rparr> else f) (s1\<lparr>rs_errors := []\<rparr>)"
proof -
  let ?X = "context_of foldKey parse d" and ?r = "sd_requests d ! n" and ?s = "requests_upto foldKey parse d A n"
  have step: "requests_upto foldKey parse d A (Suc n) = validate_request ?X A (int n) ?r ?s"
    using assms(2) by (simp add: requests_upto_def take_Suc_conv_app_nth validate_requests_append)
  have "sd_requests d = take (Suc n) (sd_requests d) @ drop (Suc n) (sd_requests d)" by simp
  then have "rs_errors (requests_upto foldKey parse d A (Suc n)) = []"
    using accepted_parts(1) [OF assms(1)] validate_requests_errors unfolding all_requests_def requests_upto_def
    by (metis take_all_iff order_refl validate_requests_append)
  then have "rs_errors (validate_request ?X A (int n) ?r ?s) = []" using step by simp
  then show thesis by (rule validate_request_ok) (rule that, simp_all add: step)
qed

text \<open>Whether a request repeats the key of an earlier one.\<close>

definition repeats :: "session_document \<Rightarrow> nat \<Rightarrow> bool" where
  "repeats d n \<longleftrightarrow> (\<exists>m<n. rq_key (sd_requests d ! m) = rq_key (sd_requests d ! n))"

fun request_run :: "session_phase \<Rightarrow> (string \<times> bool) list \<Rightarrow> session_phase \<Rightarrow> bool" where
  "request_run p [] q \<longleftrightarrow> p = q"
| "request_run p (k # ks) q \<longleftrightarrow> (\<exists>r. request_lifecycle p k r \<and> request_run r ks q)"

lemma request_run_append: "request_run p (ks @ ls) q \<longleftrightarrow> (\<exists>r. request_run p ks r \<and> request_run r ls q)"
  by (induction ks arbitrary: p) auto

lemma requests_upto_start [simp]:
  "rs_identities (requests_upto foldKey parse d A 0) = Map.empty" "rs_phase (requests_upto foldKey parse d A 0) = NewSession"
  "rs_ids (requests_upto foldKey parse d A 0) = []"
  by (simp_all add: requests_upto_def request_start_def)

lemma events_upto_start [simp]:
  "es_ids (events_upto foldKey parse d A 0) = []" "es_consumed (events_upto foldKey parse d A 0) = []"
  "es_phase (events_upto foldKey parse d A 0) = NewSession" "es_frames (events_upto foldKey parse d A 0) = []"
  by (simp_all add: events_upto_def event_start_def)

lemma accepted_identity_map:
  assumes "ValidateJSON foldKey parse (Some d) A profile now = None" "n \<le> length (sd_requests d)"
  shows "(rs_identities (requests_upto foldKey parse d A n) key = None \<longleftrightarrow> (\<forall>m<n. rq_key (sd_requests d ! m) \<noteq> key))
    \<and> (\<forall>m<n. rq_key (sd_requests d ! m) = key
        \<longrightarrow> rs_identities (requests_upto foldKey parse d A n) key = Some (request_identity (sd_requests d ! m)))"
  using assms(2)
proof (induction n)
  case (Suc n)
  then have n: "n < length (sd_requests d)" by simp
  show ?case
  proof (rule accepted_request [OF assms(1) n])
    fix moment f s1
    assume fresh: "rs_identities (requests_upto foldKey parse d A n) (rq_key (sd_requests d ! n)) = None
        \<or> is_retry (sd_requests d ! n) (requests_upto foldKey parse d A n)"
      and step: "request_case (context_of foldKey parse d) (int n) (sd_requests d ! n) (is_retry (sd_requests d ! n) (requests_upto foldKey parse d A n))
         moment (bare_fact (sd_requests d ! n) moment) (request_seen (sd_requests d ! n) moment (requests_upto foldKey parse d A n)) = ([], f, s1)"
      and after: "requests_upto foldKey parse d A (Suc n) = request_done (sd_requests d ! n)
         (if rq_type (sd_requests d ! n) \<noteq> ''reconnect'' then f\<lparr>rf_binding := rs_binding s1\<rparr> else f) (s1\<lparr>rs_errors := []\<rparr>)"
    have "rs_identities (requests_upto foldKey parse d A (Suc n))
        = (rs_identities (requests_upto foldKey parse d A n))(rq_key (sd_requests d ! n) \<mapsto> request_identity (sd_requests d ! n))"
      using request_case_keeps(3) [OF step] by (simp add: after request_done_def request_seen_def)
    then show ?thesis using Suc.IH fresh n by (auto simp: less_Suc_eq is_retry_def)
  qed
qed simp

lemma accepted_retry:
  assumes "ValidateJSON foldKey parse (Some d) A profile now = None" "n < length (sd_requests d)"
  shows "is_retry (sd_requests d ! n) (requests_upto foldKey parse d A n) = repeats d n"
proof (rule accepted_request [OF assms])
  assume fresh: "rs_identities (requests_upto foldKey parse d A n) (rq_key (sd_requests d ! n)) = None
    \<or> is_retry (sd_requests d ! n) (requests_upto foldKey parse d A n)"
  show ?thesis
    using fresh accepted_identity_map [OF assms(1), of n "rq_key (sd_requests d ! n)"] assms(2) by (auto simp: is_retry_def repeats_def)
qed

lemma accepted_request_lifecycle:
  assumes "ValidateJSON foldKey parse (Some d) A profile now = None" "n \<le> length (sd_requests d)"
  shows "request_run NewSession (map (\<lambda>k. (rq_type (sd_requests d ! k), repeats d k)) [0..<n]) (rs_phase (requests_upto foldKey parse d A n))"
  using assms(2)
proof (induction n)
  case (Suc n)
  then have n: "n < length (sd_requests d)" by simp
  show ?case
  proof (rule accepted_request [OF assms(1) n])
    fix moment f s1
    assume step: "request_case (context_of foldKey parse d) (int n) (sd_requests d ! n) (is_retry (sd_requests d ! n) (requests_upto foldKey parse d A n))
         moment (bare_fact (sd_requests d ! n) moment) (request_seen (sd_requests d ! n) moment (requests_upto foldKey parse d A n)) = ([], f, s1)"
      and after: "requests_upto foldKey parse d A (Suc n) = request_done (sd_requests d ! n)
         (if rq_type (sd_requests d ! n) \<noteq> ''reconnect'' then f\<lparr>rf_binding := rs_binding s1\<rparr> else f) (s1\<lparr>rs_errors := []\<rparr>)"
    have "request_lifecycle (rs_phase (requests_upto foldKey parse d A n)) (rq_type (sd_requests d ! n), repeats d n)
        (rs_phase (requests_upto foldKey parse d A (Suc n)))"
      using request_case_ok(1) [OF step] by (simp add: after request_done_def request_seen_def accepted_retry [OF assms(1) n])
    then show ?thesis using Suc n by (auto simp: request_run_append)
  qed
qed simp

lemma accepted_event_lifecycle:
  assumes "ValidateJSON foldKey parse (Some d) A profile now = None"
  shows "lifecycle_run NewSession (map ev_type (sd_events d)) (es_phase (all_events foldKey parse d A))"
  using events_lifecycle [OF accepted_parts(4) [OF assms, unfolded all_events_def events_upto_def]]
  by (simp add: all_events_def events_upto_def event_start_def)


section \<open>A sample transcript\<close>

definition sample_fence :: "(string \<times> json) list" where
  "sample_fence = [(''lease_id'', JString ''l''), (''generation'', JInt 1), (''fencing_token_sha256'', JString ''f'')]"

definition sample_request :: "int \<Rightarrow> string \<Rightarrow> string \<Rightarrow> string \<Rightarrow> string \<Rightarrow> (string \<times> json) list \<Rightarrow> session_request" where
  "sample_request i ident kind moment key entries = \<lparr>rq_sequence = i, rq_id = ident, rq_type = kind, rq_timestamp = moment, rq_key = key,
     rq_tenant = ''t'', rq_principal = ''p'', rq_channel = ''c'', rq_data = \<lparr>rm_text = key, rm_value = JObject entries\<rparr>\<rparr>"

definition sample_event :: "int \<Rightarrow> string \<Rightarrow> string \<Rightarrow> string \<Rightarrow> (string \<times> json) list \<Rightarrow> session_event" where
  "sample_event i ident kind moment entries = \<lparr>ev_sequence = i, ev_id = ident, ev_type = kind, ev_timestamp = moment,
     ev_generation = 1, ev_fence = ''f'', ev_data = \<lparr>rm_text = ident, rm_value = JObject entries\<rparr>\<rparr>"

text \<open>A session that shows a frame, takes an input, renews its lease by the extension and ends.\<close>

definition sample_session :: "int \<Rightarrow> session_document" where
  "sample_session extension = \<lparr>sd_schema = 1, sd_contract = ''v1'', sd_session = ''s'',
     sd_binding = \<lparr>sb_tenant = ''t'', sb_principal = ''p'', sb_profile = ''local-core-v1'', sb_channel = ''c'', sb_nonce = ''n'',
       sb_issued = ''0'', sb_expires = ''9''\<rparr>,
     sd_lease = \<lparr>ls_id = ''l'', ls_resource = ''r'', ls_tenant = ''t'', ls_owner = ''p'', ls_generation = 1, ls_fence = ''f'',
       ls_releaseKey = ''z'', ls_acquired = ''0'', ls_expires = ''8'', ls_heartbeat = 1000\<rparr>,
     sd_capabilities = [''tap''],
     sd_requests = [
       sample_request 1 ''q1'' ''acquire'' ''1'' ''a'' [(''resource_selector'', JString ''r''), (''requested_capabilities'', JArray [JString ''tap''])],
       sample_request 2 ''q2'' ''input'' ''3'' ''b'' (sample_fence @ [(''based_on_stream_epoch'', JInt 1), (''based_on_frame_sequence'', JInt 1),
         (''command'', JString ''tap''), (''payload_sha256'', JString ''x'')]),
       sample_request 3 ''q3'' ''heartbeat'' ''5'' ''d'' (sample_fence @ [(''requested_extension_ms'', JInt extension)]),
       sample_request 4 ''q4'' ''release'' ''6'' ''z'' sample_fence],
     sd_events = [
       sample_event 1 ''e1'' ''acquired'' ''1'' [(''lease_id'', JString ''l''), (''resource_id'', JString ''r''), (''tenant_id'', JString ''t''),
         (''owner_principal_id'', JString ''p''), (''generation'', JInt 1)],
       sample_event 2 ''e2'' ''frame'' ''2'' [(''stream_epoch'', JInt 1), (''frame_sequence'', JInt 1)],
       sample_event 3 ''e3'' ''input_ack'' ''4'' [(''idempotency_key'', JString ''b''), (''based_on_stream_epoch'', JInt 1),
         (''based_on_frame_sequence'', JInt 1)],
       sample_event 4 ''e4'' ''heartbeat'' ''5'' [(''request_id'', JString ''q3''), (''idempotency_key'', JString ''d''),
         (''lease_expires_at'', JString ''renewed''), (''generation'', JInt 1)],
       sample_event 5 ''e5'' ''released'' ''6'' [(''release_idempotency_key'', JString ''z''), (''outcome'', JString ''completed''),
         (''generation'', JInt 1)]]\<rparr>"

text \<open>Its clock: the digits are seconds, and the renewed expiry is a parameter.\<close>

definition seconds_after :: "int \<Rightarrow> go_time" where
  "seconds_after n = \<lparr>tm_at = (100 + n) * 1000000000, tm_location = None\<rparr>"

definition sample_clock :: "go_time \<Rightarrow> string \<Rightarrow> go_time option" where
  "sample_clock renewed = map_of ((''renewed'', renewed) # map (\<lambda>(name, n). (name, seconds_after n))
     [(''0'', 0), (''1'', 1), (''2'', 2), (''3'', 3), (''4'', 4), (''5'', 5), (''6'', 6), (''8'', 80), (''9'', 900)])"

definition sample_context :: auth_context where
  "sample_context = \<lparr>ac_tenant = ''t'', ac_principal = ''p'', ac_profile = ''local-core-v1'', ac_channel = ''c'', ac_nonce = ''n'',
     ac_expiry = seconds_after 900\<rparr>"

lemma sample_accepted:
  "ValidateJSON id (sample_clock (seconds_after 81)) (Some (sample_session 1000)) sample_context LocalCoreV1 zero_time = None"
  by code_simp


section \<open>The properties of an accepted transcript\<close>

lemma accepted_released_flags:
  assumes "ValidateJSON foldKey parse (Some d) A profile now = None"
  shows "n \<le> length (sd_events d) \<Longrightarrow>
      es_released (events_upto foldKey parse d A n) \<longleftrightarrow> es_phase (events_upto foldKey parse d A n) = ReleasedSession"
proof (induction n)
  case (Suc n)
  then have n: "n < length (sd_events d)" by simp
  show ?case
    by (rule accepted_event [OF assms n])
      (use Suc in \<open>auto simp: event_case_def event_defs Let_def event_seen_def split: prod.splits if_splits\<close>)
qed (simp add: events_upto_def event_start_def)

lemma accepted_request_released:
  assumes "ValidateJSON foldKey parse (Some d) A profile now = None"
  shows "n \<le> length (sd_requests d) \<Longrightarrow> rs_phase (requests_upto foldKey parse d A n) = ReleasedSession
    \<longrightarrow> rs_released (requests_upto foldKey parse d A n)"
proof (induction n)
  case (Suc n)
  then have n: "n < length (sd_requests d)" by simp
  show ?case
    by (rule accepted_request [OF assms n])
      (use Suc in \<open>auto simp: request_case_def request_defs Let_def request_seen_def request_done_def split: prod.splits if_splits\<close>)
qed (simp add: requests_upto_def request_start_def)

text \<open>C10: An accepted transcript refines the session lifecycle: its event types are one run of the event
  automaton that leaves the initial state, its request types, each with whether it repeats the key of an
  earlier request, are one run of the request automaton, the two agree on whether the session ended, and a
  session that ended has exactly one released event, its last.
\<close>

theorem ValidateJSON_refines_lifecycle:
  assumes "ValidateJSON foldKey parse (Some d) A profile now = None"
  shows "\<exists>p q. lifecycle_run NewSession (map ev_type (sd_events d)) p \<and> p \<noteq> NewSession
    \<and> request_run NewSession (map (\<lambda>k. (rq_type (sd_requests d ! k), repeats d k)) [0..<length (sd_requests d)]) q
    \<and> (p = ReleasedSession \<longleftrightarrow> q = ReleasedSession)
    \<and> count_list (map ev_type (sd_events d)) ''released'' = (if p = ReleasedSession then 1 else 0)
    \<and> (p = ReleasedSession \<longrightarrow> last (map ev_type (sd_events d)) = ''released'')"
proof -
  let ?p = "es_phase (all_events foldKey parse d A)" and ?q = "rs_phase (all_requests foldKey parse d A)"
  have run: "lifecycle_run NewSession (map ev_type (sd_events d)) ?p" by (rule accepted_event_lifecycle [OF assms])
  have "?p = ReleasedSession \<longleftrightarrow> ?q = ReleasedSession"
    using accepted_parts(3,6) [OF assms] accepted_released_flags [OF assms, of "length (sd_events d)"]
      accepted_request_released [OF assms, of "length (sd_requests d)"] by (auto simp: all_events_def all_requests_def)
  moreover have count: "count_list (map ev_type (sd_events d)) ''released'' = (if ?p = ReleasedSession then 1 else 0)"
    using lifecycle_to_released [OF run] by simp
  moreover have "?p = ReleasedSession \<longrightarrow> ''released'' \<in> set (map ev_type (sd_events d))"
    using count by (metis count_list_0_iff zero_neq_one)
  moreover have "''released'' \<in> set (map ev_type (sd_events d)) \<longrightarrow> last (map ev_type (sd_events d)) = ''released''"
    using lifecycle_to_released [OF run] by blast
  moreover have "request_run NewSession (map (\<lambda>k. (rq_type (sd_requests d ! k), repeats d k)) [0..<length (sd_requests d)]) ?q"
    using accepted_request_lifecycle [OF assms order_refl] unfolding all_requests_def .
  ultimately show ?thesis using run accepted_parts(5) [OF assms] by blast
qed

theorem ValidateJSON_refines_lifecycle_witness:
  "\<exists>p q. lifecycle_run NewSession [''acquired'', ''frame'', ''input_ack'', ''heartbeat'', ''released''] p
    \<and> request_run NewSession [(''acquire'', False), (''input'', False), (''heartbeat'', False), (''release'', False)] q
    \<and> (p = ReleasedSession) = (q = ReleasedSession)"
proof -
  have requests: "map (\<lambda>k. (rq_type (sd_requests (sample_session 1000) ! k), repeats (sample_session 1000) k)) [0..<length (sd_requests (sample_session 1000))]
      = [(''acquire'', False), (''input'', False), (''heartbeat'', False), (''release'', False)]" by code_simp
  have events: "map ev_type (sd_events (sample_session 1000)) = [''acquired'', ''frame'', ''input_ack'', ''heartbeat'', ''released'']" by code_simp
  show ?thesis using ValidateJSON_refines_lifecycle [OF sample_accepted] unfolding requests events by blast
qed

lemma accepted_ids:
  assumes "ValidateJSON foldKey parse (Some d) A profile now = None"
  shows "n \<le> length (sd_requests d) \<Longrightarrow> rs_ids (requests_upto foldKey parse d A n) = rev (map rq_id (take n (sd_requests d)))
      \<and> distinct (map rq_id (take n (sd_requests d)))"
proof (induction n)
  case (Suc n)
  then have n: "n < length (sd_requests d)" by simp
  show ?case
    by (rule accepted_request [OF assms n], drule request_case_keeps(2))
      (use Suc n in \<open>simp add: request_done_def request_seen_def take_Suc_conv_app_nth\<close>)
qed simp

lemma accepted_event_ids:
  assumes "ValidateJSON foldKey parse (Some d) A profile now = None"
  shows "m \<le> length (sd_events d) \<Longrightarrow> es_ids (events_upto foldKey parse d A m) = rev (map ev_id (take m (sd_events d)))
      \<and> distinct (map ev_id (take m (sd_events d)))"
proof (induction m)
  case (Suc m)
  then have m: "m < length (sd_events d)" by simp
  show ?case
    by (rule accepted_event [OF assms m], drule event_case_keeps(2))
      (use Suc m in \<open>simp add: event_seen_def take_Suc_conv_app_nth\<close>)
qed simp

lemma accepted_same_key:
  assumes "ValidateJSON foldKey parse (Some d) A profile now = None" "k < m" "m < length (sd_requests d)"
    "rq_key (sd_requests d ! k) = rq_key (sd_requests d ! m)"
  shows "request_identity (sd_requests d ! k) = request_identity (sd_requests d ! m)"
proof (rule accepted_request [OF assms(1,3)])
  assume "rs_identities (requests_upto foldKey parse d A m) (rq_key (sd_requests d ! m)) = None
    \<or> is_retry (sd_requests d ! m) (requests_upto foldKey parse d A m)"
  then show ?thesis
    using accepted_identity_map [OF assms(1), of m "rq_key (sd_requests d ! m)"] assms(2-4) by (auto simp: is_retry_def)
qed

text \<open>C33: Identity and fencing in an accepted transcript: requests and events are numbered from one with
  distinct ids, a reused idempotency key names a request of the same type and data, every request carries
  the authenticated tenant and principal, every request but the acquire, which is the first, presents the
  fence of the lease, and every event carries its generation and its fencing token.
\<close>

theorem ValidateJSON_identities:
  assumes "ValidateJSON foldKey parse (Some d) A profile now = None"
  shows "map rq_sequence (sd_requests d) = map int [1..<Suc (length (sd_requests d))] \<and> distinct (map rq_id (sd_requests d))
    \<and> (\<forall>k m. k < m \<and> m < length (sd_requests d) \<and> rq_key (sd_requests d ! k) = rq_key (sd_requests d ! m)
        \<longrightarrow> request_identity (sd_requests d ! k) = request_identity (sd_requests d ! m))
    \<and> (\<forall>k < length (sd_requests d). rq_tenant (sd_requests d ! k) = ac_tenant A \<and> rq_principal (sd_requests d ! k) = ac_principal A
        \<and> (rq_type (sd_requests d ! k) = ''acquire'' \<longrightarrow> k = 0)
        \<and> (rq_type (sd_requests d ! k) \<noteq> ''acquire''
            \<longrightarrow> request_fence (context_of foldKey parse d) (sd_requests d ! k) = Some (lease_fence_of (sd_lease d))))
    \<and> map ev_sequence (sd_events d) = map int [1..<Suc (length (sd_events d))] \<and> distinct (map ev_id (sd_events d))
    \<and> (\<forall>e \<in> set (sd_events d). ev_generation e = ls_generation (sd_lease d) \<and> ev_fence e = ls_fence (sd_lease d))"
proof -
  have requests: "rq_sequence (sd_requests d ! k) = int k + 1 \<and> rq_tenant (sd_requests d ! k) = ac_tenant A
      \<and> rq_principal (sd_requests d ! k) = ac_principal A \<and> (rq_type (sd_requests d ! k) = ''acquire'' \<longrightarrow> k = 0)
      \<and> (rq_type (sd_requests d ! k) \<noteq> ''acquire''
          \<longrightarrow> request_fence (context_of foldKey parse d) (sd_requests d ! k) = Some (lease_fence_of (sd_lease d)))"
    if k: "k < length (sd_requests d)" for k
    by (rule accepted_request [OF assms k]) (auto dest: request_case_ok(2,3))
  have events: "ev_sequence (sd_events d ! k) = int k + 1 \<and> ev_generation (sd_events d ! k) = ls_generation (sd_lease d)
      \<and> ev_fence (sd_events d ! k) = ls_fence (sd_lease d)" if k: "k < length (sd_events d)" for k
    by (rule accepted_event [OF assms k]) simp
  have "map rq_sequence (sd_requests d) = map int [1..<Suc (length (sd_requests d))]"
    by (rule nth_equalityI) (simp_all add: conjunct1 [OF requests] del: upt_Suc)
  moreover have "map ev_sequence (sd_events d) = map int [1..<Suc (length (sd_events d))]"
    by (rule nth_equalityI) (simp_all add: conjunct1 [OF events] del: upt_Suc)
  moreover have "distinct (map rq_id (sd_requests d))" "distinct (map ev_id (sd_events d))"
    using accepted_ids [OF assms, of "length (sd_requests d)"] accepted_event_ids [OF assms, of "length (sd_events d)"] by simp_all
  moreover have "\<forall>k m. k < m \<and> m < length (sd_requests d) \<and> rq_key (sd_requests d ! k) = rq_key (sd_requests d ! m)
      \<longrightarrow> request_identity (sd_requests d ! k) = request_identity (sd_requests d ! m)"
    using accepted_same_key [OF assms] by blast
  moreover have "\<forall>e \<in> set (sd_events d). ev_generation e = ls_generation (sd_lease d) \<and> ev_fence e = ls_fence (sd_lease d)"
    using events by (metis in_set_conv_nth)
  ultimately show ?thesis using requests by (intro conjI) simp_all
qed

theorem ValidateJSON_identities_witness:
  "request_fence (context_of id (sample_clock (seconds_after 81)) (sample_session 1000)) (sd_requests (sample_session 1000) ! 2)
    = Some (lease_fence_of (sd_lease (sample_session 1000)))"
proof -
  have "2 < length (sd_requests (sample_session 1000))" "rq_type (sd_requests (sample_session 1000) ! 2) \<noteq> ''acquire''" by code_simp+
  then show ?thesis
    using ValidateJSON_identities [OF sample_accepted, THEN conjunct2, THEN conjunct2, THEN conjunct2, THEN conjunct1, rule_format, of 2]
    by simp
qed

end
