(* ===== verification/Session_Lease.thy ===== *)
theory Session_Lease
  imports Session_Facts
begin

text \<open>
  The lease in an accepted transcript: it never outlives the authenticated binding, every request key is
  consumed once, an acknowledgement names a frame that was shown before its request, and a heartbeat
  renews the lease by the extension its request asked for. Two flaws of the heartbeat check are exhibited.
\<close>

section \<open>Binding and keys\<close>



section \<open>Acknowledgements\<close>

definition frame_payload :: "(string \<Rightarrow> string) \<Rightarrow> raw_message \<Rightarrow> frame_data" where
  "frame_payload foldKey m = fst (read_payload foldKey frame_fields \<lparr>fd_epoch = 0, fd_frame = 0\<rparr> m)"

definition ack_payload :: "(string \<Rightarrow> string) \<Rightarrow> raw_message \<Rightarrow> input_ack_data" where
  "ack_payload foldKey m = fst (read_payload foldKey input_ack_fields \<lparr>ia_key = '''', ia_epoch = 0, ia_frame = 0\<rparr> m)"

definition shows_frame :: "(string \<Rightarrow> string) \<Rightarrow> (string \<Rightarrow> go_time option) \<Rightarrow> session_event \<Rightarrow> frame_ref \<Rightarrow> go_time \<Rightarrow> bool" where
  "shows_frame foldKey parse e ref t \<longleftrightarrow> ev_type e = ''frame'' \<and> parse (ev_timestamp e) = Some t
     \<and> ref = \<lparr>fr_epoch = fd_epoch (frame_payload foldKey (ev_data e)), fr_sequence = fd_frame (frame_payload foldKey (ev_data e))\<rparr>"

lemma event_case_frames:
  assumes "event_case E i e moment s = ([], s')"
  shows "es_frames s' = es_frames s \<or> ev_type e = ''frame'' \<and> es_frames s' =
    (\<lparr>fr_epoch = fd_epoch (frame_payload (cx_fold (ec_base E)) (ev_data e)),
      fr_sequence = fd_frame (frame_payload (cx_fold (ec_base E)) (ev_data e))\<rparr>, moment) # es_frames s"
  using assms by (auto simp: event_case_def event_defs Let_def frame_payload_def split: prod.splits if_splits)

lemma accepted_frames:
  assumes "ValidateJSON foldKey parse (Some d) A profile now = None"
  shows "n \<le> length (sd_events d) \<Longrightarrow> map_of (es_frames (events_upto foldKey parse d A n)) ref = Some t
    \<Longrightarrow> \<exists>m<n. shows_frame foldKey parse (sd_events d ! m) ref t"
proof (induction n arbitrary: ref t)
  case (Suc n)
  then have n: "n < length (sd_events d)" by simp
  show ?case
  proof (rule accepted_event [OF assms n])
    fix moment s1
    assume time: "parse (ev_timestamp (sd_events d ! n)) = Some moment"
      and step: "event_case (event_context_of foldKey parse d A) (int n) (sd_events d ! n) moment
         (event_seen (sd_events d ! n) moment (events_upto foldKey parse d A n)) = ([], s1)"
      and after: "events_upto foldKey parse d A (Suc n) = s1\<lparr>es_errors := []\<rparr>"
    have "map_of (es_frames (events_upto foldKey parse d A n)) ref = Some t \<or> shows_frame foldKey parse (sd_events d ! n) ref t"
      using event_case_frames [OF step] Suc.prems(2) time after by (auto simp: event_seen_def shows_frame_def split: if_splits)
    then show ?thesis using Suc.IH n by (meson less_SucI less_imp_le lessI)
  qed
qed simp

text \<open>C34: Every input acknowledgement of an accepted transcript answers an input request with its key, and both
  name the same frame, which an earlier frame event showed; the frame was shown no later than the request
  was made, and the request was made no later than it was acknowledged (where the timestamps are not Go's
  zero time, which the checker skips).
\<close>

theorem input_ack_names_request_and_frame:
  assumes "ValidateJSON foldKey parse (Some d) A profile now = None" "n < length (sd_events d)" "ev_type (sd_events d ! n) = ''input_ack''"
  shows "\<exists>k < length (sd_requests d). \<exists>m < n. \<exists>shown asked answered.
      rq_type (sd_requests d ! k) = ''input'' \<and> rq_key (sd_requests d ! k) = ia_key (ack_payload foldKey (ev_data (sd_events d ! n)))
    \<and> in_epoch (input_payload foldKey (rq_data (sd_requests d ! k))) = ia_epoch (ack_payload foldKey (ev_data (sd_events d ! n)))
    \<and> in_frame (input_payload foldKey (rq_data (sd_requests d ! k))) = ia_frame (ack_payload foldKey (ev_data (sd_events d ! n)))
    \<and> shows_frame foldKey parse (sd_events d ! m) \<lparr>fr_epoch = ia_epoch (ack_payload foldKey (ev_data (sd_events d ! n))),
        fr_sequence = ia_frame (ack_payload foldKey (ev_data (sd_events d ! n)))\<rparr> shown
    \<and> parse (rq_timestamp (sd_requests d ! k)) = Some asked \<and> parse (ev_timestamp (sd_events d ! n)) = Some answered
    \<and> (IsZero asked \<or> tm_at shown \<le> tm_at asked) \<and> (IsZero answered \<or> tm_at asked \<le> tm_at answered)"
proof (rule accepted_event [OF assms(1,2)])
  let ?p = "ack_payload foldKey (ev_data (sd_events d ! n))" and ?s = "events_upto foldKey parse d A n"
  let ?ref = "\<lparr>fr_epoch = ia_epoch ?p, fr_sequence = ia_frame ?p\<rparr>"
  fix answered s1
  assume time: "parse (ev_timestamp (sd_events d ! n)) = Some answered"
    and step: "event_case (event_context_of foldKey parse d A) (int n) (sd_events d ! n) answered
       (event_seen (sd_events d ! n) answered ?s) = ([], s1)"
  obtain f shown where f: "rs_byKey (all_requests foldKey parse d A) (ia_key ?p) = Some f" "rf_type f = ''input''" "rf_frame f = ?ref"
    and shown: "map_of (es_frames ?s) ?ref = Some shown"
    and order: "IsZero (rf_at f) \<or> tm_at shown \<le> tm_at (rf_at f)" "IsZero answered \<or> tm_at (rf_at f) \<le> tm_at answered"
    using step assms(3)
    by (auto simp: event_case_def input_ack_event_def event_seen_def ack_payload_def Let_def request_at_def precedes_request_def Before_def
        split: prod.splits option.splits)
  obtain m where m: "m < n" "shows_frame foldKey parse (sd_events d ! m) ?ref shown"
    using accepted_frames [OF assms(1) _ shown] assms(2) by auto
  obtain k where k: "k < length (sd_requests d)" "rq_key (sd_requests d ! k) = ia_key ?p"
    "records_request foldKey parse (sd_requests d ! k) f" by (rule accepted_facts [OF assms(1) f(1)])
  have "rq_type (sd_requests d ! k) = ''input''" "in_epoch (input_payload foldKey (rq_data (sd_requests d ! k))) = ia_epoch ?p"
    "in_frame (input_payload foldKey (rq_data (sd_requests d ! k))) = ia_frame ?p" "parse (rq_timestamp (sd_requests d ! k)) = Some (rf_at f)"
    using k(3) f(2,3) by (auto simp: records_request_def)
  then show ?thesis using k(1,2) m order time by blast
qed

theorem input_ack_names_request_and_frame_witness:
  "\<exists>k m shown. rq_type (sd_requests (sample_session 1000) ! k) = ''input'' \<and> m < 2
    \<and> shows_frame id (sample_clock (seconds_after 81)) (sd_events (sample_session 1000) ! m) \<lparr>fr_epoch = 1, fr_sequence = 1\<rparr> shown"
proof -
  have "2 < length (sd_events (sample_session 1000))" "ev_type (sd_events (sample_session 1000) ! 2) = ''input_ack''"
    "ia_epoch (ack_payload id (ev_data (sd_events (sample_session 1000) ! 2))) = 1"
    "ia_frame (ack_payload id (ev_data (sd_events (sample_session 1000) ! 2))) = 1" by code_simp+
  then show ?thesis using input_ack_names_request_and_frame [OF sample_accepted, of 2] by auto
qed

section \<open>Renewals\<close>

definition renewal_payload :: "(string \<Rightarrow> string) \<Rightarrow> raw_message \<Rightarrow> renewal_data" where
  "renewal_payload foldKey m = fst (read_payload foldKey renewal_fields
     \<lparr>rn_request = '''', rn_key = '''', rn_expires = '''', rn_generation = 0\<rparr> m)"

lemma heartbeat_renews:
  assumes "heartbeat_event E i e moment s = ([], s')"
  defines "p \<equiv> renewal_payload (cx_fold (ec_base E)) (ev_data e)"
  defines "expected \<equiv> add_time (es_expiry s) (milliseconds (rf_extension (request_at E (rn_key p))))"
  shows "ec_byKey E (rn_key p) = Some (request_at E (rn_key p)) \<and> rf_type (request_at E (rn_key p)) = ''heartbeat''
    \<and> cx_parse (ec_base E) (rn_expires p) = Some expected \<and> (IsZero expected \<or> es_expiry s' = expected)"
  using assms(1) unfolding expected_def p_def
  by (auto simp: heartbeat_event_def renewal_payload_def Let_def request_at_def read_time_ok split: prod.splits option.splits if_splits)


lemma milliseconds_small: "0 < ms \<Longrightarrow> ms \<le> 9223372036854 \<Longrightarrow> milliseconds ms = ms * 1000000"
  by (simp add: milliseconds_def wrap_int64_def)

text \<open>A heartbeat of an accepted transcript renews the lease by exactly the extension its own request asked
  for, in nanoseconds, as long as the extension is within the 9223372036854 milliseconds a 64-bit duration
  holds: the extension is positive, the event writes the new expiry, and the expiry moves by the extension.
\<close>

theorem heartbeat_extends_by_request:
  assumes "ValidateJSON foldKey parse (Some d) A profile now = None" "n < length (sd_events d)" "ev_type (sd_events d ! n) = ''heartbeat''"
    and "0 \<le> tm_at (es_expiry (events_upto foldKey parse d A n))"
  shows "\<exists>k < length (sd_requests d). rq_type (sd_requests d ! k) = ''heartbeat''
    \<and> rq_key (sd_requests d ! k) = rn_key (renewal_payload foldKey (ev_data (sd_events d ! n)))
    \<and> 0 < hb_extension (heartbeat_payload foldKey (rq_data (sd_requests d ! k)))
    \<and> (hb_extension (heartbeat_payload foldKey (rq_data (sd_requests d ! k))) \<le> 9223372036854
        \<longrightarrow> parse (rn_expires (renewal_payload foldKey (ev_data (sd_events d ! n)))) = Some (es_expiry (events_upto foldKey parse d A (Suc n)))
          \<and> tm_at (es_expiry (events_upto foldKey parse d A (Suc n))) = tm_at (es_expiry (events_upto foldKey parse d A n))
              + hb_extension (heartbeat_payload foldKey (rq_data (sd_requests d ! k))) * 1000000)"
proof (rule accepted_event [OF assms(1,2)])
  let ?E = "event_context_of foldKey parse d A" and ?s = "events_upto foldKey parse d A n" and ?e = "sd_events d ! n"
  let ?p = "renewal_payload foldKey (ev_data ?e)"
  fix moment s1
  assume step: "event_case ?E (int n) ?e moment (event_seen ?e moment ?s) = ([], s1)"
    and after: "events_upto foldKey parse d A (Suc n) = s1\<lparr>es_errors := []\<rparr>"
  let ?f = "request_at ?E (rn_key ?p)"
  have "heartbeat_event ?E (int n) ?e moment (event_seen ?e moment ?s) = ([], s1)"
    using step assms(3) by (simp add: event_case_def)
  then have f: "rs_byKey (all_requests foldKey parse d A) (rn_key ?p) = Some ?f" "rf_type ?f = ''heartbeat''"
    and read: "parse (rn_expires ?p) = Some (add_time (es_expiry ?s) (milliseconds (rf_extension ?f)))"
    and moved: "IsZero (add_time (es_expiry ?s) (milliseconds (rf_extension ?f)))
      \<or> es_expiry (events_upto foldKey parse d A (Suc n)) = add_time (es_expiry ?s) (milliseconds (rf_extension ?f))"
    using heartbeat_renews by (fastforce simp: event_seen_def after)+
  obtain k where k: "k < length (sd_requests d)" "rq_key (sd_requests d ! k) = rn_key ?p"
    "records_request foldKey parse (sd_requests d ! k) ?f" by (rule accepted_facts [OF assms(1) f(1)])
  have request: "rq_type (sd_requests d ! k) = ''heartbeat''" "0 < rf_extension ?f"
    "rf_extension ?f = hb_extension (heartbeat_payload foldKey (rq_data (sd_requests d ! k)))"
    using k(3) f(2) by (auto simp: records_request_def)
  show ?thesis
    using k(1,2) request read moved assms(4)
    by (intro exI [of _ k]) (auto simp: milliseconds_small add_time_def IsZero_def)
qed

theorem heartbeat_extends_by_request_witness:
  "\<exists>k. rq_key (sd_requests (sample_session 1000) ! k) = ''d'' \<and> 0 < hb_extension (heartbeat_payload id (rq_data (sd_requests (sample_session 1000) ! k)))"
proof -
  have "3 < length (sd_events (sample_session 1000))" "ev_type (sd_events (sample_session 1000) ! 3) = ''heartbeat''"
    "0 \<le> tm_at (es_expiry (events_upto id (sample_clock (seconds_after 81)) (sample_session 1000) sample_context 3))"
    "rn_key (renewal_payload id (ev_data (sd_events (sample_session 1000) ! 3))) = ''d''" by code_simp+
  then show ?thesis using heartbeat_extends_by_request [OF sample_accepted, of 3] by metis
qed

text \<open>The check of a renewed expiry compares \<^verbatim>\<open>time.Time\<close> structs with \<^verbatim>\<open>!=\<close>, which also compares their
  locations: reading the same instant of the renewed expiry with an explicit location, as Go does for an
  RFC 3339 offset, turns an accepted transcript into a rejected one, although both clocks read every
  timestamp as the same instant.
\<close>

theorem equal_instant_rejected:
  "map_option tm_at \<circ> sample_clock (seconds_after 81) = map_option tm_at \<circ> sample_clock ((seconds_after 81)\<lparr>tm_location := Some 1\<rparr>)
    \<and> ValidateJSON id (sample_clock (seconds_after 81)) (Some (sample_session 1000)) sample_context LocalCoreV1 zero_time = None
    \<and> ValidateJSON id (sample_clock ((seconds_after 81)\<lparr>tm_location := Some 1\<rparr>)) (Some (sample_session 1000)) sample_context LocalCoreV1
        zero_time = Some [''heartbeat outside active lease or generation mismatch'']"
proof (intro conjI)
  show "map_option tm_at \<circ> sample_clock (seconds_after 81) = map_option tm_at \<circ> sample_clock ((seconds_after 81)\<lparr>tm_location := Some 1\<rparr>)"
    by (auto simp: sample_clock_def fun_eq_iff)
qed code_simp+


end
