(* ===== verification/Snapshot.thy ===== *)
theory Snapshot
  imports Handler_Base
begin

text \<open>
  The comparison of a command's raw arguments with its typed selector (\<^verbatim>\<open>internal/engine/selector_snapshot.go\<close>).
  Both sides are brought to one canonical map and compared with \<^verbatim>\<open>reflect.DeepEqual\<close>; maps are their entries in
  key order, which is the order the fields of the typed side are listed in.
\<close>

section \<open>The raw side\<close>

definition nested_fields :: "string list" where
  "nested_fields = [''below'', ''above'', ''leftOf'', ''rightOf'', ''containsChild'', ''childOf'']"

definition integer_fields :: "string list" where
  "integer_fields = [''width'', ''height'', ''tolerance'', ''repeat'', ''delay'', ''waitToSettleTimeoutMs'']"

text \<open>\<^verbatim>\<open>strings.Fields\<close>: the parts between runs of white space.\<close>

fun fields_fuel :: "nat \<Rightarrow> string \<Rightarrow> string \<Rightarrow> string list" where
  "fields_fuel 0 word s = (if word = '''' then [] else [rev word])"
| "fields_fuel (Suc n) word s =
     (case find (\<lambda>r. starts_with r s) space_runes of
        Some r \<Rightarrow> (if word = '''' then [] else [rev word]) @ fields_fuel n '''' (drop (length r) s)
      | None \<Rightarrow> (case s of [] \<Rightarrow> (if word = '''' then [] else [rev word]) | c # cs \<Rightarrow> fields_fuel n (c # word) cs))"

definition strings_Fields :: "string \<Rightarrow> string list" where
  "strings_Fields s = fields_fuel (Suc (length s)) '''' s"

definition canonicalRawTraits :: "dyn \<Rightarrow> dyn option" where
  "canonicalRawTraits v =
     (case v of
        DynString text \<Rightarrow> Some (DynList (Some (map DynString (strings_Fields text))))
      | DynList xs \<Rightarrow>
          if list_all (\<lambda>x. case x of DynString _ \<Rightarrow> True | _ \<Rightarrow> False) (elems xs) then Some (DynList (Some (elems xs))) else None
      | _ \<Rightarrow> None)"

definition canonicalSelectorInteger :: "dyn \<Rightarrow> int option" where
  "canonicalSelectorInteger v = (case v of DynInt i \<Rightarrow> Some i | _ \<Rightarrow> None)"

definition canonicalSelectorIndex :: "dyn \<Rightarrow> string option" where
  "canonicalSelectorIndex v =
     (case v of DynString text \<Rightarrow> Some text | _ \<Rightarrow> map_option dec_int (canonicalSelectorInteger v))"

fun all_some :: "'a option list \<Rightarrow> 'a list option" where
  "all_some [] = Some []"
| "all_some (x # xs) = (case x of None \<Rightarrow> None | Some a \<Rightarrow> map_option (\<lambda>as. a # as) (all_some xs))"

text \<open>\<open>nested\<close> is the canonical form of the value as a selector, \<open>items\<close> those of its items.\<close>

definition canonical_field :: "string \<Rightarrow> dyn \<Rightarrow> dyn option \<Rightarrow> dyn list option \<Rightarrow> dyn option" where
  "canonical_field name v nested items =
     (if name \<in> set nested_fields then nested
      else if name = ''containsDescendants'' then map_option (\<lambda>xs. DynList (Some xs)) items
      else if name = ''traits'' then canonicalRawTraits v
      else if name \<in> set integer_fields then map_option DynInt (canonicalSelectorInteger v)
      else if name = ''index'' then map_option DynString (canonicalSelectorIndex v)
      else Some v)"

fun canonicalRawSelector :: "dyn \<Rightarrow> dyn option"
  and canonicalRawItems :: "dyn \<Rightarrow> dyn list option" where
  "canonicalRawSelector (DynString text) = Some (DynMap (Some [(''text'', DynString text)]))"
| "canonicalRawSelector (DynMap m) =
     map_option (\<lambda>kvs. DynMap (Some kvs))
       (all_some (elems (map_option (map (\<lambda>(name, v). map_option (Pair name)
          (canonical_field name v (canonicalRawSelector v) (canonicalRawItems v)))) m)))"
| "canonicalRawSelector v = None"
| "canonicalRawItems (DynList xs) = all_some (elems (map_option (map canonicalRawSelector) xs))"
| "canonicalRawItems v = None"

section \<open>The typed side\<close>

definition trait_text :: "element_trait \<Rightarrow> string" where
  "trait_text t = (case t of TraitText \<Rightarrow> ''TEXT'' | TraitSquare \<Rightarrow> ''SQUARE'' | TraitLongText \<Rightarrow> ''LONG_TEXT'' | TraitOther s \<Rightarrow> s)"

definition present :: "(string \<times> dyn option) list \<Rightarrow> (string \<times> dyn) list" where
  "present = List.map_filter (\<lambda>(name, v). map_option (Pair name) v)"

definition canon_string :: "string option \<Rightarrow> dyn option" where "canon_string = map_option DynString"
definition canon_bool :: "bool option \<Rightarrow> dyn option" where "canon_bool = map_option DynBool"
definition canon_int :: "int option \<Rightarrow> dyn option" where "canon_int = map_option DynInt"

definition size_part :: "(size_selector \<Rightarrow> int option) \<Rightarrow> selector_fields \<Rightarrow> int option" where
  "size_part part f = Option.bind (sel_size f) part"

definition empty_size :: "selector_fields \<Rightarrow> bool" where
  "empty_size f = (case sel_size f of None \<Rightarrow> False | Some z \<Rightarrow> size_width z = None \<and> size_height z = None \<and> size_tolerance z = None)"

text \<open>An optional nested selector: absent, or its canonical form when it has one.\<close>

definition nested_ok :: "dyn option option \<Rightarrow> bool" where
  "nested_ok n = (n \<noteq> Some None)"

definition nested_value :: "dyn option option \<Rightarrow> dyn option" where
  "nested_value n = (case n of Some (Some v) \<Rightarrow> Some v | _ \<Rightarrow> None)"

primrec canonicalTypedSelector :: "element_selector \<Rightarrow> dyn option" where
  "canonicalTypedSelector (ElementSelector f lower upper leftOf rightOf child descs childOf src fsrc) =
     (let below = map_option canonicalTypedSelector lower; above = map_option canonicalTypedSelector upper;
          left = map_option canonicalTypedSelector leftOf; right = map_option canonicalTypedSelector rightOf;
          inner = map_option canonicalTypedSelector child; outer = map_option canonicalTypedSelector childOf;
          items = map_option all_some (map_option (map canonicalTypedSelector) descs)
      in if empty_size f \<or> \<not> list_all nested_ok [below, above, left, right, inner, outer] \<or> items = Some None then None
         else Some (DynMap (Some (present [
           (''above'', nested_value above), (''below'', nested_value below), (''checked'', canon_bool (sel_checked f)),
           (''childOf'', nested_value outer), (''containsChild'', nested_value inner),
           (''containsDescendants'', Option.bind items (map_option (\<lambda>ds. DynList (Some ds)))),
           (''css'', canon_string (sel_css f)), (''delay'', canon_int (sel_delay f)), (''enabled'', canon_bool (sel_enabled f)),
           (''end'', canon_string (sel_end f)), (''focused'', canon_bool (sel_focused f)),
           (''height'', canon_int (size_part size_height f)), (''id'', canon_string (sel_idRegex f)),
           (''index'', canon_string (sel_index f)), (''label'', canon_string (sel_label f)), (''leftOf'', nested_value left),
           (''optional'', canon_bool (sel_optional f)), (''point'', canon_string (sel_point f)), (''repeat'', canon_int (sel_repeat f)),
           (''retryTapIfNoChange'', canon_bool (sel_retryTapIfNoChange f)), (''rightOf'', nested_value right),
           (''selected'', canon_bool (sel_selected f)), (''start'', canon_string (sel_start f)),
           (''text'', canon_string (sel_textRegex f)), (''tolerance'', canon_int (size_part size_tolerance f)),
           (''traits'', map_option (\<lambda>ts. DynList (Some (map (\<lambda>t. DynString (trait_text t)) ts))) (sel_traits f)),
           (''waitToSettleTimeoutMs'', canon_int (sel_waitToSettleTimeoutMS f)),
           (''waitUntilVisible'', canon_bool (sel_waitUntilVisible f)), (''width'', canon_int (size_part size_width f))]))))"

definition selectorArgumentsMatch :: "dyn \<Rightarrow> element_selector \<Rightarrow> bool" where
  "selectorArgumentsMatch arguments s =
     (case canonicalRawSelector arguments of
        None \<Rightarrow> False
      | Some r \<Rightarrow> (case canonicalTypedSelector s of None \<Rightarrow> False | Some t \<Rightarrow> r = t))"

definition selectorCommandSnapshotMatches :: "command \<Rightarrow> bool" where
  "selectorCommandSnapshotMatches c =
     (case cmd_selector c of
        None \<Rightarrow> False
      | Some s \<Rightarrow> selectorArgumentsMatch (cmd_arguments c) s \<and> cmd_optional c = sel_optional (sel_fields s)
          \<and> cmd_label c = sel_label (sel_fields s))"

section \<open>A snapshot pins the selector down\<close>

lemma present_simps [simp]:
  "present [] = []" "present ((k, None) # kvs) = present kvs" "present ((k, Some v) # kvs) = (k, v) # present kvs"
  by (simp_all add: present_def List.map_filter_simps)

lemma present_keys: "fst ` set (present kvs) \<subseteq> fst ` set kvs"
proof (induction kvs)
  case (Cons kv kvs)
  then show ?case by (cases kv; cases "snd kv") auto
qed simp

lemma present_inj:
  "map fst kvs = map fst kvs' \<Longrightarrow> distinct (map fst kvs) \<Longrightarrow> present kvs = present kvs' \<Longrightarrow> kvs = kvs'"
proof (induction kvs arbitrary: kvs')
  case (Cons kv kvs)
  obtain k v where kv: "kv = (k, v)" by (rule prod.exhaust)
  obtain v' rest where kvs': "kvs' = (k, v') # rest" using Cons.prems(1) kv by (cases kvs') auto
  have "k \<notin> fst ` set kvs" "k \<notin> fst ` set rest" using Cons.prems(1,2) kv kvs' by (auto simp flip: set_map)
  then have absent: "k \<notin> fst ` set (present kvs)" "k \<notin> fst ` set (present rest)" using present_keys by blast+
  have "(k, a) \<notin> set (present kvs)" "(k, a) \<notin> set (present rest)" for a using absent by force+
  moreover have "present ((k, v) # kvs) = present ((k, v') # rest)" using Cons.prems(3) kv kvs' by simp
  ultimately have "v = v' \<and> present kvs = present rest"
    by (cases v; cases v'; simp) (metis list.set_intros(1))+
  then show ?case using Cons.IH [of rest] Cons.prems(1,2) kv kvs' by simp
qed simp

text \<open>The trait constants of the model are the only traits with their texts.\<close>

definition proper_trait :: "element_trait \<Rightarrow> bool" where
  "proper_trait t = (case t of TraitOther s \<Rightarrow> s \<notin> {''TEXT'', ''SQUARE'', ''LONG_TEXT''} | _ \<Rightarrow> True)"

primrec proper_selector :: "element_selector \<Rightarrow> bool" where
  "proper_selector (ElementSelector f lower upper leftOf rightOf child descs childOf src fsrc) \<longleftrightarrow>
     list_all proper_trait (elems (sel_traits f))
   \<and> list_all (\<lambda>p. p \<noteq> Some False) [map_option proper_selector lower, map_option proper_selector upper, map_option proper_selector leftOf,
        map_option proper_selector rightOf, map_option proper_selector child, map_option proper_selector childOf]
   \<and> list_all id (elems (map_option (map proper_selector) descs))"

lemma trait_text_inj: "proper_trait t \<Longrightarrow> proper_trait u \<Longrightarrow> trait_text t = trait_text u \<Longrightarrow> t = u"
  by (cases t; cases u) (auto simp: proper_trait_def trait_text_def)

lemma canon_inj [simp]: "canon_string x = canon_string y \<longleftrightarrow> x = y" "canon_bool a = canon_bool b \<longleftrightarrow> a = b" "canon_int i = canon_int j \<longleftrightarrow> i = j"
  unfolding canon_string_def canon_bool_def canon_int_def
  by ((cases x; cases y; simp), (cases a; cases b; simp), (cases i; cases j; simp))

lemma size_parts:
  assumes "\<not> empty_size f" "\<not> empty_size g" "size_part size_width f = size_part size_width g"
    "size_part size_height f = size_part size_height g" "size_part size_tolerance f = size_part size_tolerance g"
  shows "sel_size f = sel_size g"
proof (cases "sel_size f")
  case None
  then show ?thesis using assms by (cases "sel_size g") (simp_all add: empty_size_def size_part_def)
next
  case z: (Some z)
  show ?thesis
  proof (cases "sel_size g")
    case None
    then show ?thesis using assms z by (simp add: empty_size_def size_part_def)
  next
    case (Some z')
    then have "z = z'" using assms(3-5) z by (intro size_selector.equality) (simp_all add: size_part_def)
    then show ?thesis using z Some by simp
  qed
qed

lemma traits_inj:
  assumes "list_all proper_trait (elems ts)" "list_all proper_trait (elems us)"
    "map_option (\<lambda>ts. DynList (Some (map (\<lambda>t. DynString (trait_text t)) ts))) ts
      = map_option (\<lambda>ts. DynList (Some (map (\<lambda>t. DynString (trait_text t)) ts))) us"
  shows "ts = us"
proof (cases ts)
  case (Some xs)
  then obtain ys where ys: "us = Some ys" "map (\<lambda>t. DynString (trait_text t)) xs = map (\<lambda>t. DynString (trait_text t)) ys" using assms(3) by (cases us) auto
  have "inj_on (\<lambda>t. DynString (trait_text t)) (set xs \<union> set ys)"
    using assms(1,2) Some ys(1) by (auto simp: inj_on_def list_all_iff intro: trait_text_inj)
  then show ?thesis using Some ys map_inj_on by metis
qed (use assms(3) in \<open>cases us; simp\<close>)

lemma all_some_Some: "all_some xs = Some ys \<longleftrightarrow> xs = map Some ys"
  by (induction xs arbitrary: ys) (auto split: option.splits simp: Cons_eq_map_conv)


text \<open>The canonical entries, with the key of each.\<close>

definition typed_entries :: "selector_fields \<Rightarrow> (element_selector \<Rightarrow> dyn option) \<Rightarrow> element_selector \<Rightarrow> (string \<times> dyn option) list" where
  "typed_entries f canon s = [
     (''above'', Option.bind (sel_above s) canon), (''below'', Option.bind (sel_below s) canon), (''checked'', canon_bool (sel_checked f)),
     (''childOf'', Option.bind (sel_childOf s) canon), (''containsChild'', Option.bind (sel_containsChild s) canon),
     (''containsDescendants'', Option.bind (sel_containsDescendants s) (\<lambda>ds. map_option (\<lambda>ds. DynList (Some ds)) (all_some (map canon ds)))),
     (''css'', canon_string (sel_css f)), (''delay'', canon_int (sel_delay f)), (''enabled'', canon_bool (sel_enabled f)),
     (''end'', canon_string (sel_end f)), (''focused'', canon_bool (sel_focused f)),
     (''height'', canon_int (size_part size_height f)), (''id'', canon_string (sel_idRegex f)),
     (''index'', canon_string (sel_index f)), (''label'', canon_string (sel_label f)), (''leftOf'', Option.bind (sel_leftOf s) canon),
     (''optional'', canon_bool (sel_optional f)), (''point'', canon_string (sel_point f)), (''repeat'', canon_int (sel_repeat f)),
     (''retryTapIfNoChange'', canon_bool (sel_retryTapIfNoChange f)), (''rightOf'', Option.bind (sel_rightOf s) canon),
     (''selected'', canon_bool (sel_selected f)), (''start'', canon_string (sel_start f)),
     (''text'', canon_string (sel_textRegex f)), (''tolerance'', canon_int (size_part size_tolerance f)),
     (''traits'', map_option (\<lambda>ts. DynList (Some (map (\<lambda>t. DynString (trait_text t)) ts))) (sel_traits f)),
     (''waitToSettleTimeoutMs'', canon_int (sel_waitToSettleTimeoutMS f)),
     (''waitUntilVisible'', canon_bool (sel_waitUntilVisible f)), (''width'', canon_int (size_part size_width f))]"

definition canonical_option :: "element_selector option \<Rightarrow> bool" where
  "canonical_option n = (case n of None \<Rightarrow> True | Some s \<Rightarrow> canonicalTypedSelector s \<noteq> None)"

lemma nested_facts:
  "nested_ok (map_option canonicalTypedSelector n) = canonical_option n"
  "nested_value (map_option canonicalTypedSelector n) = Option.bind n canonicalTypedSelector"
  by (auto simp: nested_ok_def canonical_option_def nested_value_def split: option.splits)

lemma canonicalTyped_entries:
  assumes "canonicalTypedSelector s = Some c"
  shows "\<not> empty_size (sel_fields s)" "c = DynMap (Some (present (typed_entries (sel_fields s) canonicalTypedSelector s)))"
    "list_all canonical_option [sel_below s, sel_above s, sel_leftOf s, sel_rightOf s, sel_containsChild s, sel_childOf s]"
    "\<forall>ds. sel_containsDescendants s = Some ds \<longrightarrow> (\<exists>cs. map canonicalTypedSelector ds = map Some cs)"
  using assms
  by (cases s; simp add: Let_def nested_facts typed_entries_def bind_map_option split: if_splits; cases "sel_containsDescendants s";
      auto simp: all_some_Some)+


definition proper_option :: "element_selector option \<Rightarrow> bool" where
  "proper_option n = (case n of None \<Rightarrow> True | Some s \<Rightarrow> proper_selector s)"

lemma proper_parts:
  assumes "proper_selector s"
  shows "list_all proper_trait (elems (sel_traits (sel_fields s)))
    \<and> proper_option (sel_below s) \<and> proper_option (sel_above s) \<and> proper_option (sel_leftOf s) \<and> proper_option (sel_rightOf s)
    \<and> proper_option (sel_containsChild s) \<and> proper_option (sel_childOf s) \<and> (\<forall>d \<in> set (elems (sel_containsDescendants s)). proper_selector d)"
proof -
  have one: "proper_option n \<longleftrightarrow> (\<forall>z. n = Some z \<longrightarrow> proper_selector z)" for n by (cases n) (simp_all add: proper_option_def)
  have many: "(\<forall>x \<in> set (elems (map_option (map proper_selector) ds)). x) \<longleftrightarrow> Ball (set (elems ds)) proper_selector" for ds
    by (cases ds) simp_all
  show ?thesis using assms by (cases s) (simp add: one many list_all_iff)
qed

lemma all_some_map_Some [simp]: "all_some (map Some xs) = Some xs"
  by (simp add: all_some_Some)

lemma nested_inj:
  assumes "\<And>x s' c. n = Some x \<Longrightarrow> canonicalTypedSelector x = Some c \<Longrightarrow> canonicalTypedSelector s' = Some c \<Longrightarrow> proper_selector x
      \<Longrightarrow> proper_selector s' \<Longrightarrow> withoutSelectorSources x = withoutSelectorSources s'"
    and "canonical_option n" "canonical_option n'" "Option.bind n canonicalTypedSelector = Option.bind n' canonicalTypedSelector"
    "proper_option n" "proper_option n'"
  shows "map_option withoutSelectorSources n = map_option withoutSelectorSources n'"
proof (cases n)
  case None
  then show ?thesis using assms(3,4) by (cases n') (simp_all add: canonical_option_def)
next
  case (Some x)
  then obtain c where c: "canonicalTypedSelector x = Some c" using assms(2) by (auto simp: canonical_option_def)
  then obtain y where y: "n' = Some y" "canonicalTypedSelector y = Some c" using assms(4) Some by (cases n') auto
  then show ?thesis using assms(1) [OF Some c y(2)] assms(5,6) Some by (simp add: proper_option_def)
qed

lemma items_inj:
  assumes "\<And>ds x s' c. n = Some ds \<Longrightarrow> x \<in> set ds \<Longrightarrow> canonicalTypedSelector x = Some c \<Longrightarrow> canonicalTypedSelector s' = Some c
      \<Longrightarrow> proper_selector x \<Longrightarrow> proper_selector s' \<Longrightarrow> withoutSelectorSources x = withoutSelectorSources s'"
    and "\<forall>ds. n = Some ds \<longrightarrow> (\<exists>cs. map canonicalTypedSelector ds = map Some cs)"
    and "\<forall>ds. n' = Some ds \<longrightarrow> (\<exists>cs. map canonicalTypedSelector ds = map Some cs)"
    and same: "Option.bind n (\<lambda>ds. map_option (\<lambda>ds. DynList (Some ds)) (all_some (map canonicalTypedSelector ds)))
      = Option.bind n' (\<lambda>ds. map_option (\<lambda>ds. DynList (Some ds)) (all_some (map canonicalTypedSelector ds)))"
    and proper: "\<forall>d \<in> set (elems n). proper_selector d" "\<forall>d \<in> set (elems n'). proper_selector d"
  shows "map_option (map withoutSelectorSources) n = map_option (map withoutSelectorSources) n'"
proof (cases n)
  case None
  then show ?thesis using assms(3) same by (cases n') (auto simp: all_some_Some)
next
  case (Some ds)
  then obtain cs where cs: "map canonicalTypedSelector ds = map Some cs" using assms(2) by auto
  then obtain ds' where ds': "n' = Some ds'" using same Some by (cases n') (auto simp: all_some_Some)
  then obtain cs' where cs': "map canonicalTypedSelector ds' = map Some cs'" using assms(3) by auto
  have "all_some (map canonicalTypedSelector ds) = Some cs" "all_some (map canonicalTypedSelector ds') = Some cs'"
    using cs cs' by (simp_all add: all_some_Some)
  then have "cs = cs'" using same Some ds' by simp
  then have all2: "list_all2 (\<lambda>x y. \<exists>c. canonicalTypedSelector x = Some c \<and> canonicalTypedSelector y = Some c) ds ds'"
    using cs cs' by (auto simp: list_all2_conv_all_nth list_eq_iff_nth_eq)
  have "map withoutSelectorSources ds = map withoutSelectorSources ds'"
  proof (rule nth_equalityI)
    show "length (map withoutSelectorSources ds) = length (map withoutSelectorSources ds')" using all2 by (simp add: list_all2_lengthD)
    fix i assume i: "i < length (map withoutSelectorSources ds)"
    then obtain c where "canonicalTypedSelector (ds ! i) = Some c" "canonicalTypedSelector (ds' ! i) = Some c"
      using all2 by (auto simp: list_all2_conv_all_nth)
    moreover have "proper_selector (ds ! i)" "proper_selector (ds' ! i)" "i < length ds'"
      using proper Some ds' i all2 by (auto simp: list_all2_lengthD)
    ultimately show "map withoutSelectorSources ds ! i = map withoutSelectorSources ds' ! i"
      using assms(1) [OF Some, of "ds ! i" c "ds' ! i"] i by simp
  qed
  then show ?thesis using Some ds' by simp
qed

lemma entries_eq:
  assumes "typed_entries f canon s = typed_entries g canon s'" "\<not> empty_size f" "\<not> empty_size g"
    "list_all proper_trait (elems (sel_traits f))" "list_all proper_trait (elems (sel_traits g))"
  shows "f = g"
proof (rule selector_fields.equality)
  show "sel_size f = sel_size g" using assms(1-3) by (intro size_parts) (simp_all add: typed_entries_def)
  show "sel_traits f = sel_traits g" using assms(1,4,5) by (intro traits_inj) (simp_all add: typed_entries_def)
qed (use assms(1) in \<open>simp_all add: typed_entries_def\<close>)

lemma canonicalTyped_inj:
  "canonicalTypedSelector s = Some c \<Longrightarrow> canonicalTypedSelector s' = Some c \<Longrightarrow> proper_selector s \<Longrightarrow> proper_selector s'
    \<Longrightarrow> withoutSelectorSources s = withoutSelectorSources s'"
proof (induction s arbitrary: s' c)
  case (ElementSelector f lower upper leftOf rightOf child descs childOf src fsrc)
  let ?s = "ElementSelector f lower upper leftOf rightOf child descs childOf src fsrc"
  note facts = canonicalTyped_entries [OF ElementSelector.prems(1)] canonicalTyped_entries [OF ElementSelector.prems(2)]
  note proper = proper_parts [OF ElementSelector.prems(3)] proper_parts [OF ElementSelector.prems(4)]
  have keys: "map fst (typed_entries f canonicalTypedSelector ?s) = map fst (typed_entries (sel_fields s') canonicalTypedSelector s')"
    "distinct (map fst (typed_entries f canonicalTypedSelector ?s))" by (simp_all add: typed_entries_def)
  have same: "typed_entries f canonicalTypedSelector ?s = typed_entries (sel_fields s') canonicalTypedSelector s'"
    using facts(2,6) by (intro present_inj [OF keys]) simp
  have f: "f = sel_fields s'" using facts(1,5) proper by (intro entries_eq [OF same]) auto
  have nested: "Option.bind lower canonicalTypedSelector = Option.bind (sel_below s') canonicalTypedSelector"
    "Option.bind upper canonicalTypedSelector = Option.bind (sel_above s') canonicalTypedSelector"
    "Option.bind leftOf canonicalTypedSelector = Option.bind (sel_leftOf s') canonicalTypedSelector"
    "Option.bind rightOf canonicalTypedSelector = Option.bind (sel_rightOf s') canonicalTypedSelector"
    "Option.bind child canonicalTypedSelector = Option.bind (sel_containsChild s') canonicalTypedSelector"
    "Option.bind childOf canonicalTypedSelector = Option.bind (sel_childOf s') canonicalTypedSelector"
    "Option.bind descs (\<lambda>ds. map_option (\<lambda>ds. DynList (Some ds)) (all_some (map canonicalTypedSelector ds)))
      = Option.bind (sel_containsDescendants s') (\<lambda>ds. map_option (\<lambda>ds. DynList (Some ds)) (all_some (map canonicalTypedSelector ds)))"
    using same by (simp_all add: typed_entries_def)
  have "map_option withoutSelectorSources lower = map_option withoutSelectorSources (sel_below s')"
    using facts(3,7) proper by (intro nested_inj [OF _ _ _ nested(1)]) (auto intro: ElementSelector.IH)
  moreover have "map_option withoutSelectorSources upper = map_option withoutSelectorSources (sel_above s')"
    using facts(3,7) proper by (intro nested_inj [OF _ _ _ nested(2)]) (auto intro: ElementSelector.IH)
  moreover have "map_option withoutSelectorSources leftOf = map_option withoutSelectorSources (sel_leftOf s')"
    using facts(3,7) proper by (intro nested_inj [OF _ _ _ nested(3)]) (auto intro: ElementSelector.IH)
  moreover have "map_option withoutSelectorSources rightOf = map_option withoutSelectorSources (sel_rightOf s')"
    using facts(3,7) proper by (intro nested_inj [OF _ _ _ nested(4)]) (auto intro: ElementSelector.IH)
  moreover have "map_option withoutSelectorSources child = map_option withoutSelectorSources (sel_containsChild s')"
    using facts(3,7) proper by (intro nested_inj [OF _ _ _ nested(5)]) (auto intro: ElementSelector.IH)
  moreover have "map_option withoutSelectorSources childOf = map_option withoutSelectorSources (sel_childOf s')"
    using facts(3,7) proper by (intro nested_inj [OF _ _ _ nested(6)]) (auto intro: ElementSelector.IH)
  moreover have "map_option (map withoutSelectorSources) descs = map_option (map withoutSelectorSources) (sel_containsDescendants s')"
    using facts(4,8) proper by (intro items_inj [OF _ _ _ nested(7)]) (auto intro: ElementSelector.IH)
  ultimately show ?case using f by (cases s') simp
qed


text \<open>C38: Raw arguments match at most one typed selector, up to source positions: a command whose selector was
  exchanged for any other, in any field at any depth, is refused by the snapshot comparison.
\<close>

theorem snapshot_pins_selector:
  assumes "selectorArgumentsMatch arguments s" "selectorArgumentsMatch arguments s'" "proper_selector s" "proper_selector s'"
  shows "withoutSelectorSources s = withoutSelectorSources s'"
  using assms by (auto simp: selectorArgumentsMatch_def split: option.splits intro: canonicalTyped_inj)

definition sized_text :: "string \<Rightarrow> element_selector" where
  "sized_text path = ElementSelector \<lparr>sel_textRegex = Some ''OK'', sel_idRegex = None,
     sel_size = Some \<lparr>size_width = Some 40, size_height = None, size_tolerance = None\<rparr>, sel_optional = None,
     sel_retryTapIfNoChange = None, sel_waitUntilVisible = None, sel_point = None, sel_start = None, sel_end = None,
     sel_traits = Some [TraitSquare], sel_index = Some ''2'', sel_enabled = Some True, sel_selected = None, sel_checked = None,
     sel_focused = None, sel_repeat = None, sel_delay = None, sel_waitToSettleTimeoutMS = None, sel_label = None, sel_css = None\<rparr>
     None None None None None None None (no_source\<lparr>src_path := path\<rparr>) None"

definition sized_arguments :: dyn where
  "sized_arguments = DynMap (Some [(''enabled'', DynBool True), (''index'', DynInt 2), (''text'', DynString ''OK''),
     (''traits'', DynList (Some [DynString ''SQUARE''])), (''width'', DynInt 40)])"

theorem snapshot_pins_selector_witness:
  "withoutSelectorSources (sized_text ''a.yaml'') = withoutSelectorSources (sized_text ''b.yaml'')"
proof (rule snapshot_pins_selector [of sized_arguments])
  show "selectorArgumentsMatch sized_arguments (sized_text ''a.yaml'')" by code_simp
  show "selectorArgumentsMatch sized_arguments (sized_text ''b.yaml'')" by code_simp
qed code_simp+

end
