(* ===== verification/Lookup.thy ===== *)
theory Lookup
  imports Matching Errors
begin

text \<open>
  The element lookup (\<^verbatim>\<open>internal/engine/lookup.go\<close>): the deadline of a lookup, one lookup over a fresh
  hierarchy, the polling loop around it, and the aiming of a touch.

  An operation takes the state, the lookup with the outside world, to an error or a value and the next
  state. The world answers the context, the clock and the driver. Times and durations are nanoseconds;
  Go saturates the difference of two times, which changes no comparison made here. An element that was
  found comes with the tree it was found in, which holds its ancestors.
\<close>

section \<open>Operations\<close>

type_synonym ('s, 'a) op = "'s \<Rightarrow> (go_error + 'a) \<times> 's"

definition op_return :: "'a \<Rightarrow> ('s, 'a) op" where
  "op_return a s = (Inr a, s)"

definition op_fail :: "go_error \<Rightarrow> ('s, 'a) op" where
  "op_fail e s = (Inl e, s)"

definition op_bind :: "('s, 'a) op \<Rightarrow> ('a \<Rightarrow> ('s, 'b) op) \<Rightarrow> ('s, 'b) op" where
  "op_bind m f s = (case m s of (Inl e, s') \<Rightarrow> (Inl e, s') | (Inr a, s') \<Rightarrow> f a s')"

definition op_lift :: "go_error + 'a \<Rightarrow> ('s, 'a) op" where
  "op_lift r s = (r, s)"

lemma op_simps [simp]:
  "op_return a s = (Inr a, s)" "op_fail e s = (Inl e, s)" "op_lift r s = (r, s)"
  by (simp_all add: op_return_def op_fail_def op_lift_def)

lemma op_bind_Inr: "op_bind m f s = (Inr b, s'') \<longleftrightarrow> (\<exists>a s'. m s = (Inr a, s') \<and> f a s' = (Inr b, s''))"
  by (auto simp: op_bind_def split: prod.splits sum.splits)

lemma op_bind_Inl: "op_bind m f s = (Inl e, s'') \<longleftrightarrow> m s = (Inl e, s'') \<or> (\<exists>a s'. m s = (Inr a, s') \<and> f a s' = (Inl e, s''))"
  by (auto simp: op_bind_def split: prod.splits sum.splits)

text \<open>A loop: the body goes round with a new loop variable or leaves with a result.\<close>

partial_function (option) op_loop :: "('a \<Rightarrow> ('s, 'a + 'b) op) \<Rightarrow> 'a \<Rightarrow> 's \<Rightarrow> ((go_error + 'b) \<times> 's) option" where
  "op_loop body a s =
     (case body a s of
        (Inl e, s') \<Rightarrow> Some (Inl e, s')
      | (Inr turn, s') \<Rightarrow> (case turn of Inl a' \<Rightarrow> op_loop body a' s' | Inr b \<Rightarrow> Some (Inr b, s')))"

declare op_loop.simps [code]

lemma op_loop_step:
  "body a s = (Inl e, s') \<Longrightarrow> op_loop body a s = Some (Inl e, s')"
  "body a s = (Inr (Inr b), s') \<Longrightarrow> op_loop body a s = Some (Inr b, s')"
  "body a s = (Inr (Inl a'), s') \<Longrightarrow> op_loop body a s = op_loop body a' s'"
  by (simp_all add: op_loop.simps)

text \<open>Total correctness of a loop: an invariant that every round keeps while a measure decreases.\<close>

lemma op_loop_returns:
  fixes m :: "'a \<Rightarrow> 's \<Rightarrow> nat"
  assumes "I a s"
    and round: "\<And>a s a' s'. I a s \<Longrightarrow> body a s = (Inr (Inl a'), s') \<Longrightarrow> I a' s' \<and> m a' s' < m a s"
  shows "\<exists>a' s' r s''. I a' s' \<and> op_loop body a s = Some (r, s'')
    \<and> (body a' s' = (case r of Inl e \<Rightarrow> Inl e | Inr b \<Rightarrow> Inr (Inr b), s''))"
  using assms(1)
proof (induction "m a s" arbitrary: a s rule: less_induct)
  case less
  obtain r s' where step: "body a s = (r, s')" by fastforce
  show ?case
  proof (cases r)
    case (Inl e)
    then show ?thesis using step less.prems op_loop_step(1) [of body a s e s'] by (intro exI [of _ a] exI [of _ s] exI [of _ r] exI [of _ s']) auto
  next
    case (Inr turn)
    show ?thesis
    proof (cases turn)
      case again: (Inl a')
      then have "I a' s'" "m a' s' < m a s" using round [OF less.prems] step Inr by auto
      then show ?thesis using less.hyps [of a' s'] op_loop_step(3) [of body a s a' s'] step Inr again by auto
    next
      case (Inr b)
      then show ?thesis using step \<open>r = Inr turn\<close> less.prems op_loop_step(2) [of body a s b s']
        by (intro exI [of _ a] exI [of _ s] exI [of _ "Inr b"] exI [of _ s']) auto
    qed
  qed
qed

section \<open>The lookup and its world\<close>

record screen_info =
  di_platform :: string
  di_widthPixels :: int
  di_heightPixels :: int
  di_widthGrid :: int
  di_heightGrid :: int

record element_lookup =
  el_latestInteraction :: "int option"
  el_deviceInfo :: "screen_info option"
  el_activeApp :: string

text \<open>A settle request; a hit test answers whether it decided and whether the touch would arrive.\<close>

record settle_query =
  sr_initial :: "tree_node option"
  sr_app :: string
  sr_timeout :: "int option"

record hit_answer =
  ha_decided :: bool
  ha_hittable :: bool

record 'w driver_services =
  dr_name :: string
  dr_ctx :: "'w \<Rightarrow> go_error option \<times> 'w"
  dr_now :: "'w \<Rightarrow> int \<times> 'w"
  dr_wait :: "int \<Rightarrow> 'w \<Rightarrow> go_error option \<times> 'w"
  dr_features :: "string \<Rightarrow> bool"
  dr_info :: "'w \<Rightarrow> (go_error + screen_info) \<times> 'w"
  dr_descriptor :: "string list \<Rightarrow> 'w \<Rightarrow> (go_error + tree_node) \<times> 'w"
  dr_query :: "string \<Rightarrow> string list \<Rightarrow> 'w \<Rightarrow> (go_error + node_fields list) \<times> 'w"
  dr_settle :: "settle_query \<Rightarrow> 'w \<Rightarrow> (go_error + tree_node option) \<times> 'w"
  dr_clips :: "(node_fields \<Rightarrow> bool) option"
  dr_tapsInside :: "(node_fields \<Rightarrow> node_fields \<Rightarrow> bool) option"
  dr_hittable :: "(string \<Rightarrow> node_fields \<Rightarrow> bounds \<Rightarrow> 'w \<Rightarrow> (go_error + hit_answer) \<times> 'w) option"
  dr_regexp :: regexp_engine
  dr_matchingError :: "matching_error \<Rightarrow> go_error"
  dr_boundsError :: "bounds_reason \<Rightarrow> go_error"

type_synonym ('w, 'a) lookup_op = "(element_lookup \<times> 'w, 'a) op"

text \<open>\<^verbatim>\<open>ctx.Err()\<close>, the clock, and a call of the driver whose error is looked at after the context.\<close>

definition check_ctx :: "'w driver_services \<Rightarrow> ('w, unit) lookup_op" where
  "check_ctx D = (\<lambda>(l, w). case dr_ctx D w of (None, w') \<Rightarrow> (Inr (), l, w') | (Some e, w') \<Rightarrow> (Inl e, l, w'))"

definition clock_now :: "'w driver_services \<Rightarrow> ('w, int) lookup_op" where
  "clock_now D = (\<lambda>(l, w). case dr_now D w of (t, w') \<Rightarrow> (Inr t, l, w'))"

definition driver_op :: "('w \<Rightarrow> (go_error + 'a) \<times> 'w) \<Rightarrow> ('w, 'a) lookup_op" where
  "driver_op f = (\<lambda>(l, w). case f w of (r, w') \<Rightarrow> (r, l, w'))"

definition ctx_first :: "'w driver_services \<Rightarrow> ('w \<Rightarrow> (go_error + 'a) \<times> 'w) \<Rightarrow> ('w, 'a) lookup_op" where
  "ctx_first D f = (\<lambda>(l, w). case f w of (r, w') \<Rightarrow>
     (case dr_ctx D w' of (Some e, w'') \<Rightarrow> (Inl e, l, w'') | (None, w'') \<Rightarrow> (r, l, w'')))"

text \<open>A wait whose error is replaced by the context's when it has one, and which checks the context after.\<close>

definition cancellable_wait :: "'w driver_services \<Rightarrow> int \<Rightarrow> ('w, unit) lookup_op" where
  "cancellable_wait D duration = (\<lambda>(l, w). case dr_wait D duration w of (r, w') \<Rightarrow>
     (case dr_ctx D w' of
        (Some e, w'') \<Rightarrow> (Inl e, l, w'')
      | (None, w'') \<Rightarrow> (case r of Some e \<Rightarrow> (Inl e, l, w'') | None \<Rightarrow> (Inr (), l, w''))))"

definition plain_wait :: "'w driver_services \<Rightarrow> int \<Rightarrow> ('w, unit) lookup_op" where
  "plain_wait D duration = (\<lambda>(l, w). case dr_wait D duration w of
     (Some e, w') \<Rightarrow> (Inl e, l, w') | (None, w') \<Rightarrow> (Inr (), l, w'))"

section \<open>Deadlines\<close>

definition lookupPollInterval :: int where "lookupPollInterval = 100 * 1000000"
definition LookupTimeout :: int where "LookupTimeout = 17 * 1000000000"
definition OptionalLookupTimeout :: int where "OptionalLookupTimeout = 7 * 1000000000"

record lookup_options =
  lo_optional :: bool
  lo_timeout :: "int option"

definition nonNegativeDuration :: "int \<Rightarrow> int" where
  "nonNegativeDuration v = (if v < 0 then 0 else v)"

definition minDuration :: "int \<Rightarrow> int \<Rightarrow> int" where
  "minDuration l r = (if l < r then l else r)"

definition SetActiveApp :: "string \<Rightarrow> element_lookup \<Rightarrow> string \<times> element_lookup" where
  "SetActiveApp app l = (el_activeApp l, l\<lparr>el_activeApp := app\<rparr>)"

definition activeAppIDs :: "element_lookup \<Rightarrow> string list" where
  "activeAppIDs l = (if el_activeApp l = '''' then [] else [el_activeApp l])"

definition NewElementLookup :: element_lookup where
  "NewElementLookup = \<lparr>el_latestInteraction = None, el_deviceInfo = None, el_activeApp = ''''\<rparr>"

definition RecordInteraction :: "int \<Rightarrow> element_lookup \<Rightarrow> element_lookup" where
  "RecordInteraction moment l =
     (case el_latestInteraction l of
        None \<Rightarrow> l\<lparr>el_latestInteraction := Some moment\<rparr>
      | Some latest \<Rightarrow> if moment > latest then l\<lparr>el_latestInteraction := Some moment\<rparr> else l)"

definition lookup_base :: "lookup_options \<Rightarrow> int" where
  "lookup_base opts = (if lo_optional opts then OptionalLookupTimeout else LookupTimeout)"

definition AdjustedTimeout :: "'w driver_services \<Rightarrow> lookup_options \<Rightarrow> ('w, int) lookup_op" where
  "AdjustedTimeout D opts = (\<lambda>(l, w).
     case lo_timeout opts of
       Some t \<Rightarrow> (Inr (nonNegativeDuration t), l, w)
     | None \<Rightarrow>
         (case el_latestInteraction l of
            None \<Rightarrow> (Inr (lookup_base opts), l, w)
          | Some latest \<Rightarrow> (case dr_now D w of (now, w') \<Rightarrow>
              (let elapsed = now - latest
               in (Inr (if elapsed \<le> 0 then lookup_base opts else nonNegativeDuration (lookup_base opts - elapsed)), l, w')))))"

definition adjustedDeadline :: "'w driver_services \<Rightarrow> lookup_options \<Rightarrow> ('w, int) lookup_op" where
  "adjustedDeadline D opts = (\<lambda>(l, w). case dr_now D w of (now, w') \<Rightarrow>
     (Inr (case lo_timeout opts of
        Some t \<Rightarrow> now + nonNegativeDuration t
      | None \<Rightarrow>
          (case el_latestInteraction l of
             None \<Rightarrow> now + lookup_base opts
           | Some latest \<Rightarrow>
               if \<not> now > latest then now + lookup_base opts
               else (let deadline = latest + lookup_base opts in if deadline < now then now else deadline))), l, w'))"

section \<open>The visible hierarchy\<close>

definition cachedDeviceInfo :: "'w driver_services \<Rightarrow> ('w, screen_info) lookup_op" where
  "cachedDeviceInfo D = op_bind (check_ctx D) (\<lambda>_ (l, w).
     case el_deviceInfo l of
       Some info \<Rightarrow> (Inr info, l, w)
     | None \<Rightarrow> op_bind (ctx_first D (dr_info D)) (\<lambda>info (l, w). (Inr info, l\<lparr>el_deviceInfo := Some info\<rparr>, w)) (l, w))"

definition ForgetDeviceInfo :: "element_lookup \<Rightarrow> element_lookup" where
  "ForgetDeviceInfo l = l\<lparr>el_deviceInfo := None\<rparr>"

definition screen_of :: "screen_info \<Rightarrow> bounds" where
  "screen_of info = \<lparr>b_x = 0, b_y = 0, b_width = di_widthGrid info, b_height = di_heightGrid info\<rparr>"

definition visibleHierarchy :: "'w driver_services \<Rightarrow> ('w, element option) lookup_op" where
  "visibleHierarchy D =
     op_bind (check_ctx D) (\<lambda>_.
     op_bind (cachedDeviceInfo D) (\<lambda>info.
     op_bind (check_ctx D) (\<lambda>_.
     op_bind (\<lambda>(l, w). ctx_first D (dr_descriptor D (activeAppIDs l)) (l, w)) (\<lambda>descriptor.
       case new_tree descriptor of
         Inl reason \<Rightarrow> op_fail (dr_boundsError D reason)
       | Inr root_element \<Rightarrow> op_return (FilterVisibleWithin root_element (screen_of info) (dr_clips D))))))"

section \<open>One lookup\<close>

text \<open>An element with the tree it is in.\<close>

record found =
  fd_tree :: element
  fd_element :: element

definition css_feature :: string where "css_feature = ''cssSelector''"

definition css_path :: "node_fields \<Rightarrow> string" where
  "css_path f = (case attribute f ''css'' of None \<Rightarrow> '''' | Some p \<Rightarrow> p)"

definition resolveCSS :: "'w driver_services \<Rightarrow> element_selector \<Rightarrow> ('w, string list option) lookup_op" where
  "resolveCSS D s =
     (case sel_css (sel_fields s) of
        None \<Rightarrow> op_return None
      | Some expression \<Rightarrow>
          if \<not> dr_features D css_feature
          then op_fail (NewConfigurationError (''selector css is not supported by the '' @ dr_name D @ '' driver'') None)
          else op_bind (check_ctx D) (\<lambda>_.
               op_bind (\<lambda>(l, w). driver_op (dr_query D expression (activeAppIDs l)) (l, w)) (\<lambda>nodes.
               op_return (Some (filter (\<lambda>p. p \<noteq> '''') (map css_path nodes))))))"

definition filterByCSSPath :: "element list \<Rightarrow> string list \<Rightarrow> element list" where
  "filterByCSSPath matches allowed = filter (\<lambda>e. css_path (el_node e) \<in> set allowed) matches"

fun without_css :: "element_selector \<Rightarrow> element_selector" where
  "without_css (ElementSelector attrs lower upper leftOf rightOf child descs childOf src fsrc) =
     ElementSelector (attrs\<lparr>sel_css := None\<rparr>) lower upper leftOf rightOf child descs childOf src fsrc"

definition first_match :: "element option \<Rightarrow> element list \<Rightarrow> found option" where
  "first_match tree matches =
     (case (tree, matches) of (Some t, e # es) \<Rightarrow> Some \<lparr>fd_tree = t, fd_element = e\<rparr> | _ \<Rightarrow> None)"

definition findOnce :: "'w driver_services \<Rightarrow> element_selector \<Rightarrow> ('w, found option) lookup_op" where
  "findOnce D s =
     op_bind (visibleHierarchy D) (\<lambda>tree.
     op_bind (resolveCSS D s) (\<lambda>allowed.
       if allowed = Some [] then op_return None
       else case Find (dr_regexp D) tree (if allowed \<noteq> None then without_css s else s) of
              Inl e \<Rightarrow> op_fail (dr_matchingError D e)
            | Inr matches \<Rightarrow>
                op_return (first_match tree (case allowed of None \<Rightarrow> matches | Some paths \<Rightarrow> filterByCSSPath matches paths))))"

section \<open>Polling\<close>

definition find_round :: "'w driver_services \<Rightarrow> element_selector \<Rightarrow> lookup_options \<Rightarrow> int \<Rightarrow> unit \<Rightarrow> ('w, unit + found option) lookup_op" where
  "find_round D s opts deadline _ =
     op_bind (findOnce D s) (\<lambda>r.
     op_bind (check_ctx D) (\<lambda>_.
       case r of
         Some e \<Rightarrow> op_return (Inr (Some e))
       | None \<Rightarrow>
           op_bind (clock_now D) (\<lambda>now.
             if \<not> now < deadline
             then (if lo_optional opts then op_return (Inr None) else op_fail (NewOperationError ''element not found'' None))
             else op_bind (cancellable_wait D (minDuration lookupPollInterval (deadline - now))) (\<lambda>_. op_return (Inl ())))))"

text \<open>A terminating part before a loop.\<close>

definition op_then_loop :: "('s, 'a) op \<Rightarrow> ('a \<Rightarrow> 's \<Rightarrow> ((go_error + 'b) \<times> 's) option) \<Rightarrow> 's \<Rightarrow> ((go_error + 'b) \<times> 's) option" where
  "op_then_loop m f s = (case m s of (Inl e, s') \<Rightarrow> Some (Inl e, s') | (Inr a, s') \<Rightarrow> f a s')"

definition findUntil :: "'w driver_services \<Rightarrow> element_selector \<Rightarrow> lookup_options \<Rightarrow> int
    \<Rightarrow> element_lookup \<times> 'w \<Rightarrow> ((go_error + found option) \<times> element_lookup \<times> 'w) option" where
  "findUntil D s opts deadline = op_then_loop (check_ctx D) (\<lambda>_. op_loop (find_round D s opts deadline) ())"

definition lookup_Find :: "'w driver_services \<Rightarrow> element_selector \<Rightarrow> lookup_options
    \<Rightarrow> element_lookup \<times> 'w \<Rightarrow> ((go_error + found option) \<times> element_lookup \<times> 'w) option" where
  "lookup_Find D s opts = op_then_loop (op_bind (check_ctx D) (\<lambda>_. adjustedDeadline D opts)) (findUntil D s opts)"

section \<open>Waiting for visibility (\<^verbatim>\<open>wait.go\<close>)\<close>

definition NotVisiblePollInterval :: int where "NotVisiblePollInterval = 500 * 1000000"
definition WaitUntilVisiblePollInterval :: int where "WaitUntilVisiblePollInterval = 1000 * 1000000"
definition WaitUntilVisibleAttempts :: nat where "WaitUntilVisibleAttempts = 10"

definition absent_round :: "'w driver_services \<Rightarrow> element_selector \<Rightarrow> int \<Rightarrow> unit \<Rightarrow> ('w, unit + bool) lookup_op" where
  "absent_round D s deadline _ =
     op_bind (findOnce D s) (\<lambda>r.
     op_bind (check_ctx D) (\<lambda>_.
       if r = None then op_return (Inr True)
       else op_bind (clock_now D) (\<lambda>now.
              if \<not> now < deadline then op_return (Inr False)
              else op_bind (plain_wait D (minDuration NotVisiblePollInterval (deadline - now))) (\<lambda>_. op_return (Inl ())))))"

definition conditionNotVisibleUntil :: "'w driver_services \<Rightarrow> element_selector \<Rightarrow> int
    \<Rightarrow> element_lookup \<times> 'w \<Rightarrow> ((go_error + bool) \<times> element_lookup \<times> 'w) option" where
  "conditionNotVisibleUntil D s deadline = op_then_loop (check_ctx D) (\<lambda>_. op_loop (absent_round D s deadline) ())"

definition conditionNotVisible :: "'w driver_services \<Rightarrow> element_selector \<Rightarrow> int
    \<Rightarrow> element_lookup \<times> 'w \<Rightarrow> ((go_error + bool) \<times> element_lookup \<times> 'w) option" where
  "conditionNotVisible D s timeout =
     op_then_loop (op_bind (check_ctx D) (\<lambda>_. clock_now D)) (\<lambda>now. conditionNotVisibleUntil D s (now + nonNegativeDuration timeout))"

definition WaitUntilNotVisible :: "'w driver_services \<Rightarrow> element_selector \<Rightarrow> int
    \<Rightarrow> element_lookup \<times> 'w \<Rightarrow> ((go_error + unit) \<times> element_lookup \<times> 'w) option" where
  "WaitUntilNotVisible D s timeout state =
     (case conditionNotVisible D s timeout state of
        None \<Rightarrow> None
      | Some (Inl e, state') \<Rightarrow> Some (Inl e, state')
      | Some (Inr absent, state') \<Rightarrow>
          Some (if absent then Inr () else Inl (NewOperationError ''element remained visible until deadline'' None), state'))"

fun visible_attempts :: "'w driver_services \<Rightarrow> element_selector \<Rightarrow> bool \<Rightarrow> nat \<Rightarrow> ('w, found option) lookup_op" where
  "visible_attempts D s optional 0 =
     op_bind (check_ctx D) (\<lambda>_.
       if optional then op_return None
       else op_fail (NewOperationError ''element did not become visible after 10 attempts'' None))"
| "visible_attempts D s optional (Suc n) =
     op_bind (plain_wait D WaitUntilVisiblePollInterval) (\<lambda>_.
     op_bind (findOnce D s) (\<lambda>r.
     op_bind (check_ctx D) (\<lambda>_.
       if r \<noteq> None then op_return r else visible_attempts D s optional n)))"

definition WaitUntilVisible :: "'w driver_services \<Rightarrow> element_selector \<Rightarrow> bool \<Rightarrow> ('w, found option) lookup_op" where
  "WaitUntilVisible D s optional = op_bind (check_ctx D) (\<lambda>_. visible_attempts D s optional WaitUntilVisibleAttempts)"

section \<open>Stability (\<^verbatim>\<open>stability.go\<close>)\<close>

definition ElementStabilityTimeout :: int where "ElementStabilityTimeout = 3 * 1000000000"
definition ElementStabilityPollInterval :: int where "ElementStabilityPollInterval = 100 * 1000000"

record stability_result =
  st_element :: found
  st_bounds :: bounds
  st_stable :: bool

definition stability_of :: "found \<Rightarrow> bool \<Rightarrow> stability_result" where
  "stability_of e steady = \<lparr>st_element = e, st_bounds = el_bounds (fd_element e), st_stable = steady\<rparr>"

text \<open>What a refreshed screen says: the element stands still, has moved, or cannot be told from others.\<close>

definition stability_look :: "'w driver_services \<Rightarrow> int \<Rightarrow> found \<Rightarrow> element option \<Rightarrow> ('w, found + stability_result) lookup_op" where
  "stability_look D deadline seen tree =
     (case (tree, Refresh tree (Some (fd_element seen))) of
        (Some t, Inr e) \<Rightarrow>
          if \<not> el_hasBounds e then op_return (Inl seen)
          else op_bind (clock_now D) (\<lambda>later.
                 (let refreshed = \<lparr>fd_tree = t, fd_element = e\<rparr>
                  in op_return (if later < deadline \<and> el_bounds e = el_bounds (fd_element seen)
                       then Inr (stability_of refreshed True) else Inl refreshed)))
      | _ \<Rightarrow> op_return (Inl seen))"

definition stability_round :: "'w driver_services \<Rightarrow> int \<Rightarrow> found \<Rightarrow> ('w, found + stability_result) lookup_op" where
  "stability_round D deadline seen =
     op_bind (clock_now D) (\<lambda>before_round.
       if \<not> before_round < deadline then op_return (Inr (stability_of seen False))
       else
         op_bind (clock_now D) (\<lambda>now.
         op_bind (cancellable_wait D (minDuration ElementStabilityPollInterval (deadline - now))) (\<lambda>_.
         op_bind (visibleHierarchy D) (stability_look D deadline seen))))"

definition WaitForElementStability :: "'w driver_services \<Rightarrow> found
    \<Rightarrow> element_lookup \<times> 'w \<Rightarrow> ((go_error + stability_result) \<times> element_lookup \<times> 'w) option" where
  "WaitForElementStability D previous =
     op_then_loop (op_bind (check_ctx D) (\<lambda>_.
        if \<not> el_hasBounds (fd_element previous)
        then op_fail (NewConfigurationError ''element stability requires an element with bounds'' None)
        else clock_now D)) (\<lambda>now. op_loop (stability_round D (now + ElementStabilityTimeout)) previous)"

section \<open>Settling (\<^verbatim>\<open>settle.go\<close>)\<close>

definition HierarchySettlePollInterval :: int where "HierarchySettlePollInterval = 200 * 1000000"
definition HierarchySettleAttempts :: nat where "HierarchySettleAttempts = 10"
definition MaximumSettleTimeout :: int where "MaximumSettleTimeout = 30 * 1000000000"

text \<open>Maps are their entries in key order, so \<^verbatim>\<open>reflect.DeepEqual\<close> on hierarchies is equality, but for a nil list of children.\<close>

definition hierarchySamplesSettled :: "tree_node option \<Rightarrow> tree_node option \<Rightarrow> bool" where
  "hierarchySamplesSettled previous current \<longleftrightarrow>
     (case (previous, current) of
        (Some p, Some c) \<Rightarrow> attribute (tn_fields c) ''is-loading'' \<noteq> Some ''true'' \<and> p = c
      | _ \<Rightarrow> False)"

record settle_state =
  ss_previous :: "tree_node option"
  ss_latest :: "tree_node option"

definition settle_observe :: "tree_node option \<Rightarrow> settle_state \<Rightarrow> bool \<times> settle_state" where
  "settle_observe current s =
     (hierarchySamplesSettled (ss_previous s) current,
      \<lparr>ss_previous = current, ss_latest = (if current \<noteq> None then current else ss_latest s)\<rparr>)"

definition explicitSettleTimeout :: "int \<Rightarrow> int" where
  "explicitSettleTimeout ms =
     (if ms \<le> 0 then 0 else if ms \<ge> MaximumSettleTimeout div 1000000 then MaximumSettleTimeout else ms * 1000000)"

text \<open>The latest sample is returned next to an error too, so the operations here take it along.\<close>

type_synonym 'w settle_outcome = "(tree_node option \<times> go_error option) \<times> element_lookup \<times> 'w"

definition pollHierarchySettle :: "'w driver_services \<Rightarrow> settle_query \<Rightarrow> int \<Rightarrow> settle_state \<Rightarrow> ('w, bool \<times> settle_state) lookup_op" where
  "pollHierarchySettle D req delay s =
     op_bind (cancellable_wait D delay) (\<lambda>_.
     op_bind (ctx_first D (dr_settle D req)) (\<lambda>current. op_return (settle_observe current s)))"

fun settle_attempts :: "'w driver_services \<Rightarrow> settle_query \<Rightarrow> nat \<Rightarrow> settle_state \<Rightarrow> element_lookup \<times> 'w \<Rightarrow> 'w settle_outcome" where
  "settle_attempts D req 0 s state =
     ((ss_latest s, Some (NewOperationError ''hierarchy did not settle after 10 attempts'' None)), state)"
| "settle_attempts D req (Suc n) s state =
     (case pollHierarchySettle D req HierarchySettlePollInterval s state of
        (Inl e, state') \<Rightarrow> ((ss_latest s, Some e), state')
      | (Inr (settled, s'), state') \<Rightarrow> if settled then ((ss_latest s', None), state') else settle_attempts D req n s' state')"

text \<open>A failing poll leaves the last sample: it is the loop's result, not its error.\<close>

definition poll_turn :: "settle_state \<Rightarrow> (go_error + bool \<times> settle_state) \<times> 's
    \<Rightarrow> (go_error + (settle_state + tree_node option \<times> go_error option)) \<times> 's" where
  "poll_turn s p =
     (case p of
        (Inl e, state') \<Rightarrow> (Inr (Inr (ss_latest s, Some e)), state')
      | (Inr (settled, s'), state') \<Rightarrow> (Inr (if settled then Inr (ss_latest s', None) else Inl s'), state'))"

definition settle_round :: "'w driver_services \<Rightarrow> settle_query \<Rightarrow> int \<Rightarrow> settle_state
    \<Rightarrow> ('w, settle_state + tree_node option \<times> go_error option) lookup_op" where
  "settle_round D req deadline s =
     op_bind (clock_now D) (\<lambda>before_round.
       if \<not> before_round < deadline
       then op_return (Inr (ss_latest s, Some (NewOperationError ''hierarchy did not settle before timeout'' None)))
       else op_bind (clock_now D) (\<lambda>now state.
         poll_turn s (pollHierarchySettle D req (minDuration HierarchySettlePollInterval (deadline - now)) s state)))"

definition settle_once :: "'w driver_services \<Rightarrow> settle_query \<Rightarrow> settle_state \<Rightarrow> element_lookup \<times> 'w \<Rightarrow> 'w settle_outcome" where
  "settle_once D req s state =
     (case ctx_first D (dr_settle D req) state of
        (Inl e, state') \<Rightarrow> ((ss_latest s, Some e), state')
      | (Inr current, state') \<Rightarrow>
          (case settle_observe current s of (settled, s') \<Rightarrow>
             ((ss_latest s', if settled then None else Some (NewOperationError ''hierarchy did not settle before timeout'' None)), state')))"

definition WaitForHierarchySettle :: "'w driver_services \<Rightarrow> settle_query \<Rightarrow> element_lookup \<times> 'w \<Rightarrow> 'w settle_outcome option" where
  "WaitForHierarchySettle D req state =
     (let s = \<lparr>ss_previous = sr_initial req, ss_latest = sr_initial req\<rparr>
      in case check_ctx D state of
           (Inl e, state') \<Rightarrow> Some ((None, Some e), state')
         | (Inr _, state') \<Rightarrow>
             (case sr_timeout req of
                None \<Rightarrow> Some (settle_attempts D req HierarchySettleAttempts s state')
              | Some ms \<Rightarrow>
                  if explicitSettleTimeout ms = 0 then Some (settle_once D req s state')
                  else
                    (case clock_now D state' of
                       (Inl e, state'') \<Rightarrow> Some ((ss_latest s, Some e), state'')
                     | (Inr now, state'') \<Rightarrow>
                         (case op_loop (settle_round D req (now + explicitSettleTimeout ms)) s state'' of
                            None \<Rightarrow> None
                          | Some (Inl e, state3) \<Rightarrow> Some ((ss_latest s, Some e), state3)
                          | Some (Inr outcome, state3) \<Rightarrow> Some (outcome, state3)))))"

section \<open>Aiming\<close>

text \<open>The ancestors of an element in its tree, innermost first: its \<^verbatim>\<open>Parent\<close> pointers.\<close>

definition ancestors :: "found \<Rightarrow> element list" where
  "ancestors e = (case find (\<lambda>(as, x). el_order x = el_order (fd_element e)) (located [] (fd_tree e)) of
     None \<Rightarrow> [] | Some (as, _) \<Rightarrow> as)"

definition elementViewport :: "'w driver_services \<Rightarrow> found \<Rightarrow> bounds \<Rightarrow> bounds" where
  "elementViewport D e screen = ClippedViewport (ancestors e) screen (dr_clips D)"

definition visibleCenter :: "'w driver_services \<Rightarrow> bounds \<Rightarrow> ('w, point) lookup_op" where
  "visibleCenter D b = op_bind (cachedDeviceInfo D) (\<lambda>info. op_return (VisibleCenter b (screen_of info)))"

fun tap_targets :: "(node_fields \<Rightarrow> bool) \<Rightarrow> element \<Rightarrow> bounds list" where
  "tap_targets inside (Element f b has n shown kids) =
     concat (map (\<lambda>k. (if el_hasBounds k \<and> b_width (el_bounds k) > 0 \<and> b_height (el_bounds k) > 0 \<and> inside (el_node k)
        then [el_bounds k] else []) @ tap_targets inside k) kids)"

definition tapTargetInside :: "(node_fields \<Rightarrow> node_fields \<Rightarrow> bool) \<Rightarrow> element \<Rightarrow> bounds option" where
  "tapTargetInside tapsInside e = (case tap_targets (tapsInside (el_node e)) e of [b] \<Rightarrow> Some b | _ \<Rightarrow> None)"

definition refuseCoveredTarget :: "'w driver_services \<Rightarrow> stability_result \<Rightarrow> string \<Rightarrow> ('w, unit) lookup_op" where
  "refuseCoveredTarget D st app =
     (case dr_hittable D of
        None \<Rightarrow> op_return ()
      | Some test \<Rightarrow> (\<lambda>(l, w).
          (case test app (el_node (fd_element (st_element st))) (st_bounds st) w of
             (Inl e, w') \<Rightarrow> (case dr_ctx D w' of (Some c, w'') \<Rightarrow> (Inl c, l, w'') | (None, w'') \<Rightarrow> (Inl e, l, w''))
           | (Inr answer, w') \<Rightarrow>
               (if ha_decided answer \<and> \<not> ha_hittable answer
                then Inl (NewOperationError (''target at '' @ FormatBounds (st_bounds st) @
                   '' is covered and would not receive the touch; scroll it clear of the overlay first'') None)
                else Inr (), l, w'))))"

definition tapCenter :: "'w driver_services \<Rightarrow> stability_result \<Rightarrow> string \<Rightarrow> ('w, point) lookup_op" where
  "tapCenter D st app =
     op_bind (refuseCoveredTarget D st app) (\<lambda>_.
     op_bind (cachedDeviceInfo D) (\<lambda>info.
       (let b = (case dr_tapsInside D of
                   None \<Rightarrow> st_bounds st
                 | Some inside \<Rightarrow> (case tapTargetInside inside (fd_element (st_element st)) of None \<Rightarrow> st_bounds st | Some b \<Rightarrow> b))
        in op_return (VisibleCenter b (elementViewport D (st_element st) (screen_of info))))))"

definition off_screen_error :: "(point \<Rightarrow> string) \<Rightarrow> point \<Rightarrow> screen_info \<Rightarrow> go_error" where
  "off_screen_error show_point p info = NewOperationError (''resolved point '' @ show_point p @ '' is off the screen ('' @
     dec_int (di_widthGrid info) @ ''x'' @ dec_int (di_heightGrid info) @ ''): the element is only partly visible'') None"

definition onScreen :: "'w driver_services \<Rightarrow> (point \<Rightarrow> string) \<Rightarrow> point \<Rightarrow> ('w, point) lookup_op" where
  "onScreen D show_point p =
     op_bind (cachedDeviceInfo D) (\<lambda>info.
       if di_widthGrid info \<le> 0 \<or> di_heightGrid info \<le> 0 then op_return p
       else if p_x p < 0 \<or> p_x p \<ge> of_int (di_widthGrid info) \<or> p_y p < 0 \<or> p_y p \<ge> of_int (di_heightGrid info)
       then op_fail (off_screen_error show_point p info)
       else op_return p)"

end
