(* ===== verification/Image_Check.thy ===== *)
theory Image_Check
  imports Prelude Complex_Main
begin

text \<open>
  The image comparison (\<^verbatim>\<open>internal/imagecheck/check.go\<close>). Decoding is a parameter: an encoded image is
  its bytes and a decoded one its rectangle with the normalised colour at every point. Ratios are exact
  rationals; the correctly rounded quotient of two pixel counts compares with a threshold as the rational does
  for every image of fewer than \<^verbatim>\<open>2^50\<close> pixels.
\<close>

record rectangle =
  rc_minX :: int
  rc_minY :: int
  rc_maxX :: int
  rc_maxY :: int

type_synonym rgba = "nat \<times> nat \<times> nat \<times> nat"

record decoded_image =
  im_bounds :: rectangle
  im_at :: "int \<Rightarrow> int \<Rightarrow> rgba"

definition Dx :: "rectangle \<Rightarrow> int" where "Dx r = rc_maxX r - rc_minX r"
definition Dy :: "rectangle \<Rightarrow> int" where "Dy r = rc_maxY r - rc_minY r"

definition rect_Empty :: "rectangle \<Rightarrow> bool" where
  "rect_Empty r \<longleftrightarrow> rc_minX r \<ge> rc_maxX r \<or> rc_minY r \<ge> rc_maxY r"

definition rect_In :: "rectangle \<Rightarrow> rectangle \<Rightarrow> bool" where
  "rect_In r s \<longleftrightarrow> rect_Empty r \<or> rc_minX s \<le> rc_minX r \<and> rc_maxX r \<le> rc_maxX s \<and> rc_minY s \<le> rc_minY r \<and> rc_maxY r \<le> rc_maxY s"

datatype image_error =
    ExpectedDecodeError | ActualDecodeError | CropError string | DimensionMismatchError | ThresholdError

record image_result =
  ir_differentPixels :: nat
  ir_totalPixels :: nat
  ir_differenceRatio :: rat

definition WithinThreshold :: "image_result \<Rightarrow> rat \<Rightarrow> image_error + bool" where
  "WithinThreshold r threshold =
     (if threshold < 0 \<or> threshold > 1 then Inl ThresholdError else Inr (ir_differenceRatio r \<le> threshold))"

text \<open>The points of an area, row by row from its corner.\<close>

definition offsets :: "rectangle \<Rightarrow> (int \<times> int) list" where
  "offsets r = concat (map (\<lambda>y. map (\<lambda>x. (int x, int y)) [0..<nat (Dx r)]) [0..<nat (Dy r)])"

definition pixel_at :: "decoded_image \<Rightarrow> rectangle \<Rightarrow> int \<times> int \<Rightarrow> rgba" where
  "pixel_at i r p = im_at i (rc_minX r + fst p) (rc_minY r + snd p)"

definition image_Check :: "(string \<Rightarrow> decoded_image option) \<Rightarrow> string \<Rightarrow> string \<Rightarrow> rectangle option \<Rightarrow> image_error + image_result" where
  "image_Check decode expected actual crop =
     (case decode expected of
        None \<Rightarrow> Inl ExpectedDecodeError
      | Some e \<Rightarrow>
          (case decode actual of
             None \<Rightarrow> Inl ActualDecodeError
           | Some a \<Rightarrow>
               (case (case crop of
                        None \<Rightarrow> Inr (im_bounds e, im_bounds a)
                      | Some selected \<Rightarrow>
                          if rect_Empty selected then Inl (CropError ''crop is empty'')
                          else if \<not> rect_In selected (im_bounds e) \<or> \<not> rect_In selected (im_bounds a)
                          then Inl (CropError ''crop must be fully contained in both images'')
                          else Inr (selected, selected)) of
                  Inl err \<Rightarrow> Inl err
                | Inr (re, ra) \<Rightarrow>
                    if Dx re \<noteq> Dx ra \<or> Dy re \<noteq> Dy ra \<or> rect_Empty re \<or> rect_Empty ra then Inl DimensionMismatchError
                    else (let total = nat (Dx re) * nat (Dy re);
                              different = length (filter (\<lambda>p. pixel_at e re p \<noteq> pixel_at a ra p) (offsets re))
                          in Inr \<lparr>ir_differentPixels = different, ir_totalPixels = total,
                                  ir_differenceRatio = of_nat different / of_nat total\<rparr>))))"

section \<open>Facts\<close>

lemma offsets_facts: "set (offsets r) = {(x, y). 0 \<le> x \<and> x < Dx r \<and> 0 \<le> y \<and> y < Dy r}" "length (offsets r) = nat (Dx r) * nat (Dy r)"
proof -
  show "set (offsets r) = {(x, y). 0 \<le> x \<and> x < Dx r \<and> 0 \<le> y \<and> y < Dy r}"
  proof (rule set_eqI)
    fix p :: "int \<times> int"
    obtain x y where p: "p = (x, y)" by (rule prod.exhaust)
    have "(\<exists>i \<in> {0..<nat (Dy r)}. \<exists>j \<in> {0..<nat (Dx r)}. (x, y) = (int j, int i)) \<longleftrightarrow> 0 \<le> x \<and> x < Dx r \<and> 0 \<le> y \<and> y < Dy r"
    proof
      assume "0 \<le> x \<and> x < Dx r \<and> 0 \<le> y \<and> y < Dy r"
      then show "\<exists>i \<in> {0..<nat (Dy r)}. \<exists>j \<in> {0..<nat (Dx r)}. (x, y) = (int j, int i)"
        by (intro bexI [of _ "nat y"] bexI [of _ "nat x"]) auto
    qed auto
    then show "p \<in> set (offsets r) \<longleftrightarrow> p \<in> {(x, y). 0 \<le> x \<and> x < Dx r \<and> 0 \<le> y \<and> y < Dy r}"
      unfolding p offsets_def by (simp add: image_iff)
  qed
  have "length (concat (map (\<lambda>y. map (\<lambda>x. (int x, int y)) [0..<n]) ys)) = n * length ys" for n and ys :: "nat list"
    by (induction ys) simp_all
  then show "length (offsets r) = nat (Dx r) * nat (Dy r)" by (simp add: offsets_def)
qed

text \<open>A comparison that succeeds counted every pixel of the compared area once: the areas are equally large and
  not empty, the ratio is the number of different pixels over the area, between zero and one, and it is zero
  exactly when the two areas agree at every point. With a crop the area lies inside both images.
\<close>

theorem image_Check_exact:
  assumes "image_Check decode expected actual crop = Inr r" "decode expected = Some e" "decode actual = Some a"
  shows "\<exists>re ra. (case crop of None \<Rightarrow> re = im_bounds e \<and> ra = im_bounds a
        | Some c \<Rightarrow> re = c \<and> ra = c \<and> rect_In c (im_bounds e) \<and> rect_In c (im_bounds a))
    \<and> Dx re = Dx ra \<and> Dy re = Dy ra \<and> 0 < Dx re \<and> 0 < Dy re
    \<and> ir_totalPixels r = nat (Dx re * Dy re) \<and> ir_differentPixels r \<le> ir_totalPixels r
    \<and> ir_differenceRatio r = of_nat (ir_differentPixels r) / of_nat (ir_totalPixels r)
    \<and> 0 \<le> ir_differenceRatio r \<and> ir_differenceRatio r \<le> 1
    \<and> (ir_differenceRatio r = 0 \<longleftrightarrow> (\<forall>x y. 0 \<le> x \<and> x < Dx re \<and> 0 \<le> y \<and> y < Dy re \<longrightarrow> pixel_at e re (x, y) = pixel_at a ra (x, y)))"
proof -
  obtain re ra where area: "(case crop of None \<Rightarrow> re = im_bounds e \<and> ra = im_bounds a
        | Some c \<Rightarrow> re = c \<and> ra = c \<and> rect_In c (im_bounds e) \<and> rect_In c (im_bounds a))"
      "Dx re = Dx ra" "Dy re = Dy ra" "\<not> rect_Empty re"
    and r: "r = \<lparr>ir_differentPixels = length (filter (\<lambda>p. pixel_at e re p \<noteq> pixel_at a ra p) (offsets re)),
        ir_totalPixels = nat (Dx re) * nat (Dy re),
        ir_differenceRatio = of_nat (length (filter (\<lambda>p. pixel_at e re p \<noteq> pixel_at a ra p) (offsets re)))
          / of_nat (nat (Dx re) * nat (Dy re))\<rparr>"
    using assms by (auto simp: image_Check_def Let_def split: option.splits if_splits)
  let ?bad = "filter (\<lambda>p. pixel_at e re p \<noteq> pixel_at a ra p) (offsets re)"
  have size: "0 < Dx re" "0 < Dy re" using area(4) by (auto simp: rect_Empty_def Dx_def Dy_def)
  have le: "length ?bad \<le> nat (Dx re) * nat (Dy re)" using offsets_facts(2) [of re] length_filter_le [of _ "offsets re"] by metis
  have total: "0 < nat (Dx re) * nat (Dy re)" "nat (Dx re) * nat (Dy re) = nat (Dx re * Dy re)" using size by (simp_all add: nat_mult_distrib)
  have share: "(of_nat (length ?bad) :: rat) / of_nat (nat (Dx re) * nat (Dy re)) \<le> 1"
    using le total(1) by (simp add: divide_le_eq del: of_nat_mult)
  have "?bad = [] \<longleftrightarrow> (\<forall>x y. 0 \<le> x \<and> x < Dx re \<and> 0 \<le> y \<and> y < Dy re \<longrightarrow> pixel_at e re (x, y) = pixel_at a ra (x, y))"
    by (auto simp: filter_empty_conv offsets_facts(1))
  moreover have "(of_nat (length ?bad) :: rat) / of_nat (nat (Dx re) * nat (Dy re)) = 0 \<longleftrightarrow> ?bad = []" using total(1) by simp
  ultimately show ?thesis
    using area(1-3) size le total share unfolding r by (intro exI [of _ re] exI [of _ ra]) simp
qed

definition two_pixels :: "string \<Rightarrow> decoded_image option" where
  "two_pixels s = Some \<lparr>im_bounds = \<lparr>rc_minX = 0, rc_minY = 0, rc_maxX = 2, rc_maxY = 1\<rparr>,
     im_at = (\<lambda>x y. if s = ''a'' \<and> x = 1 then (0, 0, 0, 65535) else (65535, 65535, 65535, 65535))\<rparr>"

theorem image_Check_exact_witness:
  "\<exists>r. image_Check two_pixels ''a'' ''b'' None = Inr r \<and> ir_differentPixels r = 1 \<and> ir_differenceRatio r = 1 / 2 \<and> ir_totalPixels r = nat (2 * 1)"
proof -
  obtain e a where e: "two_pixels ''a'' = Some e" "two_pixels ''b'' = Some a" by (simp add: two_pixels_def)
  have r: "image_Check two_pixels ''a'' ''b'' None = Inr \<lparr>ir_differentPixels = 1, ir_totalPixels = 2, ir_differenceRatio = 1 / 2\<rparr>"
    by (simp add: image_Check_def two_pixels_def Let_def offsets_def pixel_at_def rect_Empty_def Dx_def Dy_def upt_rec numeral_2_eq_2)
  show ?thesis using image_Check_exact [OF r e] r by simp
qed

end
