(* ===== verification/Tap.thy ===== *)
theory Tap
  imports Snapshot Lookup Image_Check Composite Preflight
begin

text \<open>
  The tap handler (\<^verbatim>\<open>internal/engine/tap_handlers.go\<close>): its points, its compilation and evaluation, and
  its execution over the lookup, the driver and the image checker. The driver and the clock of a session are
  never nil, so only the image checker can be missing. A coordinate fits 64 bits.
\<close>

section \<open>Points\<close>

datatype tap_target_mode = tapTargetInvalid | tapTargetSelectorCenter | tapTargetScreenPoint | tapTargetSelectorPoint
datatype tap_coordinate_mode = tapCoordinateInvalid | tapCoordinateAbsolute | tapCoordinatePercent

record tap_point_plan =
  tpp_mode :: tap_coordinate_mode
  tpp_x :: int
  tpp_y :: int

definition maximumInt64 :: int where "maximumInt64 = 2 ^ 63 - 1"

definition tap_refusal :: "string \<Rightarrow> go_error" where
  "tap_refusal message = NewConfigurationError message None"

definition strictBase10Integer :: "string \<Rightarrow> bool" where
  "strictBase10Integer value =
     (value \<noteq> '''' \<and> (if hd value = CHR ''-'' then tl value \<noteq> '''' \<and> list_all (\<lambda>c. digit_value c \<noteq> None) (tl value)
                       else list_all (\<lambda>c. digit_value c \<noteq> None) value))"

text \<open>One coordinate: its value and whether it is a percentage. The cause is \<^verbatim>\<open>strconv\<close>'s error.\<close>

definition parse_coordinate :: "go_error \<Rightarrow> string \<Rightarrow> go_error + int \<times> bool" where
  "parse_coordinate range_error source =
     (let token = TrimSpace source;
          percent = (token \<noteq> '''' \<and> last token = CHR ''%'');
          digits = (if percent then butlast token else token)
      in if token = '''' then Inl (tap_refusal ''command tapOn point contains an empty coordinate'')
         else if \<not> strictBase10Integer digits then Inl (tap_refusal ''command tapOn point coordinates must be base-10 integers'')
         else case Atoi digits of
                None \<Rightarrow> Inl (NewConfigurationError ''command tapOn point coordinate is outside the supported integer range'' (Some range_error))
              | Some v \<Rightarrow>
                  if v < 0 then Inl (tap_refusal ''command tapOn point coordinates must not be negative'')
                  else if percent \<and> v \<ge> 100 then Inl (tap_refusal ''command tapOn percentage coordinates must be less than 100'')
                  else Inr (v, percent))"

definition parseTapPoint :: "go_error \<Rightarrow> string \<Rightarrow> go_error + tap_point_plan" where
  "parseTapPoint range_error source =
     (case split_at (CHR '','') '''' source of
        [left, right] \<Rightarrow>
          (case parse_coordinate range_error left of
             Inl e \<Rightarrow> Inl e
           | Inr (x, percentX) \<Rightarrow>
               (case parse_coordinate range_error right of
                  Inl e \<Rightarrow> Inl e
                | Inr (y, percentY) \<Rightarrow>
                    if percentX \<noteq> percentY
                    then Inl (tap_refusal ''command tapOn point coordinates must both be absolute or both be percentages'')
                    else Inr \<lparr>tpp_mode = (if percentX then tapCoordinatePercent else tapCoordinateAbsolute), tpp_x = x, tpp_y = y\<rparr>))
      | _ \<Rightarrow> Inl (tap_refusal ''command tapOn point requires exactly two comma-separated integers''))"

text \<open>Division here is of values that are not negative, where Go's truncation is flooring.\<close>

definition floorTapPercentage :: "int \<Rightarrow> int \<Rightarrow> int" where
  "floorTapPercentage dimension percent =
     (let quotient = dimension div 100; remainder = dimension mod 100
      in wrap64 (wrap64 (quotient * percent) + wrap64 (remainder * percent) div 100))"

definition resolveAxis :: "tap_coordinate_mode \<Rightarrow> int \<Rightarrow> int \<Rightarrow> string \<Rightarrow> go_error + int" where
  "resolveAxis mode dimension authored axis =
     (if dimension \<le> 0 then Inl (tap_refusal (''tapOn '' @ axis @ '' dimension must be positive''))
      else case mode of
        tapCoordinateAbsolute \<Rightarrow>
          if authored < 0 \<or> authored \<ge> dimension
          then Inl (tap_refusal (''tapOn absolute '' @ axis @ '' coordinate is outside the half-open bounds''))
          else Inr authored
      | tapCoordinatePercent \<Rightarrow>
          if authored < 0 \<or> authored \<ge> 100
          then Inl (tap_refusal (''tapOn percentage '' @ axis @ '' coordinate is outside [0,100)''))
          else Inr (floorTapPercentage dimension authored)
      | tapCoordinateInvalid \<Rightarrow> Inl (tap_refusal ''tapOn coordinate mode is invalid''))"

definition addTapCoordinate :: "int \<Rightarrow> int \<Rightarrow> go_error + int" where
  "addTapCoordinate origin offset =
     (if offset > 0 \<and> origin > wrap64 (maximumInt64 - offset)
      then Inl (tap_refusal ''tapOn relative coordinate overflows the supported integer range'')
      else Inr (wrap64 (origin + offset)))"

definition resolveScreen :: "tap_point_plan \<Rightarrow> int \<Rightarrow> int \<Rightarrow> go_error + point" where
  "resolveScreen p width height =
     (if width \<le> 0 \<or> height \<le> 0 then Inl (tap_refusal ''tapOn requires a positive screen grid'')
      else case resolveAxis (tpp_mode p) width (tpp_x p) ''x'' of
             Inl e \<Rightarrow> Inl e
           | Inr x \<Rightarrow> (case resolveAxis (tpp_mode p) height (tpp_y p) ''y'' of
               Inl e \<Rightarrow> Inl e
             | Inr y \<Rightarrow> Inr \<lparr>p_x = of_int x, p_y = of_int y\<rparr>))"

definition resolveRelative :: "tap_point_plan \<Rightarrow> bounds \<Rightarrow> go_error + point" where
  "resolveRelative p b =
     (if b_width b \<le> 0 \<or> b_height b \<le> 0 then Inl (tap_refusal ''tapOn relative point requires positive stable bounds'')
      else case resolveAxis (tpp_mode p) (b_width b) (tpp_x p) ''x'' of
             Inl e \<Rightarrow> Inl e
           | Inr dx \<Rightarrow> (case resolveAxis (tpp_mode p) (b_height b) (tpp_y p) ''y'' of
               Inl e \<Rightarrow> Inl e
             | Inr dy \<Rightarrow> (case addTapCoordinate (b_x b) dx of
                 Inl e \<Rightarrow> Inl e
               | Inr x \<Rightarrow> (case addTapCoordinate (b_y b) dy of
                   Inl e \<Rightarrow> Inl e
                 | Inr y \<Rightarrow> Inr \<lparr>p_x = of_int x, p_y = of_int y\<rparr>))))"

section \<open>Compilation\<close>

definition RepeatDelayMillis :: int where "RepeatDelayMillis = 100"

record tapOnCompiled =
  tc_targetMode :: tap_target_mode
  tc_point :: "tap_point_plan option"
  tc_pointRequiresEval :: bool
  tc_repeat :: int
  tc_repeatPresent :: bool
  tc_delayMillis :: int
  tc_delayMetadata :: bool
  tc_settleTimeout :: "int option"
  tc_retryTapIfNoChange :: bool
  tc_waitUntilVisible :: bool

primrec validateTapSelectorModifierSemantics :: "string \<Rightarrow> element_selector \<Rightarrow> go_error option" where
  "validateTapSelectorModifierSemantics keyword (ElementSelector f lower upper leftOf rightOf child descs childOf src fsrc) =
     (if (case sel_size f of None \<Rightarrow> False | Some z \<Rightarrow> size_width z = None \<and> size_height z = None)
      then Some (tap_refusal (''command '' @ keyword @ '' selector tolerance requires width or height''))
      else first_error
        (map (\<lambda>n. case n of None \<Rightarrow> None | Some e \<Rightarrow> e)
           [map_option (validateTapSelectorModifierSemantics keyword) lower, map_option (validateTapSelectorModifierSemantics keyword) upper,
            map_option (validateTapSelectorModifierSemantics keyword) leftOf, map_option (validateTapSelectorModifierSemantics keyword) rightOf,
            map_option (validateTapSelectorModifierSemantics keyword) child, map_option (validateTapSelectorModifierSemantics keyword) childOf]
         @ elems (map_option (map (validateTapSelectorModifierSemantics keyword)) descs)))"

definition tapPointOnlyHasUnrelatedSelectorFields :: "element_selector \<Rightarrow> bool" where
  "tapPointOnlyHasUnrelatedSelectorFields s \<longleftrightarrow>
     (let f = sel_fields s in
        sel_textRegex f \<noteq> None \<or> sel_idRegex f \<noteq> None \<or> sel_size f \<noteq> None
      \<or> sel_below s \<noteq> None \<or> sel_above s \<noteq> None \<or> sel_leftOf s \<noteq> None \<or> sel_rightOf s \<noteq> None
      \<or> sel_containsChild s \<noteq> None \<or> sel_containsDescendants s \<noteq> None \<or> sel_childOf s \<noteq> None
      \<or> sel_traits f \<noteq> None \<or> sel_index f \<noteq> None \<or> sel_enabled f \<noteq> None \<or> sel_selected f \<noteq> None
      \<or> sel_checked f \<noteq> None \<or> sel_focused f \<noteq> None \<or> sel_css f \<noteq> None)"

definition unsupportedTapFeature :: "selector_fields \<Rightarrow> bool \<Rightarrow> string option" where
  "unsupportedTapFeature f topLevel =
     (if sel_start f \<noteq> None then Some ''start''
      else if sel_end f \<noteq> None then Some ''end''
      else if \<not> topLevel \<and> sel_retryTapIfNoChange f \<noteq> None then Some ''retryTapIfNoChange''
      else if \<not> topLevel \<and> sel_waitUntilVisible f \<noteq> None then Some ''waitUntilVisible''
      else if \<not> topLevel \<and> sel_point f \<noteq> None then Some ''nested point''
      else if \<not> topLevel \<and> sel_repeat f \<noteq> None then Some ''nested repeat''
      else if \<not> topLevel \<and> sel_delay f \<noteq> None then Some ''nested delay''
      else if \<not> topLevel \<and> sel_waitToSettleTimeoutMS f \<noteq> None then Some ''nested waitToSettleTimeoutMs''
      else if \<not> topLevel \<and> sel_optional f \<noteq> None then Some ''nested optional''
      else None)"

primrec validateTapSelectorFeatures :: "string \<Rightarrow> element_selector \<Rightarrow> bool \<Rightarrow> go_error option" where
  "validateTapSelectorFeatures keyword (ElementSelector f lower upper leftOf rightOf child descs childOf src fsrc) = (\<lambda>topLevel.
     case unsupportedTapFeature f topLevel of
       Some feature \<Rightarrow> Some (tap_refusal (''command '' @ keyword @ '' selector feature '' @ feature @ '' is not implemented''))
     | None \<Rightarrow> first_error
        (map (\<lambda>n. case n of None \<Rightarrow> None | Some v \<Rightarrow> v False)
           [map_option (validateTapSelectorFeatures keyword) lower, map_option (validateTapSelectorFeatures keyword) upper,
            map_option (validateTapSelectorFeatures keyword) leftOf, map_option (validateTapSelectorFeatures keyword) rightOf,
            map_option (validateTapSelectorFeatures keyword) child, map_option (validateTapSelectorFeatures keyword) childOf]
         @ map (\<lambda>v. v False) (elems (map_option (map (validateTapSelectorFeatures keyword)) descs))))"

definition validateTapOnCommand :: "command \<Rightarrow> go_error option" where
  "validateTapOnCommand c =
     (if cmd_form c \<noteq> CommandFormObject then Some (commandDecodeError (cmd_kind c) ''requires object form with a selector or point'')
      else case cmd_selector c of
        None \<Rightarrow> Some (commandDecodeError (cmd_kind c) ''requires a selector or point'')
      | Some s \<Rightarrow>
          if elems (cmd_children c) \<noteq> [] then Some (commandDecodeError (cmd_kind c) ''must not contain child commands'')
          else if \<not> selectorCommandSnapshotMatches c
          then Some (tap_refusal ''command tapOn selector, label, or optional flag does not match its typed snapshot'')
          else case validateTapSelectorFeatures (cmd_kind c) s True of
            Some e \<Rightarrow> Some e
          | None \<Rightarrow>
              (case validateTapSelectorModifierSemantics (cmd_kind c) s of
                 Some e \<Rightarrow> Some e
               | None \<Rightarrow>
                   if \<not> selectorHasImplementedTarget s
                   then (if sel_point (sel_fields s) = None
                         then Some (tap_refusal ''command tapOn requires an implemented target predicate or point'')
                         else if sel_waitUntilVisible (sel_fields s) \<noteq> None
                         then Some (tap_refusal ''command tapOn point-only form cannot observe waitUntilVisible'')
                         else if tapPointOnlyHasUnrelatedSelectorFields s
                         then Some (tap_refusal ''command tapOn point-only form contains unrelated selector fields'')
                         else None)
                   else validateImplementedSelectorTargets (cmd_kind c) s ''selector''))"

definition tap_target_mode_of :: "element_selector \<Rightarrow> tap_target_mode" where
  "tap_target_mode_of s =
     (if sel_point (sel_fields s) \<noteq> None \<and> selectorHasImplementedTarget s then tapTargetSelectorPoint
      else if sel_point (sel_fields s) \<noteq> None then tapTargetScreenPoint else tapTargetSelectorCenter)"

text \<open>The point that is known at compile time, if any.\<close>

definition compile_point :: "go_error \<Rightarrow> selector_fields \<Rightarrow> go_error + tap_point_plan option" where
  "compile_point range_error f =
     (case sel_point f of
        None \<Rightarrow> Inr None
      | Some source \<Rightarrow>
          if hasInterpolationExpression source then Inr None
          else (case parseTapPoint range_error source of Inl e \<Rightarrow> Inl e | Inr p \<Rightarrow> Inr (Some p)))"

definition compileTapOn :: "go_error \<Rightarrow> command \<Rightarrow> go_error + tapOnCompiled" where
  "compileTapOn range_error c =
     (case validateTapOnCommand c of
        Some e \<Rightarrow> Inl e
      | None \<Rightarrow>
          (case cmd_selector c of
             None \<Rightarrow> Inl (commandDecodeError (cmd_kind c) ''requires a selector or point'')
           | Some s \<Rightarrow>
               (let f = sel_fields s in
                case compile_point range_error f of
                  Inl e \<Rightarrow> Inl e
                | Inr p \<Rightarrow>
                    if (case sel_repeat f of None \<Rightarrow> False | Some r \<Rightarrow> r < 1)
                    then Inl (tap_refusal ''command tapOn repeat must be at least 1'')
                    else if (case sel_delay f of None \<Rightarrow> False | Some d \<Rightarrow> d < 0)
                    then Inl (tap_refusal ''command tapOn delay must not be negative'')
                    else (let present = (sel_repeat f \<noteq> None);
                              delay = (if \<not> present then 0 else case sel_delay f of None \<Rightarrow> RepeatDelayMillis | Some d \<Rightarrow> d)
                          in if delay > maximumInt64 div 1000000 then Inl (tap_refusal ''command tapOn delay is too large'')
                             else Inr \<lparr>tc_targetMode = tap_target_mode_of s, tc_point = p,
                               tc_pointRequiresEval = (case sel_point f of None \<Rightarrow> False | Some t \<Rightarrow> hasInterpolationExpression t),
                               tc_repeat = (case sel_repeat f of None \<Rightarrow> 1 | Some r \<Rightarrow> r), tc_repeatPresent = present,
                               tc_delayMillis = delay, tc_delayMetadata = present, tc_settleTimeout = sel_waitToSettleTimeoutMS f,
                               tc_retryTapIfNoChange = (sel_retryTapIfNoChange f = Some True),
                               tc_waitUntilVisible = (sel_waitUntilVisible f = Some True)\<rparr>))))"
end
