(* ===== verification/Tap_Run.thy ===== *)
theory Tap_Run
  imports Tap
begin

text \<open>
  Evaluation and execution of a tap (\<^verbatim>\<open>internal/engine/tap_handlers.go\<close>). Evaluation is a handler program;
  execution works over the lookup and the driver as the polling loops do, and may in the model fail to return as
  they may: its result is \<open>None\<close> then. Services that a tap uses beside the lookup's are in \<open>tap_services\<close>.
  Coordinates are converted to points exactly, as Go does below \<^verbatim>\<open>2^53\<close>.
\<close>

section \<open>Evaluation\<close>

record tapOnEvaluated =
  te_appID :: string
  te_targetMode :: tap_target_mode
  te_targetSelector :: "element_selector option"
  te_optional :: bool
  te_point :: "tap_point_plan option"
  te_repeat :: int
  te_delay :: int
  te_settle :: "int option"
  te_retryTapIfNoChange :: bool
  te_waitUntilVisible :: bool

datatype tap_payload = TapCompiled tapOnCompiled | TapEvaluated tapOnEvaluated | OtherPayload

definition zero_tap :: tapOnEvaluated where
  "zero_tap = \<lparr>te_appID = '''', te_targetMode = tapTargetInvalid, te_targetSelector = None, te_optional = False, te_point = None,
     te_repeat = 0, te_delay = 0, te_settle = None, te_retryTapIfNoChange = False, te_waitUntilVisible = False\<rparr>"

definition ActiveAppID :: "('w, go_error + string) prog" where
  "ActiveAppID = Host ConfigRequest (\<lambda>r. Done (case r of
     ConfigReply c \<Rightarrow> Inr (EffectiveAppID c)
   | Refused e \<Rightarrow> Inl e
   | _ \<Rightarrow> Inl (tap_refusal ''active flow configuration is unavailable'')))"

text \<open>The fields of a selector that a tap rewrites.\<close>

definition with_fields :: "(selector_fields \<Rightarrow> selector_fields) \<Rightarrow> element_selector \<Rightarrow> element_selector" where
  "with_fields change s = (case s of ElementSelector f lower upper leftOf rightOf child descs childOf src fsrc \<Rightarrow>
     ElementSelector (change f) lower upper leftOf rightOf child descs childOf src fsrc)"

definition updateTapEvaluatedMetadata :: "tapOnCompiled \<Rightarrow> command \<Rightarrow> command" where
  "updateTapEvaluatedMetadata p c =
     (case cmd_selector c of
        None \<Rightarrow> c
      | Some s \<Rightarrow>
          (let recorded = (if tc_repeatPresent p \<and> tc_delayMetadata p then Some (tc_delayMillis p) else None);
               c' = set_selector (Some (with_fields (\<lambda>f. f\<lparr>sel_delay := recorded\<rparr>) s)) c
           in case cmd_arguments c of
                DynMap m \<Rightarrow>
                  (let cloned = (case cloneDynamic (DynMap m) of DynMap m' \<Rightarrow> m' | _ \<Rightarrow> None)
                   in set_arguments (DynMap (case recorded of
                        Some d \<Rightarrow> Some (map_put ''delay'' (DynInt d) (elems cloned))
                      | None \<Rightarrow> map_option (filter (\<lambda>(k, v). k \<noteq> ''delay'')) cloned)) c')
              | _ \<Rightarrow> c'))"

definition tapTargetOnlySelector :: "command \<Rightarrow> go_error + element_selector" where
  "tapTargetOnlySelector c =
     (case cmd_selector c of
        None \<Rightarrow> Inl (tap_refusal ''tapOn requires a selector target'')
      | Some s \<Rightarrow>
          if \<not> selectorHasImplementedTarget s then Inl (tap_refusal ''tapOn requires a selector target'')
          else Inr (with_fields (\<lambda>f. f\<lparr>sel_point := None, sel_repeat := None, sel_delay := None, sel_retryTapIfNoChange := None,
                      sel_waitUntilVisible := None, sel_waitToSettleTimeoutMS := None, sel_optional := None, sel_label := None\<rparr>)
                 (cloneSelector s)))"

definition effectiveTapSettleTimeout :: "int option \<Rightarrow> int option" where
  "effectiveTapSettleTimeout authored =
     map_option (\<lambda>ms. let lower = (if ms < 0 then 0 else ms); maximum = MaximumSettleTimeout div 1000000
                      in if lower > maximum then maximum else lower) authored"

text \<open>The point of the evaluated command, when its target has one.\<close>

definition evaluated_point :: "go_error \<Rightarrow> tapOnCompiled \<Rightarrow> command \<Rightarrow> go_error + tap_point_plan option" where
  "evaluated_point range_error p c =
     (if tc_targetMode p = tapTargetScreenPoint \<or> tc_targetMode p = tapTargetSelectorPoint
      then (case Option.bind (cmd_selector c) (\<lambda>s. sel_point (sel_fields s)) of
              None \<Rightarrow> Inl (tap_refusal ''tapOn evaluated point is unavailable'')
            | Some source \<Rightarrow>
                if tc_pointRequiresEval p then (case parseTapPoint range_error source of Inl e \<Rightarrow> Inl e | Inr q \<Rightarrow> Inr (Some q))
                else (case tc_point p of None \<Rightarrow> Inl (tap_refusal ''tapOn compiled point is unavailable'') | Some q \<Rightarrow> Inr (Some q)))
      else Inr None)"

definition evaluated_target :: "tapOnCompiled \<Rightarrow> command \<Rightarrow> go_error + element_selector option" where
  "evaluated_target p c =
     (if tc_targetMode p = tapTargetSelectorCenter \<or> tc_targetMode p = tapTargetSelectorPoint
      then (case tapTargetOnlySelector c of Inl e \<Rightarrow> Inl e | Inr s \<Rightarrow> Inr (Some s))
      else Inr None)"

definition tap_plan_of :: "tapOnCompiled \<Rightarrow> string \<Rightarrow> tap_point_plan option \<Rightarrow> element_selector option \<Rightarrow> command \<Rightarrow> tapOnEvaluated" where
  "tap_plan_of p appID point target c = \<lparr>te_appID = appID, te_targetMode = tc_targetMode p, te_targetSelector = target,
     te_optional = commandIsOptional c, te_point = point, te_repeat = tc_repeat p, te_delay = wrap64 (tc_delayMillis p * 1000000),
     te_settle = effectiveTapSettleTimeout (tc_settleTimeout p), te_retryTapIfNoChange = tc_retryTapIfNoChange p,
     te_waitUntilVisible = tc_waitUntilVisible p\<rparr>"

definition evaluateTapOn :: "'w handler_services \<Rightarrow> go_error \<Rightarrow> command \<Rightarrow> tap_payload
    \<Rightarrow> ('w, tap_payload evaluated_dispatch \<times> go_error option) prog" where
  "evaluateTapOn S range_error c compiled =
     (case compiled of
        TapCompiled p \<Rightarrow> prog_bind (evaluateSelectorCommand S c) (\<lambda>(evaluated, err).
          (let result = (\<lambda>c plan e. Done (\<lparr>ed_command = c, ed_value = Some (TapEvaluated plan)\<rparr>, e)) in
           if err \<noteq> None then result evaluated zero_tap err
           else prog_bind ActiveAppID (\<lambda>rawAppID. case rawAppID of
             Inl e \<Rightarrow> result evaluated zero_tap (Some e)
           | Inr rawAppID \<Rightarrow> prog_bind (Interpolate S rawAppID) (\<lambda>appID. case appID of
               Inl e \<Rightarrow> result evaluated zero_tap (Some e)
             | Inr appID \<Rightarrow>
                 if TrimSpace appID = '''' then result evaluated zero_tap (Some (tap_refusal ''tapOn requires an active appId''))
                 else (case evaluated_point range_error p evaluated of
                   Inl e \<Rightarrow> result evaluated zero_tap (Some e)
                 | Inr point \<Rightarrow>
                     (let evaluated = updateTapEvaluatedMetadata p evaluated in
                      case evaluated_target p evaluated of
                        Inl e \<Rightarrow> result evaluated zero_tap (Some e)
                      | Inr target \<Rightarrow> result evaluated (tap_plan_of p appID point target evaluated) None))))))
      | _ \<Rightarrow> Done (zero_evaluated, Some (tap_refusal ''tapOn received an invalid compiled payload'')))"


section \<open>Execution\<close>

text \<open>
  \<open>ts_lookup\<close> obtains the session's lookup; the image checker may be missing. Screenshots are their bytes.
\<close>

record 'w tap_services =
  ts_driver :: "'w driver_services"
  ts_foreign :: foreign
  ts_lookup :: "'w \<Rightarrow> go_error option \<times> 'w"
  ts_tap :: "string \<Rightarrow> point \<Rightarrow> 'w \<Rightarrow> go_error option \<times> 'w"
  ts_screenshot :: "'w \<Rightarrow> (go_error + string) \<times> 'w"
  ts_images :: "(string \<Rightarrow> string \<Rightarrow> 'w \<Rightarrow> (go_error + image_result) \<times> 'w) option"
  ts_imageError :: "image_error \<Rightarrow> go_error"
  ts_showPoint :: "point \<Rightarrow> string"

type_synonym ('w, 'a) run_op = "element_lookup \<times> 'w \<Rightarrow> ((go_error + 'a) \<times> element_lookup \<times> 'w) option"

definition run_op :: "('w, 'a) lookup_op \<Rightarrow> ('w, 'a) run_op" where
  "run_op m s = Some (m s)"

definition run_bind :: "('w, 'a) run_op \<Rightarrow> ('a \<Rightarrow> ('w, 'b) run_op) \<Rightarrow> ('w, 'b) run_op" where
  "run_bind m f s = (case m s of None \<Rightarrow> None | Some r \<Rightarrow> op_then_loop (\<lambda>_. r) f s)"

definition run_fail :: "go_error \<Rightarrow> ('w, 'a) run_op" where "run_fail e = run_op (op_fail e)"
definition run_return :: "'a \<Rightarrow> ('w, 'a) run_op" where "run_return a = run_op (op_return a)"

definition error_only :: "('w \<Rightarrow> go_error option \<times> 'w) \<Rightarrow> 'w \<Rightarrow> (go_error + unit) \<times> 'w" where
  "error_only f w = (case f w of (Some e, w') \<Rightarrow> (Inl e, w') | (None, w') \<Rightarrow> (Inr (), w'))"

text \<open>A call of the driver whose error, and only that, gives way to the context's.\<close>

definition ctx_on_error :: "'w driver_services \<Rightarrow> ('w \<Rightarrow> go_error option \<times> 'w) \<Rightarrow> ('w, unit) lookup_op" where
  "ctx_on_error D f = (\<lambda>(l, w). case f w of
     (None, w') \<Rightarrow> (Inr (), l, w')
   | (Some e, w') \<Rightarrow> (case dr_ctx D w' of (Some c, w'') \<Rightarrow> (Inl c, l, w'') | (None, w'') \<Rightarrow> (Inl e, l, w'')))"

definition record_interaction :: "'w driver_services \<Rightarrow> ('w, unit) lookup_op" where
  "record_interaction D = (\<lambda>(l, w). case dr_now D w of (t, w') \<Rightarrow> (Inr (), RecordInteraction t l, w'))"

definition elementAppID :: "string \<Rightarrow> tap_target_mode \<Rightarrow> string" where
  "elementAppID appID mode = (if mode = tapTargetScreenPoint then '''' else appID)"

definition bad_point :: "tapOnEvaluated \<Rightarrow> bool" where
  "bad_point p \<longleftrightarrow> (case te_point p of None \<Rightarrow> True | Some q \<Rightarrow> tpp_mode q = tapCoordinateInvalid)"

definition validateTapExecutionPlan :: "tapOnEvaluated \<Rightarrow> go_error option" where
  "validateTapExecutionPlan p =
     (let target = (case te_targetMode p of
          tapTargetSelectorCenter \<Rightarrow>
            (if te_point p \<noteq> None then Some (tap_refusal ''tapOn selector-center plan must not contain a point'')
             else if te_targetSelector p = None then Some (tap_refusal ''tapOn selector-center plan requires a selector'') else None)
        | tapTargetScreenPoint \<Rightarrow>
            (if bad_point p then Some (tap_refusal ''tapOn point plan is invalid'')
             else if te_targetSelector p \<noteq> None then Some (tap_refusal ''tapOn screen-point plan must not contain a selector'') else None)
        | tapTargetSelectorPoint \<Rightarrow>
            (if bad_point p \<or> te_targetSelector p = None then Some (tap_refusal ''tapOn selector-point plan is invalid'') else None)
        | tapTargetInvalid \<Rightarrow> Some (tap_refusal ''tapOn target mode is invalid''))
      in if TrimSpace (te_appID p) = '''' then Some (tap_refusal ''tapOn evaluated plan requires a non-blank appId'')
         else if te_repeat p < 1 \<or> te_delay p < 0 then Some (tap_refusal ''tapOn evaluated repeat/delay plan is invalid'')
         else if target \<noteq> None then target
         else if (case te_settle p of None \<Rightarrow> False | Some ms \<Rightarrow> ms < 0 \<or> ms > MaximumSettleTimeout div 1000000)
         then Some (tap_refusal ''tapOn effective settle timeout is invalid'')
         else if te_waitUntilVisible p \<and> te_targetMode p = tapTargetScreenPoint
         then Some (tap_refusal ''tapOn point-only plan cannot observe waitUntilVisible'') else None)"

text \<open>Where the tap lands: on the screen grid, or on the stable element that the selector found.\<close>

definition point_of :: "tapOnEvaluated \<Rightarrow> tap_point_plan" where
  "point_of p = (case te_point p of Some q \<Rightarrow> q | None \<Rightarrow> \<lparr>tpp_mode = tapCoordinateInvalid, tpp_x = 0, tpp_y = 0\<rparr>)"

definition aim_at :: "'w tap_services \<Rightarrow> tapOnEvaluated \<Rightarrow> stability_result \<Rightarrow> ('w, point) lookup_op" where
  "aim_at S p st =
     (if te_targetMode p = tapTargetSelectorCenter then tapCenter (ts_driver S) st (te_appID p)
      else (case resolveRelative (point_of p) (st_bounds st) of
              Inl e \<Rightarrow> op_fail e
            | Inr q \<Rightarrow> onScreen (ts_driver S) (ts_showPoint S) q))"

definition resolveTapPoint :: "'w tap_services \<Rightarrow> tapOnEvaluated \<Rightarrow> ('w, point) run_op" where
  "resolveTapPoint S p =
     (case te_targetMode p of
        tapTargetScreenPoint \<Rightarrow>
          run_op (op_bind (cachedDeviceInfo (ts_driver S)) (\<lambda>info. op_lift (resolveScreen (point_of p) (di_widthGrid info) (di_heightGrid info))))
      | tapTargetInvalid \<Rightarrow> run_fail (tap_refusal ''tapOn target mode is invalid'')
      | _ \<Rightarrow>
          (case te_targetSelector p of
             None \<Rightarrow> run_fail (tap_refusal ''tapOn selector target is unavailable'')
           | Some s \<Rightarrow>
               run_bind (lookup_Find (ts_driver S) (cloneSelector s) \<lparr>lo_optional = te_optional p, lo_timeout = None\<rparr>) (\<lambda>e. case e of
                 None \<Rightarrow> run_fail (NewOperationError ''tapOn target not found'' None)
               | Some e \<Rightarrow> run_bind (WaitForElementStability (ts_driver S) e) (\<lambda>st. run_op (aim_at S p st)))))"

text \<open>One tap, recorded, and the pause to the next one, if there is one.\<close>

definition one_tap :: "'w tap_services \<Rightarrow> tapOnEvaluated \<Rightarrow> point \<Rightarrow> ('w, unit) lookup_op" where
  "one_tap S p q =
     op_bind (check_ctx (ts_driver S)) (\<lambda>_.
     op_bind (ctx_on_error (ts_driver S) (ts_tap S (elementAppID (te_appID p) (te_targetMode p)) q)) (\<lambda>_.
     op_bind (record_interaction (ts_driver S)) (\<lambda>_. check_ctx (ts_driver S))))"

fun tap_batch :: "'w tap_services \<Rightarrow> tapOnEvaluated \<Rightarrow> point \<Rightarrow> nat \<Rightarrow> ('w, unit) lookup_op" where
  "tap_batch S p q 0 = op_return ()"
| "tap_batch S p q (Suc n) =
     op_bind (one_tap S p q) (\<lambda>_.
       if n = 0 then op_return ()
       else op_bind (cancellable_wait (ts_driver S) (te_delay p)) (\<lambda>_. tap_batch S p q n))"

definition waitForTapOwnedSettle :: "'w tap_services \<Rightarrow> tapOnEvaluated \<Rightarrow> tree_node option \<Rightarrow> ('w, tree_node option) run_op" where
  "waitForTapOwnedSettle S p initial s =
     (case WaitForHierarchySettle (ts_driver S) \<lparr>sr_initial = initial, sr_app = te_appID p, sr_timeout = te_settle p\<rparr> s of
        None \<Rightarrow> None
      | Some ((latest, None), s') \<Rightarrow> Some (Inr latest, s')
      | Some ((latest, Some e), s') \<Rightarrow>
          (case normalizeTerminalError (ts_foreign S) ''command tapOn settle failed'' (Some e) of
             None \<Rightarrow> Some (Inr latest, s')
           | Some normalized \<Rightarrow>
               if classifyTerminalError (ts_foreign S) (Some normalized) \<in> {terminalErrorCancelled, terminalErrorDeviceConnection, terminalErrorConfiguration}
               then Some (Inl normalized, s') else Some (Inr latest, s')))"

definition executeResolvedTapBatch :: "'w tap_services \<Rightarrow> tapOnEvaluated \<Rightarrow> point \<Rightarrow> tree_node option \<Rightarrow> ('w, tree_node option) run_op" where
  "executeResolvedTapBatch S p q initial =
     run_bind (run_op (tap_batch S p q (nat (te_repeat p)))) (\<lambda>_. waitForTapOwnedSettle S p initial)"


text \<open>What the screen shows before the taps, and after them.\<close>

definition captureTapRetryHierarchy :: "'w tap_services \<Rightarrow> ('w, tree_node) lookup_op" where
  "captureTapRetryHierarchy S = op_bind (check_ctx (ts_driver S)) (\<lambda>_ (l, w).
     ctx_first (ts_driver S) (dr_descriptor (ts_driver S) (activeAppIDs l)) (l, w))"

definition captureTapRetryScreenshot :: "'w tap_services \<Rightarrow> ('w, string) lookup_op" where
  "captureTapRetryScreenshot S = op_bind (check_ctx (ts_driver S)) (\<lambda>_. ctx_first (ts_driver S) (ts_screenshot S))"

definition validateImageCheckValues :: "image_result \<Rightarrow> go_error option" where
  "validateImageCheckValues r =
     (if ir_totalPixels r = 0 \<or> ir_differentPixels r > ir_totalPixels r \<or> ir_differenceRatio r < 0 \<or> ir_differenceRatio r > 1
      then Some (tap_refusal ''image checker returned an invalid result'') else None)"

definition checkImages :: "'w tap_services \<Rightarrow> string \<Rightarrow> string \<Rightarrow> ('w, image_result) lookup_op" where
  "checkImages S expected actual = op_bind (check_ctx (ts_driver S)) (\<lambda>_.
     case ts_images S of
       None \<Rightarrow> op_fail (tap_refusal ''image checker is required by this command'')
     | Some check \<Rightarrow> op_bind (ctx_first (ts_driver S) (check expected actual)) (\<lambda>r.
         case validateImageCheckValues r of Some e \<Rightarrow> op_fail e | None \<Rightarrow> op_return r))"

definition tapRetryDifferenceThreshold :: rat where "tapRetryDifferenceThreshold = 1 / 200"

text \<open>Whether the screenshot still shows what it showed before.\<close>

definition screen_unchanged :: "'w tap_services \<Rightarrow> string \<Rightarrow> ('w, bool) lookup_op" where
  "screen_unchanged S expected =
     op_bind (captureTapRetryScreenshot S) (\<lambda>actual.
     op_bind (checkImages S expected actual) (\<lambda>r.
       case WithinThreshold r tapRetryDifferenceThreshold of
         Inl e \<Rightarrow> op_fail (NewConfigurationError ''tapOn retry check threshold is invalid'' (Some (ts_imageError S e)))
       | Inr same \<Rightarrow> op_return same))"

fun tap_observations :: "'w tap_services \<Rightarrow> element_selector \<Rightarrow> nat \<Rightarrow> ('w, unit) lookup_op" where
  "tap_observations S s 0 = op_fail (NewAssertionError ''tapOn target did not become visible after 10 observations'' None)"
| "tap_observations S s (Suc n) =
     op_bind (check_ctx (ts_driver S)) (\<lambda>_ (l, w).
       case findOnce (ts_driver S) s (l, w) of (r, l', w') \<Rightarrow>
         (case check_ctx (ts_driver S) (l', w') of
            (Inl c, s') \<Rightarrow> (Inl c, s')
          | (Inr _, s') \<Rightarrow>
              (case r of
                 Inl e \<Rightarrow> (Inl e, s')
               | Inr (Some e) \<Rightarrow> (Inr (), s')
               | Inr None \<Rightarrow>
                   (if n = 0 then tap_observations S s n
                    else op_bind (cancellable_wait (ts_driver S) WaitUntilVisiblePollInterval) (\<lambda>_. tap_observations S s n)) s')))"

definition waitForTapTargetVisible :: "'w tap_services \<Rightarrow> element_selector \<Rightarrow> ('w, unit) lookup_op" where
  "waitForTapTargetVisible S s = tap_observations S s WaitUntilVisibleAttempts"

text \<open>The effect counts the batches begun, also when the tap fails; an error ends it wherever it occurs.\<close>

type_synonym 'w tap_outcome = "((int \<times> go_error option) \<times> element_lookup \<times> 'w) option"

definition tap_stage :: "int \<Rightarrow> ('w, 'a) run_op \<Rightarrow> ('a \<Rightarrow> element_lookup \<times> 'w \<Rightarrow> 'w tap_outcome) \<Rightarrow> element_lookup \<times> 'w \<Rightarrow> 'w tap_outcome" where
  "tap_stage runs m k s =
     (case m s of
        None \<Rightarrow> None
      | Some (Inl e, s') \<Rightarrow> Some ((runs, Some e), s')
      | Some (Inr a, s') \<Rightarrow> k a s')"

definition tap_visible :: "'w tap_services \<Rightarrow> tapOnEvaluated \<Rightarrow> int \<Rightarrow> element_lookup \<times> 'w \<Rightarrow> 'w tap_outcome" where
  "tap_visible S p runs =
     (if te_waitUntilVisible p
      then (case te_targetSelector p of
              None \<Rightarrow> (\<lambda>s. Some ((runs, None), s))
            | Some t \<Rightarrow> tap_stage runs (run_op (waitForTapTargetVisible S (cloneSelector t))) (\<lambda>_ s. Some ((runs, None), s)))
      else (\<lambda>s. Some ((runs, None), s)))"

text \<open>The hierarchy and the screenshot of the retry check, in that order.\<close>

definition tap_before :: "'w tap_services \<Rightarrow> tapOnEvaluated \<Rightarrow> ('w, (tree_node \<times> string) option) lookup_op" where
  "tap_before S p =
     (if te_retryTapIfNoChange p
      then op_bind (captureTapRetryHierarchy S) (\<lambda>h. op_bind (captureTapRetryScreenshot S) (\<lambda>shot. op_return (Some (h, shot))))
      else op_return None)"

definition tap_again :: "'w tap_services \<Rightarrow> tapOnEvaluated \<Rightarrow> element_lookup \<times> 'w \<Rightarrow> 'w tap_outcome" where
  "tap_again S p =
     tap_stage 1 (resolveTapPoint S p) (\<lambda>q. tap_stage 2 (executeResolvedTapBatch S p q None) (\<lambda>_. tap_visible S p 2))"

definition run_taps :: "'w tap_services \<Rightarrow> tapOnEvaluated \<Rightarrow> element_lookup \<times> 'w \<Rightarrow> 'w tap_outcome" where
  "run_taps S p =
     tap_stage 0 (resolveTapPoint S p) (\<lambda>q.
     tap_stage 0 (run_op (tap_before S p)) (\<lambda>before_taps.
     tap_stage 1 (executeResolvedTapBatch S p q (map_option fst before_taps)) (\<lambda>post.
       case before_taps of
         None \<Rightarrow> tap_visible S p 1
       | Some (h, shot) \<Rightarrow>
           if post = Some h
           then tap_stage 1 (run_op (screen_unchanged S shot)) (\<lambda>same. if same then tap_again S p else tap_visible S p 1)
           else tap_visible S p 1)))"

definition tap_effect :: "int \<Rightarrow> command_effect" where
  "tap_effect runs = no_effect\<lparr>effectClass := EffectDeviceMutation, eff_numberOfRunsSet := True, eff_numberOfRuns := runs\<rparr>"

definition executeTapOn :: "'w tap_services \<Rightarrow> tap_payload \<Rightarrow> element_lookup \<times> 'w
    \<Rightarrow> ((command_effect \<times> go_error option) \<times> element_lookup \<times> 'w) option" where
  "executeTapOn S value = (\<lambda>(l, w).
     map_option (\<lambda>((runs, e), s). ((tap_effect runs, e), s))
      (case value of
        TapEvaluated p \<Rightarrow>
          (case validateTapExecutionPlan p of
             Some e \<Rightarrow> Some ((0, Some e), l, w)
           | None \<Rightarrow>
               if te_retryTapIfNoChange p \<and> ts_images S = None
               then Some ((0, Some (tap_refusal ''image checker is required by tapOn retryTapIfNoChange'')), l, w)
               else (case ts_lookup S w of
                 (Some e, w') \<Rightarrow> Some ((0, Some e), l, w')
               | (None, w') \<Rightarrow> run_taps S p (l, w')))
      | _ \<Rightarrow> Some ((0, Some (tap_refusal ''tapOn received an invalid evaluated payload'')), l, w)))"

end
