(* ===== verification/Lookup_Facts.thy ===== *)
theory Lookup_Facts
  imports Lookup
begin

text \<open>
  What the lookup promises: with a clock that advances by what it waits, every polling loop returns, a
  lookup that gives up has reached its deadline, an element is reported stable only after two equal
  samples, and a hierarchy is reported settled only after two equal samples that are not loading.
\<close>

section \<open>A clock that keeps time\<close>

text \<open>
  The contract of the clock, and of the context and the driver with respect to it: a reading lies between the times before
  and after it, nothing turns the clock back, and a wait that reports no error took its duration.
\<close>

definition keeps_time :: "'w driver_services \<Rightarrow> ('w \<Rightarrow> int) \<Rightarrow> bool" where
  "keeps_time D time \<longleftrightarrow>
     (\<forall>w t w'. dr_now D w = (t, w') \<longrightarrow> time w \<le> t \<and> t \<le> time w')
   \<and> (\<forall>d w e w'. dr_wait D d w = (e, w') \<longrightarrow> time w \<le> time w' \<and> (e = None \<longrightarrow> time w + d \<le> time w'))
   \<and> (\<forall>w. time w \<le> time (snd (dr_ctx D w))) \<and> (\<forall>w. time w \<le> time (snd (dr_info D w)))
   \<and> (\<forall>apps w. time w \<le> time (snd (dr_descriptor D apps w))) \<and> (\<forall>q apps w. time w \<le> time (snd (dr_query D q apps w)))
   \<and> (\<forall>q w. time w \<le> time (snd (dr_settle D q w)))
   \<and> (case dr_hittable D of None \<Rightarrow> True | Some test \<Rightarrow> \<forall>app f b w. time w \<le> time (snd (test app f b w)))"

text \<open>An operation under which the clock does not go back.\<close>

definition forward :: "('w \<Rightarrow> int) \<Rightarrow> ('w, 'a) lookup_op \<Rightarrow> bool" where
  "forward time m \<longleftrightarrow> (\<forall>l w r l' w'. m (l, w) = (r, l', w') \<longrightarrow> time w \<le> time w')"

named_theorems forward_rules \<open>operations under which the clock does not go back\<close>

lemma forwardD: "forward time m \<Longrightarrow> m (l, w) = (r, l', w') \<Longrightarrow> time w \<le> time w'"
  unfolding forward_def by blast

lemma forward_return [forward_rules]: "forward time (op_return a)" "forward time (op_fail e)" "forward time (op_lift v)"
  by (auto simp: forward_def)

lemma forward_bind [forward_rules]:
  assumes "forward time m" "\<And>a. forward time (f a)"
  shows "forward time (op_bind m f)"
  unfolding forward_def
proof (intro allI impI)
  fix l w r l' w'
  assume bound: "op_bind m f (l, w) = (r, l', w')"
  obtain r1 l1 w1 where first: "m (l, w) = (r1, l1, w1)" by (cases "m (l, w)") auto
  have "time w \<le> time w1" using forwardD [OF assms(1) first] .
  then show "time w \<le> time w'"
    using bound first forwardD [OF assms(2), of _ l1 w1 r l' w'] by (cases r1) (force simp: op_bind_def)+
qed

lemma forward_primitives [forward_rules]:
  assumes "keeps_time D time"
  shows "forward time (check_ctx D)" "forward time (clock_now D)" "forward time (cancellable_wait D d)" "forward time (plain_wait D d)"
    and "(\<And>w. time w \<le> time (snd (f w))) \<Longrightarrow> forward time (ctx_first D f)"
    and "(\<And>w. time w \<le> time (snd (f w))) \<Longrightarrow> forward time (driver_op f)"
proof -
  have ctx: "dr_ctx D w = (e, w') \<Longrightarrow> time w \<le> time w'" for w e w'
    using assms unfolding keeps_time_def by (metis snd_conv)
  have now: "dr_now D w = (t, w') \<Longrightarrow> time w \<le> time w'" for w t w'
    using assms unfolding keeps_time_def by (meson order_trans)
  have pause: "dr_wait D d w = (e, w') \<Longrightarrow> time w \<le> time w'" for w e w'
    using assms unfolding keeps_time_def by blast
  show "forward time (check_ctx D)" "forward time (clock_now D)" "forward time (plain_wait D d)"
    by (auto simp: forward_def check_ctx_def clock_now_def plain_wait_def split: prod.splits option.splits dest: ctx now pause)
  show "forward time (cancellable_wait D d)"
    by (auto simp: forward_def cancellable_wait_def split: prod.splits option.splits dest!: ctx pause)
  show "forward time (ctx_first D f)" if "\<And>w. time w \<le> time (snd (f w))"
  proof -
    have step: "f w = (r, w') \<Longrightarrow> time w \<le> time w'" for w r w' using that by (metis snd_conv)
    show ?thesis
      by (auto simp: forward_def ctx_first_def split: prod.splits option.splits dest!: ctx step intro: order_trans)
  qed
  show "forward time (driver_op f)" if "\<And>w. time w \<le> time (snd (f w))"
    unfolding forward_def driver_op_def by (auto split: prod.splits) (metis that snd_conv)
qed

lemma forward_state [forward_rules]: "(\<And>l. forward time (m l)) \<Longrightarrow> forward time (\<lambda>(l, w). m l (l, w))"
  by (auto simp: forward_def)

lemma forward_driver:
  assumes "keeps_time D time"
  shows "time w \<le> time (snd (dr_info D w))" "time w \<le> time (snd (dr_descriptor D apps w))"
    "time w \<le> time (snd (dr_query D q apps w))" "time w \<le> time (snd (dr_settle D req w))"
  using assms unfolding keeps_time_def by blast+

lemma forward_cachedDeviceInfo [forward_rules]: "keeps_time D time \<Longrightarrow> forward time (cachedDeviceInfo D)"
proof -
  assume time: "keeps_time D time"
  have "forward time (op_bind (ctx_first D (dr_info D)) (\<lambda>info (l, w). (Inr info, l\<lparr>el_deviceInfo := Some info\<rparr>, w)))"
    by (intro forward_rules) (auto simp: forward_def forward_driver [OF time] time)
  then show ?thesis
    unfolding cachedDeviceInfo_def
    by (intro forward_bind forward_primitives [OF time]) (auto simp: forward_def split: option.splits)
qed

lemma forward_visibleHierarchy [forward_rules]: "keeps_time D time \<Longrightarrow> forward time (visibleHierarchy D)"
  unfolding visibleHierarchy_def
  by (intro forward_rules) (auto simp: forward_driver intro!: forward_rules split: sum.splits)

lemma forward_findOnce [forward_rules]: "keeps_time D time \<Longrightarrow> forward time (findOnce D s)"
  unfolding findOnce_def resolveCSS_def
  by (auto simp: forward_driver intro!: forward_rules split: sum.splits option.splits)

section \<open>The polling loops return\<close>

text \<open>The time left to a deadline, which every waiting round shortens.\<close>

definition time_left :: "('w \<Rightarrow> int) \<Rightarrow> int \<Rightarrow> element_lookup \<times> 'w \<Rightarrow> nat" where
  "time_left time deadline = (\<lambda>(l, w). nat (deadline - time w))"

lemma wait_shortens:
  assumes "keeps_time D time" "clock_now D (l, w) = (Inr now, l1, w1)" "now < deadline" "0 < poll"
  shows "cancellable_wait D (minDuration poll (deadline - now)) (l1, w1) = (Inr (), l2, w2) \<Longrightarrow> time w < time w2 \<and> time w < deadline"
    and "plain_wait D (minDuration poll (deadline - now)) (l1, w1) = (Inr (), l2, w2) \<Longrightarrow> time w < time w2 \<and> time w < deadline"
proof -
  have now: "time w \<le> now" "now \<le> time w1"
    using assms(1,2) unfolding keeps_time_def clock_now_def by (auto split: prod.splits)
  have positive: "0 < minDuration poll (deadline - now)" using assms(3,4) by (simp add: minDuration_def)
  have pause: "dr_wait D d w1 = (None, w') \<Longrightarrow> time w1 + d \<le> time w'" for d w' using assms(1) unfolding keeps_time_def by blast
  have ctx: "dr_ctx D w' = (e, w'') \<Longrightarrow> time w' \<le> time w''" for w' e w''
    using assms(1) unfolding keeps_time_def by (metis snd_conv)
  show "time w < time w2 \<and> time w < deadline" if "cancellable_wait D (minDuration poll (deadline - now)) (l1, w1) = (Inr (), l2, w2)"
    using that now positive assms(3) by (fastforce simp: cancellable_wait_def split: prod.splits option.splits dest!: pause ctx)
  show "time w < time w2 \<and> time w < deadline" if "plain_wait D (minDuration poll (deadline - now)) (l1, w1) = (Inr (), l2, w2)"
    using that now positive assms(3) by (fastforce simp: plain_wait_def split: prod.splits option.splits dest!: pause)
qed

lemma now_keeps: "clock_now D (l, w) = (r, l1, w1) \<Longrightarrow> \<exists>now. r = Inr now"
  by (auto simp: clock_now_def split: prod.splits)

lemma find_round_shortens:
  assumes "keeps_time D time" "find_round D s opts deadline () (l, w) = (Inr (Inl ()), l', w')"
  shows "time_left time deadline (l', w') < time_left time deadline (l, w)"
proof -
  obtain l1 w1 l2 w2 now l3 w3 where
      steps: "findOnce D s (l, w) = (Inr None, l1, w1)" "check_ctx D (l1, w1) = (Inr (), l2, w2)"
        "clock_now D (l2, w2) = (Inr now, l3, w3)" "now < deadline"
        "cancellable_wait D (minDuration lookupPollInterval (deadline - now)) (l3, w3) = (Inr (), l', w')"
    using assms(2) by (auto simp: find_round_def op_bind_Inr split: option.splits if_splits)
  have "time w \<le> time w2"
    using forwardD [OF forward_findOnce [OF assms(1)] steps(1)] forwardD [OF forward_primitives(1) [OF assms(1)] steps(2)] by simp
  then show ?thesis
    using wait_shortens(1) [OF assms(1) steps(3,4) _ steps(5)] by (simp add: time_left_def lookupPollInterval_def)
qed

text \<open>How a lookup ends: by an error of the context, of the look or of the wait; by a look that found nothing, when
  a reading of the clock shows the deadline has come; by a look that found the element.\<close>

definition look_failed :: "'w driver_services \<Rightarrow> element_selector \<Rightarrow> go_error \<Rightarrow> element_lookup \<times> 'w \<Rightarrow> bool" where
  "look_failed D sel e s' \<longleftrightarrow>
     (\<exists>s. check_ctx D s = (Inl e, s')) \<or> (\<exists>s. findOnce D sel s = (Inl e, s')) \<or> (\<exists>s d. cancellable_wait D d s = (Inl e, s'))"

definition looked_in_vain :: "'w driver_services \<Rightarrow> element_selector \<Rightarrow> int \<Rightarrow> element_lookup \<times> 'w \<Rightarrow> bool" where
  "looked_in_vain D sel deadline s' \<longleftrightarrow>
     (\<exists>s1 s2 s3 now. findOnce D sel s1 = (Inr None, s2) \<and> check_ctx D s2 = (Inr (), s3)
        \<and> clock_now D s3 = (Inr now, s') \<and> deadline \<le> now)"

definition look_found :: "'w driver_services \<Rightarrow> element_selector \<Rightarrow> found \<Rightarrow> element_lookup \<times> 'w \<Rightarrow> bool" where
  "look_found D sel e s' \<longleftrightarrow> (\<exists>s1 s2. findOnce D sel s1 = (Inr (Some e), s2) \<and> check_ctx D s2 = (Inr (), s'))"

lemma look_failedI:
  "check_ctx D s = (Inl e, s') \<Longrightarrow> look_failed D sel e s'"
  "findOnce D sel s = (Inl e, s') \<Longrightarrow> look_failed D sel e s'"
  "cancellable_wait D d s = (Inl e, s') \<Longrightarrow> look_failed D sel e s'"
  unfolding look_failed_def by blast+

lemma look_resultI:
  "findOnce D sel s1 = (Inr (Some e), s2) \<Longrightarrow> check_ctx D s2 = (Inr u, s') \<Longrightarrow> look_found D sel e s'"
  "findOnce D sel s1 = (Inr None, s2) \<Longrightarrow> check_ctx D s2 = (Inr u, s3) \<Longrightarrow> clock_now D s3 = (Inr now, s') \<Longrightarrow> \<not> now < deadline
    \<Longrightarrow> looked_in_vain D sel deadline s'"
  unfolding look_found_def looked_in_vain_def by (simp_all add: not_less del: split_paired_Ex) blast+

lemma find_round_ends:
  assumes "find_round D sel opts deadline () s = (r, s')"
  shows "(\<forall>e. r = Inl e \<longrightarrow> look_failed D sel e s'
            \<or> \<not> lo_optional opts \<and> e = NewOperationError ''element not found'' None \<and> looked_in_vain D sel deadline s')
    \<and> (r = Inr (Inr None) \<longrightarrow> lo_optional opts \<and> looked_in_vain D sel deadline s')
    \<and> (\<forall>e. r = Inr (Inr (Some e)) \<longrightarrow> look_found D sel e s')"
proof -
  obtain r1 s1 where look: "findOnce D sel s = (r1, s1)" by (rule prod.exhaust)
  obtain r2 s2 where ctx: "check_ctx D s1 = (r2, s2)" by (rule prod.exhaust)
  obtain now s3 where now: "clock_now D s2 = (Inr now, s3)" using now_keeps by (metis prod.exhaust)
  obtain r4 s4 where pause: "cancellable_wait D (minDuration lookupPollInterval (deadline - now)) s3 = (r4, s4)" by (rule prod.exhaust)
  show ?thesis
  proof (cases r1)
    case (Inl e)
    then show ?thesis using assms look by (auto simp: find_round_def op_bind_def intro: look_failedI)
  next
    case found: (Inr found)
    show ?thesis
    proof (cases r2)
      case (Inl e)
      then show ?thesis using assms look found ctx by (auto simp: find_round_def op_bind_def intro: look_failedI)
    next
      case (Inr u)
      then have step: "find_round D sel opts deadline () s = (case found of Some e \<Rightarrow> (Inr (Inr (Some e)), s2)
          | None \<Rightarrow> if \<not> now < deadline then ((if lo_optional opts then Inr (Inr None)
              else Inl (NewOperationError ''element not found'' None)), s3)
            else (case r4 of Inl e \<Rightarrow> Inl e | Inr _ \<Rightarrow> Inr (Inl ()), s4))"
        using look found ctx now pause by (simp add: find_round_def op_bind_def split: option.split sum.split)
      show ?thesis
      proof (cases found)
        case None
        moreover have "looked_in_vain D sel deadline s3" if "\<not> now < deadline"
          using that look found ctx now None Inr by (auto intro: look_resultI)
        moreover have "look_failed D sel e s4" if "r4 = Inl e" for e using that pause by (auto intro: look_failedI)
        ultimately show ?thesis using step assms by (auto split: if_splits sum.splits)
      next
        case (Some e)
        then have "look_found D sel e s2" using look found ctx Inr by (auto intro: look_resultI)
        then show ?thesis using step assms Some by auto
      qed
    qed
  qed
qed

text \<open>C11: A lookup always returns. With a clock that keeps time the polling loop ends for every deadline, even
  one that has passed, and whatever it returns was decided by its last round: an element it reports is the
  one that the last look at the screen found, and absence is reported, as nothing to an optional lookup and
  as an error to any other, only after a look that found nothing and a clock reading no earlier than the
  deadline; every other error comes from the context, the look or the wait.
\<close>

theorem findUntil_returns:
  assumes "keeps_time D time"
  shows "\<exists>r s'. findUntil D sel opts deadline state = Some (r, s') \<and>
    (case r of
       Inr (Some e) \<Rightarrow> look_found D sel e s'
     | Inr None \<Rightarrow> lo_optional opts \<and> looked_in_vain D sel deadline s'
     | Inl e \<Rightarrow> look_failed D sel e s'
         \<or> \<not> lo_optional opts \<and> e = NewOperationError ''element not found'' None \<and> looked_in_vain D sel deadline s')"
proof -
  obtain r0 s0 where start: "check_ctx D state = (r0, s0)" by (rule prod.exhaust)
  show ?thesis
  proof (cases r0)
    case (Inl e)
    then have "look_failed D sel e s0" using start by (auto intro: look_failedI)
    then show ?thesis using start Inl by (intro exI [of _ "Inl e"] exI [of _ s0]) (simp add: findUntil_def op_then_loop_def)
  next
    case (Inr u)
    have "\<exists>a' s' r s''. True \<and> op_loop (find_round D sel opts deadline) () s0 = Some (r, s'')
        \<and> (find_round D sel opts deadline a' s' = (case r of Inl e \<Rightarrow> Inl e | Inr b \<Rightarrow> Inr (Inr b), s''))"
      by (rule op_loop_returns [where m = "\<lambda>_. time_left time deadline" and I = "\<lambda>_ _. True"])
        (auto intro: find_round_shortens [OF assms])
    then obtain s1 r s' where loop: "op_loop (find_round D sel opts deadline) () s0 = Some (r, s')"
      and round: "find_round D sel opts deadline () s1 = (case r of Inl e \<Rightarrow> Inl e | Inr b \<Rightarrow> Inr (Inr b), s')" by auto
    have "findUntil D sel opts deadline state = Some (r, s')" using start Inr loop by (simp add: findUntil_def op_then_loop_def)
    then show ?thesis
      using find_round_ends [OF round]
      by (intro exI [of _ r] exI [of _ s']) (auto split: sum.splits option.splits)
  qed
qed

section \<open>Waiting for absence\<close>

lemma absent_round_shortens:
  assumes "keeps_time D time" "absent_round D s deadline () (l, w) = (Inr (Inl ()), l', w')"
  shows "time_left time deadline (l', w') < time_left time deadline (l, w)"
proof -
  obtain r l1 w1 l2 w2 now l3 w3 where
      steps: "findOnce D s (l, w) = (Inr r, l1, w1)" "check_ctx D (l1, w1) = (Inr (), l2, w2)"
        "clock_now D (l2, w2) = (Inr now, l3, w3)" "now < deadline"
        "plain_wait D (minDuration NotVisiblePollInterval (deadline - now)) (l3, w3) = (Inr (), l', w')"
    using assms(2) by (auto simp: absent_round_def op_bind_Inr split: if_splits)
  have "time w \<le> time w2"
    using forwardD [OF forward_findOnce [OF assms(1)] steps(1)] forwardD [OF forward_primitives(1) [OF assms(1)] steps(2)] by simp
  then show ?thesis
    using wait_shortens(2) [OF assms(1) steps(3,4) _ steps(5)] by (simp add: time_left_def NotVisiblePollInterval_def)
qed

text \<open>A look that still found the element, with the deadline come.\<close>

definition still_visible :: "'w driver_services \<Rightarrow> element_selector \<Rightarrow> int \<Rightarrow> element_lookup \<times> 'w \<Rightarrow> bool" where
  "still_visible D sel deadline s' \<longleftrightarrow>
     (\<exists>s1 e s2 s3 now. findOnce D sel s1 = (Inr (Some e), s2) \<and> check_ctx D s2 = (Inr (), s3)
        \<and> clock_now D s3 = (Inr now, s') \<and> deadline \<le> now)"

definition look_was_empty :: "'w driver_services \<Rightarrow> element_selector \<Rightarrow> element_lookup \<times> 'w \<Rightarrow> bool" where
  "look_was_empty D sel s' \<longleftrightarrow> (\<exists>s1 s2. findOnce D sel s1 = (Inr None, s2) \<and> check_ctx D s2 = (Inr (), s'))"

lemma absent_round_ends:
  assumes "absent_round D sel deadline () s = (Inr (Inr b), s')"
  shows "if b then look_was_empty D sel s' else still_visible D sel deadline s'"
proof -
  obtain r s1 s2 where steps: "findOnce D sel s = (Inr r, s1)" "check_ctx D s1 = (Inr (), s2)"
    using assms by (auto simp: absent_round_def op_bind_Inr simp del: split_paired_Ex)
  show ?thesis
  proof (cases r)
    case None
    then have "b \<and> s' = s2" using assms steps by (simp add: absent_round_def op_bind_def)
    then show ?thesis using None steps unfolding look_was_empty_def by (simp del: split_paired_Ex) blast
  next
    case (Some e)
    then obtain now s3 where "clock_now D s2 = (Inr now, s3)" "deadline \<le> now" "\<not> b" "s' = s3"
      using assms steps by (auto simp: absent_round_def op_bind_Inr op_bind_def split: if_splits prod.splits sum.splits simp del: split_paired_Ex)
    then show ?thesis using Some steps unfolding still_visible_def by (simp del: split_paired_Ex) blast
  qed
qed

text \<open>Waiting for absence always returns. \<^verbatim>\<open>conditionNotVisibleUntil\<close> ends for every deadline; it reports
  absence exactly after a look that found nothing, however late, and presence only after a look that found
  the element followed by a clock reading no earlier than the deadline.
\<close>

theorem conditionNotVisibleUntil_returns:
  assumes "keeps_time D time"
  shows "\<exists>r s'. conditionNotVisibleUntil D sel deadline state = Some (r, s') \<and>
    (case r of Inr True \<Rightarrow> look_was_empty D sel s' | Inr False \<Rightarrow> still_visible D sel deadline s' | Inl e \<Rightarrow> True)"
proof -
  obtain r0 s0 where start: "check_ctx D state = (r0, s0)" by (rule prod.exhaust)
  show ?thesis
  proof (cases r0)
    case (Inl e)
    then show ?thesis using start
      by (intro exI [of _ "Inl e"] exI [of _ s0]) (simp add: conditionNotVisibleUntil_def op_then_loop_def)
  next
    case (Inr u)
    have "\<exists>a' s' r s''. True \<and> op_loop (absent_round D sel deadline) () s0 = Some (r, s'')
        \<and> (absent_round D sel deadline a' s' = (case r of Inl e \<Rightarrow> Inl e | Inr b \<Rightarrow> Inr (Inr b), s''))"
      by (rule op_loop_returns [where m = "\<lambda>_. time_left time deadline" and I = "\<lambda>_ _. True"])
        (auto intro: absent_round_shortens [OF assms])
    then obtain s1 r s' where loop: "op_loop (absent_round D sel deadline) () s0 = Some (r, s')"
      and round: "absent_round D sel deadline () s1 = (case r of Inl e \<Rightarrow> Inl e | Inr b \<Rightarrow> Inr (Inr b), s')" by auto
    have "conditionNotVisibleUntil D sel deadline state = Some (r, s')"
      using start Inr loop by (simp add: conditionNotVisibleUntil_def op_then_loop_def)
    moreover have "if b then look_was_empty D sel s' else still_visible D sel deadline s'" if "r = Inr b" for b
      using round that by (intro absent_round_ends) simp
    ultimately show ?thesis
      by (intro exI [of _ r] exI [of _ s']) (auto split: sum.splits bool.splits)
  qed
qed

section \<open>Stability\<close>

lemma forward_stability_look: "keeps_time D time \<Longrightarrow> forward time (stability_look D deadline seen tree)"
  unfolding stability_look_def by (auto simp: Let_def intro!: forward_rules split: option.splits sum.splits)

lemma stability_round_shortens:
  assumes "keeps_time D time" "stability_round D deadline seen (l, w) = (Inr (Inl seen'), l', w')"
  shows "time_left time deadline (l', w') < time_left time deadline (l, w)"
proof -
  obtain t l1 w1 now l2 w2 l3 w3 tree l4 w4 where
      steps: "clock_now D (l, w) = (Inr t, l1, w1)" "t < deadline" "clock_now D (l1, w1) = (Inr now, l2, w2)"
        "cancellable_wait D (minDuration ElementStabilityPollInterval (deadline - now)) (l2, w2) = (Inr (), l3, w3)"
        "visibleHierarchy D (l3, w3) = (Inr tree, l4, w4)" "stability_look D deadline seen tree (l4, w4) = (Inr (Inl seen'), l', w')"
    using assms(2) by (auto simp: stability_round_def op_bind_Inr split: if_splits)
  have now: "time w \<le> t" "t \<le> time w1" "time w1 \<le> now" "now \<le> time w2"
    using steps(1,3) assms(1) by (auto simp: keeps_time_def clock_now_def split: prod.splits)
  have "time w2 + minDuration ElementStabilityPollInterval (deadline - now) \<le> time w3"
  proof -
    have "dr_ctx D w' = (e, w'') \<Longrightarrow> time w' \<le> time w''" for w' e w'' using assms(1) unfolding keeps_time_def by (metis snd_conv)
    moreover have "dr_wait D d w2 = (None, w') \<Longrightarrow> time w2 + d \<le> time w'" for d w' using assms(1) unfolding keeps_time_def by blast
    ultimately show ?thesis using steps(4) by (fastforce simp: cancellable_wait_def split: prod.splits option.splits)
  qed
  moreover have "time w3 \<le> time w4" "time w4 \<le> time w'"
    using forwardD [OF forward_visibleHierarchy [OF assms(1)] steps(5)] forwardD [OF forward_stability_look [OF assms(1)] steps(6)] .
  ultimately show ?thesis
    using now steps(2) by (auto simp: time_left_def minDuration_def ElementStabilityPollInterval_def split: if_splits)
qed

text \<open>The verdict of a round that ends the wait.\<close>

definition stands_still :: "int \<Rightarrow> stability_result \<Rightarrow> 'w driver_services \<Rightarrow> element_lookup \<times> 'w \<Rightarrow> bool" where
  "stands_still deadline st D s' \<longleftrightarrow>
     (\<exists>seen :: found. Refresh (Some (fd_tree (st_element st))) (Some (fd_element seen)) = Inr (fd_element (st_element st))
        \<and> st_bounds st = el_bounds (fd_element seen))
     \<and> (\<exists>s now. clock_now D s = (Inr now, s') \<and> now < deadline)"

definition ran_out :: "int \<Rightarrow> 'w driver_services \<Rightarrow> element_lookup \<times> 'w \<Rightarrow> bool" where
  "ran_out deadline D s' \<longleftrightarrow> (\<exists>s now. clock_now D s = (Inr now, s') \<and> deadline \<le> now)"

lemma stability_look_ends:
  assumes "stability_look D deadline seen tree s = (Inr (Inr st), s')"
  shows "st_stable st \<and> st_bounds st = el_bounds (fd_element (st_element st)) \<and> stands_still deadline st D s'"
proof -
  obtain t e now where parts: "tree = Some t" "Refresh tree (Some (fd_element seen)) = Inr e" "clock_now D s = (Inr now, s')"
      "now < deadline" "el_bounds e = el_bounds (fd_element seen)" "st = stability_of \<lparr>fd_tree = t, fd_element = e\<rparr> True"
    using assms by (auto simp: stability_look_def op_bind_Inr Let_def split: option.splits sum.splits if_splits simp del: split_paired_Ex)
  then show ?thesis unfolding stands_still_def stability_of_def by (simp del: split_paired_Ex) metis
qed

lemma stability_round_ends:
  assumes "stability_round D deadline seen s = (Inr (Inr st), s')"
  shows "st_bounds st = el_bounds (fd_element (st_element st))
    \<and> (if st_stable st then stands_still deadline st D s' else ran_out deadline D s')"
proof -
  obtain t s1 where t: "clock_now D s = (Inr t, s1)" using now_keeps by (metis prod.exhaust)
  show ?thesis
  proof (cases "t < deadline")
    case False
    then have "st = stability_of seen False \<and> s' = s1" using assms t by (simp add: stability_round_def op_bind_def)
    then show ?thesis using False t unfolding ran_out_def stability_of_def by (simp add: not_less del: split_paired_Ex) blast
  next
    case True
    then obtain tree s2 where "stability_look D deadline seen tree s2 = (Inr (Inr st), s')"
      using assms t by (auto simp: stability_round_def op_bind_Inr op_bind_def split: prod.splits sum.splits simp del: split_paired_Ex)
    then show ?thesis using stability_look_ends by fastforce
  qed
qed


section \<open>Settling\<close>

lemma poll_shortens:
  assumes "keeps_time D time" "clock_now D (l, w) = (Inr t, l0, w0)" "t < deadline" "clock_now D (l0, w0) = (Inr now, l1, w1)"
    "pollHierarchySettle D req (minDuration HierarchySettlePollInterval (deadline - now)) s (l1, w1) = (Inr v, l', w')"
  shows "time_left time deadline (l', w') < time_left time deadline (l, w)"
proof -
  obtain l2 w2 current where
      steps: "cancellable_wait D (minDuration HierarchySettlePollInterval (deadline - now)) (l1, w1) = (Inr (), l2, w2)"
        "ctx_first D (dr_settle D req) (l2, w2) = (Inr current, l', w')"
    using assms(5) by (auto simp: pollHierarchySettle_def op_bind_Inr)
  have now: "time w \<le> t" "t \<le> time w0" "time w0 \<le> now" "now \<le> time w1"
    using assms(1,2,4) by (auto simp: keeps_time_def clock_now_def split: prod.splits)
  have "time w1 + minDuration HierarchySettlePollInterval (deadline - now) \<le> time w2"
  proof -
    have "dr_ctx D w' = (e, w'') \<Longrightarrow> time w' \<le> time w''" for w' e w'' using assms(1) unfolding keeps_time_def by (metis snd_conv)
    moreover have "dr_wait D d w1 = (None, w') \<Longrightarrow> time w1 + d \<le> time w'" for d w' using assms(1) unfolding keeps_time_def by blast
    ultimately show ?thesis using steps(1) by (fastforce simp: cancellable_wait_def split: prod.splits option.splits)
  qed
  moreover have "time w2 \<le> time w'"
    by (rule forwardD [OF forward_primitives(5) [OF assms(1)] steps(2)]) (rule forward_driver [OF assms(1)])
  ultimately show ?thesis
    using now assms(3) by (auto simp: time_left_def minDuration_def HierarchySettlePollInterval_def split: if_splits)
qed

text \<open>The samples a settled result rests on: two equal ones in a row, the reported one not loading.\<close>

definition settled_twice :: "tree_node option \<Rightarrow> bool" where
  "settled_twice latest \<longleftrightarrow> (\<exists>previous. hierarchySamplesSettled previous latest)"

lemma observe_settled: "settle_observe current s = (True, s') \<Longrightarrow> settled_twice (ss_latest s')"
  by (auto simp: settle_observe_def settled_twice_def hierarchySamplesSettled_def split: option.splits)

lemma poll_settled: "pollHierarchySettle D req delay s state = (Inr (True, s'), state') \<Longrightarrow> settled_twice (ss_latest s')"
  by (cases state) (auto simp: pollHierarchySettle_def op_bind_Inr intro: observe_settled)

lemma settle_attempts_settled: "settle_attempts D req n s state = ((latest, None), state') \<Longrightarrow> settled_twice latest"
proof (induction n arbitrary: s state)
  case (Suc n)
  then show ?case
    by (cases "pollHierarchySettle D req HierarchySettlePollInterval s state")
      (auto split: sum.splits prod.splits if_splits dest: poll_settled)
qed simp

lemma settle_round_ends:
  assumes "settle_round D req deadline s state = (Inr (Inr (latest, None)), state')"
  shows "settled_twice latest"
proof -
  obtain now s1 where "poll_turn s (pollHierarchySettle D req (minDuration HierarchySettlePollInterval (deadline - now)) s s1)
      = (Inr (Inr (latest, None)), state')"
    using assms by (auto simp: settle_round_def op_bind_Inr split: if_splits simp del: split_paired_Ex)
  then show ?thesis by (auto simp: poll_turn_def split: prod.splits sum.splits if_splits dest: poll_settled)
qed

lemma settle_round_shortens:
  assumes "keeps_time D time" "settle_round D req deadline s (l, w) = (Inr (Inl s'), l', w')"
  shows "time_left time deadline (l', w') < time_left time deadline (l, w)"
proof -
  obtain t l0 w0 now l1 w1 where
      steps: "clock_now D (l, w) = (Inr t, l0, w0)" "t < deadline" "clock_now D (l0, w0) = (Inr now, l1, w1)"
    and poll: "poll_turn s (pollHierarchySettle D req (minDuration HierarchySettlePollInterval (deadline - now)) s (l1, w1))
      = (Inr (Inl s'), l', w')"
    using assms(2) by (auto simp: settle_round_def op_bind_Inr split: if_splits)
  obtain v where "pollHierarchySettle D req (minDuration HierarchySettlePollInterval (deadline - now)) s (l1, w1) = (Inr v, l', w')"
    using poll by (auto simp: poll_turn_def split: prod.splits sum.splits if_splits)
  then show ?thesis by (rule poll_shortens [OF assms(1) steps])
qed

text \<open>Waiting for the hierarchy to settle always returns with a clock that keeps time, whether it counts ten
  attempts, waits to a deadline or asks once, and it reports success only for a sample that is not loading
  and equals the sample before it.
\<close>

theorem WaitForHierarchySettle_returns:
  assumes "keeps_time D time"
  shows "\<exists>latest err s'. WaitForHierarchySettle D req state = Some ((latest, err), s') \<and> (err = None \<longrightarrow> settled_twice latest)"
proof -
  let ?s = "\<lparr>ss_previous = sr_initial req, ss_latest = sr_initial req\<rparr>"
  obtain r0 s0 where start: "check_ctx D state = (r0, s0)" by (rule prod.exhaust)
  obtain now s1 where now: "clock_now D s0 = (Inr now, s1)" using now_keeps by (metis prod.exhaust)
  consider (cancelled) e where "r0 = Inl e" | (counted) "r0 = Inr ()" "sr_timeout req = None"
    | (single) ms where "r0 = Inr ()" "sr_timeout req = Some ms" "explicitSettleTimeout ms = 0"
    | (timed) ms where "r0 = Inr ()" "sr_timeout req = Some ms" "explicitSettleTimeout ms \<noteq> 0"
    by (cases r0; cases "sr_timeout req") auto
  then show ?thesis
  proof cases
    case cancelled
    then show ?thesis using start by (simp add: WaitForHierarchySettle_def)
  next
    case counted
    obtain latest err s' where "settle_attempts D req HierarchySettleAttempts ?s s0 = ((latest, err), s')" by (metis prod.exhaust)
    then show ?thesis using counted start settle_attempts_settled [of D req HierarchySettleAttempts ?s s0 latest s']
      by (cases err) (simp_all add: WaitForHierarchySettle_def)
  next
    case single
    obtain r s' where "ctx_first D (dr_settle D req) s0 = (r, s')" by (rule prod.exhaust)
    then show ?thesis using single start observe_settled
      by (cases r) (auto simp: WaitForHierarchySettle_def settle_once_def split: prod.splits if_splits)
  next
    case timed
    let ?deadline = "now + explicitSettleTimeout ms"
    have "\<exists>a' s' r s''. True \<and> op_loop (settle_round D req ?deadline) ?s s1 = Some (r, s'')
        \<and> (settle_round D req ?deadline a' s' = (case r of Inl e \<Rightarrow> Inl e | Inr b \<Rightarrow> Inr (Inr b), s''))"
      by (rule op_loop_returns [where m = "\<lambda>_. time_left time ?deadline" and I = "\<lambda>_ _. True"])
        (auto intro: settle_round_shortens [OF assms])
    then obtain a s2 r s' where loop: "op_loop (settle_round D req ?deadline) ?s s1 = Some (r, s')"
      and round: "settle_round D req ?deadline a s2 = (case r of Inl e \<Rightarrow> Inl e | Inr b \<Rightarrow> Inr (Inr b), s')" by blast
    show ?thesis
    proof (cases r)
      case (Inl e)
      then show ?thesis using timed start now loop by (simp add: WaitForHierarchySettle_def)
    next
      case (Inr outcome)
      then have "snd outcome = None \<longrightarrow> settled_twice (fst outcome)"
        using round settle_round_ends [of D req ?deadline a s2 "fst outcome" s'] by (cases outcome) auto
      then show ?thesis using timed start now loop Inr by (cases outcome) (simp add: WaitForHierarchySettle_def)
    qed
  qed
qed


section \<open>Deadlines\<close>

text \<open>The two ways to compute a lookup's budget agree: at the same reading of the clock the absolute deadline is
  the reading plus the adjusted timeout, which is never negative and, without an explicit timeout, never more than
  the seventeen seconds of a required or the seven of an optional lookup.
\<close>

theorem adjustedDeadline_is_timeout:
  assumes "dr_now D w = (now, w')"
  shows "\<exists>t w''. AdjustedTimeout D opts (l, w) = (Inr t, l, w'') \<and> adjustedDeadline D opts (l, w) = (Inr (now + t), l, w') \<and> 0 \<le> t
    \<and> (lo_timeout opts = None \<longrightarrow> t \<le> (if lo_optional opts then OptionalLookupTimeout else LookupTimeout))"
proof -
  have base: "0 \<le> lookup_base opts" "lookup_base opts = (if lo_optional opts then OptionalLookupTimeout else LookupTimeout)"
    by (simp_all add: lookup_base_def OptionalLookupTimeout_def LookupTimeout_def)
  show ?thesis
  proof (cases "lo_timeout opts")
    case None
    then show ?thesis
      using assms base
      by (cases "el_latestInteraction l")
        (simp_all add: AdjustedTimeout_def adjustedDeadline_def nonNegativeDuration_def Let_def split: if_splits)
  qed (use assms in \<open>simp add: AdjustedTimeout_def adjustedDeadline_def nonNegativeDuration_def\<close>)
qed

section \<open>A sample device\<close>

text \<open>A device that shows one screen for good, with a clock that only waits advance.\<close>

definition still_device :: "tree_node \<Rightarrow> int driver_services" where
  "still_device screen = \<lparr>dr_name = ''still'', dr_ctx = (\<lambda>w. (None, w)), dr_now = (\<lambda>w. (w, w)),
     dr_wait = (\<lambda>d w. (None, w + max 0 d)), dr_features = (\<lambda>_. False),
     dr_info = (\<lambda>w. (Inr \<lparr>di_platform = ''Web'', di_widthPixels = 100, di_heightPixels = 100, di_widthGrid = 100, di_heightGrid = 100\<rparr>, w)),
     dr_descriptor = (\<lambda>_ w. (Inr screen, w)), dr_query = (\<lambda>_ _ w. (Inr [], w)), dr_settle = (\<lambda>_ w. (Inr (Some screen), w)),
     dr_clips = None, dr_tapsInside = None, dr_hittable = None, dr_regexp = (\<lambda>p. Some (\<lambda>t. p = ''(?ims:^(?:'' @ t @ '')$)'')),
     dr_matchingError = (\<lambda>_. Plain_Error ''selector''), dr_boundsError = (\<lambda>_. Plain_Error ''bounds'')\<rparr>"

lemma still_device_now: "dr_now (still_device screen) w = (w, w)"
  by (simp add: still_device_def)

lemma still_device_keeps_time: "keeps_time (still_device screen) id"
  by (simp add: keeps_time_def still_device_def)

definition plain_node :: "(string \<times> string) list \<Rightarrow> tree_node list \<Rightarrow> tree_node" where
  "plain_node attrs kids = TreeNode \<lparr>nf_attributes = Some attrs, nf_clickable = None, nf_enabled = None, nf_focused = None,
     nf_checked = None, nf_selected = None\<rparr> kids"

definition one_button :: tree_node where
  "one_button = plain_node [(''text'', ''OK''), (''bounds'', ''[10,10][30,20]'')] []"

definition text_query :: "string \<Rightarrow> element_selector" where
  "text_query t = ElementSelector \<lparr>sel_textRegex = Some t, sel_idRegex = None, sel_size = None, sel_optional = None,
     sel_retryTapIfNoChange = None, sel_waitUntilVisible = None, sel_point = None, sel_start = None, sel_end = None, sel_traits = None,
     sel_index = None, sel_enabled = None, sel_selected = None, sel_checked = None, sel_focused = None, sel_repeat = None,
     sel_delay = None, sel_waitToSettleTimeoutMS = None, sel_label = None, sel_css = None\<rparr> None None None None None None None no_source None"

text \<open>An absent button: the optional lookup looks once although its deadline has come, and gives up.\<close>

lemma absent_button:
  "findUntil (still_device one_button) (text_query ''NO'') \<lparr>lo_optional = True, lo_timeout = None\<rparr> 0 (NewElementLookup, 0)
    = Some (Inr None, NewElementLookup\<lparr>el_deviceInfo := Some \<lparr>di_platform = ''Web'', di_widthPixels = 100, di_heightPixels = 100,
        di_widthGrid = 100, di_heightGrid = 100\<rparr>\<rparr>, 0)"
  by code_simp

theorem findUntil_returns_witness:
  "\<exists>s'. findUntil (still_device one_button) (text_query ''NO'') \<lparr>lo_optional = True, lo_timeout = None\<rparr> 0 (NewElementLookup, 0)
      = Some (Inr None, s') \<and> looked_in_vain (still_device one_button) (text_query ''NO'') 0 s'"
  using findUntil_returns [OF still_device_keeps_time, of one_button "text_query ''NO''" "\<lparr>lo_optional = True, lo_timeout = None\<rparr>" 0 "(NewElementLookup, 0)"]
  by (simp add: absent_button)

theorem conditionNotVisibleUntil_returns_witness:
  "\<exists>r s'. conditionNotVisibleUntil (still_device one_button) (text_query ''OK'') 0 (NewElementLookup, 0) = Some (r, s')
    \<and> r = Inr False \<and> still_visible (still_device one_button) (text_query ''OK'') 0 s'"
proof -
  have "(case conditionNotVisibleUntil (still_device one_button) (text_query ''OK'') 0 (NewElementLookup, 0) of
      Some (r, _) \<Rightarrow> r = Inr False | None \<Rightarrow> False)" by code_simp
  then show ?thesis
    using conditionNotVisibleUntil_returns [OF still_device_keeps_time, of one_button "text_query ''OK''" 0 "(NewElementLookup, 0)"]
    by (auto simp del: split_paired_Ex split_paired_All)
qed

definition shown_button :: found where
  "shown_button = (case findOnce (still_device one_button) (text_query ''OK'') (NewElementLookup, 0) of (Inr (Some e), _) \<Rightarrow> e | _ \<Rightarrow>
     \<lparr>fd_tree = Element (tn_fields one_button) no_bounds False 0 False [], fd_element = Element (tn_fields one_button) no_bounds False 0 False []\<rparr>)"


theorem WaitForHierarchySettle_returns_witness:
  "\<exists>latest s'. WaitForHierarchySettle (still_device one_button) \<lparr>sr_initial = None, sr_app = ''app'', sr_timeout = Some 500\<rparr> (NewElementLookup, 0)
      = Some ((latest, None), s') \<and> settled_twice latest"
proof -
  have "(case WaitForHierarchySettle (still_device one_button) \<lparr>sr_initial = None, sr_app = ''app'', sr_timeout = Some 500\<rparr> (NewElementLookup, 0) of
      Some ((_, err), _) \<Rightarrow> err = None | None \<Rightarrow> False)" by code_simp
  then show ?thesis
    using WaitForHierarchySettle_returns [OF still_device_keeps_time, of one_button "\<lparr>sr_initial = None, sr_app = ''app'', sr_timeout = Some 500\<rparr>"
      "(NewElementLookup, 0)"]
    by (auto simp del: split_paired_Ex split_paired_All)
qed

theorem adjustedDeadline_is_timeout_witness:
  "adjustedDeadline (still_device one_button) \<lparr>lo_optional = True, lo_timeout = None\<rparr> (RecordInteraction 1000000000 NewElementLookup, 3000000000)
    = (Inr 8000000000, RecordInteraction 1000000000 NewElementLookup, 3000000000)"
proof -
  have "AdjustedTimeout (still_device one_button) \<lparr>lo_optional = True, lo_timeout = None\<rparr> (RecordInteraction 1000000000 NewElementLookup, 3000000000)
      = (Inr 5000000000, RecordInteraction 1000000000 NewElementLookup, 3000000000)" by code_simp
  then show ?thesis
    using adjustedDeadline_is_timeout [OF still_device_now [of one_button 3000000000], of "\<lparr>lo_optional = True, lo_timeout = None\<rparr>"
      "RecordInteraction 1000000000 NewElementLookup"] by auto
qed

end
