(* ===== verification/World_Relation.thy ===== *)
theory World_Relation
  imports Lookup
begin

text \<open>
  What a lookup does to the world: a relation that every service of the driver keeps is kept by every operation of
  the lookup, in its polling loops too. A log of the touches beside the world is the instance used for taps: no
  service of the lookup touches the screen.
\<close>

section \<open>The interface\<close>

locale world_relation =
  fixes D :: "'w driver_services" and R :: "'w \<Rightarrow> 'w \<Rightarrow> bool"
  assumes same: "R w w" and after: "R w w1 \<Longrightarrow> R w1 w2 \<Longrightarrow> R w w2"
    and ctx: "dr_ctx D w = (e, w') \<Longrightarrow> R w w'" and clock: "dr_now D w = (t, w') \<Longrightarrow> R w w'"
    and pause: "dr_wait D d w = (e, w') \<Longrightarrow> R w w'" and info: "dr_info D w = (i, w') \<Longrightarrow> R w w'"
    and descriptor: "dr_descriptor D apps w = (h, w') \<Longrightarrow> R w w'" and query: "dr_query D q apps w = (ns, w') \<Longrightarrow> R w w'"
    and settle: "dr_settle D req w = (s, w') \<Longrightarrow> R w w'"
    and hittable: "dr_hittable D = Some test \<Longrightarrow> test app f b w = (a, w') \<Longrightarrow> R w w'"

definition moves :: "('w \<Rightarrow> 'w \<Rightarrow> bool) \<Rightarrow> ('w, 'a) lookup_op \<Rightarrow> bool" where
  "moves R m \<longleftrightarrow> (\<forall>l w r l' w'. m (l, w) = (r, l', w') \<longrightarrow> R w w')"

definition moves_run :: "('w \<Rightarrow> 'w \<Rightarrow> bool) \<Rightarrow> (element_lookup \<times> 'w \<Rightarrow> ('b \<times> element_lookup \<times> 'w) option) \<Rightarrow> bool" where
  "moves_run R m \<longleftrightarrow> (\<forall>l w r l' w'. m (l, w) = Some (r, l', w') \<longrightarrow> R w w')"

lemma movesD: "moves R m \<Longrightarrow> m (l, w) = (r, l', w') \<Longrightarrow> R w w'"
  unfolding moves_def by blast

lemma moves_runD: "moves_run R m \<Longrightarrow> m (l, w) = Some (r, l', w') \<Longrightarrow> R w w'"
  unfolding moves_run_def by blast

named_theorems move_rules \<open>operations that keep the relation of the world\<close>

context world_relation begin

lemma moves_return [move_rules]: "moves R (op_return a)" "moves R (op_fail e)" "moves R (op_lift v)"
  by (auto simp: moves_def intro: same)

lemma moves_bind [move_rules]:
  assumes "moves R m" "\<And>a. moves R (f a)"
  shows "moves R (op_bind m f)"
  unfolding moves_def
proof (intro allI impI)
  fix l w r l' w'
  assume bound: "op_bind m f (l, w) = (r, l', w')"
  obtain r1 l1 w1 where first: "m (l, w) = (r1, l1, w1)" by (cases "m (l, w)") auto
  have "R w w1" using movesD [OF assms(1) first] .
  then show "R w w'"
    using bound first movesD [OF assms(2), of _ l1 w1 r l' w'] after by (cases r1) (force simp: op_bind_def)+
qed

lemma moves_state [move_rules]: "(\<And>l. moves R (m l)) \<Longrightarrow> moves R (\<lambda>(l, w). m l (l, w))"
  by (auto simp: moves_def)

lemma moves_primitives [move_rules]:
  "moves R (check_ctx D)" "moves R (clock_now D)" "moves R (cancellable_wait D d)" "moves R (plain_wait D d)"
  by (auto simp: moves_def check_ctx_def clock_now_def cancellable_wait_def plain_wait_def
      split: prod.splits option.splits dest: ctx clock pause intro: after)

lemma moves_driver [move_rules]:
  assumes "\<And>w r w'. f w = (r, w') \<Longrightarrow> R w w'"
  shows "moves R (ctx_first D f)" "moves R (driver_op f)"
  by (auto simp: moves_def ctx_first_def driver_op_def split: prod.splits option.splits dest!: assms ctx intro: after)

lemma moves_then [move_rules]:
  assumes "moves R m" "\<And>a. moves_run R (f a)"
  shows "moves_run R (op_then_loop m f)"
  unfolding moves_run_def
proof (intro allI impI)
  fix l w r l' w'
  assume run: "op_then_loop m f (l, w) = Some (r, l', w')"
  obtain r1 l1 w1 where first: "m (l, w) = (r1, l1, w1)" by (cases "m (l, w)") auto
  have "R w w1" using movesD [OF assms(1) first] .
  then show "R w w'"
    using run first moves_runD [OF assms(2), of _ l1 w1 r l' w'] after by (cases r1) (auto simp: op_then_loop_def)
qed

lemma moves_loop [move_rules]:
  assumes "\<And>a. moves R (body a)"
  shows "moves_run R (op_loop body a)"
proof -
  have "b = body \<longrightarrow> R (snd s) (snd (snd p))" if "op_loop b a s = Some p" for b a s p
  proof (rule op_loop.raw_induct [OF _ that, where P = "\<lambda>b a s p. b = body \<longrightarrow> R (snd s) (snd (snd p))"])
    fix loop :: "('a \<Rightarrow> element_lookup \<times> 'w \<Rightarrow> (go_error + 'a + 'b) \<times> element_lookup \<times> 'w) \<Rightarrow> 'a
      \<Rightarrow> element_lookup \<times> 'w \<Rightarrow> ((go_error + 'b) \<times> element_lookup \<times> 'w) option"
    fix b a s p
    assume ih: "\<And>b a s p. loop b a s = Some p \<Longrightarrow> b = body \<longrightarrow> R (snd s) (snd (snd p))"
      and run: "(case b a s of (Inl e, s') \<Rightarrow> Some (Inl e, s')
        | (Inr turn, s') \<Rightarrow> (case turn of Inl a' \<Rightarrow> loop b a' s' | Inr r \<Rightarrow> Some (Inr r, s'))) = Some p"
    obtain r1 l1 w1 where step: "body a s = (r1, l1, w1)" by (cases "body a s") auto
    have "R (snd s) w1" using movesD [OF assms, of a "fst s" "snd s"] step by simp
    then show "b = body \<longrightarrow> R (snd s) (snd (snd p))"
      using run step after ih [of body _ "(l1, w1)" p] by (auto split: sum.splits)
  qed
  then show ?thesis by (fastforce simp: moves_run_def)
qed


lemma moves_lookup [move_rules]:
  "moves R (cachedDeviceInfo D)" "moves R (visibleHierarchy D)" "moves R (findOnce D sel)" "moves R (onScreen D show_point q)"
proof -
  have "moves R (op_bind (ctx_first D (dr_info D)) (\<lambda>i (l, w). (Inr i, l\<lparr>el_deviceInfo := Some i\<rparr>, w)))"
    by (intro move_rules) (auto simp: moves_def intro: info same)
  then show device: "moves R (cachedDeviceInfo D)"
    unfolding cachedDeviceInfo_def
    by (intro moves_bind moves_primitives) (auto simp: moves_def intro: same split: option.splits)
  show visible: "moves R (visibleHierarchy D)"
    unfolding visibleHierarchy_def by (intro move_rules device) (auto intro: move_rules descriptor split: sum.splits)
  show "moves R (findOnce D sel)"
    unfolding findOnce_def resolveCSS_def
    by (auto intro!: move_rules visible intro: query split: option.splits sum.splits)
  show "moves R (onScreen D show_point q)"
    unfolding onScreen_def by (auto intro!: move_rules device)
qed

lemma moves_find [move_rules]: "moves_run R (lookup_Find D sel opts)"
proof -
  have "moves R (find_round D sel opts deadline u)" for deadline u
    unfolding find_round_def by (auto intro!: move_rules split: option.splits)
  moreover have "moves R (adjustedDeadline D opts)"
    by (auto simp: moves_def adjustedDeadline_def split: prod.splits dest: clock)
  ultimately show ?thesis unfolding lookup_Find_def findUntil_def by (intro move_rules)
qed

lemma moves_stability [move_rules]: "moves_run R (WaitForElementStability D e)"
proof -
  have "moves R (stability_look D deadline seen tree)" for deadline seen tree
    unfolding stability_look_def by (auto simp: Let_def intro!: move_rules split: option.splits sum.splits)
  then have "moves R (stability_round D deadline seen)" for deadline seen
    unfolding stability_round_def by (auto intro!: move_rules)
  then show ?thesis unfolding WaitForElementStability_def by (intro move_rules) (auto intro: move_rules)
qed

lemma moves_poll [move_rules]: "moves R (pollHierarchySettle D req d s)"
  unfolding pollHierarchySettle_def by (auto intro!: move_rules intro: settle)

lemma moves_settle_attempts: "settle_attempts D req n s (l, w) = (r, l', w') \<Longrightarrow> R w w'"
proof (induction n arbitrary: s l w)
  case (Suc n)
  obtain r1 l1 w1 where step: "pollHierarchySettle D req HierarchySettlePollInterval s (l, w) = (r1, l1, w1)" by (metis prod.exhaust)
  have "R w w1" using movesD [OF moves_poll step] .
  then show ?case using Suc step after by (cases r1) (auto split: prod.splits if_splits)
qed (auto intro: same)

lemma moves_settle_round: "moves R (settle_round D req deadline s)"
proof -
  have "moves R (\<lambda>state. poll_turn s (pollHierarchySettle D req d s state))" for d
  proof -
    have "poll_turn s (pollHierarchySettle D req d s (l, w)) = (r, l', w') \<Longrightarrow> R w w'" for l w r l' w'
      by (auto simp: poll_turn_def split: prod.splits sum.splits dest: movesD [OF moves_poll])
    then show ?thesis by (simp add: moves_def)
  qed
  then show ?thesis unfolding settle_round_def by (auto intro!: move_rules)
qed

lemma moves_settle: "moves_run R (WaitForHierarchySettle D req)"
proof -
  have ask: "moves R (ctx_first D (dr_settle D req))" by (rule moves_driver(1)) (rule settle)
  have once: "settle_once D req s (l, w) = (r, l', w') \<Longrightarrow> R w w'" for s l w r l' w'
    by (auto simp: settle_once_def split: prod.splits sum.splits dest: movesD [OF ask])
  have loop: "op_loop (settle_round D req deadline) s (l, w) = Some (r, l', w') \<Longrightarrow> R w w'" for deadline s l w r l' w'
    using moves_runD [OF moves_loop [OF moves_settle_round]] .
  show ?thesis
    unfolding moves_run_def WaitForHierarchySettle_def Let_def
    by (auto split: prod.splits sum.splits option.splits if_splits
        dest!: movesD [OF moves_primitives(1)] movesD [OF moves_primitives(2)] loop once moves_settle_attempts intro: after)
qed

lemma moves_aim [move_rules]: "moves R (tapCenter D st app)"
proof -
  have "moves R (refuseCoveredTarget D st app)"
    unfolding refuseCoveredTarget_def
    by (auto simp: moves_def intro: same split: option.splits prod.splits sum.splits dest!: hittable ctx intro: after)
  then show ?thesis unfolding tapCenter_def by (auto simp: Let_def intro!: move_rules)
qed

end
end
