(* ===== verification/Tap_Facts.thy ===== *)
theory Tap_Facts
  imports Tap_Run Lookup_Facts Composite_Facts World_Relation
begin

text \<open>
  What a tap promises: a relative point stays on its element, evaluation leaves a plan that the execution accepts, the
  execution returns, and it touches the device as often as the plan says.
\<close>

section \<open>Points\<close>

lemma wrap_parts:
  assumes "0 \<le> a" "0 \<le> c" "c \<le> 9801" "a + c div 100 < 2 ^ 63"
  shows "wrap64 (wrap64 a + wrap64 c div 100) = a + c div 100"
proof -
  have "0 \<le> c div 100" using assms(2) by simp
  then have "int64 a" "int64 c" "int64 (a + c div 100)" using assms by (auto simp: int64_def)
  then show ?thesis by (simp add: wrap64_id)
qed

lemma floorTapPercentage_exact:
  assumes "0 \<le> d" "d < 2 ^ 63" "0 \<le> p" "p < 100"
  shows "floorTapPercentage d p = d * p div 100" "0 \<le> d * p div 100" "0 < d \<Longrightarrow> d * p div 100 < d"
proof -
  have quot: "d * p div 100 = (d div 100) * p + (d mod 100) * p div 100"
  proof -
    define q r where "q = d div 100" and "r = d mod 100"
    then have "d = q * 100 + r" by simp
    then have "d * p = r * p + (q * p) * 100" by (simp add: algebra_simps)
    then show ?thesis unfolding q_def [symmetric] r_def [symmetric] by simp
  qed
  show nonneg: "0 \<le> d * p div 100" using assms by (simp add: pos_imp_zdiv_nonneg_iff)
  have "d * p \<le> d * 99" using assms by (intro mult_left_mono) auto
  then have le99: "d * p div 100 \<le> d * 99 div 100" by (rule zdiv_mono1) simp
  then show "0 < d \<Longrightarrow> d * p div 100 < d" by linarith
  have bound: "d * p div 100 \<le> d" using le99 assms by linarith
  have "(d mod 100) * p \<le> 99 * 99" by (rule mult_mono) (use assms in auto)
  then have rest: "0 \<le> (d mod 100) * p" "(d mod 100) * p \<le> 99 * 99" using assms by auto
  then have "0 \<le> (d mod 100) * p div 100" by (simp add: pos_imp_zdiv_nonneg_iff)
  moreover have "0 \<le> (d div 100) * p" using assms by (simp add: pos_imp_zdiv_nonneg_iff)
  ultimately show "floorTapPercentage d p = d * p div 100"
    using rest bound assms(2) quot wrap_parts [of "d div 100 * p" "d mod 100 * p"] by (simp add: floorTapPercentage_def Let_def)
qed

definition axis_offset :: "tap_coordinate_mode \<Rightarrow> int \<Rightarrow> int \<Rightarrow> int" where
  "axis_offset mode d a = (if mode = tapCoordinatePercent then d * a div 100 else a)"

lemma resolveAxis_exact:
  assumes "resolveAxis mode d a axis = Inr v" "d < 2 ^ 63"
  shows "v = axis_offset mode d a" "0 \<le> v" "v < d"
  using assms floorTapPercentage_exact [of d a]
  by (auto simp: resolveAxis_def axis_offset_def split: if_splits tap_coordinate_mode.splits)

lemma addTapCoordinate_exact:
  assumes "addTapCoordinate origin offset = Inr v" "int64 origin" "0 \<le> offset" "offset < 2 ^ 63"
  shows "v = origin + offset"
  using assms by (auto simp: addTapCoordinate_def maximumInt64_def wrap64_id int64_def split: if_splits)




section \<open>A plan that evaluation leaves can be executed\<close>

lemma parseTapPoint_mode: "parseTapPoint range_error source = Inr q \<Longrightarrow> tpp_mode q \<noteq> tapCoordinateInvalid"
  by (auto simp: parseTapPoint_def split: list.splits sum.splits if_splits)

definition plan_ready :: "tapOnCompiled \<Rightarrow> bool" where
  "plan_ready p \<longleftrightarrow> tc_targetMode p \<noteq> tapTargetInvalid \<and> 1 \<le> tc_repeat p \<and> 0 \<le> tc_delayMillis p
     \<and> tc_delayMillis p \<le> maximumInt64 div 1000000 \<and> (tc_waitUntilVisible p \<longrightarrow> tc_targetMode p \<noteq> tapTargetScreenPoint)
     \<and> (\<forall>q. tc_point p = Some q \<longrightarrow> tpp_mode q \<noteq> tapCoordinateInvalid)"

lemma point_only_cannot_observe:
  "validateTapOnCommand c = None \<Longrightarrow> cmd_selector c = Some s \<Longrightarrow> tap_target_mode_of s = tapTargetScreenPoint
     \<Longrightarrow> sel_waitUntilVisible (sel_fields s) = None"
  by (auto simp: validateTapOnCommand_def tap_target_mode_of_def split: if_splits option.splits)

lemma compileTapOn_ready:
  assumes "compileTapOn range_error c = Inr p"
  shows "plan_ready p"
proof -
  obtain s q where c: "validateTapOnCommand c = None" "cmd_selector c = Some s"
    and q: "compile_point range_error (sel_fields s) = Inr q"
    using assms by (auto simp: compileTapOn_def Let_def split: option.splits sum.splits)
  have mode: "tap_target_mode_of s \<noteq> tapTargetInvalid" by (simp add: tap_target_mode_of_def)
  have point: "tpp_mode r \<noteq> tapCoordinateInvalid" if "q = Some r" for r
    using q that by (auto simp: compile_point_def dest: parseTapPoint_mode split: option.splits if_splits sum.splits)
  show ?thesis
    using assms c q mode point point_only_cannot_observe [OF c]
    by (auto simp: compileTapOn_def plan_ready_def Let_def RepeatDelayMillis_def maximumInt64_def split: option.splits if_splits)
qed

lemma clamped_settle: "effectiveTapSettleTimeout t = Some ms \<Longrightarrow> 0 \<le> ms \<and> ms \<le> MaximumSettleTimeout div 1000000"
  by (auto simp: effectiveTapSettleTimeout_def Let_def MaximumSettleTimeout_def split: if_splits)

lemma ready_plan_executable:
  assumes "plan_ready p" "TrimSpace appID \<noteq> ''''" "evaluated_point range_error p c' = Inr point" "evaluated_target p c'' = Inr target"
  shows "validateTapExecutionPlan (tap_plan_of p appID point target c'') = None"
proof -
  have "wrap64 (tc_delayMillis p * 1000000) = tc_delayMillis p * 1000000"
    using assms(1) by (intro wrap64_id) (auto simp: plan_ready_def int64_def maximumInt64_def)
  moreover have "tpp_mode q \<noteq> tapCoordinateInvalid" if "point = Some q" for q
    using assms(1,3) that by (auto simp: evaluated_point_def plan_ready_def dest: parseTapPoint_mode split: if_splits option.splits sum.splits)
  moreover have "point \<noteq> None \<longleftrightarrow> tc_targetMode p = tapTargetScreenPoint \<or> tc_targetMode p = tapTargetSelectorPoint"
    using assms(3) by (auto simp: evaluated_point_def split: if_splits option.splits sum.splits) metis+
  moreover have "target \<noteq> None \<longleftrightarrow> tc_targetMode p = tapTargetSelectorCenter \<or> tc_targetMode p = tapTargetSelectorPoint"
    using assms(4) by (auto simp: evaluated_target_def split: if_splits sum.splits)
  moreover have "\<not> (case effectiveTapSettleTimeout (tc_settleTimeout p) of None \<Rightarrow> False | Some ms \<Rightarrow> ms < 0 \<or> ms > MaximumSettleTimeout div 1000000)"
    using clamped_settle [of "tc_settleTimeout p"] by (auto split: option.splits)
  ultimately show ?thesis
    using assms(1,2)
    by (auto simp: validateTapExecutionPlan_def tap_plan_of_def plan_ready_def bad_point_def Let_def
        split: tap_target_mode.splits)
qed

text \<open>C32: A tap that was compiled and evaluated without an error carries a plan that the execution accepts: its
  application is named, it taps at least once with a delay that fits a duration, its target mode has exactly the
  point and the selector it needs, and its settle timeout is within thirty seconds, whatever the script engine and
  the executor answer.
\<close>

theorem evaluated_tap_is_executable:
  assumes "compileTapOn range_error c = Inr p" "possible (evaluateTapOn S range_error c' (TapCompiled p)) tr (evaluated, None)"
  shows "\<exists>plan. ed_value evaluated = Some (TapEvaluated plan) \<and> validateTapExecutionPlan plan = None"
proof -
  obtain c1 appID point target where "TrimSpace appID \<noteq> ''''" "evaluated_point range_error p c1 = Inr point"
      "evaluated_target p (updateTapEvaluatedMetadata p c1) = Inr target"
    and "ed_value evaluated = Some (TapEvaluated (tap_plan_of p appID point target (updateTapEvaluatedMetadata p c1)))"
    using assms(2) unfolding evaluateTapOn_def tap_payload.case Let_def
    by (auto elim!: possible_bindE split: if_splits sum.splits)
  then show ?thesis using ready_plan_executable [OF compileTapOn_ready [OF assms(1)]] by blast
qed


definition tap_text :: "string \<Rightarrow> int option \<Rightarrow> element_selector" where
  "tap_text t n = ElementSelector \<lparr>sel_textRegex = Some t, sel_idRegex = None, sel_size = None, sel_optional = None,
     sel_retryTapIfNoChange = None, sel_waitUntilVisible = None, sel_point = None, sel_start = None, sel_end = None, sel_traits = None,
     sel_index = None, sel_enabled = None, sel_selected = None, sel_checked = None, sel_focused = None, sel_repeat = n,
     sel_delay = None, sel_waitToSettleTimeoutMS = None, sel_label = None, sel_css = None\<rparr> None None None None None None None no_source None"

definition tap_command :: command where
  "tap_command = Command ''tapOn'' CommandFormObject (DynMap (Some [(''repeat'', DynInt 2), (''text'', DynString ''OK'')]))
     (Some (tap_text ''OK'' (Some 2))) None None None None None no_source"

lemma tap_compiles:
  "compileTapOn (Plain_Error '''') tap_command = Inr \<lparr>tc_targetMode = tapTargetSelectorCenter, tc_point = None,
     tc_pointRequiresEval = False, tc_repeat = 2, tc_repeatPresent = True, tc_delayMillis = 100, tc_delayMetadata = True,
     tc_settleTimeout = None, tc_retryTapIfNoChange = False, tc_waitUntilVisible = False\<rparr>"
  by code_simp


definition tap_handler_services :: "unit handler_services" where
  "tap_handler_services = idle_services\<lparr>hs_regexp := (\<lambda>_. Some (\<lambda>_. True))\<rparr>"

definition one_app_host :: "host_request \<Rightarrow> unit \<Rightarrow> host_reply \<times> unit" where
  "one_app_host q s = ((case q of ConfigRequest \<Rightarrow> ConfigReply (Config '''' ''app'' '''' None None None None None None no_source None) | _ \<Rightarrow> Granted), s)"

lemma possible_by_run:
  assumes "(case run_prog (traced host) (\<lambda>p. get (fst p)) (\<lambda>w (s, tr). (put w s, tr)) p (s, []) of
      (Return r, _) \<Rightarrow> snd r = None | _ \<Rightarrow> False)"
  shows "\<exists>tr a. possible p tr (a, None)"
proof -
  obtain a logs s' tr where "run_prog (traced host) (\<lambda>p. get (fst p)) (\<lambda>w (s, tr). (put w s, tr)) p (s, []) = (Return (a, None), logs, s', tr)"
    using assms by (auto split: prod.splits go_return.splits option.splits)
  from run_prog_possible [OF this] show ?thesis by blast
qed

lemma tap_evaluates:
  "\<exists>tr evaluated. possible (evaluateTapOn tap_handler_services (Plain_Error '''') tap_command (TapCompiled
     \<lparr>tc_targetMode = tapTargetSelectorCenter, tc_point = None,
     tc_pointRequiresEval = False, tc_repeat = 2, tc_repeatPresent = True, tc_delayMillis = 100, tc_delayMetadata = True,
     tc_settleTimeout = None, tc_retryTapIfNoChange = False, tc_waitUntilVisible = False\<rparr>)) tr (evaluated, None)"
proof -
  let ?program = "evaluateTapOn tap_handler_services (Plain_Error '''') tap_command (TapCompiled
     \<lparr>tc_targetMode = tapTargetSelectorCenter, tc_point = None,
     tc_pointRequiresEval = False, tc_repeat = 2, tc_repeatPresent = True, tc_delayMillis = 100, tc_delayMetadata = True,
     tc_settleTimeout = None, tc_retryTapIfNoChange = False, tc_waitUntilVisible = False\<rparr>)"
  have "(case run_prog (traced one_app_host) (\<lambda>p. fst p) (\<lambda>w (s, tr). (w, tr)) ?program ((), []) of
      (Return r, _) \<Rightarrow> snd r = None | _ \<Rightarrow> False)" by code_simp
  then show ?thesis by (rule possible_by_run)
qed

theorem evaluated_tap_is_executable_witness:
  "\<exists>tr evaluated plan. possible (evaluateTapOn tap_handler_services (Plain_Error '''') tap_command (TapCompiled
     \<lparr>tc_targetMode = tapTargetSelectorCenter, tc_point = None,
     tc_pointRequiresEval = False, tc_repeat = 2, tc_repeatPresent = True, tc_delayMillis = 100, tc_delayMetadata = True,
     tc_settleTimeout = None, tc_retryTapIfNoChange = False, tc_waitUntilVisible = False\<rparr>)) tr (evaluated, None)
     \<and> ed_value evaluated = Some (TapEvaluated plan) \<and> validateTapExecutionPlan plan = None"
  using tap_evaluates evaluated_tap_is_executable [OF tap_compiles] by blast


section \<open>A tap returns\<close>

text \<open>Runs that always return.\<close>

definition total :: "('w, 'a) run_op \<Rightarrow> bool" where
  "total m \<longleftrightarrow> (\<forall>s. m s \<noteq> None)"

named_theorems total_rules \<open>runs that always return\<close>

lemma op_loop_total:
  fixes m :: "'a \<Rightarrow> element_lookup \<times> 'w \<Rightarrow> nat"
  assumes "\<And>a s a' s'. body a s = (Inr (Inl a'), s') \<Longrightarrow> m a' s' < m a s"
  shows "total (op_loop body a)"
  using op_loop_returns [of "\<lambda>_ _. True" a _ body m] assms unfolding total_def by fastforce

lemma total_op [total_rules]: "total (run_op m)" "total (run_fail e)" "total (run_return a)"
  by (simp_all add: total_def run_op_def run_fail_def run_return_def)

lemma total_then [total_rules]: "(\<And>a. total (f a)) \<Longrightarrow> total (op_then_loop m f)"
  by (auto simp: total_def op_then_loop_def split: prod.splits sum.splits)

lemma total_bind [total_rules]: "total m \<Longrightarrow> (\<And>a. total (f a)) \<Longrightarrow> total (run_bind m f)"
  by (auto simp: total_def run_bind_def op_then_loop_def split: option.splits prod.splits sum.splits)

lemma total_lookup:
  assumes "keeps_time D time"
  shows "total (lookup_Find D sel opts)" "total (WaitForElementStability D e)" "WaitForHierarchySettle D req s \<noteq> None"
proof -
  have "total (op_loop (find_round D sel opts deadline) a)" for deadline a
    by (rule op_loop_total [where m = "\<lambda>_. time_left time deadline"]) (auto intro: find_round_shortens [OF assms])
  then show "total (lookup_Find D sel opts)" unfolding lookup_Find_def findUntil_def by (intro total_rules)
  have "total (op_loop (stability_round D deadline) a)" for deadline a
    by (rule op_loop_total [where m = "\<lambda>_. time_left time deadline"]) (auto intro: stability_round_shortens [OF assms])
  then show "total (WaitForElementStability D e)" unfolding WaitForElementStability_def by (intro total_rules)
  have "total (op_loop (settle_round D req deadline) a)" for deadline a
    by (rule op_loop_total [where m = "\<lambda>_. time_left time deadline"]) (auto intro: settle_round_shortens [OF assms])
  then show "WaitForHierarchySettle D req s \<noteq> None"
    by (auto simp: WaitForHierarchySettle_def total_def Let_def simp del: not_None_eq split: prod.splits sum.splits option.splits)
qed

lemma total_tap:
  assumes "keeps_time (ts_driver S) time"
  shows "total (resolveTapPoint S p)" "total (executeResolvedTapBatch S p q initial)"
proof -
  note lookup = total_lookup [OF assms]
  have "total (run_bind (lookup_Find (ts_driver S) sel opts) (\<lambda>e. case e of
       None \<Rightarrow> run_fail err
     | Some e \<Rightarrow> run_bind (WaitForElementStability (ts_driver S) e) (\<lambda>st. run_op (f st))))" for sel opts err and f :: "stability_result \<Rightarrow> ('a, point) lookup_op"
    by (rule total_bind [OF lookup(1)]) (auto intro: total_rules lookup(2) split: option.splits)
  then show "total (resolveTapPoint S p)"
    unfolding resolveTapPoint_def by (auto intro: total_rules split: tap_target_mode.splits option.splits)
  have "total (waitForTapOwnedSettle S p initial)"
    using lookup(3) by (auto simp: total_def waitForTapOwnedSettle_def simp del: not_None_eq split: option.splits prod.splits)
  then show "total (executeResolvedTapBatch S p q initial)"
    unfolding executeResolvedTapBatch_def by (intro total_rules)
qed


section \<open>How often a tap touches the screen\<close>

text \<open>The services with a log of the touches beside the world: where and in which application the driver was told to tap.\<close>

type_synonym touch = "string \<times> point"

definition beside :: "('w \<Rightarrow> 'r \<times> 'w) \<Rightarrow> 'w \<times> touch list \<Rightarrow> 'r \<times> 'w \<times> touch list" where
  "beside f = (\<lambda>(w, log). case f w of (r, w') \<Rightarrow> (r, w', log))"

definition logged_driver :: "'w driver_services \<Rightarrow> ('w \<times> touch list) driver_services" where
  "logged_driver D = \<lparr>dr_name = dr_name D, dr_ctx = beside (dr_ctx D), dr_now = beside (dr_now D), dr_wait = (\<lambda>d. beside (dr_wait D d)),
     dr_features = dr_features D, dr_info = beside (dr_info D), dr_descriptor = (\<lambda>apps. beside (dr_descriptor D apps)),
     dr_query = (\<lambda>q apps. beside (dr_query D q apps)), dr_settle = (\<lambda>req. beside (dr_settle D req)), dr_clips = dr_clips D,
     dr_tapsInside = dr_tapsInside D, dr_hittable = map_option (\<lambda>test app f b. beside (test app f b)) (dr_hittable D),
     dr_regexp = dr_regexp D, dr_matchingError = dr_matchingError D, dr_boundsError = dr_boundsError D\<rparr>"

definition logged :: "'w tap_services \<Rightarrow> ('w \<times> touch list) tap_services" where
  "logged S = \<lparr>ts_driver = logged_driver (ts_driver S), ts_foreign = ts_foreign S, ts_lookup = beside (ts_lookup S),
     ts_tap = (\<lambda>app q (w, log). case ts_tap S app q w of (r, w') \<Rightarrow> (r, w', log @ [(app, q)])),
     ts_screenshot = beside (ts_screenshot S), ts_images = map_option (\<lambda>check e a. beside (check e a)) (ts_images S),
     ts_imageError = ts_imageError S, ts_showPoint = ts_showPoint S\<rparr>"

definition same_log :: "'w \<times> touch list \<Rightarrow> 'w \<times> touch list \<Rightarrow> bool" where
  "same_log p q \<longleftrightarrow> snd p = snd q"

lemma beside_same: "beside f p = (r, p') \<Longrightarrow> same_log p p'"
  by (auto simp: beside_def same_log_def split: prod.splits)

interpretation log: world_relation "logged_driver D" same_log for D
  by unfold_locales (auto simp: logged_driver_def beside_same simp: same_log_def dest: beside_same)

lemma logged_driver_of [simp]: "ts_driver (logged S) = logged_driver (ts_driver S)"
  by (simp add: logged_def)


context world_relation begin

lemma moves_run_op [move_rules]:
  assumes "moves R m"
  shows "moves_run R (run_op m)"
  using assms by (auto simp: moves_run_def moves_def run_op_def)

lemma moves_run_bind [move_rules]:
  assumes "moves_run R m" "\<And>a. moves_run R (f a)"
  shows "moves_run R (run_bind m f)"
  unfolding moves_run_def
proof (intro allI impI)
  fix l w r l' w'
  assume run: "run_bind m f (l, w) = Some (r, l', w')"
  then obtain r1 l1 w1 where first: "m (l, w) = Some (r1, l1, w1)" by (auto simp: run_bind_def split: option.splits)
  have "R w w1" using moves_runD [OF assms(1) first] .
  then show "R w w'"
    using run first moves_runD [OF assms(2), of _ l1 w1 r l' w'] after by (cases r1) (auto simp: run_bind_def op_then_loop_def)
qed

end

lemma quiet_resolve: "moves_run same_log (resolveTapPoint (logged S) p)"
  unfolding resolveTapPoint_def run_fail_def aim_at_def
  by (auto intro!: move_rules
      split: tap_target_mode.splits option.splits sum.splits)


lemma quiet_services [move_rules]:
  "moves same_log (captureTapRetryHierarchy (logged S))" "moves same_log (captureTapRetryScreenshot (logged S))"
  "moves same_log (checkImages (logged S) expected actual)" "moves same_log (record_interaction (logged_driver D))"
proof -
  show "moves same_log (captureTapRetryHierarchy (logged S))"
    unfolding captureTapRetryHierarchy_def
    by (auto intro!: move_rules intro: log.descriptor)
  show shot: "moves same_log (captureTapRetryScreenshot (logged S))"
    unfolding captureTapRetryScreenshot_def by (auto simp: logged_def intro!: move_rules intro: beside_same)
  show "moves same_log (checkImages (logged S) expected actual)"
    unfolding checkImages_def
    by (auto simp: logged_def intro!: move_rules intro: beside_same split: option.splits)
  show "moves same_log (record_interaction (logged_driver D))"
    by (auto simp: moves_def record_interaction_def logged_driver_def same_log_def beside_def split: prod.splits)
qed

lemma quiet_retry_check [move_rules]:
  "moves same_log (screen_unchanged (logged S) expected)" "moves same_log (tap_before (logged S) p)"
  unfolding screen_unchanged_def tap_before_def by (auto intro!: move_rules split: sum.splits)

lemma quiet_settle: "moves_run same_log (waitForTapOwnedSettle (logged S) p initial)"
  unfolding moves_run_def waitForTapOwnedSettle_def
  by (auto split: option.splits prod.splits if_splits dest!: moves_runD [OF log.moves_settle])

lemma quiet_observations: "moves same_log (tap_observations (logged S) sel n)"
proof (induction n)
  case (Suc n)
  have rest: "moves same_log (op_bind (cancellable_wait (logged_driver (ts_driver S)) WaitUntilVisiblePollInterval)
      (\<lambda>_. tap_observations (logged S) sel n))"
    using Suc by (auto intro!: move_rules)
  have "moves same_log (\<lambda>(l, w). case findOnce (logged_driver (ts_driver S)) sel (l, w) of (r, l', w') \<Rightarrow>
      (case check_ctx (logged_driver (ts_driver S)) (l', w') of
         (Inl c, s') \<Rightarrow> (Inl c, s')
       | (Inr _, s') \<Rightarrow> (case r of Inl e \<Rightarrow> (Inl e, s') | Inr (Some e) \<Rightarrow> (Inr (), s')
           | Inr None \<Rightarrow> (if n = 0 then tap_observations (logged S) sel n
               else op_bind (cancellable_wait (logged_driver (ts_driver S)) WaitUntilVisiblePollInterval) (\<lambda>_. tap_observations (logged S) sel n)) s')))"
    unfolding moves_def
    by (auto split: prod.splits sum.splits option.splits if_splits
        dest!: movesD [OF log.moves_lookup(3)] movesD [OF log.moves_primitives(1)] movesD [OF rest] movesD [OF Suc] intro: log.after)
  then show ?case unfolding tap_observations.simps logged_driver_of by (intro log.moves_bind log.moves_primitives)
next
  case 0
  show ?case unfolding tap_observations.simps by (rule log.moves_return)
qed


text \<open>One batch: the touches of a plan at one point, all of them when it succeeds.\<close>

lemma one_tap_logs:
  assumes "one_tap (logged S) p q (l, w, ts) = (r, l', w', ts')"
  shows "ts' = ts @ [(elementAppID (te_appID p) (te_targetMode p), q)] \<or> ts' = ts \<and> r \<noteq> Inr ()"
proof -
  let ?touch = "(elementAppID (te_appID p) (te_targetMode p), q)"
  have quiet: "check_ctx (logged_driver D) (l, w, ts) = (r, l', w', ts') \<Longrightarrow> ts' = ts" for D :: "'a driver_services" and l w ts r l' w' ts'
    using movesD [OF log.moves_primitives(1)] by (fastforce simp: same_log_def)
  have tap: "ctx_on_error (logged_driver (ts_driver S)) (ts_tap (logged S) (elementAppID (te_appID p) (te_targetMode p)) q) (l, w, ts)
      = (r, l', w', ts') \<Longrightarrow> ts' = ts @ [?touch]" for l w ts r l' w' ts'
    by (auto simp: ctx_on_error_def logged_def logged_driver_def beside_def split: prod.splits option.splits)
  have recorded: "record_interaction (logged_driver D) (l, w, ts) = (r, l', w', ts') \<Longrightarrow> ts' = ts" for D :: "'a driver_services" and l w ts r l' w' ts'
    using movesD [OF quiet_services(4)] by (fastforce simp: same_log_def)
  show ?thesis
    using assms by (cases r) (auto simp: one_tap_def op_bind_Inl op_bind_Inr dest!: quiet tap recorded)
qed

lemma tap_batch_logs:
  "tap_batch (logged S) p q n (l, w, ts) = (r, l', w', ts') \<Longrightarrow>
     \<exists>k \<le> n. ts' = ts @ replicate k (elementAppID (te_appID p) (te_targetMode p), q) \<and> (r = Inr () \<longrightarrow> k = n)"
proof (induction n arbitrary: l w ts)
  case (Suc n)
  let ?touch = "(elementAppID (te_appID p) (te_targetMode p), q)"
  obtain r1 l1 w1 ts1 where first: "one_tap (logged S) p q (l, w, ts) = (r1, l1, w1, ts1)" by (metis prod_cases4)
  note logged = one_tap_logs [OF first]
  show ?case
  proof (cases r1)
    case (Inl e)
    then have "r = Inl e" "ts' = ts1" using Suc.prems first by (auto simp: op_bind_def)
    then show ?thesis using logged by (auto intro: exI [of _ 0] exI [of _ "Suc 0"])
  next
    case (Inr u)
    then have ts1: "ts1 = ts @ [?touch]" using logged by simp
    show ?thesis
    proof (cases "n = 0")
      case True
      then show ?thesis using Suc.prems first Inr ts1 by (auto simp: op_bind_def intro: exI [of _ "Suc 0"])
    next
      case False
      obtain r2 l2 w2 ts2 where pause: "cancellable_wait (logged_driver (ts_driver S)) (te_delay p) (l1, w1, ts1) = (r2, l2, w2, ts2)"
        by (metis prod_cases4)
      have ts2: "ts2 = ts1" using movesD [OF log.moves_primitives(3) pause] by (simp add: same_log_def)
      show ?thesis
      proof (cases r2)
        case (Inl e)
        then have "r = Inl e" "ts' = ts1" using Suc.prems first Inr pause False ts2 \<open>r1 = Inr u\<close> by (auto simp: op_bind_def)
        then show ?thesis using ts1 by (auto intro: exI [of _ "Suc 0"])
      next
        case (Inr v)
        then have "tap_batch (logged S) p q n (l2, w2, ts1) = (r, l', w', ts')"
          using Suc.prems first pause False ts2 \<open>r1 = Inr u\<close> by (simp add: op_bind_def)
        then obtain k where "k \<le> n" "ts' = ts1 @ replicate k ?touch" "r = Inr () \<longrightarrow> k = n" using Suc.IH by blast
        then show ?thesis using ts1 by (auto intro!: exI [of _ "Suc k"])
      qed
    qed
  qed
qed simp


lemma executeResolvedTapBatch_logs:
  assumes "executeResolvedTapBatch (logged S) p q initial (l, w, ts) = Some (r, l', w', ts')"
  shows "\<exists>k \<le> nat (te_repeat p). ts' = ts @ replicate k (elementAppID (te_appID p) (te_targetMode p), q)
    \<and> (\<forall>post. r = Inr post \<longrightarrow> k = nat (te_repeat p))"
proof -
  obtain r1 l1 w1 ts1 where batch: "tap_batch (logged S) p q (nat (te_repeat p)) (l, w, ts) = (r1, l1, w1, ts1)" by (metis prod_cases4)
  note logged = tap_batch_logs [OF batch]
  show ?thesis
  proof (cases r1)
    case (Inl e)
    then have "r = Inl e" "ts' = ts1" using assms batch
      by (auto simp: executeResolvedTapBatch_def run_bind_def run_op_def op_then_loop_def)
    then show ?thesis using logged by auto
  next
    case (Inr u)
    then have "waitForTapOwnedSettle (logged S) p initial (l1, w1, ts1) = Some (r, l', w', ts')"
      using assms batch by (simp add: executeResolvedTapBatch_def run_bind_def run_op_def op_then_loop_def)
    then have "ts' = ts1" using moves_runD [OF quiet_settle] by (fastforce simp: same_log_def)
    then show ?thesis using logged Inr by auto
  qed
qed

text \<open>What the log gains in an execution that reports \<open>runs\<close> batches.\<close>

definition batches :: "tapOnEvaluated \<Rightarrow> int \<Rightarrow> go_error option \<Rightarrow> touch list \<Rightarrow> bool" where
  "batches p runs e ts \<longleftrightarrow>
     (let whole = nat (te_repeat p); touch = (\<lambda>q. (elementAppID (te_appID p) (te_targetMode p), q)) in
        runs = 0 \<and> ts = [] \<and> e \<noteq> None
      \<or> runs = 1 \<and> (\<exists>q. \<exists>k \<le> whole. ts = replicate k (touch q) \<and> (e = None \<longrightarrow> k = whole))
      \<or> runs = 2 \<and> te_retryTapIfNoChange p
          \<and> (\<exists>q q'. \<exists>k \<le> whole. ts = replicate whole (touch q) @ replicate k (touch q') \<and> (e = None \<longrightarrow> k = whole)))"

lemma tap_stage_cases:
  assumes "tap_stage runs m k s = Some ((n, e), s')"
  obtains (stopped) err where "m s = Some (Inl err, s')" "n = runs" "e = Some err"
    | (went_on) a s1 where "m s = Some (Inr a, s1)" "k a s1 = Some ((n, e), s')"
  using assms that unfolding tap_stage_def by (auto split: option.splits prod.splits sum.splits)

lemma quiet_visible:
  assumes "tap_visible (logged S) p runs (l, w, ts) = Some ((n, e), l', w', ts')"
  shows "n = runs \<and> ts' = ts"
proof (cases "te_waitUntilVisible p")
  case True
  show ?thesis
  proof (cases "te_targetSelector p")
    case (Some t)
    from assms True Some have "tap_stage runs (run_op (waitForTapTargetVisible (logged S) (cloneSelector t)))
        (\<lambda>_ s. Some ((runs, None), s)) (l, w, ts) = Some ((n, e), l', w', ts')" by (simp add: tap_visible_def)
    then show ?thesis
      by (cases rule: tap_stage_cases)
        (auto simp: run_op_def waitForTapTargetVisible_def same_log_def dest!: movesD [OF quiet_observations])
  qed (use assms True in \<open>simp add: tap_visible_def\<close>)
qed (use assms in \<open>simp add: tap_visible_def\<close>)

lemma tap_again_logs:
  assumes "tap_again (logged S) p (l, w, ts) = Some ((n, e), l', w', ts')"
  shows "n = 1 \<and> ts' = ts \<and> e \<noteq> None
    \<or> n = 2 \<and> (\<exists>q. \<exists>k \<le> nat (te_repeat p). ts' = ts @ replicate k (elementAppID (te_appID p) (te_targetMode p), q) \<and> (e = None \<longrightarrow> k = nat (te_repeat p)))"
  using assms unfolding tap_again_def
proof (cases rule: tap_stage_cases)
  case (stopped err)
  then show ?thesis using moves_runD [OF quiet_resolve] by (fastforce simp: same_log_def)
next
  case (went_on q s1)
  obtain l1 w1 ts1 where s1: "s1 = (l1, w1, ts1)" by (metis prod.exhaust)
  then have ts1: "ts1 = ts" using went_on moves_runD [OF quiet_resolve] by (fastforce simp: same_log_def)
  from went_on(2) show ?thesis
  proof (cases rule: tap_stage_cases)
    case (stopped err)
    then show ?thesis using executeResolvedTapBatch_logs [of S p q None l1 w1 ts1 "Inl err" l' w' ts'] s1 ts1 by auto
  next
    case (went_on post s2)
    obtain l2 w2 ts2 where s2: "s2 = (l2, w2, ts2)" by (metis prod.exhaust)
    have "ts2 = ts @ replicate (nat (te_repeat p)) (elementAppID (te_appID p) (te_targetMode p), q)"
      using executeResolvedTapBatch_logs [of S p q None l1 w1 ts1 "Inr post" l2 w2 ts2] went_on s1 s2 ts1 by auto
    then show ?thesis using went_on s2 quiet_visible by fastforce
  qed
qed


lemma after_batch_logs:
  assumes "(case before_taps of
      None \<Rightarrow> tap_visible (logged S) p 1
    | Some (h, shot) \<Rightarrow>
        if post = Some h
        then tap_stage 1 (run_op (screen_unchanged (logged S) shot)) (\<lambda>same. if same then tap_again (logged S) p else tap_visible (logged S) p 1)
        else tap_visible (logged S) p 1) (l, w, ts) = Some ((n, e), l', w', ts')"
    and "ts = ts0 @ replicate (nat (te_repeat p)) (elementAppID (te_appID p) (te_targetMode p), q)"
    and "before_taps \<noteq> None \<Longrightarrow> te_retryTapIfNoChange p"
  shows "\<exists>touches. ts' = ts0 @ touches \<and> batches p n e touches"
proof -
  have once: ?thesis if "n = 1" "ts' = ts" using that assms(2) by (auto simp: batches_def Let_def)
  show ?thesis
  proof (cases "\<exists>h shot. before_taps = Some (h, shot) \<and> post = Some h")
    case False
    then have "tap_visible (logged S) p 1 (l, w, ts) = Some ((n, e), l', w', ts')" using assms(1) by (auto split: option.splits)
    then show ?thesis using quiet_visible [of S p 1 l w ts n e l' w' ts'] once by simp
  next
    case True
    then obtain shot where "tap_stage 1 (run_op (screen_unchanged (logged S) shot))
        (\<lambda>same. if same then tap_again (logged S) p else tap_visible (logged S) p 1) (l, w, ts) = Some ((n, e), l', w', ts')"
      using assms(1) by auto
    then show ?thesis
    proof (cases rule: tap_stage_cases)
      case (stopped err)
      then show ?thesis using movesD [OF quiet_retry_check(1)] once by (fastforce simp: same_log_def run_op_def)
    next
      case (went_on same s1)
      obtain l1 w1 ts1 where s1: "s1 = (l1, w1, ts1)" by (metis prod.exhaust)
      then have ts1: "ts1 = ts" using went_on movesD [OF quiet_retry_check(1)] by (fastforce simp: same_log_def run_op_def)
      show ?thesis
      proof (cases same)
        case False
        then show ?thesis using went_on s1 ts1 quiet_visible once by fastforce
      next
        case same: True
        then have "tap_again (logged S) p (l1, w1, ts) = Some ((n, e), l', w', ts')" using went_on s1 ts1 by simp
        then show ?thesis
          using tap_again_logs [of S p l1 w1 ts n e l' w' ts'] once assms(2,3) True by (auto simp: batches_def Let_def)
      qed
    qed
  qed
qed

lemma run_taps_logs:
  assumes "run_taps (logged S) p (l, w, ts) = Some ((n, e), l', w', ts')"
  shows "\<exists>touches. ts' = ts @ touches \<and> batches p n e touches"
  using assms unfolding run_taps_def
proof (cases rule: tap_stage_cases)
  case (stopped err)
  then show ?thesis using moves_runD [OF quiet_resolve] by (fastforce simp: same_log_def batches_def)
next
  case (went_on q s1)
  obtain l1 w1 ts1 where s1: "s1 = (l1, w1, ts1)" by (metis prod.exhaust)
  then have ts1: "ts1 = ts" using went_on moves_runD [OF quiet_resolve] by (fastforce simp: same_log_def)
  from went_on(2) show ?thesis
  proof (cases rule: tap_stage_cases)
    case (stopped err)
    then show ?thesis using s1 ts1 movesD [OF quiet_retry_check(2)] by (fastforce simp: same_log_def run_op_def batches_def)
  next
    case (went_on before_taps s2)
    obtain l2 w2 ts2 where s2: "s2 = (l2, w2, ts2)" by (metis prod.exhaust)
    then have ts2: "ts2 = ts" using went_on s1 ts1 movesD [OF quiet_retry_check(2)] by (fastforce simp: same_log_def run_op_def)
    have retry: "before_taps \<noteq> None \<Longrightarrow> te_retryTapIfNoChange p"
      using went_on(1) by (auto simp: run_op_def tap_before_def split: if_splits)
    from went_on(2) show ?thesis
    proof (cases rule: tap_stage_cases)
      case (stopped err)
      then show ?thesis
        using executeResolvedTapBatch_logs [of S p q "map_option fst before_taps" l2 w2 ts2 "Inl err" l' w' ts'] s2 ts2
        by (auto simp: batches_def Let_def)
    next
      case (went_on post s3)
      obtain l3 w3 ts3 where s3: "s3 = (l3, w3, ts3)" by (metis prod.exhaust)
      then have "ts3 = ts @ replicate (nat (te_repeat p)) (elementAppID (te_appID p) (te_targetMode p), q)"
        using executeResolvedTapBatch_logs [of S p q "map_option fst before_taps" l2 w2 ts2 "Inr post" l3 w3 ts3] went_on s2 ts2 by auto
      then show ?thesis using retry by (rule after_batch_logs [OF went_on(2) [unfolded s3]])
    qed
  qed
qed

text \<open>C8: A tap touches the screen exactly as its plan says. Whatever the device answers, a log kept beside the world gains
  nothing but touches in the plan's application, the whole repeat count at one point for each batch the effect reports,
  with at most one further batch, after a retry was asked for; a tap that fails has left the last batch unfinished at
  most, and one that reports no batch has touched nothing.
\<close>

theorem tap_touches_as_planned:
  assumes "executeTapOn (logged S) (TapEvaluated p) (l, w, ts) = Some ((effect, e), l', w', ts')"
  shows "\<exists>touches. ts' = ts @ touches \<and> batches p (eff_numberOfRuns effect) e touches"
proof (cases "validateTapExecutionPlan p = None \<and> \<not> (te_retryTapIfNoChange p \<and> ts_images (logged S) = None) \<and> fst (ts_lookup S w) = None")
  case True
  obtain w1 where found: "ts_lookup (logged S) (w, ts) = (None, w1, ts)"
    using True by (cases "ts_lookup S w") (simp add: logged_def beside_def)
  have "executeTapOn (logged S) (TapEvaluated p) (l, w, ts)
      = map_option (\<lambda>((runs, e), s). ((tap_effect runs, e), s)) (run_taps (logged S) p (l, w1, ts))"
    using True found by (simp only: executeTapOn_def split_conv tap_payload.case option.case prod.case if_False)
  then obtain n where "run_taps (logged S) p (l, w1, ts) = Some ((n, e), l', w', ts')" "effect = tap_effect n"
    using assms by (cases "run_taps (logged S) p (l, w1, ts)") auto
  then show ?thesis using run_taps_logs [of S p l w1 ts n e l' w' ts'] by (simp add: tap_effect_def)
next
  case False
  have "executeTapOn (logged S) (TapEvaluated p) (l, w, ts) = Some ((tap_effect 0, Some err), l, w, ts)"
    if "validateTapExecutionPlan p = Some err" for err
    using that by (simp add: executeTapOn_def)
  then have "eff_numberOfRuns effect = 0 \<and> e \<noteq> None \<and> ts' = ts" if "validateTapExecutionPlan p \<noteq> None"
    using that assms by (auto simp: tap_effect_def)
  moreover have "eff_numberOfRuns effect = 0 \<and> e \<noteq> None \<and> ts' = ts" if "validateTapExecutionPlan p = None"
    using that assms False
    by (auto simp: executeTapOn_def tap_effect_def no_effect_def logged_def beside_def split: option.splits if_splits prod.splits)
  ultimately have "eff_numberOfRuns effect = 0 \<and> e \<noteq> None \<and> ts' = ts" by blast
  then show ?thesis by (simp add: batches_def)
qed


section \<open>The execution returns\<close>

definition outcome_ready :: "'w tap_outcome \<Rightarrow> bool" where
  "outcome_ready r \<longleftrightarrow> (\<exists>n e s'. r = Some ((n, e), s') \<and> n \<in> {0, 1, 2})"

lemma stage_ready:
  assumes "total m" "runs \<in> {0, 1, 2}" "\<And>a s. outcome_ready (k a s)"
  shows "outcome_ready (tap_stage runs m k s)"
proof -
  obtain r s1 where "m s = Some (r, s1)" using assms(1) unfolding total_def by fastforce
  then show ?thesis using assms(2,3) by (cases r) (auto simp: tap_stage_def outcome_ready_def)
qed

lemma visible_ready: "runs \<in> {0, 1, 2} \<Longrightarrow> outcome_ready (tap_visible S p runs s)"
proof -
  assume runs: "runs \<in> {0, 1, 2}"
  then have "outcome_ready (Some ((runs, None), s))" for s :: "element_lookup \<times> 'a" by (auto simp: outcome_ready_def)
  moreover from this have "outcome_ready (tap_stage runs (run_op m) (\<lambda>_ s. Some ((runs, None), s)) s)" for m :: "('a, unit) lookup_op"
    by (rule stage_ready [OF total_op(1) runs])
  ultimately show ?thesis unfolding tap_visible_def by (auto split: option.splits)
qed

text \<open>C36: Executing a tap always returns when the clock keeps time, whatever the device shows and however the payload
  looks: with an outcome, the effect of a device mutation, and a report of no, one or two batches.
\<close>

theorem executeTapOn_returns:
  assumes "keeps_time (ts_driver S) time"
  shows "\<exists>n e s'. executeTapOn S payload s = Some ((tap_effect n, e), s') \<and> n \<in> {0, 1, 2}"
proof -
  note runs = total_tap [OF assms]
  have again: "outcome_ready (tap_again S p s)" for p s
    unfolding tap_again_def by (intro stage_ready runs visible_ready) simp_all
  have "outcome_ready (run_taps S p s)" for p s
    unfolding run_taps_def
  proof (intro stage_ready runs total_op)
    fix q s before_taps s' post s''
    show "outcome_ready ((case before_taps of
        None \<Rightarrow> tap_visible S p 1
      | Some (h, shot) \<Rightarrow>
          if post = Some h
          then tap_stage 1 (run_op (screen_unchanged S shot)) (\<lambda>same. if same then tap_again S p else tap_visible S p 1)
          else tap_visible S p 1) s'')"
      by (auto intro!: stage_ready total_op again visible_ready split: option.splits)
  qed simp_all
  then have ready: "\<exists>n e s'. run_taps S p s = Some ((n, e), s') \<and> n \<in> {0, 1, 2}" for p s by (simp add: outcome_ready_def)
  obtain l w where s: "s = (l, w)" by (rule prod.exhaust)
  consider p where "payload = TapEvaluated p" | "executeTapOn S payload s
      = Some ((tap_effect 0, Some (tap_refusal ''tapOn received an invalid evaluated payload'')), s)"
    using s by (cases payload) (auto simp: executeTapOn_def)
  then show ?thesis
  proof cases
    case (1 p)
    obtain e w1 where found: "ts_lookup S w = (e, w1)" by (rule prod.exhaust)
    obtain n err s' where "run_taps S p (l, w1) = Some ((n, err), s')" "n \<in> {0, 1, 2}" using ready by blast
    then show ?thesis
      using 1 s found by (cases "validateTapExecutionPlan p"; cases e) (auto simp: executeTapOn_def)
  next
    case 2
    then show ?thesis by auto
  qed
qed


section \<open>A sample tap\<close>

text \<open>The device shows one screen for good, so the retry check finds it unchanged after the first batch.\<close>

definition still_taps :: "int tap_services" where
  "still_taps = \<lparr>ts_driver = still_device one_button, ts_foreign = (\<lambda>_. opaque_node), ts_lookup = (\<lambda>w. (None, w)),
     ts_tap = (\<lambda>app q w. (None, w)), ts_screenshot = (\<lambda>w. (Inr ''shot'', w)),
     ts_images = Some (\<lambda>e a w. (Inr \<lparr>ir_differentPixels = 0, ir_totalPixels = 4, ir_differenceRatio = 0\<rparr>, w)),
     ts_imageError = (\<lambda>_. Plain_Error ''image''), ts_showPoint = (\<lambda>_. ''point'')\<rparr>"

definition twice_with_retry :: tapOnEvaluated where
  "twice_with_retry = \<lparr>te_appID = ''app'', te_targetMode = tapTargetScreenPoint, te_targetSelector = None, te_optional = False,
     te_point = Some \<lparr>tpp_mode = tapCoordinateAbsolute, tpp_x = 12, tpp_y = 13\<rparr>, te_repeat = 2, te_delay = 100000000,
     te_settle = Some 0, te_retryTapIfNoChange = True, te_waitUntilVisible = False\<rparr>"

lemma sample_tap:
  "(case executeTapOn (logged still_taps) (TapEvaluated twice_with_retry) (NewElementLookup, 0, []) of
     Some ((effect, e), _, _, ts) \<Rightarrow> eff_numberOfRuns effect = 2 \<and> e = None \<and> length ts = 4 | None \<Rightarrow> False)"
  by code_simp


theorem tap_touches_as_planned_witness:
  "\<exists>effect l' w' ts. executeTapOn (logged still_taps) (TapEvaluated twice_with_retry) (NewElementLookup, 0, []) = Some ((effect, None), l', w', ts)
     \<and> batches twice_with_retry 2 None ts \<and> length ts = 4"
proof -
  obtain effect l' w' ts where run: "executeTapOn (logged still_taps) (TapEvaluated twice_with_retry) (NewElementLookup, 0, []) = Some ((effect, None), l', w', ts)"
    and runs: "eff_numberOfRuns effect = 2" "length ts = 4"
    using sample_tap by (auto split: option.splits prod.splits)
  then show ?thesis using tap_touches_as_planned [OF run] by auto
qed

theorem executeTapOn_returns_witness:
  "\<exists>n e s'. executeTapOn still_taps (TapEvaluated (twice_with_retry\<lparr>te_settle := Some 500\<rparr>)) (NewElementLookup, 0) = Some ((tap_effect n, e), s') \<and> n \<in> {0, 1, 2}"
proof -
  have "keeps_time (ts_driver still_taps) id" using still_device_keeps_time by (simp add: still_taps_def)
  then show ?thesis by (rule executeTapOn_returns)
qed

end
