(* ===== verification/Glob.thy ===== *)
theory Glob
  imports Text
begin

text \<open>
  The standard library functions the discovery of flows rests on: \<^verbatim>\<open>path.Match\<close> with its patterns,
  \<^verbatim>\<open>filepath.Rel\<close>, \<^verbatim>\<open>strings.Cut\<close>, \<^verbatim>\<open>strings.Split\<close> and the part of \<^verbatim>\<open>strings.ToLower\<close> that decides
  whether a string lowers to a given ASCII word.  A Go string is its sequence of bytes.
\<close>

section \<open>Runes\<close>

text \<open>\<^verbatim>\<open>utf8.DecodeRuneInString\<close>: the first rune with its width, \<open>RuneError\<close> of width one for an
  ill-formed byte.\<close>

definition RuneError :: int where "RuneError = 65533"

definition DecodeRuneInString :: "string \<Rightarrow> int \<times> nat" where
  "DecodeRuneInString s =
     (let bs = map byte s; (n, good) = rune_head bs; b = (\<lambda>i. int (bs ! i)); tail = (\<lambda>i. b i - 128) in
      if bs = [] then (RuneError, 0)
      else if \<not> good then (RuneError, 1)
      else (if n = 1 then b 0
            else if n = 2 then (b 0 - 192) * 64 + tail 1
            else if n = 3 then (b 0 - 224) * 4096 + tail 1 * 64 + tail 2
            else (b 0 - 240) * 262144 + tail 1 * 4096 + tail 2 * 64 + tail 3, n))"

lemma decode_width: "s \<noteq> [] \<Longrightarrow> 0 < snd (DecodeRuneInString s)"
  using rune_head_positive [of "byte (hd s)" "map byte (tl s)"]
  by (cases s) (auto simp: DecodeRuneInString_def Let_def split: prod.splits simp del: rune_head.simps)

section \<open>Patterns\<close>

text \<open>\<^verbatim>\<open>path.Match\<close>. \<open>None\<close> is \<^verbatim>\<open>ErrBadPattern\<close>. A class is read up to its closing bracket; the first
  range may start with a bracket only when it is escaped.\<close>

definition backslash :: char where "backslash = CHR 0x5C"

definition getEsc :: "string \<Rightarrow> (int \<times> string) option" where
  "getEsc chunk =
     (if chunk = [] \<or> hd chunk = CHR ''-'' \<or> hd chunk = CHR '']'' then None
      else let c = (if hd chunk = backslash then tl chunk else chunk) in
        if c = [] then None
        else let (r, n) = DecodeRuneInString c; rest = drop n c
             in if r = RuneError \<and> n = 1 \<or> rest = [] then None else Some (r, rest))"

lemma getEsc_shortens: "getEsc chunk = Some (r, rest) \<Longrightarrow> rest \<noteq> [] \<and> length rest < length chunk"
proof -
  assume some: "getEsc chunk = Some (r, rest)"
  define c where "c = (if hd chunk = backslash then tl chunk else chunk)"
  have "c \<noteq> []" "rest = drop (snd (DecodeRuneInString c)) c" "rest \<noteq> []" "length c \<le> length chunk"
    using some by (auto simp: getEsc_def c_def Let_def split: if_splits prod.splits)
  then show ?thesis using decode_width [of c] by simp
qed

function class_ranges :: "int \<Rightarrow> bool \<Rightarrow> bool \<Rightarrow> string \<Rightarrow> (bool \<times> string) option" where
  "class_ranges r start matched chunk =
     (if chunk \<noteq> [] \<and> hd chunk = CHR '']'' \<and> \<not> start then Some (matched, tl chunk)
      else case getEsc chunk of
        None \<Rightarrow> None
      | Some (lo, rest) \<Rightarrow>
          if hd rest = CHR ''-''
          then (case getEsc (tl rest) of
                  None \<Rightarrow> None
                | Some (hi, rest2) \<Rightarrow> class_ranges r False (matched \<or> lo \<le> r \<and> r \<le> hi) rest2)
          else class_ranges r False (matched \<or> r = lo) rest)"
  by pat_completeness auto
termination
proof (relation "measure (\<lambda>(_, _, _, chunk). length chunk)", goal_cases)
  case (2 r start matched chunk a lo rest b hi rest2)
  then have "length rest < length chunk" "length rest2 < length (tl rest)"
    using getEsc_shortens [of chunk lo rest] getEsc_shortens [of "tl rest" hi rest2] by simp_all
  then show ?case by simp
next
  case (3 r start matched chunk a lo rest)
  then show ?case using getEsc_shortens [of chunk lo rest] by simp
qed simp

declare class_ranges.simps [simp del]

lemma class_ranges_shortens: "class_ranges r start matched chunk = Some (m, rest) \<Longrightarrow> length rest < length chunk"
proof (induction r start matched chunk rule: class_ranges.induct)
  case (1 r start matched chunk)
  show ?case
  proof (cases "chunk \<noteq> [] \<and> hd chunk = CHR '']'' \<and> \<not> start")
    case True
    then show ?thesis using "1.prems" by (subst (asm) class_ranges.simps) auto
  next
    case other: False
    then obtain lo rest1 where lo: "getEsc chunk = Some (lo, rest1)"
      using "1.prems" by (subst (asm) class_ranges.simps) (auto split: option.splits)
    show ?thesis
    proof (cases "hd rest1 = CHR ''-''")
      case True
      then obtain hi rest2 where hi: "getEsc (tl rest1) = Some (hi, rest2)"
        using "1.prems" other lo by (subst (asm) class_ranges.simps) (auto split: option.splits)
      have "class_ranges r False (matched \<or> lo \<le> r \<and> r \<le> hi) rest2 = Some (m, rest)"
        using "1.prems" other lo True hi by (subst (asm) class_ranges.simps) simp
      from "1.IH"(1) [OF other lo refl True hi refl this]
      show ?thesis using getEsc_shortens [OF lo] getEsc_shortens [OF hi] by (simp add: less_diff_conv)
    next
      case False
      have "class_ranges r False (matched \<or> r = lo) rest1 = Some (m, rest)"
        using "1.prems" other lo False by (subst (asm) class_ranges.simps) simp
      from "1.IH"(2) [OF other lo refl False this]
      show ?thesis using getEsc_shortens [OF lo] by simp
    qed
  qed
qed

text \<open>\<^verbatim>\<open>matchChunk\<close>: once the match has failed the chunk is only checked for its form. \<open>Some None\<close> is a
  well-formed chunk that does not match, \<open>Some (Some rest)\<close> what the match leaves of the name.\<close>

function matchChunk :: "bool \<Rightarrow> string \<Rightarrow> string \<Rightarrow> string option option" where
  "matchChunk failed [] s = Some (if failed then None else Some s)"
| "matchChunk failed (c # cs) s =
     (let failed = (failed \<or> s = []) in
      if c = CHR ''['' then
        (let (r, n) = (if failed then (0, 0) else DecodeRuneInString s);
             negated = (cs \<noteq> [] \<and> hd cs = CHR ''^'');
             body = (if negated then tl cs else cs)
         in case class_ranges r True False body of
              None \<Rightarrow> None
            | Some (matched, rest) \<Rightarrow> matchChunk (failed \<or> matched = negated) rest (drop n s))
      else if c = CHR ''?'' then
        if failed then matchChunk True cs s
        else matchChunk (hd s = CHR ''/'') cs (drop (snd (DecodeRuneInString s)) s)
      else if c = backslash then
        (case cs of
           [] \<Rightarrow> None
         | d # ds \<Rightarrow> if failed then matchChunk True ds s else matchChunk (d \<noteq> hd s) ds (tl s))
      else if failed then matchChunk True cs s else matchChunk (c \<noteq> hd s) cs (tl s))"
  by pat_completeness auto
termination
proof (relation "measure (\<lambda>(_, chunk, _). length chunk)", goal_cases)
  case (2 failed c cs s failed' p r n negated body q matched rest)
  then have "length rest < length body" by (auto dest: class_ranges_shortens)
  then show ?case using 2 by (auto split: if_splits)
qed auto

declare matchChunk.simps(2) [simp del]

text \<open>\<^verbatim>\<open>scanChunk\<close>: leading stars, then everything up to the next star outside a class.\<close>

fun scan :: "bool \<Rightarrow> string \<Rightarrow> string \<times> string" where
  "scan inrange [] = ([], [])"
| "scan inrange [c] = (if c = CHR ''*'' \<and> \<not> inrange then ([], [c]) else ([c], []))"
| "scan inrange (c # d # ds) =
     (if c = backslash then (let (a, b) = scan inrange ds in (c # d # a, b))
      else if c = CHR ''*'' \<and> \<not> inrange then ([], c # d # ds)
      else (let (a, b) = scan (c = CHR ''['' \<or> c \<noteq> CHR '']'' \<and> inrange) (d # ds) in (c # a, b)))"

lemma scan_append: "fst (scan inrange s) @ snd (scan inrange s) = s"
  by (induction inrange s rule: scan.induct) (auto simp: Let_def split: prod.splits)

lemma scan_shortens: "s \<noteq> [] \<Longrightarrow> hd s \<noteq> CHR ''*'' \<Longrightarrow> length (snd (scan False s)) < length s"
proof (induction False s rule: scan.induct)
  case (3 c d ds)
  have "length (snd (scan b ds)) \<le> length ds" "length (snd (scan b (d # ds))) \<le> length (d # ds)" for b
    using scan_append [of b ds] scan_append [of b "d # ds"] by (metis length_append le_add2)+
  then show ?case using 3 by (auto simp: Let_def backslash_def less_Suc_eq_le split: prod.splits)
      (metis le_imp_less_Suc snd_conv le_SucI)+
qed (auto split: if_splits)

definition scanChunk :: "string \<Rightarrow> bool \<times> string \<times> string" where
  "scanChunk pattern =
     (let p = dropWhile (\<lambda>c. c = CHR ''*'') pattern in (p \<noteq> pattern, scan False p))"

lemma scanChunk_shortens: "pattern \<noteq> [] \<Longrightarrow> scanChunk pattern = (star, chunk, rest) \<Longrightarrow> length rest < length pattern"
proof -
  assume pattern: "pattern \<noteq> []" and scanned: "scanChunk pattern = (star, chunk, rest)"
  define p where "p = dropWhile (\<lambda>c. c = CHR ''*'') pattern"
  have rest: "rest = snd (scan False p)" using scanned by (auto simp: scanChunk_def p_def Let_def)
  show ?thesis
  proof (cases "p = []")
    case True
    then show ?thesis using rest pattern by simp
  next
    case False
    then have "hd p \<noteq> CHR ''*''" unfolding p_def by (rule hd_dropWhile)
    then have "length rest < length p" using rest scan_shortens False by simp
    then show ?thesis using length_dropWhile_le [of "\<lambda>c. c = CHR ''*''" pattern] unfolding p_def by simp
  qed
qed

text \<open>The search for a place behind a star, which cannot skip a separator.\<close>

fun skip_match :: "string \<Rightarrow> bool \<Rightarrow> string \<Rightarrow> string option option" where
  "skip_match chunk final [] = Some None"
| "skip_match chunk final (c # cs) =
     (if c = CHR ''/'' then Some None
      else case matchChunk False chunk cs of
        None \<Rightarrow> None
      | Some None \<Rightarrow> skip_match chunk final cs
      | Some (Some t) \<Rightarrow> if final \<and> t \<noteq> [] then skip_match chunk final cs else Some (Some t))"

text \<open>Whether the remainder of a pattern is well formed.\<close>

function well_formed_rest :: "string \<Rightarrow> bool" where
  "well_formed_rest pattern =
     (if pattern = [] then True
      else case scanChunk pattern of
        (_, chunk, rest) \<Rightarrow> if matchChunk False chunk [] = None then False else well_formed_rest rest)"
  by pat_completeness auto
termination by (relation "measure length") (auto dest: scanChunk_shortens [OF _ sym])

declare well_formed_rest.simps [simp del]

function path_Match :: "string \<Rightarrow> string \<Rightarrow> bool option" where
  "path_Match pattern name =
     (if pattern = [] then Some (name = [])
      else case scanChunk pattern of
        (star, chunk, rest) \<Rightarrow>
          if star \<and> chunk = [] then Some (CHR ''/'' \<notin> set name)
          else case matchChunk False chunk name of
            None \<Rightarrow> None
          | Some found \<Rightarrow>
              if found \<noteq> None \<and> (the found = [] \<or> rest \<noteq> []) then path_Match rest (the found)
              else case (if star then skip_match chunk (rest = []) name else Some None) of
                None \<Rightarrow> None
              | Some (Some t) \<Rightarrow> path_Match rest t
              | Some None \<Rightarrow> if well_formed_rest rest then Some False else None)"
  by pat_completeness auto
termination by (relation "measure (\<lambda>(pattern, _). length pattern)") (auto dest: scanChunk_shortens [OF _ sym])

declare path_Match.simps [simp del]

lemma star_matches: "path_Match ''*'' name = Some (CHR ''/'' \<notin> set name)"
  by (subst path_Match.simps) (simp add: scanChunk_def)

section \<open>Paths and strings\<close>

text \<open>\<^verbatim>\<open>filepath.Rel\<close> on a system whose separator is the slash; \<open>None\<close> is its error.\<close>

definition path_elements :: "string \<Rightarrow> string list" where
  "path_elements p = (let q = (if IsAbs p then tl p else p) in if q = [] then [] else split_at (CHR ''/'') [] q)"

fun strip_common :: "string list \<Rightarrow> string list \<Rightarrow> string list \<times> string list" where
  "strip_common (b # bs) (t # ts) = (if b = t then strip_common bs ts else (b # bs, t # ts))"
| "strip_common bs ts = (bs, ts)"

definition filepath_Rel :: "string \<Rightarrow> string \<Rightarrow> string option" where
  "filepath_Rel basepath targpath =
     (let base = Clean basepath; targ = Clean targpath in
      if targ = base then Some ''.''
      else if IsAbs base \<noteq> IsAbs targ then None
      else let (bs, ts) = strip_common (if base = ''.'' then [] else path_elements base) (path_elements targ) in
        if bs \<noteq> [] \<and> ts \<noteq> [] \<and> hd bs = ''..'' then None
        else Some (join_slash (replicate (length bs) ''..'' @ ts)))"

text \<open>\<^verbatim>\<open>strings.Cut\<close> at one byte, and \<^verbatim>\<open>strings.Join\<close>.\<close>

definition string_Cut :: "char \<Rightarrow> string \<Rightarrow> (string \<times> string) option" where
  "string_Cut c s =
     (let before = takeWhile (\<lambda>d. d \<noteq> c) s
      in if before = s then None else Some (before, drop (Suc (length before)) s))"

fun string_Join :: "string \<Rightarrow> string list \<Rightarrow> string" where
  "string_Join sep [] = ''''"
| "string_Join sep [s] = s"
| "string_Join sep (s # t # ts) = s @ sep @ string_Join sep (t # ts)"

text \<open>\<^verbatim>\<open>strings.ToLower\<close> as far as it yields ASCII letters: besides the capital letters, the runes U+0130 and
  U+212A lower to \<^verbatim>\<open>i\<close> and \<^verbatim>\<open>k\<close>; every other rune that changes lowers to one outside ASCII and is kept here.
  So for an ASCII word the test whether a string lowers to it is the one of the code.\<close>

function lower_name :: "string \<Rightarrow> string" where
  "lower_name [] = []"
| "lower_name (c # cs) =
     (let (r, n) = DecodeRuneInString (c # cs) in
      if r = 304 then CHR ''i'' # lower_name (drop (max 1 n) (c # cs))
      else if r = 8490 then CHR ''k'' # lower_name (drop (max 1 n) (c # cs))
      else lower_ascii c # lower_name cs)"
  by pat_completeness auto
termination by (relation "measure length") auto

end
