(* ===== verification/Workspace.thy ===== *)
theory Workspace
  imports Glob Preflight
begin

text \<open>
  The discovery of the flows a run executes (\<^verbatim>\<open>internal/workspace/planner.go\<close>): roots, globs, tag filters and
  the configured order.  The file system and the parsers over it are the parameter \<open>workspace_fs\<close>, constant while the
  selection is made; \<open>wf_walk\<close> is the sequence of entries \<^verbatim>\<open>filepath.WalkDir\<close> visits below a root.  The texts of
  the messages that quote an argument are constructors.
\<close>

section \<open>Data\<close>

datatype workspace_error =
    Bare go_error
  | Reported string
  | Wrapped string workspace_error
  | Bad_Glob string
  | Not_Relative string string
  | Unknown_Flow_Name string
  | Repeated_Flow_Name string

record execution_order =
  eo_continueOnFailure :: bool
  eo_flowsOrder :: "string list"

record workspace_config =
  wc_flows :: "string list"
  wc_includeTags :: "string list"
  wc_excludeTags :: "string list"
  wc_executionOrder :: "execution_order option"

definition no_workspace_config :: workspace_config where
  "no_workspace_config = \<lparr>wc_flows = [], wc_includeTags = [], wc_excludeTags = [], wc_executionOrder = None\<rparr>"

record workspace_flow =
  wf_path :: string
  wf_name :: string
  wf_tags :: "string list"

record run_plan =
  pl_config :: workspace_config
  pl_flows :: "workspace_flow list"
  pl_sequence :: "workspace_flow list"
  pl_continueOnFailure :: bool

record workspace_options =
  wo_configPath :: string
  wo_includeTags :: "string list"
  wo_excludeTags :: "string list"

text \<open>An entry of a walk: its path, the error of reading it, whether it is a directory, its name.\<close>

record walk_entry =
  we_path :: string
  we_error :: "go_error option"
  we_dir :: bool
  we_name :: string

record workspace_fs =
  wf_isDir :: "string \<Rightarrow> go_error + bool"
  wf_walk :: "string \<Rightarrow> walk_entry list"
  wf_abs :: "string \<Rightarrow> go_error + string"
  wf_read :: "string \<Rightarrow> go_error + string"
  wf_parseConfig :: "string \<Rightarrow> string \<Rightarrow> go_error + workspace_config"
  wf_parseFlow :: "string \<Rightarrow> string \<Rightarrow> go_error + model_flow"
  wf_unwraps :: "go_error \<Rightarrow> bool"

section \<open>Configuration\<close>

definition configFileNames :: "string list" where "configFileNames = [''config.yaml'', ''config.yml'']"
definition flowExtensions :: "string list" where "flowExtensions = [''.yaml'', ''.yml'']"
definition defaultFlowGlob :: string where "defaultFlowGlob = ''*''"

definition readConfig :: "workspace_fs \<Rightarrow> string \<Rightarrow> workspace_error + workspace_config" where
  "readConfig F p =
     (case wf_read F p of
        Inl e \<Rightarrow> Inl (Wrapped ''workspace: reading config'' (Bare e))
      | Inr bytes \<Rightarrow>
          (case wf_parseConfig F p bytes of
             Inl e \<Rightarrow> Inl (Wrapped (''workspace: parsing config '' @ p) (Bare e))
           | Inr c \<Rightarrow> Inr c))"

fun config_in :: "workspace_fs \<Rightarrow> string \<Rightarrow> string list \<Rightarrow> (workspace_error + workspace_config \<times> string) option" where
  "config_in F base [] = None"
| "config_in F base (name # names) =
     (let candidate = path_Join base name in
      case wf_isDir F candidate of
        Inl _ \<Rightarrow> config_in F base names
      | Inr _ \<Rightarrow> Some (map_sum id (\<lambda>c. (c, candidate)) (readConfig F candidate)))"

fun discovered_config :: "workspace_fs \<Rightarrow> string list \<Rightarrow> workspace_error + workspace_config \<times> string" where
  "discovered_config F [] = Inr (no_workspace_config, '''')"
| "discovered_config F (base # roots) =
     (case wf_isDir F base of
        Inl e \<Rightarrow> Inl (Wrapped ''workspace'' (Bare e))
      | Inr isDir \<Rightarrow>
          if \<not> isDir then discovered_config F roots
          else case config_in F base configFileNames of
            Some found \<Rightarrow> found
          | None \<Rightarrow> discovered_config F roots)"

definition loadConfig :: "workspace_fs \<Rightarrow> string list \<Rightarrow> workspace_options \<Rightarrow> workspace_error + workspace_config \<times> string" where
  "loadConfig F roots options =
     (if wo_configPath options \<noteq> ''''
      then map_sum id (\<lambda>c. (c, wo_configPath options)) (readConfig F (wo_configPath options))
      else discovered_config F roots)"

section \<open>Candidates\<close>

definition loadFlow :: "workspace_fs \<Rightarrow> string \<Rightarrow> workspace_error + workspace_flow" where
  "loadFlow F p =
     (case wf_abs F p of
        Inl e \<Rightarrow> Inl (Wrapped ''workspace'' (Bare e))
      | Inr absolute \<Rightarrow>
          (case wf_read F absolute of
             Inl e \<Rightarrow> Inl (Wrapped ''workspace'' (Bare e))
           | Inr bytes \<Rightarrow>
               (case wf_parseFlow F absolute bytes of
                  Inl e \<Rightarrow> Inl (Wrapped (''workspace: parsing '' @ absolute) (Bare e))
                | Inr parsed \<Rightarrow>
                    (let leaf = path_Base absolute; named = cfg_name (fl_config parsed)
                     in Inr \<lparr>wf_path = absolute,
                          wf_name = (if named = '''' then take (length leaf - length (path_Ext leaf)) leaf else named),
                          wf_tags = elems (cfg_tags (fl_config parsed))\<rparr>))))"

fun first_match :: "(string \<times> string) list \<Rightarrow> workspace_error + bool" where
  "first_match [] = Inr False"
| "first_match ((glob, subject) # rest) =
     (case path_Match glob subject of
        None \<Rightarrow> Inl (Bad_Glob glob)
      | Some True \<Rightarrow> Inr True
      | Some False \<Rightarrow> first_match rest)"

definition matchesAnyGlob :: "string \<Rightarrow> string list \<Rightarrow> workspace_error + bool" where
  "matchesAnyGlob name globs =
     (let stem = take (length name - length (path_Ext name)) name
      in first_match (List.product globs [name, stem]))"

definition hasFlowExtension :: "string \<Rightarrow> bool" where
  "hasFlowExtension name \<longleftrightarrow> path_Ext name \<in> set flowExtensions"

definition isConfigName :: "string \<Rightarrow> bool" where
  "isConfigName name \<longleftrightarrow> name \<in> set configFileNames"

text \<open>The function a walk calls on an entry: the candidate it adds, if any.\<close>

definition visit_entry :: "workspace_fs \<Rightarrow> string \<Rightarrow> string list \<Rightarrow> string \<Rightarrow> walk_entry
    \<Rightarrow> workspace_error + workspace_flow option" where
  "visit_entry F base globs configPath e =
     (case we_error e of
        Some err \<Rightarrow> Inl (Bare err)
      | None \<Rightarrow>
          if we_dir e \<or> \<not> hasFlowExtension (we_name e) then Inr None
          else if we_path e = configPath \<or> isConfigName (we_name e) then Inr None
          else case filepath_Rel base (we_path e) of
            None \<Rightarrow> Inl (Not_Relative base (we_path e))
          | Some relative \<Rightarrow>
              (case matchesAnyGlob relative globs of
                 Inl err \<Rightarrow> Inl err
               | Inr False \<Rightarrow> Inr None
               | Inr True \<Rightarrow> map_sum id Some (loadFlow F (we_path e))))"

record candidate =
  cd_flow :: workspace_flow
  cd_explicit :: bool

fun walk_entries :: "(walk_entry \<Rightarrow> workspace_error + workspace_flow option) \<Rightarrow> walk_entry list
    \<Rightarrow> workspace_error + candidate list" where
  "walk_entries on_entry [] = Inr []"
| "walk_entries on_entry (e # es) =
     (case on_entry e of
        Inl err \<Rightarrow> Inl err
      | Inr found \<Rightarrow>
          map_sum id (\<lambda>cs. (case found of None \<Rightarrow> cs | Some f \<Rightarrow> \<lparr>cd_flow = f, cd_explicit = False\<rparr> # cs)) (walk_entries on_entry es))"

primrec has_unwrap :: "workspace_fs \<Rightarrow> workspace_error \<Rightarrow> bool" where
  "has_unwrap F (Bare e) = wf_unwraps F e"
| "has_unwrap F (Reported m) = False"
| "has_unwrap F (Wrapped m e) = True"
| "has_unwrap F (Bad_Glob g) = True"
| "has_unwrap F (Not_Relative b t) = False"
| "has_unwrap F (Unknown_Flow_Name n) = False"
| "has_unwrap F (Repeated_Flow_Name n) = False"

text \<open>\<^verbatim>\<open>sort.Slice\<close> by path: two candidates of one walk with the same path are the same file, so every sorted
  arrangement is this one.\<close>

definition walkDirectory :: "workspace_fs \<Rightarrow> string \<Rightarrow> workspace_config \<Rightarrow> string \<Rightarrow> workspace_error + candidate list" where
  "walkDirectory F base config configPath =
     (let globs = (if wc_flows config = [] then [defaultFlowGlob] else wc_flows config) in
      case walk_entries (visit_entry F base globs configPath) (wf_walk F base) of
        Inl err \<Rightarrow> Inl (if has_unwrap F err then err else Wrapped ''workspace'' err)
      | Inr candidates \<Rightarrow> Inr (SliceStable (\<lambda>l r. byte_less (wf_path (cd_flow l)) (wf_path (cd_flow r))) candidates))"

fun root_candidates :: "workspace_fs \<Rightarrow> workspace_config \<Rightarrow> string \<Rightarrow> string list \<Rightarrow> workspace_error + candidate list" where
  "root_candidates F config configPath [] = Inr []"
| "root_candidates F config configPath (base # roots) =
     (case wf_isDir F base of
        Inl e \<Rightarrow> Inl (Wrapped ''workspace'' (Bare e))
      | Inr isDir \<Rightarrow>
          (case (if isDir then walkDirectory F base config configPath
                 else map_sum id (\<lambda>f. [\<lparr>cd_flow = f, cd_explicit = True\<rparr>]) (loadFlow F base)) of
             Inl e \<Rightarrow> Inl e
           | Inr found \<Rightarrow> map_sum id (\<lambda>cs. found @ cs) (root_candidates F config configPath roots)))"

definition collectCandidates :: "workspace_fs \<Rightarrow> string list \<Rightarrow> workspace_config \<Rightarrow> string \<Rightarrow> workspace_error + candidate list" where
  "collectCandidates F roots config configPath =
     (case root_candidates F config configPath roots of
        Inl e \<Rightarrow> Inl e
      | Inr candidates \<Rightarrow>
          if candidates = [] then Inl (Reported ''workspace: no flow files matched the configured inclusion globs'')
          else Inr candidates)"

section \<open>Selection and order\<close>

definition hasAnyTag :: "string list \<Rightarrow> string list \<Rightarrow> bool" where
  "hasAnyTag tags wanted \<longleftrightarrow> list_ex (\<lambda>tag. tag \<in> set wanted) tags"

definition filterByTags :: "candidate list \<Rightarrow> workspace_config \<Rightarrow> workspace_options \<Rightarrow> workspace_flow list" where
  "filterByTags candidates config options =
     (let include = wc_includeTags config @ wo_includeTags options;
          exclude = wc_excludeTags config @ wo_excludeTags options
      in map cd_flow (filter (\<lambda>c. cd_explicit c
           \<or> (include = [] \<or> hasAnyTag (wf_tags (cd_flow c)) include)
             \<and> \<not> hasAnyTag (wf_tags (cd_flow c)) exclude) candidates))"

definition describeTagFilters :: "workspace_config \<Rightarrow> workspace_options \<Rightarrow> string" where
  "describeTagFilters config options =
     (let include = wc_includeTags config @ wo_includeTags options;
          exclude = wc_excludeTags config @ wo_excludeTags options;
          parts = (if include \<noteq> [] then [''include tags: '' @ string_Join '', '' include] else [])
            @ (if exclude \<noteq> [] then [''exclude tags: '' @ string_Join '', '' exclude] else [])
      in if parts = [] then ''no tag filters were configured'' else string_Join ''; '' parts)"

text \<open>A flow is found by its name; of several with one name the last one is.\<close>

definition by_name :: "workspace_flow list \<Rightarrow> string \<Rightarrow> workspace_flow option" where
  "by_name selected = map_of (rev (map (\<lambda>f. (wf_name f, f)) selected))"

fun named_sequence :: "(string \<Rightarrow> workspace_flow option) \<Rightarrow> string list \<Rightarrow> string list
    \<Rightarrow> workspace_error + workspace_flow list" where
  "named_sequence find_flow taken [] = Inr []"
| "named_sequence find_flow taken (name # names) =
     (case find_flow name of
        None \<Rightarrow> Inl (Unknown_Flow_Name name)
      | Some f \<Rightarrow>
          if name \<in> set taken then Inl (Repeated_Flow_Name name)
          else map_sum id (\<lambda>fs. f # fs) (named_sequence find_flow (name # taken) names))"

definition applyOrder :: "workspace_flow list \<Rightarrow> workspace_config
    \<Rightarrow> workspace_error + workspace_flow list \<times> workspace_flow list" where
  "applyOrder selected config =
     (case wc_executionOrder config of
        None \<Rightarrow> Inr (selected, [])
      | Some order \<Rightarrow>
          if eo_flowsOrder order = [] then Inr (selected, [])
          else map_sum id (\<lambda>sequence. (sequence @ filter (\<lambda>f. wf_name f \<notin> set (eo_flowsOrder order)) selected, sequence))
                 (named_sequence (by_name selected) [] (eo_flowsOrder order)))"

definition Discover :: "workspace_fs \<Rightarrow> string list \<Rightarrow> workspace_options \<Rightarrow> workspace_error + run_plan" where
  "Discover F roots options =
     (if roots = [] then Inl (Reported ''workspace: at least one flow file or directory is required'')
      else case loadConfig F roots options of
        Inl e \<Rightarrow> Inl e
      | Inr (config, configPath) \<Rightarrow>
          (case collectCandidates F roots config configPath of
             Inl e \<Rightarrow> Inl e
           | Inr candidates \<Rightarrow>
               (let selected = filterByTags candidates config options in
                if selected = []
                then Inl (Reported (''workspace: include / exclude tags did not match any flows ('' @ describeTagFilters config options @ '')''))
                else case applyOrder selected config of
                  Inl e \<Rightarrow> Inl e
                | Inr (ordered, sequence) \<Rightarrow>
                    Inr \<lparr>pl_config = config, pl_flows = ordered, pl_sequence = sequence,
                         pl_continueOnFailure = (case wc_executionOrder config of None \<Rightarrow> False
                           | Some order \<Rightarrow> eo_continueOnFailure order)\<rparr>)))"

definition SelectedPaths :: "run_plan \<Rightarrow> string list" where
  "SelectedPaths p = map wf_path (pl_flows p)"

end
