(* ===== verification/Test_Options.thy ===== *)
theory Test_Options
  imports Workspace
begin

text \<open>
  The command line of \<^verbatim>\<open>flowbaton test\<close> (\<^verbatim>\<open>internal/cli/test_options.go\<close>).  An error that quotes its arguments
  is the format with the arguments.  \<^verbatim>\<open>options.Env\<close> is the list of its entries in key order.
\<close>

datatype cli_error =
    Help_Requested
  | Usage_Error string "string list"
  | Cli_Error string "string list"
  | Cli_Wraps string go_error

definition ExitOK :: int where "ExitOK = 0"
definition ExitFailure :: int where "ExitFailure = 1"
definition ExitInvalid :: int where "ExitInvalid = 2"

record test_options =
  to_roots :: "string list"
  to_configPath :: string
  to_env :: "(string \<times> string) list"
  to_includeTags :: "string list"
  to_excludeTags :: "string list"
  to_format :: string
  to_testSuiteName :: string
  to_output :: string
  to_debugOutput :: string
  to_testOutputDir :: string
  to_flattenDebugOutput :: bool
  to_continuous :: bool
  to_headless :: bool
  to_reinstallDriver :: bool
  to_screenSize :: string
  to_apiURL :: string
  to_apiKey :: string
  to_platform :: string
  to_devices :: "string list"
  to_shardSplit :: int
  to_shardAll :: int
  to_recordTo :: string
  to_sequencedRoots :: nat
  to_continueOnFailure :: bool

definition default_options :: test_options where
  "default_options = \<lparr>to_roots = [], to_configPath = '''', to_env = [], to_includeTags = [], to_excludeTags = [],
     to_format = ''NOOP'', to_testSuiteName = '''', to_output = '''', to_debugOutput = '''', to_testOutputDir = '''',
     to_flattenDebugOutput = False, to_continuous = False, to_headless = False, to_reinstallDriver = True,
     to_screenSize = '''', to_apiURL = '''', to_apiKey = '''', to_platform = '''', to_devices = [], to_shardSplit = 0,
     to_shardAll = 0, to_recordTo = '''', to_sequencedRoots = 0, to_continueOnFailure = False\<rparr>"

section \<open>Values\<close>

definition reportFormats :: "string list" where
  "reportFormats = [''JUNIT'', ''HTML'', ''HTML-DETAILED'', ''NOOP'']"

text \<open>\<^verbatim>\<open>strings.EqualFold\<close> with one of the formats, whose letters fold with no rune outside ASCII.\<close>

definition isReportFormat :: "string \<Rightarrow> bool" where
  "isReportFormat v \<longleftrightarrow> list_ex (\<lambda>f. map lower_ascii v = map lower_ascii f) reportFormats"

definition splitList :: "string \<Rightarrow> string list" where
  "splitList v = filter (\<lambda>s. s \<noteq> '''') (map TrimSpace (split_at (CHR '','') [] v))"

definition positiveCount :: "string \<Rightarrow> string \<Rightarrow> cli_error + int" where
  "positiveCount flag v =
     (case Atoi (TrimSpace v) of
        None \<Rightarrow> Inl (Usage_Error ''option %s requires a number, got %q'' [flag, v])
      | Some n \<Rightarrow> if n \<le> 0 then Inl (Usage_Error ''option %s requires a positive count, got %d'' [flag, dec_int n]) else Inr n)"

definition splitEnvironmentEntry :: "string \<Rightarrow> cli_error + string \<times> string" where
  "splitEnvironmentEntry entry =
     (case string_Cut (CHR ''='') entry of
        None \<Rightarrow> Inl (Usage_Error ''value for option --env should be in KEY=VALUE format but was %q'' [entry])
      | Some (key, v) \<Rightarrow>
          if TrimSpace key = '''' then Inl (Usage_Error ''value for option --env should be in KEY=VALUE format but was %q'' [entry])
          else Inr (key, v))"

section \<open>Arguments\<close>

definition boolean_flag :: "string \<Rightarrow> (test_options \<Rightarrow> test_options) option" where
  "boolean_flag a =
     (if a = ''--flatten-debug-output'' then Some (to_flattenDebugOutput_update (\<lambda>_. True))
      else if a = ''--continuous'' \<or> a = ''-c'' then Some (to_continuous_update (\<lambda>_. True))
      else if a = ''--headless'' then Some (to_headless_update (\<lambda>_. True)) else None)"

definition value_flag :: "string \<Rightarrow> (string \<Rightarrow> test_options \<Rightarrow> test_options) option" where
  "value_flag a =
     (if a = ''--config'' then Some (\<lambda>v. to_configPath_update (\<lambda>_. v))
      else if a = ''--format'' then Some (\<lambda>v. to_format_update (\<lambda>_. v))
      else if a = ''--test-suite-name'' then Some (\<lambda>v. to_testSuiteName_update (\<lambda>_. v))
      else if a = ''--output'' then Some (\<lambda>v. to_output_update (\<lambda>_. v))
      else if a = ''--debug-output'' then Some (\<lambda>v. to_debugOutput_update (\<lambda>_. v))
      else if a = ''--test-output-dir'' then Some (\<lambda>v. to_testOutputDir_update (\<lambda>_. v))
      else if a = ''--screen-size'' then Some (\<lambda>v. to_screenSize_update (\<lambda>_. v))
      else if a = ''--api-url'' then Some (\<lambda>v. to_apiURL_update (\<lambda>_. v))
      else if a = ''--api-key'' then Some (\<lambda>v. to_apiKey_update (\<lambda>_. v))
      else if a = ''--platform'' \<or> a = ''-p'' then Some (\<lambda>v. to_platform_update (\<lambda>_. v)) else None)"

definition parsed_flag :: "string \<Rightarrow> string \<Rightarrow> test_options \<Rightarrow> cli_error + test_options" where
  "parsed_flag a v opts =
     (if a = ''-e'' \<or> a = ''--env'' then map_sum id (\<lambda>(key, entry). opts\<lparr>to_env := map_put key entry (to_env opts)\<rparr>) (splitEnvironmentEntry v)
      else if a = ''--include-tags'' then Inr (opts\<lparr>to_includeTags := splitList v\<rparr>)
      else if a = ''--exclude-tags'' then Inr (opts\<lparr>to_excludeTags := splitList v\<rparr>)
      else if a = ''--device'' \<or> a = ''--udid'' then Inr (opts\<lparr>to_devices := splitList v\<rparr>)
      else if a = ''--shard-split'' then map_sum id (\<lambda>n. opts\<lparr>to_shardSplit := n\<rparr>) (positiveCount a v)
      else if a = ''--shard-all'' then map_sum id (\<lambda>n. opts\<lparr>to_shardAll := n\<rparr>) (positiveCount a v)
      else Inl (Usage_Error ''unknown option %q for flowbaton test'' [a]))"

definition positional :: "string \<Rightarrow> bool" where
  "positional a \<longleftrightarrow> a = '''' \<or> \<not> HasPrefix a ''-'' \<or> a = ''-''"

fun parse_arguments :: "string list \<Rightarrow> test_options \<Rightarrow> cli_error + test_options" where
  "parse_arguments [] opts = Inr opts"
| "parse_arguments (a # rest) opts =
     (if positional a then parse_arguments rest (opts\<lparr>to_roots := to_roots opts @ [a]\<rparr>)
      else case boolean_flag a of
        Some set_flag \<Rightarrow> parse_arguments rest (set_flag opts)
      | None \<Rightarrow>
          if a = ''--help'' \<or> a = ''-h'' then Inl Help_Requested
          else if a = ''--reinstall-driver'' then parse_arguments rest (opts\<lparr>to_reinstallDriver := True\<rparr>)
          else if a = ''--no-reinstall-driver'' then parse_arguments rest (opts\<lparr>to_reinstallDriver := False\<rparr>)
          else case rest of
            [] \<Rightarrow> Inl (Usage_Error ''option %q requires a value'' [a])
          | v # rest2 \<Rightarrow>
              if v = ''--help'' \<or> v = ''-h'' then Inl Help_Requested
              else case value_flag a of
                Some set_value \<Rightarrow> parse_arguments rest2 (set_value v opts)
              | None \<Rightarrow>
                  (case parsed_flag a v opts of Inl e \<Rightarrow> Inl e | Inr opts2 \<Rightarrow> parse_arguments rest2 opts2))"

definition validateTestOptions :: "test_options \<Rightarrow> cli_error option" where
  "validateTestOptions opts =
     (if to_roots opts = [] then Some (Usage_Error ''flowbaton test requires at least one flow file or directory'' [])
      else if \<not> isReportFormat (to_format opts)
      then Some (Usage_Error ''invalid value %q for option --format; valid options are: %s'' [to_format opts, string_Join '', '' reportFormats])
      else if to_shardSplit opts > 0 \<and> to_shardAll opts > 0
      then Some (Cli_Error ''options --shard-split and --shard-all are mutually exclusive'' [])
      else None)"

definition ParseTestOptions :: "string list \<Rightarrow> cli_error + test_options" where
  "ParseTestOptions args =
     (case parse_arguments args default_options of
        Inl e \<Rightarrow> Inl e
      | Inr opts \<Rightarrow> (case validateTestOptions opts of Some e \<Rightarrow> Inl e | None \<Rightarrow> Inr opts))"

text \<open>\<open>is_usage\<close> says of a foreign error whether its chain holds a usage error.\<close>

definition ExitCodeFor :: "(go_error \<Rightarrow> bool) \<Rightarrow> cli_error option \<Rightarrow> int" where
  "ExitCodeFor is_usage err =
     (case err of
        None \<Rightarrow> ExitOK
      | Some (Usage_Error _ _) \<Rightarrow> ExitInvalid
      | Some (Cli_Wraps _ e) \<Rightarrow> if is_usage e then ExitInvalid else ExitFailure
      | Some _ \<Rightarrow> ExitFailure)"

end
