(* ===== verification/Test_Run.thy ===== *)
theory Test_Run
  imports Test_Options Program_Order
begin

text \<open>
  One invocation of \<^verbatim>\<open>flowbaton test\<close> (\<^verbatim>\<open>internal/cli/test_runner.go\<close>) with the split of a run over devices
  (\<^verbatim>\<open>sharding.go\<close>, \<^verbatim>\<open>shard_devices.go\<close>) and the ports of its drivers (\<^verbatim>\<open>driver_ports.go\<close>).  The host is the parameter
  \<open>test_host\<close>: the flow loader, the list of attached devices, the allocation of a free port, the environment, the
  sessions on the devices, and the writing of reports.

  The shards run at the same time.  Each goroutine writes the outcome of its shard into a slot of its own, so what the
  run sees of the concurrency is the list of these writes in the order they happened: \<open>th_goroutines\<close>.  Printed
  lines are values of \<open>output_line\<close>.  The file stamps of continuous mode are not modelled.
\<close>

section \<open>Shards\<close>

record shard =
  sh_index :: nat
  sh_roots :: "string list"
  sh_device :: string
  sh_outputDirectory :: string
  sh_driverPort :: int

definition shard_Count :: "shard \<Rightarrow> nat" where "shard_Count s = sh_index s + 1"

definition shardCount :: "test_options \<Rightarrow> int \<times> bool" where
  "shardCount opts =
     (if to_shardAll opts > 0 then (to_shardAll opts, True)
      else if to_shardSplit opts > 0 then (to_shardSplit opts, False) else (1, False))"

definition deviceAt :: "string list \<Rightarrow> nat \<Rightarrow> string" where
  "deviceAt devices i = (if i < length devices then devices ! i else '''')"

definition shardable :: "test_options \<Rightarrow> string list \<Rightarrow> run_plan \<Rightarrow> int \<Rightarrow> cli_error option" where
  "shardable opts devices p wanted =
     (if pl_sequence p \<noteq> []
      then Some (Cli_Error ''cannot shard a workspace that configures a flow order: %d flows run in a fixed order'' [dec (length (pl_sequence p))])
      else if int (length devices) < wanted
      then Some (Cli_Error ''%d shards need %d devices; %d are available (attached, or named with --device)''
        [dec_int wanted, dec_int wanted, dec (length devices)])
      else if to_shardSplit opts > 0 \<and> int (length (pl_flows p)) < wanted
      then Some (Cli_Error ''--shard-split %d was asked for but only %d flows were selected'' [dec_int wanted, dec (length (pl_flows p))])
      else None)"

definition devicePool :: "(string \<Rightarrow> 'w \<Rightarrow> (go_error + string list) \<times> 'w) \<Rightarrow> test_options \<Rightarrow> int \<Rightarrow> 'w
    \<Rightarrow> (cli_error + string list) \<times> 'w" where
  "devicePool attached opts wanted w =
     (if to_devices opts \<noteq> [] \<or> wanted < 2 then (Inr (to_devices opts), w)
      else case attached (to_platform opts) w of
        (Inl e, w) \<Rightarrow> (Inl (Cli_Wraps ''listing devices to shard across'' e), w)
      | (Inr pool, w) \<Rightarrow> (Inr pool, w))"

definition add_root :: "string \<Rightarrow> shard \<Rightarrow> shard" where
  "add_root p s = s\<lparr>sh_roots := sh_roots s @ [p]\<rparr>"

fun deal :: "bool \<Rightarrow> nat \<Rightarrow> nat \<Rightarrow> workspace_flow list \<Rightarrow> shard list \<Rightarrow> shard list" where
  "deal replicate_all wanted i [] shards = shards"
| "deal replicate_all wanted i (f # fs) shards =
     deal replicate_all wanted (Suc i) fs
       (if replicate_all then map (add_root (wf_path f)) shards
        else shards[i mod wanted := add_root (wf_path f) (shards ! (i mod wanted))])"

definition PlanShards :: "(string \<Rightarrow> 'w \<Rightarrow> (go_error + string list) \<times> 'w) \<Rightarrow> test_options \<Rightarrow> run_plan \<Rightarrow> 'w
    \<Rightarrow> (cli_error + shard list) \<times> 'w" where
  "PlanShards attached opts p w =
     (let (wanted, replicate_all) = shardCount opts in
      case devicePool attached opts wanted w of
        (Inl e, w) \<Rightarrow> (Inl e, w)
      | (Inr devices, w) \<Rightarrow>
          (case (if wanted > 1 then shardable opts devices p wanted
                 else if length devices > 1
                 then Some (Cli_Error ''%d devices were given but no sharding was asked for; pass --shard-split or --shard-all'' [dec (length devices)])
                 else None) of
             Some e \<Rightarrow> (Inl e, w)
           | None \<Rightarrow>
               (Inr (deal replicate_all (nat wanted) 0 (pl_flows p)
                  (map (\<lambda>i. \<lparr>sh_index = i, sh_roots = [], sh_device = deviceAt devices i, sh_outputDirectory = '''', sh_driverPort = 0\<rparr>)
                     [0..<nat wanted])), w)))"

section \<open>Ports\<close>

definition defaultAndroidDriverPort :: int where "defaultAndroidDriverPort = 7001"
definition defaultIOSDriverPort :: int where "defaultIOSDriverPort = 22087"
definition defaultWebDevToolsPort :: int where "defaultWebDevToolsPort = 9222"
definition driverPortsVariable :: string where "driverPortsVariable = ''FLOWBATON_DRIVER_PORTS''"

text \<open>The loop over the shards from shard \<open>i\<close> on; \<open>taken\<close> holds the ports given out with their shards.\<close>

fun assign_ports :: "('w \<Rightarrow> (go_error + int) \<times> 'w) \<Rightarrow> int \<Rightarrow> int list \<Rightarrow> (int \<times> nat) list \<Rightarrow> nat \<Rightarrow> shard list \<Rightarrow> 'w
    \<Rightarrow> (cli_error + shard list) \<times> 'w" where
  "assign_ports allocate base_port operator taken i [] w = (Inr [], w)"
| "assign_ports allocate base_port operator taken i (s # shards) w =
     (case (if operator \<noteq> [] then (Inr (operator ! i), w)
            else if i > 0 then allocate w else (Inr base_port, w)) of
        (Inl e, w) \<Rightarrow> (Inl (Cli_Wraps (''shard '' @ dec (i + 1) @ '': allocating a driver port'') e), w)
      | (Inr port, w) \<Rightarrow>
          (case map_of taken port of
             Some owner \<Rightarrow> (Inl (Cli_Error ''shards %d and %d were both given driver port %d'' [dec owner, dec (i + 1), dec_int port]), w)
           | None \<Rightarrow>
               (case assign_ports allocate base_port operator ((port, i + 1) # taken) (Suc i) shards w of
                  (Inl e, w) \<Rightarrow> (Inl e, w)
                | (Inr rest, w) \<Rightarrow> (Inr (s\<lparr>sh_driverPort := port\<rparr> # rest), w))))"

definition assignDriverPorts :: "('w \<Rightarrow> (go_error + int) \<times> 'w) \<Rightarrow> shard list \<Rightarrow> int \<Rightarrow> int list \<Rightarrow> 'w
    \<Rightarrow> (cli_error + shard list) \<times> 'w" where
  "assignDriverPorts allocate shards base_port operator w =
     (if operator \<noteq> [] \<and> length operator \<noteq> length shards
      then (Inl (Cli_Error ''%s names %d ports but the run has %d shards''
        [driverPortsVariable, dec (length operator), dec (length shards)]), w)
      else assign_ports allocate base_port operator [] 0 shards w)"

definition usable_port :: "string \<Rightarrow> int option" where
  "usable_port v = (case Atoi v of None \<Rightarrow> None | Some n \<Rightarrow> if n < 1 \<or> n > 65535 then None else Some n)"

definition environ_value :: "string \<Rightarrow> (string \<Rightarrow> bool) \<Rightarrow> string list \<Rightarrow> string option" where
  "environ_value name usable environ =
     map_option snd (List.find (\<lambda>(key, v). key = name \<and> usable v) (List.map_filter (string_Cut (CHR ''='')) environ))"

definition basePort :: "test_options \<Rightarrow> string list \<Rightarrow> int" where
  "basePort opts environ =
     (let platform = lower_name (to_platform opts);
          fallback = (if platform = ''android'' then defaultAndroidDriverPort
                      else if platform = ''web'' then defaultWebDevToolsPort else defaultIOSDriverPort)
      in case environ_value ''PORT'' (\<lambda>_. True) environ of
           None \<Rightarrow> fallback
         | Some v \<Rightarrow> (case usable_port v of None \<Rightarrow> fallback | Some n \<Rightarrow> n))"

definition operatorPorts :: "string list \<Rightarrow> int list" where
  "operatorPorts vs =
     (let ports = map (\<lambda>v. usable_port (TrimSpace v)) vs
      in if None \<in> set ports then [] else map the ports)"

definition driverPortsFrom :: "string list \<Rightarrow> int list" where
  "driverPortsFrom environ =
     (case environ_value driverPortsVariable (\<lambda>v. TrimSpace v \<noteq> '''') environ of
        None \<Rightarrow> []
      | Some v \<Rightarrow> operatorPorts (split_at (CHR '','') [] v))"

section \<open>Directories and the reserved environment\<close>

definition DefaultOutputDirectory :: "test_options \<Rightarrow> string \<Rightarrow> string \<Rightarrow> string" where
  "DefaultOutputDirectory opts home stamp =
     (if to_testOutputDir opts \<noteq> '''' then to_testOutputDir opts
      else if to_debugOutput opts \<noteq> '''' then to_debugOutput opts
      else let base = path_Join (path_Join home ''.flowbaton'') ''tests''
           in if to_flattenDebugOutput opts then base else path_Join base stamp)"

definition assignShardDirectories :: "shard list \<Rightarrow> string \<Rightarrow> shard list" where
  "assignShardDirectories shards dir =
     map (\<lambda>s. s\<lparr>sh_outputDirectory := (if length shards > 1 then path_Join dir (''shard-'' @ dec (shard_Count s)) else dir)\<rparr>) shards"

definition reservedEnvironment :: "shard \<Rightarrow> (string \<times> string) list" where
  "reservedEnvironment s =
     (if sh_device s \<noteq> '''' then [(''FLOWBATON_DEVICE_UDID'', sh_device s)] else [])
       @ [(''FLOWBATON_SHARD_ID'', dec (shard_Count s)), (''FLOWBATON_SHARD_INDEX'', dec (sh_index s))]"

section \<open>Running the shards\<close>

datatype run_error =
    Options_Refused cli_error
  | Not_Discovered workspace_error
  | No_Flows "string list"
  | Unsupported_Platform string
  | Not_Prepared prepare_error
  | Session_Error go_error
  | Report_Error go_error
  | In_Shard nat run_error

record shard_outcome =
  so_results :: "flow_result list"
  so_error :: "run_error option"

datatype output_line =
    Selected_Line string string
  | Result_Line string string outcome
  | Product_Line string go_error
  | Error_Line run_error
  | No_Result_Line
  | Artifacts_Line go_error

record 'w test_host =
  th_fs :: workspace_fs
  th_check :: "'w check_config"
  th_attached :: "string \<Rightarrow> 'w \<Rightarrow> (go_error + string list) \<times> 'w"
  th_allocate :: "'w \<Rightarrow> (go_error + int) \<times> 'w"
  th_environ :: "string list"
  th_home :: string
  th_stamp :: string
  th_session :: "shard \<Rightarrow> test_options \<Rightarrow> 'w \<Rightarrow> go_error option \<times> 'w"
  th_execute :: "shard \<Rightarrow> program \<Rightarrow> test_options \<Rightarrow> 'w \<Rightarrow> (flow_result list \<times> go_error option) \<times> 'w"
  th_artifacts :: "test_options \<Rightarrow> shard \<Rightarrow> flow_result list \<Rightarrow> 'w \<Rightarrow> go_error option \<times> 'w"
  th_goroutines :: "test_options \<Rightarrow> shard list \<Rightarrow> 'w \<Rightarrow> ((nat \<times> shard_outcome) list \<times> output_line list) \<times> 'w"
  th_report :: "test_options \<Rightarrow> flow_result list \<Rightarrow> 'w \<Rightarrow> go_error option \<times> 'w"
  th_is_usage :: "go_error \<Rightarrow> bool"
  th_is :: "run_error \<Rightarrow> go_error \<Rightarrow> bool"

definition prepareForSelectedPlatform :: "'w check_config \<Rightarrow> string list \<Rightarrow> string \<Rightarrow> 'w
    \<Rightarrow> ((run_error + program) \<times> 'w) option" where
  "prepareForSelectedPlatform C roots platform w =
     (let p = lower_name (TrimSpace platform);
          prepared = (\<lambda>selected. map_option (map_prod (map_sum Not_Prepared id) id) (prepare (C\<lparr>cc_platform := selected\<rparr>) roots w))
      in if p = '''' then prepared ''''
         else if p = ''android'' then prepared ''android''
         else if p = ''ios'' then prepared ''ios-simulator''
         else if p = ''web'' then prepared ''web''
         else Some (Inl (Unsupported_Platform platform), w))"

text \<open>One shard: its own program, its session, the execution and the artifacts written for it.\<close>

definition executeShard :: "'w test_host \<Rightarrow> test_options \<Rightarrow> shard \<Rightarrow> 'w
    \<Rightarrow> ((shard_outcome \<times> output_line list) \<times> 'w) option" where
  "executeShard H opts s w =
     (case prepareForSelectedPlatform (th_check H) (sh_roots s) (to_platform opts) w of
        None \<Rightarrow> None
      | Some (Inl e, w) \<Rightarrow> Some ((\<lparr>so_results = [], so_error = Some e\<rparr>, []), w)
      | Some (Inr program, w) \<Rightarrow>
          Some (case th_session H s opts w of
             (Some e, w) \<Rightarrow> ((\<lparr>so_results = [], so_error = Some (Session_Error e)\<rparr>, []), w)
           | (None, w) \<Rightarrow>
               (case th_execute H s program opts w of
                  ((results, err), w) \<Rightarrow>
                    (case (if sh_outputDirectory s = '''' \<or> results = [] then (None, w) else th_artifacts H opts s results w) of
                       (failure, w) \<Rightarrow>
                         ((\<lparr>so_results = results, so_error = map_option Session_Error err\<rparr>,
                           (case failure of None \<Rightarrow> [] | Some e \<Rightarrow> [Artifacts_Line e])), w)))))"

text \<open>The slots after the goroutines have written them, and the merge in the order of the shards.\<close>

definition outcome_slots :: "nat \<Rightarrow> (nat \<times> shard_outcome) list \<Rightarrow> shard_outcome list" where
  "outcome_slots n writes =
     fold (\<lambda>(i, outcome) slots. slots[i := outcome]) writes (replicate n \<lparr>so_results = [], so_error = None\<rparr>)"

fun merge_outcomes :: "nat \<Rightarrow> nat \<Rightarrow> shard_outcome list \<Rightarrow> flow_result list \<Rightarrow> run_error option
    \<Rightarrow> flow_result list \<times> run_error option" where
  "merge_outcomes n i [] results firstError = (results, firstError)"
| "merge_outcomes n i (outcome # outcomes) results firstError =
     merge_outcomes n (Suc i) outcomes (results @ so_results outcome)
       (case so_error outcome of
          None \<Rightarrow> firstError
        | Some e \<Rightarrow> (case firstError of Some f \<Rightarrow> Some f | None \<Rightarrow> Some (if n > 1 then In_Shard (i + 1) e else e)))"

definition executeShards :: "'w test_host \<Rightarrow> test_options \<Rightarrow> shard list \<Rightarrow> 'w
    \<Rightarrow> ((flow_result list \<times> run_error option) \<times> output_line list) \<times> 'w" where
  "executeShards H opts shards w =
     (case th_goroutines H opts shards w of
        ((writes, errs), w) \<Rightarrow>
          ((merge_outcomes (length shards) 0 (outcome_slots (length shards) writes) [] None, errs), w))"

section \<open>Reporting\<close>

definition passing :: "outcome \<Rightarrow> bool" where
  "passing out \<longleftrightarrow> out = Completed \<or> out = Skipped \<or> out = Warned"

definition failedCommandPrefix :: "flow_result \<Rightarrow> string" where
  "failedCommandPrefix r =
     (case List.find (\<lambda>c. \<not> passing (res_outcome c) \<and> ProductError c \<noteq> None) (elems (flow_result.fr_commands r)) of
        None \<Rightarrow> ''''
      | Some c \<Rightarrow>
          (let kind = cmd_kind (res_command c); source = cmd_source (res_command c) in
           if src_path source \<noteq> '''' \<and> pos_line (src_start source) > 0
           then path_Base (src_path source) @ '':'' @ dec_int (pos_line (src_start source)) @ '' '' @ kind @ '': ''
           else ''step '' @ dec (res_sequence c) @ '' '' @ kind @ '': ''))"

definition result_lines :: "flow_result \<Rightarrow> output_line list" where
  "result_lines r =
     Result_Line (if passing (fr_outcome r) then ''PASS'' else ''FAIL'') (flow_result.fr_path r) (fr_outcome r)
       # (case fr_productError r of None \<Rightarrow> [] | Some e \<Rightarrow> [Product_Line (failedCommandPrefix r) e])"

definition reportResults :: "flow_result list \<Rightarrow> int \<times> output_line list" where
  "reportResults results =
     (if results = [] then (ExitFailure, [No_Result_Line])
      else (if list_all (\<lambda>r. passing (fr_outcome r)) results then ExitOK else ExitFailure,
            concat (map result_lines results)))"

text \<open>\<open>th_is\<close> is \<^verbatim>\<open>errors.Is\<close>.\<close>

definition alreadyReported :: "'w test_host \<Rightarrow> run_error \<Rightarrow> flow_result list \<Rightarrow> bool" where
  "alreadyReported H err results \<longleftrightarrow>
     list_ex (\<lambda>r. case fr_productError r of None \<Rightarrow> False | Some e \<Rightarrow> th_is H err e) results"

text \<open>The exit code of an error; a shard's error is wrapped, which \<^verbatim>\<open>errors.As\<close> looks through.\<close>

primrec run_exit_code :: "'w test_host \<Rightarrow> run_error \<Rightarrow> int" where
  "run_exit_code H (Options_Refused e) = ExitCodeFor (th_is_usage H) (Some e)"
| "run_exit_code H (Not_Discovered e) = ExitFailure"
| "run_exit_code H (No_Flows roots) = ExitFailure"
| "run_exit_code H (Unsupported_Platform p) = ExitFailure"
| "run_exit_code H (Not_Prepared e) = ExitFailure"
| "run_exit_code H (Session_Error e) = (if th_is_usage H e then ExitInvalid else ExitFailure)"
| "run_exit_code H (Report_Error e) = ExitFailure"
| "run_exit_code H (In_Shard n e) = run_exit_code H e"

section \<open>One pass\<close>

record attempt =
  at_code :: int
  at_stdout :: "output_line list"
  at_stderr :: "output_line list"

definition stopped :: "'w test_host \<Rightarrow> run_error \<Rightarrow> attempt" where
  "stopped H err = \<lparr>at_code = run_exit_code H err, at_stdout = [], at_stderr = [Error_Line err]\<rparr>"

definition on_stderr :: "output_line \<Rightarrow> bool" where
  "on_stderr l \<longleftrightarrow> (case l of Product_Line _ _ \<Rightarrow> True | No_Result_Line \<Rightarrow> True | _ \<Rightarrow> False)"

text \<open>The end of a pass: what the results and the error of the shards amount to.\<close>

definition finish_pass :: "'w test_host \<Rightarrow> test_options \<Rightarrow> output_line list \<Rightarrow> output_line list
    \<Rightarrow> flow_result list \<Rightarrow> run_error option \<Rightarrow> 'w \<Rightarrow> attempt \<times> 'w" where
  "finish_pass H opts out errs results err w =
     (let (code, printed) = reportResults results;
          said = out @ filter (\<lambda>l. \<not> on_stderr l) printed; failed = errs @ filter on_stderr printed in
      if results = []
      then (case err of
              Some e \<Rightarrow> (\<lparr>at_code = run_exit_code H e, at_stdout = out, at_stderr = errs @ [Error_Line e]\<rparr>, w)
            | None \<Rightarrow> (\<lparr>at_code = code, at_stdout = said, at_stderr = failed\<rparr>, w))
      else
        (let code = (if err = None then code else ExitFailure);
             failed = failed @ (case err of None \<Rightarrow> [] | Some e \<Rightarrow> if alreadyReported H e results then [] else [Error_Line e]) in
         case th_report H opts results w of
           (Some e, w) \<Rightarrow> (\<lparr>at_code = ExitFailure, at_stdout = said, at_stderr = failed @ [Error_Line (Report_Error e)]\<rparr>, w)
         | (None, w) \<Rightarrow> (\<lparr>at_code = code, at_stdout = said, at_stderr = failed\<rparr>, w)))"

text \<open>The ports, the directories and the execution of planned shards.\<close>

definition run_shards :: "'w test_host \<Rightarrow> test_options \<Rightarrow> output_line list \<Rightarrow> shard list \<Rightarrow> 'w \<Rightarrow> attempt \<times> 'w" where
  "run_shards H opts out shards w =
     (case assignDriverPorts (th_allocate H) shards (basePort opts (th_environ H)) (driverPortsFrom (th_environ H)) w of
        (Inl e, w) \<Rightarrow> ((stopped H (Options_Refused e))\<lparr>at_stdout := out\<rparr>, w)
      | (Inr shards, w) \<Rightarrow>
          (let shards = assignShardDirectories shards (DefaultOutputDirectory opts (th_home H) (th_stamp H)) in
           case executeShards H opts shards w of
             (((results, err), errs), w) \<Rightarrow> finish_pass H opts out errs results err w))"

definition runOnce :: "'w test_host \<Rightarrow> test_options \<Rightarrow> 'w \<Rightarrow> (attempt \<times> 'w) option" where
  "runOnce H opts w =
     (case Discover (th_fs H) (to_roots opts) \<lparr>wo_configPath = to_configPath opts, wo_includeTags = to_includeTags opts,
             wo_excludeTags = to_excludeTags opts\<rparr> of
        Inl e \<Rightarrow> Some (stopped H (Not_Discovered e), w)
      | Inr p \<Rightarrow>
          if pl_flows p = [] then Some (stopped H (No_Flows (to_roots opts)), w)
          else case prepareForSelectedPlatform (th_check H) (SelectedPaths p) (to_platform opts) w of
            None \<Rightarrow> None
          | Some (Inl e, w) \<Rightarrow> Some (stopped H e, w)
          | Some (Inr program, w) \<Rightarrow>
              (let opts = opts\<lparr>to_sequencedRoots := length (pl_sequence p), to_continueOnFailure := pl_continueOnFailure p\<rparr> in
               Some (case PlanShards (th_attached H) opts p w of
                 (Inl e, w) \<Rightarrow> (stopped H (Options_Refused e), w)
               | (Inr shards, w) \<Rightarrow>
                   run_shards H opts (map (\<lambda>f. Selected_Line (wf_name f) (wf_path f)) (pl_flows p)) shards w)))"

end
