(* ===== verification/Workspace_Facts.thy ===== *)
theory Workspace_Facts
  imports Workspace
begin

text \<open>
  What the discovery of flows promises: which files of a directory are candidates, which candidates the plan runs, and in
  which order.
\<close>

lemma map_sum_Inr: "map_sum id g x = Inr y \<longleftrightarrow> (\<exists>z. x = Inr z \<and> y = g z)"
  by (cases x) auto

section \<open>Candidates of a directory\<close>

lemma walk_entries_members:
  "walk_entries on_entry es = Inr cs
     \<Longrightarrow> c \<in> set cs \<longleftrightarrow> \<not> cd_explicit c \<and> (\<exists>e \<in> set es. on_entry e = Inr (Some (cd_flow c)))"
proof (induction es arbitrary: cs)
  case (Cons e es)
  from Cons.prems obtain found rest where
    here: "on_entry e = Inr found" "walk_entries on_entry es = Inr rest"
      "cs = (case found of None \<Rightarrow> rest | Some f \<Rightarrow> \<lparr>cd_flow = f, cd_explicit = False\<rparr> # rest)"
    by (auto simp: map_sum_Inr split: sum.splits)
  show ?case using Cons.IH [OF here(2)] here(1,3) by (cases c) (auto split: option.splits)
qed simp

lemma walk_entries_all: "walk_entries on_entry es = Inr cs \<Longrightarrow> e \<in> set es \<Longrightarrow> \<exists>found. on_entry e = Inr found"
  by (induction es arbitrary: cs) (auto simp: map_sum_Inr split: sum.splits)

lemma Ext_no_slash: "CHR ''/'' \<in> set (take (length name - length (path_Ext name)) name) \<longleftrightarrow> CHR ''/'' \<in> set name"
proof -
  define e where "e = takeWhile (\<lambda>c. c \<noteq> CHR ''.'' \<and> c \<noteq> CHR ''/'') (rev name)"
  have no: "CHR ''/'' \<notin> set e" using set_takeWhileD [of _ "\<lambda>c. c \<noteq> CHR ''.'' \<and> c \<noteq> CHR ''/''" "rev name"] unfolding e_def by blast
  show ?thesis
  proof (cases "length e < length (rev name) \<and> rev name ! length e = CHR ''.''")
    case True
    have "rev name = e @ rev name ! length e # drop (Suc (length e)) (rev name)"
      using True takeWhile_eq_take [of "\<lambda>c. c \<noteq> CHR ''.'' \<and> c \<noteq> CHR ''/''" "rev name"]
      unfolding e_def by (metis id_take_nth_drop)
    then have "name = rev (drop (Suc (length e)) (rev name)) @ CHR ''.'' # rev e"
      using True by (metis rev.simps(2) rev_append rev_rev_ident append.assoc append_Cons append_Nil)
    then obtain front where front: "name = front @ CHR ''.'' # rev e" by blast
    have "path_Ext name = CHR ''.'' # rev e" using True by (simp add: path_Ext_def e_def Let_def)
    then show ?thesis using no by (simp add: front)
  next
    case False
    then have "path_Ext name = ''''" by (simp add: path_Ext_def e_def Let_def)
    then show ?thesis by simp
  qed
qed

lemma default_glob: "matchesAnyGlob name [defaultFlowGlob] = Inr (CHR ''/'' \<notin> set name)"
  by (simp add: matchesAnyGlob_def defaultFlowGlob_def star_matches Let_def Ext_no_slash split: bool.splits)

text \<open>What the default configuration takes from a directory: a flow file that lies directly in it.\<close>

definition top_level_flow :: "workspace_fs \<Rightarrow> string \<Rightarrow> string \<Rightarrow> walk_entry \<Rightarrow> bool" where
  "top_level_flow F base configPath e \<longleftrightarrow>
     \<not> we_dir e \<and> hasFlowExtension (we_name e) \<and> we_path e \<noteq> configPath \<and> \<not> isConfigName (we_name e)
       \<and> (\<exists>relative. filepath_Rel base (we_path e) = Some relative \<and> CHR ''/'' \<notin> set relative)"

lemma visit_default:
  "visit_entry F base [defaultFlowGlob] configPath e = Inr (Some f)
     \<longleftrightarrow> we_error e = None \<and> top_level_flow F base configPath e \<and> loadFlow F (we_path e) = Inr f"
  by (auto simp: visit_entry_def top_level_flow_def default_glob map_sum_Inr split: option.splits bool.splits)

fun byte_sorted :: "string list \<Rightarrow> bool" where
  "byte_sorted (a # b # rest) \<longleftrightarrow> \<not> byte_less b a \<and> byte_sorted (b # rest)"
| "byte_sorted _ \<longleftrightarrow> True"

lemma byte_less_asym: "byte_less a b \<Longrightarrow> \<not> byte_less b a"
  by (induction a b rule: byte_less.induct) auto

lemma insert_stable_sorted:
  "byte_sorted (map f xs) \<Longrightarrow> byte_sorted (map f (insert_stable (\<lambda>l r. byte_less (f l) (f r)) x xs))"
proof (induction xs)
  case (Cons y ys)
  then show ?case
    by (cases ys) (auto dest: byte_less_asym split: if_splits)
qed simp

lemma SliceStable_sorted: "byte_sorted (map f (SliceStable (\<lambda>l r. byte_less (f l) (f r)) xs))"
  by (induction xs) (simp_all add: SliceStable_def insert_stable_sorted)

text \<open>C29: With the default configuration a directory contributes exactly the flow files that lie directly in it and are no
  configuration file, in the order of their paths.\<close>

theorem directory_scans_top_level:
  assumes "walkDirectory F base config configPath = Inr cs" "wc_flows config = []"
  shows "byte_sorted (map (\<lambda>c. wf_path (cd_flow c)) cs)
    \<and> set (map cd_flow cs) = {f. \<exists>e \<in> set (wf_walk F base). top_level_flow F base configPath e \<and> loadFlow F (we_path e) = Inr f}"
proof -
  from assms obtain found where
    found: "walk_entries (visit_entry F base [defaultFlowGlob] configPath) (wf_walk F base) = Inr found"
    and cs: "cs = SliceStable (\<lambda>l r. byte_less (wf_path (cd_flow l)) (wf_path (cd_flow r))) found"
    by (auto simp: walkDirectory_def Let_def split: sum.splits)
  have good: "we_error e = None" if "e \<in> set (wf_walk F base)" for e
    using walk_entries_all [OF found that] by (auto simp: visit_entry_def split: option.splits)
  have "set (map cd_flow cs) = {f. \<exists>e \<in> set (wf_walk F base). visit_entry F base [defaultFlowGlob] configPath e = Inr (Some f)}"
    using walk_entries_members [OF found]
    by (auto simp: cs image_iff) (metis candidate.select_convs)
  then show ?thesis using good SliceStable_sorted by (auto simp: visit_default cs)
qed

section \<open>The order of the plan\<close>

lemma by_name_member: "by_name selected n = Some f \<Longrightarrow> f \<in> set selected \<and> wf_name f = n"
  unfolding by_name_def by (drule map_of_SomeD) auto

lemma by_name_distinct:
  "distinct (map wf_name selected) \<Longrightarrow> f \<in> set selected \<Longrightarrow> by_name selected (wf_name f) = Some f"
  unfolding by_name_def by (rule map_of_is_SomeI) (simp_all add: rev_map o_def flip: rev_map)

lemma named_sequence_exact:
  "named_sequence find_flow taken names = Inr fs
     \<longleftrightarrow> distinct names \<and> set names \<inter> set taken = {} \<and> map find_flow names = map Some fs"
proof (induction names arbitrary: taken fs)
  case (Cons name names)
  show ?case
  proof (cases "find_flow name")
    case (Some f)
    have "map find_flow (name # names) = map Some fs \<longleftrightarrow> (\<exists>rest. fs = f # rest \<and> map find_flow names = map Some rest)"
      using Some by (cases fs) auto
    then show ?thesis using Some by (auto simp: map_sum_Inr Cons.IH)
  qed (cases fs; simp)
qed auto

lemma named_sequence_names:
  assumes "map (by_name selected) names = map Some fs"
  shows "map wf_name fs = names" "set fs \<subseteq> set selected"
proof -
  have "list_all2 (\<lambda>n f. by_name selected n = Some f) names fs"
    using assms by (simp add: list_all2_conv_all_nth list_eq_iff_nth_eq)
  then have "list_all2 (\<lambda>n f. f \<in> set selected \<and> wf_name f = n) names fs"
    by (rule list_all2_mono) (rule by_name_member)
  then show "map wf_name fs = names" "set fs \<subseteq> set selected"
    by (induction rule: list_all2_induct) auto
qed

lemma applyOrder_cases:
  assumes "applyOrder selected config = Inr (ordered, sequence)"
  obtains (unordered) "ordered = selected" "sequence = []"
      "case wc_executionOrder config of None \<Rightarrow> True | Some order \<Rightarrow> eo_flowsOrder order = []"
  | (ordered) order where "wc_executionOrder config = Some order" "eo_flowsOrder order \<noteq> []" "distinct (eo_flowsOrder order)"
      "map (by_name selected) (eo_flowsOrder order) = map Some sequence"
      "ordered = sequence @ filter (\<lambda>f. wf_name f \<notin> set (eo_flowsOrder order)) selected"
  using assms
  by (auto simp: applyOrder_def map_sum_Inr named_sequence_exact split: option.splits if_splits)

lemma sequence_is_selection:
  assumes "distinct (map wf_name selected)" "distinct names" "map (by_name selected) names = map Some fs"
  shows "mset (fs @ filter (\<lambda>f. wf_name f \<notin> set names) selected) = mset selected"
proof -
  note named = named_sequence_names [OF assms(3)]
  have "distinct fs" using named(1) assms(2) distinct_map by metis
  moreover have "set fs = set (filter (\<lambda>f. wf_name f \<in> set names) selected)"
  proof -
    have "f \<in> set fs" if "f \<in> set selected" "wf_name f \<in> set names" for f
    proof -
      obtain g where "g \<in> set fs" "wf_name g = wf_name f" using \<open>wf_name f \<in> set names\<close> named(1) by (metis imageE set_map)
      then show ?thesis using assms(1) named(2) that(1) by (metis distinct_map inj_onD subsetD)
    qed
    then show ?thesis using named by auto
  qed
  ultimately have "mset fs = mset (filter (\<lambda>f. wf_name f \<in> set names) selected)"
    using assms(1) set_eq_iff_mset_eq_distinct [of fs "filter (\<lambda>f. wf_name f \<in> set names) selected"]
    by (simp add: distinct_map)
  then show ?thesis by (simp add: mset_filter [symmetric] del: mset_filter) (simp add: mset_filter multiset_partition [symmetric])
qed

text \<open>C14: What the discovery plans: flows of candidates that were named by the operator or pass the tag filters of the workspace and
  of the operator, the configured sequence first and in its order.  If no two selected flows have one name, the plan
  holds each of them exactly once and keeps the order of discovery for the rest.\<close>

theorem plan_is_the_selection:
  assumes "Discover F roots options = Inr p"
  shows "\<exists>config configPath candidates.
    loadConfig F roots options = Inr (config, configPath)
    \<and> collectCandidates F roots config configPath = Inr candidates
    \<and> (let selected = filterByTags candidates config options;
           names = (case wc_executionOrder config of None \<Rightarrow> [] | Some order \<Rightarrow> eo_flowsOrder order)
       in pl_flows p \<noteq> [] \<and> set (pl_flows p) \<subseteq> set selected
          \<and> pl_flows p = pl_sequence p @ filter (\<lambda>f. wf_name f \<notin> set names) selected
          \<and> map wf_name (pl_sequence p) = names \<and> distinct names
          \<and> (distinct (map wf_name selected) \<longrightarrow> mset (pl_flows p) = mset selected))"
proof -
  obtain config configPath candidates where found:
    "loadConfig F roots options = Inr (config, configPath)" "collectCandidates F roots config configPath = Inr candidates"
    "filterByTags candidates config options \<noteq> []"
    "applyOrder (filterByTags candidates config options) config = Inr (pl_flows p, pl_sequence p)"
    using assms by (auto simp: Discover_def Let_def split: if_splits sum.splits)
  define selected where "selected = filterByTags candidates config options"
  from found(4) have "pl_flows p \<noteq> [] \<and> set (pl_flows p) \<subseteq> set selected \<and>
      (let names = (case wc_executionOrder config of None \<Rightarrow> [] | Some order \<Rightarrow> eo_flowsOrder order)
       in pl_flows p = pl_sequence p @ filter (\<lambda>f. wf_name f \<notin> set names) selected \<and> map wf_name (pl_sequence p) = names
         \<and> distinct names \<and> (distinct (map wf_name selected) \<longrightarrow> mset (pl_flows p) = mset selected))"
    unfolding selected_def [symmetric]
  proof (cases rule: applyOrder_cases)
    case unordered
    then show ?thesis using found(3) selected_def by (auto split: option.splits)
  next
    case (ordered order)
    note named = named_sequence_names [OF ordered(4)]
    have "pl_sequence p \<noteq> []" using ordered(2,4) by auto
    then show ?thesis using ordered named sequence_is_selection [OF _ ordered(3,4)] by auto
  qed
  then show ?thesis using found selected_def by (auto simp: Let_def)
qed

text \<open>C31: Of two selected flows with the same name that the configured order mentions, the plan loses one, and the discovery
  reports no error.\<close>

theorem same_named_flow_dropped:
  assumes "applyOrder selected config = Inr (ordered, sequence)"
    and "wc_executionOrder config = Some order" "wf_name f \<in> set (eo_flowsOrder order)"
    and "f \<in> set selected" "g \<in> set selected" "f \<noteq> g" "wf_name f = wf_name g"
  shows "f \<notin> set ordered \<or> g \<notin> set ordered"
  using assms(1)
proof (cases rule: applyOrder_cases)
  case (ordered order')
  note named = named_sequence_names [OF ordered(4)]
  have "inj_on wf_name (set sequence)" using ordered(3) named(1) by (metis distinct_map)
  then have "f \<notin> set sequence \<or> g \<notin> set sequence" using assms(6,7) by (meson inj_onD)
  then show ?thesis using ordered assms(2,3,7) by auto
qed (use assms in auto)

section \<open>A workspace\<close>

definition named_flow :: "string \<Rightarrow> model_flow" where
  "named_flow name = \<lparr>fl_schema = ASTVersionV0, fl_config = Config name '''' '''' None None None None None None no_source None,
     fl_commands = [], fl_source = no_source\<rparr>"

definition sample_fs :: "(string \<times> string) list \<Rightarrow> string list \<Rightarrow> workspace_fs" where
  "sample_fs files order = \<lparr>wf_isDir = (\<lambda>p. if p = ''/w'' then Inr True
       else if p = ''/w/config.yaml'' \<or> p \<in> set (map fst files) then Inr False else Inl (Plain_Error ''no such file'')),
     wf_walk = (\<lambda>_. \<lparr>we_path = ''/w'', we_error = None, we_dir = True, we_name = ''w''\<rparr>
       # map (\<lambda>p. \<lparr>we_path = p, we_error = None, we_dir = False, we_name = path_Base p\<rparr>) (''/w/config.yaml'' # map fst files)),
     wf_abs = Inr, wf_read = Inr,
     wf_parseConfig = (\<lambda>_ _. Inr (no_workspace_config\<lparr>wc_executionOrder :=
       Some \<lparr>eo_continueOnFailure = True, eo_flowsOrder = order\<rparr>\<rparr>)),
     wf_parseFlow = (\<lambda>p _. Inr (named_flow (the (map_of files p)))), wf_unwraps = (\<lambda>_. False)\<rparr>"

definition no_filters :: workspace_options where
  "no_filters = \<lparr>wo_configPath = '''', wo_includeTags = [], wo_excludeTags = []\<rparr>"

theorem directory_scans_top_level_witness:
  "byte_sorted [''/w/a.yaml'', ''/w/b.yml'']
   \<and> map_sum id (map (\<lambda>c. wf_path (cd_flow c)))
        (walkDirectory (sample_fs [(''/w/b.yml'', ''b''), (''/w/x/c.yaml'', ''c''), (''/w/a.yaml'', ''a'')] []) ''/w'' no_workspace_config '''')
      = Inr [''/w/a.yaml'', ''/w/b.yml'']"
proof -
  let ?walk = "walkDirectory (sample_fs [(''/w/b.yml'', ''b''), (''/w/x/c.yaml'', ''c''), (''/w/a.yaml'', ''a'')] []) ''/w'' no_workspace_config ''''"
  have run: "map_sum id (map (\<lambda>c. wf_path (cd_flow c))) ?walk = Inr [''/w/a.yaml'', ''/w/b.yml'']" by code_simp
  then obtain cs where cs: "?walk = Inr cs" "map (\<lambda>c. wf_path (cd_flow c)) cs = [''/w/a.yaml'', ''/w/b.yml'']"
    by (auto simp: map_sum_Inr)
  from directory_scans_top_level [OF cs(1)] cs(2) run show ?thesis by (simp add: no_workspace_config_def)
qed

theorem plan_is_the_selection_witness:
  "\<exists>p. Discover (sample_fs [(''/w/a.yaml'', ''login''), (''/w/b.yaml'', ''signup'')] [''signup'']) [''/w''] no_filters = Inr p
     \<and> map wf_name (pl_flows p) = [''signup'', ''login'']
     \<and> (\<exists>config path. loadConfig (sample_fs [(''/w/a.yaml'', ''login''), (''/w/b.yaml'', ''signup'')] [''signup'']) [''/w''] no_filters = Inr (config, path))"
proof -
  let ?F = "sample_fs [(''/w/a.yaml'', ''login''), (''/w/b.yaml'', ''signup'')] [''signup'']"
  have "map_sum id (\<lambda>p. map wf_name (pl_flows p)) (Discover ?F [''/w''] no_filters) = Inr [''signup'', ''login'']" by code_simp
  then obtain p where p: "Discover ?F [''/w''] no_filters = Inr p" "map wf_name (pl_flows p) = [''signup'', ''login'']"
    unfolding map_sum_Inr by metis
  obtain config path where loaded: "loadConfig ?F [''/w''] no_filters = Inr (config, path)"
    using plan_is_the_selection [OF p(1)] by (elim exE conjE that)
  show ?thesis by (intro exI conjI) (rule p, rule p, rule loaded)
qed

text \<open>Two files with one name in a workspace whose order mentions it: the discovery succeeds and plans one of them.\<close>

theorem same_named_flow_dropped_witness:
  "(let a = \<lparr>wf_path = ''/w/a.yaml'', wf_name = ''login'', wf_tags = []\<rparr>; b = \<lparr>wf_path = ''/w/b.yaml'', wf_name = ''login'', wf_tags = []\<rparr> in
    map_sum id SelectedPaths (Discover (sample_fs [(''/w/a.yaml'', ''login''), (''/w/b.yaml'', ''login'')] [''login'']) [''/w''] no_filters)
      = Inr [''/w/b.yaml'']
    \<and> (a \<notin> set [b] \<or> b \<notin> set [b]))"
proof -
  let ?a = "\<lparr>wf_path = ''/w/a.yaml'', wf_name = ''login'', wf_tags = []\<rparr>" and ?b = "\<lparr>wf_path = ''/w/b.yaml'', wf_name = ''login'', wf_tags = []\<rparr>"
  let ?order = "\<lparr>eo_continueOnFailure = True, eo_flowsOrder = [''login'']\<rparr>"
  have "applyOrder [?a, ?b] (no_workspace_config\<lparr>wc_executionOrder := Some ?order\<rparr>) = Inr ([?b], [?b])" by code_simp
  then have "?a \<notin> set [?b] \<or> ?b \<notin> set [?b]" by (rule same_named_flow_dropped [of _ _ _ _ ?order]) simp_all
  moreover have "map_sum id SelectedPaths (Discover (sample_fs [(''/w/a.yaml'', ''login''), (''/w/b.yaml'', ''login'')] [''login'']) [''/w''] no_filters)
      = Inr [''/w/b.yaml'']" by code_simp
  ultimately show ?thesis by (simp add: Let_def)
qed

end
