(* ===== verification/Test_Run_Facts.thy ===== *)
theory Test_Run_Facts
  imports Test_Run Workspace_Facts
begin

text \<open>
  What a test run promises: the shards run the whole plan, their drivers have ports of their own, the results are merged in
  the order of the shards however the shards interleave, and the exit status is zero only for a run that passed.
\<close>

section \<open>Shards\<close>

definition dealt :: "bool \<Rightarrow> nat \<Rightarrow> nat \<Rightarrow> nat \<Rightarrow> workspace_flow list \<Rightarrow> string list" where
  "dealt replicate_all n i k fs =
     map (\<lambda>j. wf_path (fs ! j)) (filter (\<lambda>j. replicate_all \<or> (i + j) mod n = k) [0..<length fs])"

lemma dealt_Cons:
  "dealt replicate_all n i k (f # fs) =
     (if replicate_all \<or> i mod n = k then [wf_path f] else []) @ dealt replicate_all n (Suc i) k fs"
proof -
  have "[0..<length (f # fs)] = 0 # map Suc [0..<length fs]" by (simp add: map_Suc_upt upt_conv_Cons del: upt_Suc)
  then show ?thesis by (simp add: dealt_def filter_map o_def)
qed

lemma deal_exact:
  assumes "length shards = n" "0 < n"
  shows "length (deal replicate_all n i fs shards) = n
    \<and> (\<forall>k < n. deal replicate_all n i fs shards ! k = (shards ! k)\<lparr>sh_roots := sh_roots (shards ! k) @ dealt replicate_all n i k fs\<rparr>)"
  using assms(1)
proof (induction fs arbitrary: i shards)
  case Nil
  then show ?case by (simp add: dealt_def)
next
  case (Cons f fs)
  define next_shards where "next_shards = (if replicate_all then map (add_root (wf_path f)) shards
     else shards[i mod n := add_root (wf_path f) (shards ! (i mod n))])"
  have "length next_shards = n" using Cons.prems by (simp add: next_shards_def)
  note IH = Cons.IH [OF this, of "Suc i"]
  have "next_shards ! k = (shards ! k)\<lparr>sh_roots := sh_roots (shards ! k) @ (if replicate_all \<or> i mod n = k then [wf_path f] else [])\<rparr>"
    if "k < n" for k
    using that Cons.prems assms(2) by (auto simp: next_shards_def add_root_def nth_list_update)
  then show ?case using IH by (simp add: dealt_Cons next_shards_def [symmetric])
qed

lemma mset_concat_classes:
  "0 < n \<Longrightarrow> mset (concat (map (\<lambda>k. map g (filter (\<lambda>j. j mod n = k) js)) [0..<n])) = mset (map g js)"
proof -
  assume n: "0 < n"
  have "(\<Sum>k<n. mset (map g (filter (\<lambda>j. j mod n = k) js))) = mset (map g js)"
  proof (induction js)
    case (Cons j js)
    have "(\<Sum>k<n. mset (map g (filter (\<lambda>i. i mod n = k) (j # js))))
        = (\<Sum>k<n. (if k = j mod n then {#g j#} else {#}) + mset (map g (filter (\<lambda>i. i mod n = k) js)))"
      by (intro sum.cong) auto
    then show ?case using Cons n by (simp add: sum.distrib)
  qed simp
  then show ?thesis by (simp add: mset_concat o_def interv_sum_list_conv_sum_set_nat atLeast0LessThan)
qed


section \<open>Ports\<close>

lemma assign_ports_exact:
  assumes "assign_ports allocate base_port operator taken i shards w = (Inr shards2, w2)"
  shows "map (sh_driverPort_update (\<lambda>_. 0)) shards2 = map (sh_driverPort_update (\<lambda>_. 0)) shards
    \<and> distinct (map sh_driverPort shards2) \<and> set (map sh_driverPort shards2) \<inter> fst ` set taken = {}
    \<and> (operator \<noteq> [] \<longrightarrow> (\<forall>k < length shards. sh_driverPort (shards2 ! k) = operator ! (i + k)))
    \<and> (operator = [] \<longrightarrow> i = 0 \<longrightarrow> shards \<noteq> [] \<longrightarrow> sh_driverPort (hd shards2) = base_port)"
  using assms
proof (induction shards arbitrary: taken i w shards2 w2)
  case (Cons s shards)
  obtain port w1 rest where step:
    "(if operator \<noteq> [] then (Inr (operator ! i), w) else if i > 0 then allocate w else (Inr base_port, w)) = (Inr port, w1)"
    "map_of taken port = None"
    "assign_ports allocate base_port operator ((port, i + 1) # taken) (Suc i) shards w1 = (Inr rest, w2)"
    "shards2 = s\<lparr>sh_driverPort := port\<rparr> # rest"
    using Cons.prems by (auto split: prod.splits sum.splits option.splits if_splits)
  have "port = operator ! i" if "operator \<noteq> []" using step(1) that by simp
  moreover have "port = base_port" if "operator = []" "i = 0" using step(1) that by simp
  moreover have "port \<notin> fst ` set taken" using step(2) by (simp add: map_of_eq_None_iff)
  ultimately show ?case
    using Cons.IH [OF step(3)] by (auto simp: step(4) nth_Cons split: nat.splits)
qed simp

lemma assigned_ports:
  assumes "assignDriverPorts allocate shards base_port operator w = (Inr shards2, w2)"
  shows "length shards2 = length shards \<and> distinct (map sh_driverPort shards2)
    \<and> map sh_roots shards2 = map sh_roots shards \<and> map sh_device shards2 = map sh_device shards
    \<and> (if operator \<noteq> [] then map sh_driverPort shards2 = operator
       else shards = [] \<or> sh_driverPort (hd shards2) = base_port)"
proof -
  have ports: "assign_ports allocate base_port operator [] 0 shards w = (Inr shards2, w2)"
    and lengths: "operator \<noteq> [] \<Longrightarrow> length operator = length shards"
    using assms by (auto simp: assignDriverPorts_def split: if_splits)
  note exact = assign_ports_exact [OF ports]
  then have same: "map (sh_driverPort_update (\<lambda>_. 0)) shards2 = map (sh_driverPort_update (\<lambda>_. 0)) shards" by blast
  then have len: "length shards2 = length shards" by (rule map_eq_imp_length_eq)
  have keeps: "map sh_roots shards2 = map sh_roots shards" "map sh_device shards2 = map sh_device shards"
    using arg_cong [OF same, of "map sh_roots"] arg_cong [OF same, of "map sh_device"] by (simp_all add: o_def)
  have "map sh_driverPort shards2 = operator" if "operator \<noteq> []"
    using exact that lengths [OF that] len by (intro nth_equalityI) auto
  then show ?thesis using exact len keeps by (cases "operator = []") auto
qed


section \<open>Slots\<close>

lemma slots_exact:
  assumes "distinct (map fst writes)" "set (map fst writes) = {..<n}"
  shows "length (outcome_slots n writes) = n \<and> (\<forall>(i, outcome) \<in> set writes. outcome_slots n writes ! i = outcome)"
proof -
  have general: "length (fold (\<lambda>(i, outcome) slots. slots[i := outcome]) ws slots) = length slots
      \<and> (\<forall>(i, outcome) \<in> set ws. fold (\<lambda>(i, outcome) slots. slots[i := outcome]) ws slots ! i = outcome)
      \<and> (\<forall>k < length slots. k \<notin> fst ` set ws \<longrightarrow> fold (\<lambda>(i, outcome) slots. slots[i := outcome]) ws slots ! k = slots ! k)"
    if "distinct (map fst ws)" "fst ` set ws \<subseteq> {..<length slots}" for ws and slots :: "shard_outcome list"
    using that
  proof (induction ws arbitrary: slots)
    case (Cons entry ws)
    obtain i outcome where entry: "entry = (i, outcome)" by force
    have i: "i < length slots" "i \<notin> fst ` set ws" using Cons.prems by (auto simp: entry)
    have "fst ` set ws \<subseteq> {..<length (slots[i := outcome])}" using Cons.prems by auto
    with Cons.IH [of "slots[i := outcome]"] Cons.prems(1) i show ?case
      by (auto simp: entry nth_list_update)
  qed simp
  show ?thesis using general [OF assms(1), of "replicate n \<lparr>so_results = [], so_error = None\<rparr>"] assms(2)
    by (simp add: outcome_slots_def)
qed

text \<open>The error of a run: the first shard that failed, named when there are several.\<close>

definition first_failure :: "nat \<Rightarrow> (nat \<times> shard_outcome) list \<Rightarrow> run_error option" where
  "first_failure n outcomes =
     (case List.find (\<lambda>(i, outcome). so_error outcome \<noteq> None) outcomes of
        None \<Rightarrow> None
      | Some (i, outcome) \<Rightarrow> Some (if n > 1 then In_Shard (i + 1) (the (so_error outcome)) else the (so_error outcome)))"

lemma merge_exact:
  "merge_outcomes n i outcomes results failure =
     (results @ concat (map so_results outcomes),
      case failure of Some e \<Rightarrow> Some e | None \<Rightarrow> first_failure n (enumerate i outcomes))"
  by (induction outcomes arbitrary: i results failure) (auto simp: first_failure_def split: option.splits)

lemma first_failure_None: "first_failure n (enumerate i outcomes) = None \<longleftrightarrow> (\<forall>outcome \<in> set outcomes. so_error outcome = None)"
  by (induction outcomes arbitrary: i) (auto simp: first_failure_def split: option.splits)

text \<open>However the shards interleave, a run reports their results in the order of the shards, and its error is that of the first
  shard that failed: every goroutine writes its own slot once.\<close>

lemma shards_merged:
  assumes "th_goroutines H opts shards w = ((writes, errs), w2)"
    and "distinct (map fst writes)" "set (map fst writes) = {..<length shards}"
  shows "\<exists>outcomes. length outcomes = length shards \<and> set writes = set (enumerate 0 outcomes)
    \<and> executeShards H opts shards w =
        (((concat (map so_results outcomes), first_failure (length shards) (enumerate 0 outcomes)), errs), w2)"
proof -
  define outcomes where "outcomes = outcome_slots (length shards) writes"
  note slots = slots_exact [OF assms(2,3)]
  then have slot: "outcomes ! i = outcome" if "(i, outcome) \<in> set writes" for i outcome
    using bspec [OF conjunct2 [OF slots] that] by (simp add: outcomes_def)
  have "set (enumerate 0 outcomes) = {(i, outcomes ! i) | i. i < length shards}"
    using slots by (auto simp: outcomes_def in_set_enumerate_eq)
  moreover have "set writes = {(i, outcomes ! i) | i. i < length shards}"
  proof -
    have "(i, outcomes ! i) \<in> set writes" if "i < length shards" for i
    proof -
      have "i \<in> fst ` set writes" using that assms(3) by simp
      then obtain outcome where "(i, outcome) \<in> set writes" by auto
      then show ?thesis using slot by blast
    qed
    moreover have "i < length shards \<and> outcome = outcomes ! i" if entry: "(i, outcome) \<in> set writes" for i outcome
    proof
      have "i \<in> set (map fst writes)" using entry by force
      then show "i < length shards" using assms(3) by simp
      show "outcome = outcomes ! i" using slot [OF entry] by simp
    qed
    ultimately have "x \<in> set writes \<longleftrightarrow> (\<exists>i. x = (i, outcomes ! i) \<and> i < length shards)" for x
      by (metis surj_pair)
    then show ?thesis by (simp add: set_eq_iff)
  qed
  ultimately show ?thesis using slots assms(1)
    by (intro exI [of _ outcomes]) (simp add: executeShards_def merge_exact outcomes_def)
qed

section \<open>The exit status\<close>

lemma error_exits: "run_exit_code H e \<noteq> ExitOK"
  by (induction e) (simp_all add: ExitCodeFor_def ExitOK_def ExitFailure_def ExitInvalid_def split: cli_error.split)

lemma finish_pass_ok:
  "finish_pass H opts out errs results err w = (a, w2) \<Longrightarrow> at_code a = ExitOK
     \<Longrightarrow> err = None \<and> results \<noteq> [] \<and> list_all (\<lambda>r. passing (fr_outcome r)) results \<and> th_report H opts results w = (None, w2)"
  by (auto simp: finish_pass_def reportResults_def Let_def ExitOK_def ExitFailure_def error_exits [unfolded ExitOK_def]
      split: if_splits option.splits prod.splits)

text \<open>C9: A test run exits with status zero only if its flows were discovered and planned onto shards, every shard ended without
  an error, there are results and all of them passed, and the report was written.\<close>

theorem exit_ok_means_passed:
  assumes "runOnce H opts w = Some (a, w2)" "at_code a = ExitOK"
    and writes_once: "\<And>opts shards w writes errs w2. th_goroutines H opts shards w = ((writes, errs), w2)
      \<Longrightarrow> distinct (map fst writes) \<and> set (map fst writes) = {..<length shards}"
  shows "\<exists>p opts2 planned shards writes errs results w3 w4 w5 w6.
    Discover (th_fs H) (to_roots opts) \<lparr>wo_configPath = to_configPath opts, wo_includeTags = to_includeTags opts,
      wo_excludeTags = to_excludeTags opts\<rparr> = Inr p
    \<and> PlanShards (th_attached H) opts2 p w3 = (Inr planned, w4) \<and> map sh_roots shards = map sh_roots planned
    \<and> th_goroutines H opts2 shards w5 = ((writes, errs), w6)
    \<and> (\<forall>(i, outcome) \<in> set writes. so_error outcome = None \<and> (\<forall>r \<in> set (so_results outcome). passing (fr_outcome r)))
    \<and> (\<exists>(i, outcome) \<in> set writes. so_results outcome \<noteq> [])
    \<and> th_report H opts2 results w6 = (None, w2)"
proof -
  from assms(1,2) obtain p opts2 planned w3 w4 out where start:
    "Discover (th_fs H) (to_roots opts) \<lparr>wo_configPath = to_configPath opts, wo_includeTags = to_includeTags opts,
      wo_excludeTags = to_excludeTags opts\<rparr> = Inr p"
    "PlanShards (th_attached H) opts2 p w3 = (Inr planned, w4)" "run_shards H opts2 out planned w4 = (a, w2)"
    by (auto simp: runOnce_def Let_def stopped_def error_exits split: sum.splits if_splits option.splits prod.splits
        simp del: run_exit_code.simps)
  from start(3) assms(2) obtain given w5 where given:
    "assignDriverPorts (th_allocate H) planned (basePort opts2 (th_environ H)) (driverPortsFrom (th_environ H)) w4 = (Inr given, w5)"
    by (auto simp: run_shards_def stopped_def error_exits split: sum.splits prod.splits simp del: run_exit_code.simps)
  define shards where "shards = assignShardDirectories given (DefaultOutputDirectory opts2 (th_home H) (th_stamp H))"
  have roots: "map sh_roots shards = map sh_roots planned"
    using assigned_ports [OF given] by (simp add: shards_def assignShardDirectories_def o_def)
  obtain writes errs w6 where run: "th_goroutines H opts2 shards w5 = ((writes, errs), w6)" by (metis prod.collapse)
  obtain outcomes where outcomes: "length outcomes = length shards" "set writes = set (enumerate 0 outcomes)"
    "executeShards H opts2 shards w5 = (((concat (map so_results outcomes), first_failure (length shards) (enumerate 0 outcomes)), errs), w6)"
    using shards_merged [OF run] writes_once [OF run] by blast
  have "finish_pass H opts2 out errs (concat (map so_results outcomes)) (first_failure (length shards) (enumerate 0 outcomes)) w6 = (a, w2)"
    using start(3) given outcomes(3) by (simp add: run_shards_def shards_def [symmetric] Let_def)
  from finish_pass_ok [OF this assms(2)]
  have ok: "\<forall>outcome \<in> set outcomes. so_error outcome = None" "concat (map so_results outcomes) \<noteq> []"
    "\<forall>outcome \<in> set outcomes. \<forall>r \<in> set (so_results outcome). passing (fr_outcome r)"
    "th_report H opts2 (concat (map so_results outcomes)) w6 = (None, w2)"
    by (auto simp: first_failure_None list_all_iff)
  have "\<exists>(i, outcome) \<in> set writes. so_results outcome \<noteq> []"
  proof -
    obtain outcome where "outcome \<in> set outcomes" "so_results outcome \<noteq> []" using ok(2) by auto
    then obtain i where "i < length outcomes" "outcomes ! i = outcome" by (auto simp: in_set_conv_nth)
    then have "(i, outcome) \<in> set (enumerate 0 outcomes)" by (simp add: in_set_enumerate_eq)
    then show ?thesis unfolding outcomes(2) using \<open>so_results outcome \<noteq> []\<close> by blast
  qed
  moreover have "\<forall>(i, outcome) \<in> set writes. so_error outcome = None \<and> (\<forall>r \<in> set (so_results outcome). passing (fr_outcome r))"
    using ok(1,3) unfolding outcomes(2) by (auto simp: in_set_enumerate_eq)
  ultimately show ?thesis using start(1,2) roots run ok(4) by blast
qed

section \<open>Runs\<close>

definition path_flow :: "string \<Rightarrow> workspace_flow" where
  "path_flow p = \<lparr>wf_path = p, wf_name = p, wf_tags = []\<rparr>"

definition sample_plan :: run_plan where
  "sample_plan = \<lparr>pl_config = no_workspace_config, pl_flows = map path_flow [''/a'', ''/b'', ''/c''], pl_sequence = [], pl_continueOnFailure = False\<rparr>"

definition split_two :: test_options where
  "split_two = default_options\<lparr>to_roots := [''/w''], to_shardSplit := 2\<rparr>"

definition two_devices :: "string \<Rightarrow> unit \<Rightarrow> (go_error + string list) \<times> unit" where
  "two_devices platform w = (Inr [''x'', ''y'', ''z''], w)"


definition two_shards :: "shard list" where
  "two_shards = map (\<lambda>i. \<lparr>sh_index = i, sh_roots = [], sh_device = '''', sh_outputDirectory = '''', sh_driverPort = 0\<rparr>) [0, 1]"


text \<open>An operator's list of ports with one bad entry is not refused but ignored: the run uses the default port.\<close>

lemma malformed_port_list_ignored:
  "driverPortsFrom [''FLOWBATON_DRIVER_PORTS=80,8x''] = []
   \<and> map_prod (map_sum id (map sh_driverPort)) id
       (assignDriverPorts (\<lambda>w. (Inr 50123, w)) two_shards (basePort default_options []) (driverPortsFrom [''FLOWBATON_DRIVER_PORTS=80,8x'']) ())
     = (Inr [22087, 50123], ())"
  by code_simp

text \<open>A device named twice counts as two: both shards run on it.\<close>

lemma repeated_device_shared:
  "map_prod (map_sum id (map sh_device)) id (PlanShards two_devices (split_two\<lparr>to_devices := [''x'', ''x'']\<rparr>) sample_plan ())
     = (Inr [''x'', ''x''], ())"
  by code_simp

text \<open>A host whose shards pass, with the second one first to end.\<close>

definition passed :: "string \<Rightarrow> flow_result" where
  "passed p = \<lparr>fr_rootRunID = '''', fr_path = p, fr_name = '''', fr_depth = 0, fr_outcome = Completed, fr_productError = None,
     fr_retry = None, fr_exactErrorSource = None, fr_startedAt = 0, fr_finishedAt = 0, fr_duration = 0, fr_commands = None\<rparr>"

definition passing_host :: "unit test_host" where
  "passing_host = \<lparr>th_fs = sample_fs [(''/w/a.yaml'', ''a''), (''/w/b.yaml'', ''b'')] [], th_check = sample_check,
     th_attached = two_devices, th_allocate = (\<lambda>w. (Inr 50123, w)), th_environ = [], th_home = ''/home'', th_stamp = ''now'',
     th_session = (\<lambda>_ _ w. (None, w)), th_execute = (\<lambda>s _ _ w. ((map passed (sh_roots s), None), w)), th_artifacts = (\<lambda>_ _ _ w. (None, w)),
     th_goroutines = (\<lambda>_ shards w. ((rev (map (\<lambda>i. (i, \<lparr>so_results = map passed (sh_roots (shards ! i)), so_error = None\<rparr>))
        [0..<length shards]), []), w)),
     th_report = (\<lambda>_ _ w. (None, w)), th_is_usage = (\<lambda>_. False), th_is = (\<lambda>_ _. False)\<rparr>"

lemma passing_host_writes:
  "th_goroutines passing_host opts shards w = ((writes, errs), w2) \<Longrightarrow> distinct (map fst writes) \<and> set (map fst writes) = {..<length shards}"
  by (auto simp: passing_host_def rev_map o_def image_image)

theorem exit_ok_means_passed_witness:
  "map_option (\<lambda>x. at_code (fst x)) (runOnce passing_host split_two ()) = Some ExitOK
   \<and> (\<exists>p. Discover (th_fs passing_host) [''/w''] no_filters = Inr p)"
proof -
  have run: "map_option (\<lambda>x. at_code (fst x)) (runOnce passing_host split_two ()) = Some ExitOK" by code_simp
  then obtain a where a: "runOnce passing_host split_two () = Some (a, ())" "at_code a = ExitOK" by auto
  have same: "\<lparr>wo_configPath = to_configPath split_two, wo_includeTags = to_includeTags split_two, wo_excludeTags = to_excludeTags split_two\<rparr> = no_filters"
    "to_roots split_two = [''/w'']" by code_simp+
  obtain p where "Discover (th_fs passing_host) [''/w''] no_filters = Inr p"
    using exit_ok_means_passed [OF a] passing_host_writes unfolding same by (metis (no_types, lifting))
  then show ?thesis using run by (intro conjI exI)
qed

end
