(* ===== verification/Spec2Isabelle.thy ===== *)
theory Spec2Isabelle
  imports Engine_Run Matching_Facts Composite_Facts Messages Preflight_Facts Program_Facts
    Session_Lease Tap_Facts Test_Run_Facts
begin

text \<open>
  FlowBaton runs test flows, lists of commands written in YAML, against a phone, a simulator or a browser.
  This development models the parts of its Go code that decide what a run does and what it reports, and
  proves what makes them correct.  Paths below are relative to the root of the repository.

  \<^bold>\<open>How the program is put together.\<close>  The test command reads its options, discovers the flows of a workspace, prepares
  them, splits the plan over devices and runs the shards at the same time.  The preflight walks the flows that the selected roots reach and refuses
  what the registry does not support.  Preparation keeps what the preflight read, compilation turns every flow into
  compiled commands, children before parents.  For each root the engine opens a session, runs the hooks and the
  commands of the flow through the dispatcher, and records one sealed result per command in a ledger while a
  timeline tells the listeners.  A handler compiles, evaluates and executes one command; it reaches the executor
  only through its host services and the device through the driver.  Handlers that look at the screen use the
  element lookup, which normalises the hierarchy the driver returns and searches it with a selector.  The Android driver
  talks to its agent in protocol buffers.  Beside the engine, the device-session contract says which transcripts of a remote
  session are legal.

  \<^bold>\<open>The theories\<close>, with the files they model:

  \<^item> \<open>Prelude\<close>, \<open>Text\<close>, \<open>Decode\<close>: calls that may panic, byte strings, paths and sorting of the standard library, numerals,
    and \<^verbatim>\<open>internal/engine/decoder.go\<close>.
  \<^item> \<open>Errors\<close>: \<^verbatim>\<open>internal/engine/errors.go\<close>.  Error graphs and their bounded inspection; it ends on every graph, a fatal
    cause decides, the order of the branches does not matter.
  \<^item> \<open>Command_Model\<close>: \<^verbatim>\<open>internal/model/model.go\<close>, \<^verbatim>\<open>internal/engine/clone.go\<close>.  Commands and configurations, their
    comparison and their owned copies.
  \<^item> \<open>Results\<close>, \<open>Ledger\<close>: \<^verbatim>\<open>internal/engine/results.go\<close>, \<^verbatim>\<open>internal/engine/result_ledger.go\<close>.  Results, spans and the table of
    terminal results; the ledger authenticates exactly what it recorded.
  \<^item> \<open>Dispatch\<close>: \<^verbatim>\<open>internal/engine/registry.go\<close>, \<^verbatim>\<open>internal/engine/dispatcher.go\<close>.  Handler programs and the exact-error protocol.
  \<^item> \<open>Session\<close>, \<open>Executor\<close>, \<open>Flow_Run\<close>: \<^verbatim>\<open>internal/engine/callbacks.go\<close>, \<^verbatim>\<open>session.go\<close>, \<^verbatim>\<open>executor_core.go\<close>,
    \<^verbatim>\<open>services.go\<close>, \<^verbatim>\<open>flow_executor.go\<close>, \<^verbatim>\<open>failure_policy.go\<close>, \<^verbatim>\<open>execution.go\<close>.  The state of a root run and the operations on it.
    \<open>Runs\<close> and \<open>Engine_Run\<close> hold the invariants (proper nesting of events, no gap in the ledger) and the properties of whole runs.
  \<^item> \<open>Hierarchy\<close>, \<open>Matching\<close>, \<open>Matching_Facts\<close>: \<^verbatim>\<open>internal/hierarchy\<close>, \<^verbatim>\<open>internal/matching\<close>.  Geometry, visibility, search and order.
  \<^item> \<open>Handler_Base\<close>, \<open>Composite\<close>, \<open>Composite_Facts\<close>: \<^verbatim>\<open>walking_skeleton_handlers.go\<close>, \<^verbatim>\<open>condition.go\<close>, \<^verbatim>\<open>retry_handler.go\<close>,
    \<^verbatim>\<open>repeat_handler.go\<close>, \<^verbatim>\<open>run_flow_handler.go\<close> of the engine.  How often children run and what happens between the runs.
  \<^item> \<open>Lookup\<close>, \<open>Lookup_Facts\<close>, \<open>World_Relation\<close>: \<^verbatim>\<open>lookup.go\<close>, \<^verbatim>\<open>wait.go\<close>, \<^verbatim>\<open>settle.go\<close>, \<^verbatim>\<open>stability.go\<close>, \<^verbatim>\<open>clock.go\<close> of the engine.
    The polling loops, that they return, and what they leave of the world.
  \<^item> \<open>Tap\<close>, \<open>Tap_Run\<close>, \<open>Tap_Facts\<close>, \<open>Image_Check\<close>: \<^verbatim>\<open>internal/engine/tap_handlers.go\<close>, \<^verbatim>\<open>internal/imagecheck\<close>.
  \<^item> \<open>Snapshot\<close>: \<^verbatim>\<open>internal/engine/selector_snapshot.go\<close>.
  \<^item> \<open>Wire\<close>, \<open>Messages\<close>: \<^verbatim>\<open>internal/android/pbwire\<close>.  Consumers stay in their frame, messages survive a round trip with newer fields.
  \<^item> \<open>Support\<close>, \<open>Preflight\<close>, \<open>Preflight_Graph\<close>, \<open>Preflight_Facts\<close>: \<^verbatim>\<open>internal/capability\<close>, \<^verbatim>\<open>internal/drivercontract\<close>.  The traversal, its
    step relation and the graph it proves.
  \<^item> \<open>Program_Order\<close>, \<open>Program_Facts\<close>: \<^verbatim>\<open>program.go\<close>, \<^verbatim>\<open>compiled_program.go\<close> of the engine.  The recording loader and Kahn's algorithm.
  \<^item> \<open>Device_Session\<close>, \<open>Session_Events\<close>, \<open>Session_Facts\<close>, \<open>Session_Lease\<close>: \<^verbatim>\<open>contracts/device-session/v1/semantics.go\<close>,
    \<^verbatim>\<open>internal/strictjson\<close>.  Accepted transcripts are runs of the session lifecycle within the lease.

  \<^item> \<open>Glob\<close>, \<open>Workspace\<close>, \<open>Workspace_Facts\<close>: \<^verbatim>\<open>internal/workspace/planner.go\<close> over \<^verbatim>\<open>path.Match\<close> and \<^verbatim>\<open>filepath.Rel\<close>.  Which files
    are flows, which are selected and in which order they run.
  \<^item> \<open>Test_Options\<close>, \<open>Test_Run\<close>, \<open>Test_Run_Facts\<close>: \<^verbatim>\<open>test_options.go\<close>, \<^verbatim>\<open>test_runner.go\<close>, \<^verbatim>\<open>sharding.go\<close>, \<^verbatim>\<open>shard_devices.go\<close>,
    \<^verbatim>\<open>driver_ports.go\<close> of \<^verbatim>\<open>internal/cli\<close>.  The shards run the whole plan, their concurrent outcomes are merged in order, and
    the exit status is zero only for a run that passed.

  \<^bold>\<open>Interfaces.\<close>  \<open>write_once_store\<close> (registry and ledger), \<open>codec\<close> (every agent message), \<open>flow_loader\<close> (what a loader owes the
  preflight; the file loader and the recording loader) and \<open>world_relation\<close> (what the services of a driver keep) are locales,
  each interpreted on the model's own definitions.

  \<^bold>\<open>Conventions.\<close>  An operation that may fail returns a sum with the error on the left; a state is passed explicitly, as a record
  beside the world \<open>'w\<close>, whose answers are arbitrary functions.  Handlers are program trees, so a statement about a handler
  holds for every driver, listener and interpreter.  A Go integer is an \<open>int\<close> with its wrap-around written out
  (\<open>wrap64\<close>) where an operation can leave 64 bits, a byte an \<open>8 word\<close>, a varint a \<open>64 word\<close>.  Durations and times are nanoseconds.

  \<^bold>\<open>Loops and bounds.\<close>  Error inspection recurses over a depth that starts at the code's own bound of 128 levels.  The retry and repeat loops
  count down the validated number of runs.  Loops that wait for the device may not return: in the lookup and the tap they are
  iterations whose result is an option, \<open>None\<close> for no return, and the theorems that they return assume only a clock
  that advances by what is waited.  The preflight and Kahn's loop are \<open>while_option\<close> with the same reading; the first ends
  when the loader hands out finitely many canonical paths, the second always.

  \<^bold>\<open>Parameters.\<close>  Regular expressions, JSON text, RFC 3339 times, image decoding, the file system, the YAML reader, the JavaScript
  interpreter and the device are arguments; what the code relies on is a named hypothesis of the theorem that needs it, and
  each such theorem has a witness with a concrete instance.

  \<^bold>\<open>Not modelled.\<close>  The drivers (processes, sockets and native programs), the session server and its store (their transitions are
  SQL statements), the exploration agents (their steps are a language model's replies), the reading of YAML, rendering of reports,
  continuous mode with its file stamps, and the handlers of the engine that no theory above names.  Floating-point quotients are exact
  rationals where the operands are small enough for the comparison to agree; \<^verbatim>\<open>optionalNumber\<close> of the decoder is left out.
\<close>

end
